(* ===== verification/Prelude.thy ===== *)
theory Prelude
  imports "HOL-Library.Word" "HOL-Library.Finite_Map" "HOL-Library.Signed_Division"
    "HOL-Library.Sublist" "HOL-Library.Multiset"
begin

text \<open>
  The part of the Go language that every component of the development uses.

  \<^item> Machine integers: \<open>uint64\<close> (and the types \<open>PeerID\<close>, \<open>View\<close>, \<open>Index\<close>, \<open>Order\<close>
    defined from it) is \<open>64 word\<close>, so that \<open>++\<close> wraps as it does in Go. Go's \<open>int\<close> is HOL's \<open>int\<close>
    where the values are small configuration numbers (\<open>MaxFailures\<close>, lengths).
  \<^item> Slices of bytes: \<open>nil\<close> and the empty slice are different values and equal under
    \<open>bytes.Equal\<close>, so a slice is a \<open>bytes option\<close>.
  \<^item> Maps: a Go map is a finite map. Its iteration order is not specified, so a loop whose
    result depends on it takes the order as an argument.
  \<^item> Failures: a call of \<open>panic\<close>, of \<open>logger.Panic\<close> or of \<open>logger.Fatal\<close> (which calls
    \<open>os.Exit\<close>) and a run-time error all end the process. A function that can end so returns
    a value of the sum type \<open>'a go\<close>.
\<close>

type_synonym u64 = "64 word"
type_synonym byte = "8 word"
type_synonym bytes = "byte list"
type_synonym slice = "bytes option"
type_synonym PeerID = u64

named_theorems go_simps "rules that decompose a computation of type 'a go"

subsection \<open>Failures\<close>

datatype crash =
    PanicCall  \<comment> \<open>\<open>panic\<close> or \<open>logger.Panic\<close>\<close>
  | FatalExit  \<comment> \<open>\<open>logger.Fatal\<close>: the process exits\<close>
  | NilDeref   \<comment> \<open>run-time error: nil pointer dereference\<close>
  | IndexRange \<comment> \<open>run-time error: index or slice bounds out of range\<close>
  | DivZero    \<comment> \<open>run-time error: integer divide by zero\<close>
  | Hang       \<comment> \<open>the loop does not end\<close>

type_synonym 'a go = "crash + 'a"

definition go_bind :: "'a go \<Rightarrow> ('a \<Rightarrow> 'b go) \<Rightarrow> 'b go" where
  "go_bind x f = (case x of Inl e \<Rightarrow> Inl e | Inr a \<Rightarrow> f a)"

lemma go_bind_Inl [simp]: "go_bind (Inl e) f = Inl e"
  by (simp add: go_bind_def)

lemma go_bind_Inr [simp]: "go_bind (Inr a) f = f a"
  by (simp add: go_bind_def)

lemma go_bind_eq_Inr [go_simps]:
  "go_bind x f = Inr y \<longleftrightarrow> (\<exists>a. x = Inr a \<and> f a = Inr y)"
  by (cases x) auto

lemma go_bind_eq_Inl [go_simps]:
  "go_bind x f = Inl e \<longleftrightarrow> x = Inl e \<or> (\<exists>a. x = Inr a \<and> f a = Inl e)"
  by (cases x) auto

lemma go_bindE [elim]:
  assumes "go_bind x f = Inr y"
  obtains a where "x = Inr a" "f a = Inr y"
  using assms by (auto simp: go_simps)

lemma go_bind_assoc: "go_bind (go_bind x f) g = go_bind x (\<lambda>a. go_bind (f a) g)"
  by (cases x) auto

lemma go_bind_cong [fundef_cong]:
  "x = y \<Longrightarrow> (\<And>a. y = Inr a \<Longrightarrow> f a = g a) \<Longrightarrow> go_bind x f = go_bind y g"
  by (cases y) auto

text \<open>A loop \<open>for _, x := range xs\<close> whose body can end the process.\<close>

fun go_fold :: "('a \<Rightarrow> 's \<Rightarrow> 's go) \<Rightarrow> 'a list \<Rightarrow> 's \<Rightarrow> 's go" where
  "go_fold f [] s = Inr s"
| "go_fold f (x # xs) s = go_bind (f x s) (go_fold f xs)"

lemma go_fold_append:
  "go_fold f (xs @ ys) s = go_bind (go_fold f xs s) (go_fold f ys)"
proof (induction xs arbitrary: s)
  case (Cons x xs)
  then show ?case by (cases "f x s") simp_all
qed simp

lemma go_fold_invariant:
  assumes "go_fold f xs s = Inr s'" and "I s"
    and "\<And>x s s'. x \<in> set xs \<Longrightarrow> I s \<Longrightarrow> f x s = Inr s' \<Longrightarrow> I s'"
  shows "I s'"
  using assms by (induction xs arbitrary: s) (auto simp: go_simps)

definition go_ok :: "'a go \<Rightarrow> bool" where
  "go_ok x = (case x of Inl _ \<Rightarrow> False | Inr _ \<Rightarrow> True)"

lemma go_ok_simps [simp]: "go_ok (Inr a)" "\<not> go_ok (Inl e)"
  by (simp_all add: go_ok_def)

lemma go_ok_iff: "go_ok x \<longleftrightarrow> (\<exists>a. x = Inr a)"
  by (cases x) auto

subsection \<open>Byte slices\<close>

definition sbytes :: "slice \<Rightarrow> bytes" where
  "sbytes s = (case s of None \<Rightarrow> [] | Some b \<Rightarrow> b)"

lemma sbytes_simps [simp]: "sbytes None = []" "sbytes (Some b) = b"
  by (simp_all add: sbytes_def)

definition bytes_Equal :: "slice \<Rightarrow> slice \<Rightarrow> bool" where
  "bytes_Equal a b \<longleftrightarrow> sbytes a = sbytes b"

lemma bytes_Equal_refl [simp]: "bytes_Equal a a"
  by (simp add: bytes_Equal_def)

lemma bytes_Equal_sym: "bytes_Equal a b \<longleftrightarrow> bytes_Equal b a"
  by (auto simp: bytes_Equal_def)

text \<open>The slice expression \<open>b[lo:hi]\<close> with its bounds check.\<close>

definition slice_range :: "'a list \<Rightarrow> nat \<Rightarrow> nat \<Rightarrow> 'a list go" where
  "slice_range b lo hi =
     (if lo \<le> hi \<and> hi \<le> length b then Inr (take (hi - lo) (drop lo b)) else Inl IndexRange)"

subsection \<open>Go maps\<close>

text \<open>
  \<open>fmkeys ord m\<close> lists the keys of \<open>m\<close> in the order \<open>ord\<close> in which the run-time system visits
  them, and \<open>fmvals ord m\<close> the values.
\<close>

definition fmkeys :: "(u64 list \<Rightarrow> u64 list) \<Rightarrow> (u64, 'v) fmap \<Rightarrow> u64 list" where
  "fmkeys ord m = ord (sorted_list_of_fset (fmdom m))"

definition fmvals :: "(u64 list \<Rightarrow> u64 list) \<Rightarrow> (u64, 'v) fmap \<Rightarrow> 'v list" where
  "fmvals ord m = map (\<lambda>k. the (fmlookup m k)) (fmkeys ord m)"

text \<open>The order visits every key exactly once.\<close>

definition range_order :: "(u64 list \<Rightarrow> u64 list) \<Rightarrow> bool" where
  "range_order ord \<longleftrightarrow> (\<forall>xs. mset (ord xs) = mset xs)"

lemma range_order_id [simp]: "range_order id" "range_order (\<lambda>xs. xs)" "range_order rev"
  by (simp_all add: range_order_def)

lemma set_fmkeys: "range_order ord \<Longrightarrow> set (fmkeys ord m) = fset (fmdom m)"
proof -
  assume "range_order ord"
  then have "mset (fmkeys ord m) = mset (sorted_list_of_fset (fmdom m))"
    by (simp add: fmkeys_def range_order_def)
  then have "set (fmkeys ord m) = set (sorted_list_of_fset (fmdom m))"
    by (rule mset_eq_setD)
  then show ?thesis by simp
qed

lemma set_fmvals: "range_order ord \<Longrightarrow> v \<in> set (fmvals ord m) \<longleftrightarrow> (\<exists>k. fmlookup m k = Some v)"
  by (force simp: fmvals_def set_fmkeys fmlookup_dom_iff image_iff)

lemma fmvals_empty [simp]:
  "range_order ord \<Longrightarrow> fmvals ord (fmempty :: (u64, 'b) fmap) = []"
proof -
  assume "range_order ord"
  then have "set (fmkeys ord (fmempty :: (u64, 'b) fmap)) = {}" by (simp add: set_fmkeys)
  then show ?thesis by (simp add: fmvals_def)
qed

text \<open>\<open>m[k]\<close> for a map whose values are maps: a missing key gives the nil map.\<close>

definition fmsub :: "('k, ('j, 'v) fmap) fmap \<Rightarrow> 'k \<Rightarrow> ('j, 'v) fmap" where
  "fmsub m k = (case fmlookup m k of None \<Rightarrow> fmempty | Some x \<Rightarrow> x)"

lemma fmsub_simps [simp]:
  "fmsub fmempty k = fmempty"
  "fmsub (fmupd k x m) k = x"
  "k \<noteq> k' \<Longrightarrow> fmsub (fmupd k x m) k' = fmsub m k'"
  by (simp_all add: fmsub_def)

text \<open>\<open>len(m)\<close>, and the loop that counts the values satisfying a predicate.\<close>

definition fmlen :: "('k, 'v) fmap \<Rightarrow> nat" where
  "fmlen m = fcard (fmdom m)"

definition fmcount :: "('v \<Rightarrow> bool) \<Rightarrow> ('k, 'v) fmap \<Rightarrow> nat" where
  "fmcount P m = fcard (fmdom (fmfilter (\<lambda>k. P (the (fmlookup m k))) m))"

definition voters :: "('v \<Rightarrow> bool) \<Rightarrow> ('k, 'v) fmap \<Rightarrow> 'k set" where
  "voters P m = {k. \<exists>v. fmlookup m k = Some v \<and> P v}"

lemma finite_voters [simp]: "finite (voters P m)"
proof -
  have "voters P m \<subseteq> fset (fmdom m)" by (auto simp: voters_def fmlookup_dom_iff)
  then show ?thesis by (rule finite_subset) simp
qed

lemma fmcount_card: "fmcount P m = card (voters P m)"
proof -
  have "fset (fmdom (fmfilter (\<lambda>k. P (the (fmlookup m k))) m)) = voters P m"
    by (auto simp: voters_def fmlookup_dom_iff split: if_splits)
  then show ?thesis by (simp add: fmcount_def fcard.rep_eq)
qed

lemma fmlen_card: "fmlen m = card {k. fmlookup m k \<noteq> None}"
proof -
  have "fset (fmdom m) = {k. fmlookup m k \<noteq> None}" by (auto simp: fmlookup_dom_iff)
  then show ?thesis by (simp add: fmlen_def fcard.rep_eq)
qed

lemma fmcount_le_fmlen: "fmcount P m \<le> fmlen m"
  unfolding fmcount_def fmlen_def by (rule fcard_mono) auto

lemma voters_empty [simp]: "voters P fmempty = {}"
  by (simp add: voters_def)

lemma voters_fmupd_fresh:
  "fmlookup m k = None \<Longrightarrow> voters P (fmupd k v m) = (if P v then insert k (voters P m) else voters P m)"
  by (auto simp: voters_def split: if_splits)

subsection \<open>Remainders of unsigned and signed integers\<close>

text \<open>
  \<open>go_umod a n\<close> is \<open>a % n\<close> on \<open>uint64\<close>. \<open>go_imod v n\<close> is \<open>uint64(int(v) % n)\<close>: the
  conversion to \<open>int\<close> reads the word as a signed number, Go's remainder truncates towards
  zero, and the conversion back wraps.
\<close>

definition go_umod :: "u64 \<Rightarrow> nat \<Rightarrow> u64 go" where
  "go_umod a n = (if n = 0 then Inl DivZero else Inr (a mod of_nat n))"

definition go_imod :: "u64 \<Rightarrow> nat \<Rightarrow> u64 go" where
  "go_imod v n = (if n = 0 then Inl DivZero else Inr (word_of_int (sint v smod int n)))"

lemma go_imod_zero [simp]: "go_imod v 0 = Inl DivZero"
  by (simp add: go_imod_def)

lemma go_imod_pos [simp]: "0 < n \<Longrightarrow> go_imod v n = Inr (word_of_int (sint v smod int n))"
  by (simp add: go_imod_def)

lemma word_less_plus1: "x \<noteq> -1 \<Longrightarrow> x < (x :: 'a::len word) + 1"
proof -
  assume "x \<noteq> -1"
  then have "1 + x \<noteq> 0" by (simp add: add_eq_0_iff)
  then show ?thesis using unatSuc [of x] by (simp add: word_less_nat_alt add.commute)
qed

text \<open>On small numbers the two remainders agree.\<close>

lemma go_imod_umod:
  assumes "0 < n" "n < 2 ^ 63" "v < 2 ^ 63"
  shows "go_imod v n = Inr (v mod of_nat n)" and "go_umod v n = Inr (v mod of_nat n)"
proof -
  have v: "uint v < 2 ^ 63" using assms(3) by (simp add: word_less_alt)
  moreover have "- (2 ^ 63) \<le> uint v" by (rule order.trans [of _ 0]) simp_all
  ultimately have "signed_take_bit 63 (uint v) = uint v" by (intro signed_take_bit_int_eq_self)
  then have "sint v = uint v" by (simp add: sint_uint)
  moreover have "uint (of_nat n :: u64) = int n"
    using assms(2) by (simp add: uint_nat unat_of_nat)
  ultimately have "word_of_int (sint v smod int n) = v mod of_nat n"
    using assms(1) by (simp add: signed_modulo_int_def word_mod_def)
  then show "go_imod v n = Inr (v mod of_nat n)" using assms(1) by simp
  show "go_umod v n = Inr (v mod of_nat n)" using assms(1) by (simp add: go_umod_def)
qed

end
