(* ===== verification/Bucket_Worker.thy ===== *)
theory Bucket_Worker
  imports Prelude
begin

text \<open>
  The bucketed worker pool of \<open>pkg/bucketworker/worker.go\<close>: every worker has a job channel of its
  own and a job names the worker, its bucket, that has to run it. The threads are interleaved
  as in theory \<open>Worker\<close>. A job is a pair of its bucket index and a value of type \<open>'j\<close>.
\<close>

record ('j, 'r) BucketDispatcher =
  b_jobQueue :: "(int \<times> 'j) list"
  b_held :: "(int \<times> 'j) option"
  b_jobChannels :: "'j list list"
  b_running :: "'j option list"
  b_maxJobs :: nat
  b_callbackC :: "((int \<times> 'j) \<times> 'r) list"
  b_callbackCap :: nat

definition NewBucketDispatcher :: "nat \<Rightarrow> nat \<Rightarrow> nat \<Rightarrow> ('j, 'r) BucketDispatcher" where
  "NewBucketDispatcher maxJobs maxWorkers cap =
     \<lparr>b_jobQueue = [], b_held = None, b_jobChannels = replicate maxWorkers [],
      b_running = replicate maxWorkers None, b_maxJobs = maxJobs, b_callbackC = [], b_callbackCap = cap\<rparr>"

definition BucketDispatcher_Exec :: "'j \<Rightarrow> int \<Rightarrow> ('j, 'r) BucketDispatcher \<Rightarrow> ('j, 'r) BucketDispatcher" where
  "BucketDispatcher_Exec j bucket d = d\<lparr>b_jobQueue := b_jobQueue d @ [(bucket, j)]\<rparr>"

definition bucket_take :: "('j, 'r) BucketDispatcher \<Rightarrow> ('j, 'r) BucketDispatcher option" where
  "bucket_take d = (case (b_held d, b_jobQueue d) of
     (None, j # js) \<Rightarrow> Some (d\<lparr>b_held := Some j, b_jobQueue := js\<rparr>) | _ \<Rightarrow> None)"

text \<open>
  \<open>d.workers[idx].jobChannel <- j\<close>: an index outside the slice of workers ends the process; a
  full channel blocks.
\<close>

definition bucket_send :: "('j, 'r) BucketDispatcher \<Rightarrow> ('j, 'r) BucketDispatcher go option" where
  "bucket_send d = (case b_held d of
     None \<Rightarrow> None
   | Some (idx, j) \<Rightarrow>
       (if idx < 0 \<or> int (length (b_jobChannels d)) \<le> idx then Some (Inl IndexRange)
        else if length (b_jobChannels d ! nat idx) < b_maxJobs d
        then Some (Inr (d\<lparr>b_held := None,
               b_jobChannels := (b_jobChannels d)[nat idx := b_jobChannels d ! nat idx @ [j]]\<rparr>))
        else None))"

text \<open>Worker \<open>w\<close> receives from its channel, and later sends the callback of the job it ran.\<close>

definition bucket_receive :: "nat \<Rightarrow> ('j, 'r) BucketDispatcher \<Rightarrow> ('j, 'r) BucketDispatcher option" where
  "bucket_receive w d =
     (if w < length (b_jobChannels d) \<and> w < length (b_running d) \<and> b_running d ! w = None
      then (case b_jobChannels d ! w of [] \<Rightarrow> None
         | j # js \<Rightarrow> Some (d\<lparr>b_jobChannels := (b_jobChannels d)[w := js],
                             b_running := (b_running d)[w := Some j]\<rparr>))
      else None)"

definition bucket_finish :: "('j \<Rightarrow> 'r) \<Rightarrow> nat \<Rightarrow> ('j, 'r) BucketDispatcher \<Rightarrow> ('j, 'r) BucketDispatcher option" where
  "bucket_finish ex w d =
     (if w < length (b_running d) \<and> length (b_callbackC d) < b_callbackCap d
      then (case b_running d ! w of None \<Rightarrow> None
         | Some j \<Rightarrow> Some (d\<lparr>b_running := (b_running d)[w := None],
              b_callbackC := b_callbackC d @ [((int w, j), ex j)]\<rparr>))
      else None)"

inductive bucket_step :: "('j \<Rightarrow> 'r) \<Rightarrow> ('j, 'r) BucketDispatcher \<Rightarrow> ('j, 'r) BucketDispatcher \<Rightarrow> bool" for ex where
  btake: "bucket_take d = Some d' \<Longrightarrow> bucket_step ex d d'"
| bsend: "bucket_send d = Some (Inr d') \<Longrightarrow> bucket_step ex d d'"
| breceive: "bucket_receive w d = Some d' \<Longrightarrow> bucket_step ex d d'"
| bfinish: "bucket_finish ex w d = Some d' \<Longrightarrow> bucket_step ex d d'"

subsection \<open>The order inside a bucket\<close>

text \<open>
  The jobs of bucket \<open>w\<close>, oldest first: those whose callback was sent, the one running, those in
  the worker's channel, the one \<open>dispatch\<close> holds and those still queued.
\<close>

definition in_bucket :: "nat \<Rightarrow> (int \<times> 'j) list \<Rightarrow> 'j list" where
  "in_bucket w xs = map snd (filter (\<lambda>(idx, _). idx = int w) xs)"

definition bucket_line :: "nat \<Rightarrow> ('j, 'r) BucketDispatcher \<Rightarrow> 'j list" where
  "bucket_line w d =
     in_bucket w (map fst (b_callbackC d)) @
     (case b_running d ! w of None \<Rightarrow> [] | Some j \<Rightarrow> [j]) @
     b_jobChannels d ! w @
     in_bucket w (case b_held d of None \<Rightarrow> [] | Some x \<Rightarrow> [x]) @
     in_bucket w (b_jobQueue d)"

definition bucket_wf :: "nat \<Rightarrow> ('j, 'r) BucketDispatcher \<Rightarrow> bool" where
  "bucket_wf n d \<longleftrightarrow> length (b_jobChannels d) = n \<and> length (b_running d) = n"

lemma in_bucket_simps [simp]:
  "in_bucket w [] = []"
  "in_bucket w ((idx, j) # xs) = (if idx = int w then j # in_bucket w xs else in_bucket w xs)"
  "in_bucket w (xs @ ys) = in_bucket w xs @ in_bucket w ys"
  by (simp_all add: in_bucket_def)

lemma bucket_line_Exec:
  "bucket_line w (BucketDispatcher_Exec j bucket d) =
     bucket_line w d @ (if bucket = int w then [j] else [])"
  by (simp add: bucket_line_def BucketDispatcher_Exec_def)

lemma bucket_wf_Exec [simp]: "bucket_wf n (BucketDispatcher_Exec j b d) = bucket_wf n d"
  by (simp add: bucket_wf_def BucketDispatcher_Exec_def)

lemma bucket_step_wf: "bucket_step ex d d' \<Longrightarrow> bucket_wf n d \<Longrightarrow> bucket_wf n d'"
  by (cases rule: bucket_step.cases, assumption)
    (auto simp: bucket_take_def bucket_send_def bucket_receive_def bucket_finish_def bucket_wf_def
      split: option.splits list.splits if_splits prod.splits)

lemma bucket_step_line:
  assumes "bucket_step ex d d'" "bucket_wf n d" "w < n"
  shows "bucket_line w d' = bucket_line w d"
  using assms
proof (cases rule: bucket_step.cases)
  case btake
  then show ?thesis
    by (auto simp: bucket_take_def bucket_line_def split: option.splits list.splits)
next
  case bsend
  then show ?thesis using assms(2,3)
    by (auto simp: bucket_send_def bucket_line_def bucket_wf_def nth_list_update
        split: option.splits if_splits prod.splits)
next
  case (breceive w')
  then show ?thesis using assms(2,3)
    by (cases "w = w'") (auto simp: bucket_receive_def bucket_line_def bucket_wf_def
        split: option.splits if_splits list.splits)
next
  case (bfinish w')
  then show ?thesis using assms(2,3)
    by (cases "w = w'") (auto simp: bucket_finish_def bucket_line_def bucket_wf_def
        split: option.splits if_splits)
qed

lemma bucket_run_line:
  assumes "(bucket_step ex)\<^sup>*\<^sup>* d d'" "bucket_wf n d" "w < n"
  shows "bucket_line w d' = bucket_line w d \<and> bucket_wf n d'"
  using assms by induction (auto simp: bucket_step_line intro: bucket_step_wf)

lemma bucket_wf_new: "bucket_wf n (NewBucketDispatcher maxJobs n cap)"
  by (simp add: bucket_wf_def NewBucketDispatcher_def)

text \<open>
  Claim C18. However the threads of the pool interleave, the callbacks of the jobs of one
  bucket arrive in the order in which \<open>Exec\<close> was called: at any time the callbacks already
  sent for a bucket are an initial part of the jobs submitted to it.
\<close>

theorem bucket_callbacks_fifo:
  assumes "(bucket_step ex)\<^sup>*\<^sup>* (fold (\<lambda>(j, b). BucketDispatcher_Exec j b) jobs
      (NewBucketDispatcher maxJobs n cap)) d" and "w < n"
  shows "prefix (in_bucket w (map fst (b_callbackC d)))
      (in_bucket w (map (\<lambda>(j, b). (b, j)) jobs))"
proof -
  have line: "bucket_line w (fold (\<lambda>(j, b). BucketDispatcher_Exec j b) jobs d0) =
      bucket_line w d0 @ in_bucket w (map (\<lambda>(j, b). (b, j)) jobs)" for d0 :: "('a, 'b) BucketDispatcher"
    by (induction jobs arbitrary: d0) (auto simp: bucket_line_Exec)
  have wf: "bucket_wf n (fold (\<lambda>(j, b). BucketDispatcher_Exec j b) jobs d0)"
    if "bucket_wf n d0" for d0 :: "('a, 'b) BucketDispatcher"
    using that by (induction jobs arbitrary: d0) (simp_all add: split_beta)
  have "bucket_line w (NewBucketDispatcher maxJobs n cap :: ('a, 'b) BucketDispatcher) = []"
    using assms(2) by (simp add: bucket_line_def NewBucketDispatcher_def)
  with bucket_run_line [OF assms(1) wf [OF bucket_wf_new] assms(2)]
  have "bucket_line w d = in_bucket w (map (\<lambda>(j, b). (b, j)) jobs)" by (simp add: line)
  then show ?thesis unfolding bucket_line_def by (metis prefixI)
qed

theorem bucket_callbacks_fifo_witness:
  "prefix (in_bucket 0 (map fst (b_callbackC
      \<lparr>b_jobQueue = [(0, 8)], b_held = None, b_jobChannels = [[]], b_running = [None],
        b_maxJobs = 1, b_callbackC = [((0, 7 :: nat), 14 :: nat)], b_callbackCap = 4\<rparr>)))
    (in_bucket 0 (map (\<lambda>(j, b). (b, j)) [(7 :: nat, 0), (8, 0)]))"
proof -
  let ?d = "\<lambda>q h c r cb. \<lparr>b_jobQueue = q, b_held = h, b_jobChannels = [c], b_running = [r],
    b_maxJobs = 1, b_callbackC = cb, b_callbackCap = 4\<rparr> :: (nat, nat) BucketDispatcher"
  let ?ex = "\<lambda>j. 2 * j :: nat"
  have "(bucket_step ?ex)\<^sup>*\<^sup>* (?d [(0, 7), (0, 8)] None [] None []) (?d [(0, 8)] (Some (0, 7)) [] None [])"
    by (rule r_into_rtranclp, rule btake) (simp add: bucket_take_def)
  also have "(bucket_step ?ex)\<^sup>*\<^sup>* \<dots> (?d [(0, 8)] None [7] None [])"
    by (rule r_into_rtranclp, rule bsend) (simp add: bucket_send_def)
  also have "(bucket_step ?ex)\<^sup>*\<^sup>* \<dots> (?d [(0, 8)] None [] (Some 7) [])"
    by (rule r_into_rtranclp, rule breceive [where w = 0]) (simp add: bucket_receive_def)
  also have "(bucket_step ?ex)\<^sup>*\<^sup>* \<dots> (?d [(0, 8)] None [] None [((0, 7), 14)])"
    by (rule r_into_rtranclp, rule bfinish [where w = 0]) (simp add: bucket_finish_def)
  finally have "(bucket_step ?ex)\<^sup>*\<^sup>* (fold (\<lambda>(j, b). BucketDispatcher_Exec j b) [(7, 0), (8, 0)]
      (NewBucketDispatcher 1 1 4)) (?d [(0, 8)] None [] None [((0, 7), 14)])"
    by (simp add: NewBucketDispatcher_def BucketDispatcher_Exec_def)
  from bucket_callbacks_fifo [OF this, of 0] show ?thesis by simp
qed

end
