(* ===== verification/Command.thy ===== *)
theory Command
  imports Prelude
begin

text \<open>
  Client commands and their results: \<open>pkg/command/commandpb\<close>. The records are the structs of
  \<open>command.pb.go\<close>, the operations those of \<open>types.go\<close>. A pointer that may be nil is an
  \<open>option\<close>; comparing through a nil receiver or argument is the run-time error \<open>NilDeref\<close>.

  The record \<open>go_env\<close> holds what the code calls and this development does not model: the
  SHA-256 function, the generated protobuf encoder of commands, the MAC certifier of
  \<open>utils\<close> and the order in which the run-time system walks a map.
\<close>

subsection \<open>Messages\<close>

record KVOp =
  kv_Key :: bytes
  kv_Value :: bytes
  kv_Read :: bool

record KVOpResult =
  kvr_Key :: bytes
  kvr_Value :: bytes
  kvr_WriteSuccess :: bool

datatype Operation = Op_Nil | Operation_KVOp "KVOp option"

datatype OperationResult = OpResult_Nil | OperationResult_KVOpResult "KVOpResult option"

record Command =
  cmd_Timestamp :: u64
  cmd_Ops :: "Operation list"
  cmd_Target :: PeerID
  cmd_Meta :: bytes
  cmd_ConflictKey :: bytes
  cmd_TraceInfo :: "(string, string) fmap"

record CommandResult =
  res_Timestamp :: u64
  res_OpResults :: "OperationResult list"
  res_Target :: PeerID
  res_Meta :: bytes

record go_env =
  env_sha256 :: "bytes \<Rightarrow> bytes"
  env_marshalCommand :: "Command \<Rightarrow> bytes option"
  env_createSignedCertificate :: "bytes \<Rightarrow> bytes"
  env_verifyCertificate :: "bytes \<Rightarrow> bytes \<Rightarrow> bool"
  env_rangeOrder :: "u64 list \<Rightarrow> u64 list"

subsection \<open>Keys\<close>

text \<open>\<open>bytes.Compare\<close>: lexicographic, a proper prefix is smaller.\<close>

fun Key_Compare :: "bytes \<Rightarrow> bytes \<Rightarrow> int" where
  "Key_Compare [] [] = 0"
| "Key_Compare [] (_ # _) = -1"
| "Key_Compare (_ # _) [] = 1"
| "Key_Compare (x # xs) (y # ys) =
     (if x < y then -1 else if y < x then 1 else Key_Compare xs ys)"

definition Key_Equal :: "bytes \<Rightarrow> bytes \<Rightarrow> bool" where
  "Key_Equal k o' \<longleftrightarrow> k = o'"

subsection \<open>Equality\<close>

definition KVOp_Equal :: "KVOp option \<Rightarrow> KVOp option \<Rightarrow> bool go" where
  "KVOp_Equal k o' =
     (if k = None \<and> o' = None then Inr True
      else case o' of None \<Rightarrow> Inr False
        | Some b \<Rightarrow> (case k of None \<Rightarrow> Inl NilDeref
            | Some a \<Rightarrow> Inr (kv_Key a = kv_Key b \<and> kv_Value a = kv_Value b \<and> kv_Read a = kv_Read b)))"

definition KVOpResult_Equal :: "KVOpResult option \<Rightarrow> KVOpResult option \<Rightarrow> bool go" where
  "KVOpResult_Equal k o' =
     (if k = None \<and> o' = None then Inr True
      else case o' of None \<Rightarrow> Inr False
        | Some b \<Rightarrow> (case k of None \<Rightarrow> Inl NilDeref
            | Some a \<Rightarrow> Inr (kvr_Key a = kvr_Key b \<and> kvr_Value a = kvr_Value b
                \<and> kvr_WriteSuccess a = kvr_WriteSuccess b)))"

fun GetKVOp :: "Operation \<Rightarrow> KVOp option" where
  "GetKVOp Op_Nil = None"
| "GetKVOp (Operation_KVOp k) = k"

fun GetKVOpResult :: "OperationResult \<Rightarrow> KVOpResult option" where
  "GetKVOpResult OpResult_Nil = None"
| "GetKVOpResult (OperationResult_KVOpResult k) = k"

fun Operation_Equal :: "Operation \<Rightarrow> Operation \<Rightarrow> bool go" where
  "Operation_Equal (Operation_KVOp k) o' = KVOp_Equal k (GetKVOp o')"
| "Operation_Equal Op_Nil o' = Inr False"

fun OperationResult_Equal :: "OperationResult \<Rightarrow> OperationResult \<Rightarrow> bool go" where
  "OperationResult_Equal (OperationResult_KVOpResult k) o' = KVOpResult_Equal k (GetKVOpResult o')"
| "OperationResult_Equal OpResult_Nil o' = Inr False"

text \<open>The loop that compares two slices of the same length element by element.\<close>

fun all_Equal :: "('a \<Rightarrow> 'a \<Rightarrow> bool go) \<Rightarrow> 'a list \<Rightarrow> 'a list \<Rightarrow> bool go" where
  "all_Equal eq (x # xs) (y # ys) =
     go_bind (eq x y) (\<lambda>b. if \<not> b then Inr False else all_Equal eq xs ys)"
| "all_Equal eq _ _ = Inr True"

definition OperationResults_Equal :: "OperationResult list \<Rightarrow> OperationResult list \<Rightarrow> bool go" where
  "OperationResults_Equal k o' =
     (if length k \<noteq> length o' then Inr False else all_Equal OperationResult_Equal k o')"

definition Command_Equal :: "Command option \<Rightarrow> Command option \<Rightarrow> bool go" where
  "Command_Equal mo oo =
     (case mo of None \<Rightarrow> Inl NilDeref | Some m \<Rightarrow>
      (case oo of None \<Rightarrow> Inl NilDeref | Some o' \<Rightarrow>
        if cmd_Timestamp m \<noteq> cmd_Timestamp o' \<or> cmd_Target m \<noteq> cmd_Target o'
           \<or> cmd_ConflictKey m \<noteq> cmd_ConflictKey o' then Inr False
        else if length (cmd_Ops m) \<noteq> length (cmd_Ops o') then Inr False
        else all_Equal Operation_Equal (cmd_Ops m) (cmd_Ops o')))"

definition CommandResult_Equal :: "CommandResult \<Rightarrow> CommandResult \<Rightarrow> bool go" where
  "CommandResult_Equal m o' =
     (if res_Timestamp m \<noteq> res_Timestamp o' \<or> res_Target m \<noteq> res_Target o' \<or> res_Meta m \<noteq> res_Meta o'
      then Inr False
      else OperationResults_Equal (res_OpResults m) (res_OpResults o'))"

definition Interferes :: "Command \<Rightarrow> Command \<Rightarrow> bool" where
  "Interferes m o' \<longleftrightarrow> cmd_ConflictKey m = cmd_ConflictKey o'"

subsection \<open>Hash\<close>

text \<open>
  \<open>Command.Hash\<close>: the trace information is left out of the encoding; the hash of a command
  that cannot be encoded is the nil slice. Calling it on a nil pointer dereferences nil.
\<close>

definition Command_Hash :: "'a go_env_scheme \<Rightarrow> Command \<Rightarrow> slice" where
  "Command_Hash E m =
     (case env_marshalCommand E (m\<lparr>cmd_TraceInfo := fmempty\<rparr>) of
        None \<Rightarrow> None
      | Some cmdBytes \<Rightarrow> Some (env_sha256 E cmdBytes))"

definition Hash_ptr :: "'a go_env_scheme \<Rightarrow> Command option \<Rightarrow> slice go" where
  "Hash_ptr E mo = (case mo of None \<Rightarrow> Inl NilDeref | Some m \<Rightarrow> Inr (Command_Hash E m))"

text \<open>The generated encoder reports no error for a command.\<close>

definition encodes_commands :: "'a go_env_scheme \<Rightarrow> bool" where
  "encodes_commands E \<longleftrightarrow> (\<forall>c. env_marshalCommand E c \<noteq> None)"

subsection \<open>Properties\<close>

lemma Hash_not_nil: "encodes_commands E \<Longrightarrow> Command_Hash E m \<noteq> None"
  by (auto simp: Command_Hash_def encodes_commands_def split: option.split)

lemma Hash_ptr_Inr: "Hash_ptr E mo = Inr h \<longleftrightarrow> (\<exists>m. mo = Some m \<and> h = Command_Hash E m)"
  by (auto simp: Hash_ptr_def split: option.split)

lemma Command_Hash_TraceInfo: "Command_Hash E (m\<lparr>cmd_TraceInfo := t\<rparr>) = Command_Hash E m"
  by (simp add: Command_Hash_def)

lemma all_Equal_Inr_True:
  assumes "length xs = length ys"
  shows "all_Equal eq xs ys = Inr True \<longleftrightarrow> (\<forall>i < length xs. eq (xs ! i) (ys ! i) = Inr True)"
  using assms
proof (induction xs ys rule: list_induct2)
  case (Cons x xs y ys)
  show ?case
  proof (cases "eq x y = Inr True")
    case True
    with Cons show ?thesis by (auto simp: nth_Cons split: nat.split)
  next
    case False
    then have "all_Equal eq (x # xs) (y # ys) \<noteq> Inr True" by (auto simp: go_simps split: if_splits)
    with False show ?thesis by force
  qed
qed simp

text \<open>An operation whose one-of field is set to a real key-value operation.\<close>

fun Operation_set :: "Operation \<Rightarrow> bool" where
  "Operation_set (Operation_KVOp (Some k)) = True"
| "Operation_set _ = False"

lemma KVOp_eqI:
  "kv_Key a = kv_Key b \<Longrightarrow> kv_Value a = kv_Value b \<Longrightarrow> kv_Read a = kv_Read b \<Longrightarrow> (a :: KVOp) = b"
  by (rule KVOp.equality) simp_all

lemma Operation_Equal_set:
  "Operation_set a \<Longrightarrow> Operation_Equal a b = Inr True \<longleftrightarrow> a = b"
  by (cases a; cases b; auto simp: KVOp_Equal_def intro: KVOp_eqI elim: Operation_set.elims
      split: option.splits)

lemma Key_Compare_zero: "Key_Compare a b = 0 \<longleftrightarrow> a = b"
  by (induction a b rule: Key_Compare.induct) auto

lemma Key_Compare_antisym: "Key_Compare a b = - Key_Compare b a"
  by (induction a b rule: Key_Compare.induct) auto

lemma Key_Compare_range: "Key_Compare a b \<in> {-1, 0, 1}"
  by (induction a b rule: Key_Compare.induct) auto

lemma Key_Compare_trans: "Key_Compare a b = -1 \<Longrightarrow> Key_Compare b c = -1 \<Longrightarrow> Key_Compare a c = -1"
  by (induction a b arbitrary: c rule: Key_Compare.induct; case_tac c)
    (auto split: if_splits)

text \<open>
  Claim C28. \<open>Equal\<close> on commands whose operations are set is equality but for \<open>Meta\<close> and the trace information, and equal commands with the same \<open>Meta\<close>
  have the same hash. A command with an unset operation is not even equal to itself.
\<close>

theorem command_equal_iff:
  assumes "list_all Operation_set (cmd_Ops a)"
  shows "(Command_Equal (Some a) (Some b) = Inr True \<longleftrightarrow> b = a\<lparr>cmd_Meta := cmd_Meta b, cmd_TraceInfo := cmd_TraceInfo b\<rparr>)
    \<and> (Command_Equal (Some a) (Some b) = Inr True \<and> cmd_Meta a = cmd_Meta b \<longrightarrow> Command_Hash E a = Command_Hash E b)
    \<and> (Op_Nil \<in> set (cmd_Ops c) \<longrightarrow> Command_Equal (Some c) (Some c) \<noteq> Inr True)"
proof -
  have ops: "all_Equal Operation_Equal (cmd_Ops a) ys = Inr True \<longleftrightarrow> cmd_Ops a = ys" if "length (cmd_Ops a) = length ys" for ys
  proof -
    have "all_Equal Operation_Equal (cmd_Ops a) ys = Inr True \<longleftrightarrow> (\<forall>i < length (cmd_Ops a). cmd_Ops a ! i = ys ! i)"
      using assms by (simp add: all_Equal_Inr_True [OF that] Operation_Equal_set list_all_length)
    with that show ?thesis by (auto intro: nth_equalityI)
  qed
  have 1: "Command_Equal (Some a) (Some b) = Inr True \<longleftrightarrow> b = a\<lparr>cmd_Meta := cmd_Meta b, cmd_TraceInfo := cmd_TraceInfo b\<rparr>"
  proof
    assume "Command_Equal (Some a) (Some b) = Inr True"
    then have "cmd_Timestamp b = cmd_Timestamp a" "cmd_Target b = cmd_Target a" "cmd_ConflictKey b = cmd_ConflictKey a" "cmd_Ops b = cmd_Ops a"
      by (auto simp: Command_Equal_def ops split: if_splits)
    then show "b = a\<lparr>cmd_Meta := cmd_Meta b, cmd_TraceInfo := cmd_TraceInfo b\<rparr>"
      by (cases a; cases b) simp
  next
    assume "b = a\<lparr>cmd_Meta := cmd_Meta b, cmd_TraceInfo := cmd_TraceInfo b\<rparr>"
    then obtain x y where "b = a\<lparr>cmd_Meta := x, cmd_TraceInfo := y\<rparr>" by blast
    then show "Command_Equal (Some a) (Some b) = Inr True" by (simp add: Command_Equal_def ops)
  qed
  have "a\<lparr>cmd_TraceInfo := fmempty\<rparr> = b\<lparr>cmd_TraceInfo := fmempty\<rparr>"
    if "b = a\<lparr>cmd_Meta := cmd_Meta b, cmd_TraceInfo := cmd_TraceInfo b\<rparr>" "cmd_Meta a = cmd_Meta b"
  proof -
    from that(1) obtain x y where "b = a\<lparr>cmd_Meta := x, cmd_TraceInfo := y\<rparr>" by blast
    with that(2) show ?thesis by simp
  qed
  with 1 have 2: "Command_Equal (Some a) (Some b) = Inr True \<and> cmd_Meta a = cmd_Meta b \<longrightarrow> Command_Hash E a = Command_Hash E b"
    by (auto simp: Command_Hash_def)
  have "Operation_Equal Op_Nil x \<noteq> Inr True" for x by simp
  then have "Op_Nil \<in> set (cmd_Ops c) \<longrightarrow> Command_Equal (Some c) (Some c) \<noteq> Inr True"
    by (auto simp: Command_Equal_def all_Equal_Inr_True in_set_conv_nth)
  with 1 2 show ?thesis by blast
qed

definition ex_cmd_w :: "bytes \<Rightarrow> Command" where
  "ex_cmd_w meta = \<lparr>cmd_Timestamp = 1, cmd_Ops = [Operation_KVOp (Some \<lparr>kv_Key = [1], kv_Value = [2], kv_Read = False\<rparr>)], cmd_Target = 0,
     cmd_Meta = meta, cmd_ConflictKey = [], cmd_TraceInfo = fmempty\<rparr>"

theorem command_equal_iff_witness:
  "Command_Equal (Some (ex_cmd_w [])) (Some (ex_cmd_w [1])) = Inr True \<and> Command_Equal (Some (ex_cmd_w [])) (Some ((ex_cmd_w [])\<lparr>cmd_Target := 1\<rparr>)) \<noteq> Inr True"
  using command_equal_iff [of "ex_cmd_w []" "ex_cmd_w [1]", THEN conjunct1]
    command_equal_iff [of "ex_cmd_w []" "(ex_cmd_w [])\<lparr>cmd_Target := 1\<rparr>", THEN conjunct1]
  by (simp add: ex_cmd_w_def)

end
