(* ===== verification/Tracker.thy ===== *)
theory Tracker
  imports Command
begin

text \<open>
  The tracker of in-flight requests, \<open>pkg/command/tracker.go\<close>. A request waits on a channel of capacity one
  that \<open>HandleCommand\<close> makes; the channels live in a heap, so that sending twice, closing twice and sending on
  a closed channel have their Go meaning. A send that finds the buffer full blocks the only thread that
  could go on while it holds the peer's lock; it is the failure \<open>Hang\<close>.
\<close>

subsection \<open>Result channels\<close>

type_synonym chan_id = nat

record ResChan =
  rc_buf :: "CommandResult list"
  rc_closed :: bool

type_synonym chan_heap = "(chan_id, ResChan) fmap"

definition new_ResChan :: ResChan where
  "new_ResChan = \<lparr>rc_buf = [], rc_closed = False\<rparr>"

definition chan_send :: "chan_id \<Rightarrow> CommandResult \<Rightarrow> chan_heap \<Rightarrow> chan_heap go" where
  "chan_send c res h =
     (case fmlookup h c of
        None \<Rightarrow> Inl Hang
      | Some ch \<Rightarrow>
          if rc_closed ch then Inl PanicCall
          else if length (rc_buf ch) \<ge> 1 then Inl Hang
          else Inr (fmupd c (ch\<lparr>rc_buf := rc_buf ch @ [res]\<rparr>) h))"

definition chan_close :: "chan_id \<Rightarrow> chan_heap \<Rightarrow> chan_heap go" where
  "chan_close c h =
     (case fmlookup h c of
        None \<Rightarrow> Inl PanicCall
      | Some ch \<Rightarrow> if rc_closed ch then Inl PanicCall else Inr (fmupd c (ch\<lparr>rc_closed := True\<rparr>) h))"

subsection \<open>The tracker\<close>

type_synonym trackerID = "PeerID \<times> u64"

record Tracker =
  tr_requests :: "(trackerID, chan_id) fmap"
  tr_responses :: "(trackerID, CommandResult) fmap"

definition MakeTracker :: Tracker where
  "MakeTracker = \<lparr>tr_requests = fmempty, tr_responses = fmempty\<rparr>"

definition cmd_tid :: "Command \<Rightarrow> trackerID" where
  "cmd_tid cmd = (cmd_Target cmd, cmd_Timestamp cmd)"

definition res_tid :: "CommandResult \<Rightarrow> trackerID" where
  "res_tid r = (res_Target r, res_Timestamp r)"

definition Tracker_Register :: "Command \<Rightarrow> chan_id \<Rightarrow> Tracker \<times> chan_heap \<Rightarrow> (bool \<times> Tracker \<times> chan_heap) go" where
  "Tracker_Register cmd c st = (case st of (pr, h) \<Rightarrow>
     (let tid = cmd_tid cmd in
      case fmlookup (tr_responses pr) tid of
        Some res \<Rightarrow> go_bind (chan_send c res h) (\<lambda>h'. Inr (False, pr, h'))
      | None \<Rightarrow>
          (case fmlookup (tr_requests pr) tid of
             None \<Rightarrow> Inr (True, pr\<lparr>tr_requests := fmupd tid c (tr_requests pr)\<rparr>, h)
           | Some _ \<Rightarrow> Inr (False, pr, h))))"

definition Tracker_Finish :: "CommandResult \<Rightarrow> Tracker \<times> chan_heap \<Rightarrow> (Tracker \<times> chan_heap) go" where
  "Tracker_Finish cp st = (case st of (pr, h) \<Rightarrow>
     (let tid = res_tid cp in
      case fmlookup (tr_requests pr) tid of
        Some ret \<Rightarrow> go_bind (chan_send ret cp h) (\<lambda>h'. Inr (pr\<lparr>tr_requests := fmdrop tid (tr_requests pr)\<rparr>, h'))
      | None \<Rightarrow> Inr (pr\<lparr>tr_responses := fmupd tid cp (tr_responses pr)\<rparr>, h)))"

text \<open>\<open>FinishAll\<close>; \<open>order\<close> is the order in which the map is walked.\<close>

definition Tracker_FinishAll :: "trackerID list \<Rightarrow> Tracker \<times> chan_heap \<Rightarrow> (Tracker \<times> chan_heap) go" where
  "Tracker_FinishAll order st =
     go_fold (\<lambda>tid st'. case st' of (pr, h) \<Rightarrow>
        (case fmlookup (tr_requests pr) tid of
           None \<Rightarrow> Inr (pr, h)
         | Some c \<Rightarrow> go_bind (chan_close c h) (\<lambda>h'. Inr (pr\<lparr>tr_requests := fmdrop tid (tr_requests pr)\<rparr>, h'))))
       order st"

subsection \<open>Histories\<close>

datatype tr_event = Reg Command chan_id | Fin CommandResult

fun tr_do :: "tr_event \<Rightarrow> Tracker \<times> chan_heap \<Rightarrow> (Tracker \<times> chan_heap) go" where
  "tr_do (Reg cmd c) st = go_bind (Tracker_Register cmd c st) (\<lambda>(_, pr, h). Inr (pr, h))"
| "tr_do (Fin res) st = Tracker_Finish res st"

definition tr_run :: "tr_event list \<Rightarrow> Tracker \<times> chan_heap \<Rightarrow> (Tracker \<times> chan_heap) go" where
  "tr_run = go_fold tr_do"

fun ev_chans :: "tr_event list \<Rightarrow> chan_id list" where
  "ev_chans [] = []"
| "ev_chans (Reg cmd c # es) = c # ev_chans es"
| "ev_chans (Fin _ # es) = ev_chans es"

definition fresh_chan :: "chan_id \<Rightarrow> chan_heap \<Rightarrow> bool" where
  "fresh_chan c h \<longleftrightarrow> fmlookup h c = Some new_ResChan"

text \<open>
  The invariant: the channel of a waiting request is open and empty and waits for that request only; every
  result in a channel answers the command with the id \<open>own c\<close> that came with the channel; the channels \<open>cs\<close> are
  those that later calls of \<open>Register\<close> will bring.
\<close>

definition tr_ok :: "(chan_id \<Rightarrow> trackerID) \<Rightarrow> chan_id list \<Rightarrow> Tracker \<times> chan_heap \<Rightarrow> bool" where
  "tr_ok own cs st \<longleftrightarrow> (case st of (pr, h) \<Rightarrow>
     (\<forall>tid c. fmlookup (tr_requests pr) tid = Some c \<longrightarrow> fresh_chan c h \<and> own c = tid \<and> c \<notin> set cs)
     \<and> (\<forall>tid res. fmlookup (tr_responses pr) tid = Some res \<longrightarrow> res_tid res = tid)
     \<and> (\<forall>c ch. fmlookup h c = Some ch \<longrightarrow> length (rc_buf ch) \<le> 1 \<and> (\<forall>res \<in> set (rc_buf ch). res_tid res = own c))
     \<and> (\<forall>c \<in> set cs. fresh_chan c h))"

lemmas pair_quant = split_paired_All split_paired_Ex

lemma chan_send_fresh:
  "fresh_chan c h \<Longrightarrow> chan_send c res h = Inr (fmupd c (new_ResChan\<lparr>rc_buf := [res]\<rparr>) h)"
  by (simp add: fresh_chan_def chan_send_def new_ResChan_def)

lemma tr_ok_send:
  assumes "tr_ok own cs (pr, h)" "res_tid res = own c" "c \<notin> set cs"
  shows "tr_ok own cs (pr\<lparr>tr_requests := fmdrop (own c) (tr_requests pr)\<rparr>, fmupd c (new_ResChan\<lparr>rc_buf := [res]\<rparr>) h)"
  using assms by (auto simp: tr_ok_def fresh_chan_def new_ResChan_def simp del: pair_quant split: if_splits)

lemma Finish_ok:
  assumes "tr_ok own cs (pr, h)"
  shows "\<exists>st'. Tracker_Finish res (pr, h) = Inr st' \<and> tr_ok own cs st'"
proof (cases "fmlookup (tr_requests pr) (res_tid res)")
  case None
  with assms show ?thesis by (auto simp: Tracker_Finish_def tr_ok_def simp del: pair_quant)
next
  case (Some c)
  with assms have "fresh_chan c h" "own c = res_tid res" "c \<notin> set cs" by (auto simp: tr_ok_def simp del: pair_quant)
  with Some tr_ok_send [OF assms, of res c] show ?thesis
    by (simp add: Tracker_Finish_def chan_send_fresh)
qed

lemma Register_ok:
  assumes "tr_ok own (c # cs) (pr, h)" "own c = cmd_tid cmd" "c \<notin> set cs"
  shows "\<exists>b pr' h'. Tracker_Register cmd c (pr, h) = Inr (b, pr', h') \<and> tr_ok own cs (pr', h')"
proof (cases "fmlookup (tr_responses pr) (cmd_tid cmd)")
  case None
  with assms show ?thesis
    by (cases "fmlookup (tr_requests pr) (cmd_tid cmd)")
      (auto simp: Tracker_Register_def tr_ok_def simp del: pair_quant)
next
  case (Some res)
  with assms have "fresh_chan c h" "res_tid res = own c" "tr_ok own cs (pr, h)"
    "\<And>tid. fmlookup (tr_requests pr) tid \<noteq> Some c"
    by (auto simp: tr_ok_def simp del: pair_quant)
  with Some assms show ?thesis
    by (auto simp: Tracker_Register_def chan_send_fresh tr_ok_def fresh_chan_def new_ResChan_def simp del: pair_quant)
qed

lemma tr_run_ok:
  assumes "tr_ok own (ev_chans es) st" "distinct (ev_chans es)" "\<And>cmd c. Reg cmd c \<in> set es \<Longrightarrow> own c = cmd_tid cmd"
  shows "\<exists>st'. tr_run es st = Inr st' \<and> tr_ok own [] st'"
  using assms
proof (induction es arbitrary: st)
  case (Cons e es)
  obtain pr h where st: "st = (pr, h)" by (cases st)
  have "\<exists>st'. tr_do e st = Inr st' \<and> tr_ok own (ev_chans es) st'"
  proof (cases e)
    case (Reg cmd c)
    with Cons.prems st Register_ok [of own c "ev_chans es" pr h cmd] show ?thesis by auto
  next
    case (Fin res)
    with Cons.prems st Finish_ok [of own "ev_chans es" pr h res] show ?thesis by simp
  qed
  moreover have "distinct (ev_chans es)" using Cons.prems(2) by (cases e) auto
  ultimately show ?case using Cons.IH Cons.prems(3) by (fastforce simp: tr_run_def)
qed (simp add: tr_run_def)

definition fresh_heap :: "chan_id list \<Rightarrow> chan_heap" where
  "fresh_heap cs = fmap_of_list (map (\<lambda>c. (c, new_ResChan)) cs)"

lemma lookup_fresh_heap: "fmlookup (fresh_heap cs) c = (if c \<in> set cs then Some new_ResChan else None)"
  by (induction cs) (auto simp: fresh_heap_def)

lemma ev_chans_iff: "c \<in> set (ev_chans es) \<longleftrightarrow> (\<exists>cmd. Reg cmd c \<in> set es)"
  by (induction es rule: ev_chans.induct) auto

lemma ev_owner:
  "distinct (ev_chans es) \<Longrightarrow> \<exists>own. \<forall>cmd c. Reg cmd c \<in> set es \<longrightarrow> own c = cmd_tid cmd"
proof (induction es rule: ev_chans.induct)
  case (2 cmd c es)
  then obtain own where "\<forall>cmd c. Reg cmd c \<in> set es \<longrightarrow> own c = cmd_tid cmd" by auto
  with 2(2) show ?case by (intro exI [of _ "own(c := cmd_tid cmd)"]) (auto simp: ev_chans_iff)
qed auto

lemma tr_ok_start: "tr_ok own cs (MakeTracker, fresh_heap cs)"
  by (auto simp: tr_ok_def MakeTracker_def lookup_fresh_heap fresh_chan_def new_ResChan_def split: if_splits)

lemma tr_run_append: "tr_run (es @ fs) st = go_bind (tr_run es st) (tr_run fs)"
  by (simp add: tr_run_def go_fold_append)

text \<open>
  Claim C9. Whatever commands are registered and results finished, in whatever order, with a new channel per
  registration: the tracker never blocks and never sends on a full or closed channel, a channel gets one
  result at most, and it is a result for the target and time stamp registered with that channel.
\<close>

theorem tracker_answers_own_request:
  assumes "distinct (ev_chans es)"
  shows "\<exists>pr h. tr_run es (MakeTracker, fresh_heap (ev_chans es)) = Inr (pr, h) \<and>
    (\<forall>cmd c ch. Reg cmd c \<in> set es \<longrightarrow> fmlookup h c = Some ch \<longrightarrow>
       length (rc_buf ch) \<le> 1 \<and> (\<forall>res \<in> set (rc_buf ch). res_tid res = cmd_tid cmd))"
proof -
  obtain own where own: "\<forall>cmd c. Reg cmd c \<in> set es \<longrightarrow> own c = cmd_tid cmd" using ev_owner [OF assms] by blast
  obtain pr h where *: "tr_run es (MakeTracker, fresh_heap (ev_chans es)) = Inr (pr, h)" "tr_ok own [] (pr, h)"
    using tr_run_ok [OF tr_ok_start assms, of own] own by fastforce
  have "length (rc_buf ch) \<le> 1 \<and> (\<forall>res \<in> set (rc_buf ch). res_tid res = cmd_tid cmd)"
    if "Reg cmd c \<in> set es" "fmlookup h c = Some ch" for cmd c ch
    using that own *(2) by (auto simp: tr_ok_def simp del: pair_quant)
  with *(1) show ?thesis by blast
qed

definition ex_treq :: Command where
  "ex_treq = \<lparr>cmd_Timestamp = 7, cmd_Ops = [], cmd_Target = 1, cmd_Meta = [], cmd_ConflictKey = [], cmd_TraceInfo = fmempty\<rparr>"

definition ex_tres :: CommandResult where
  "ex_tres = \<lparr>res_Timestamp = 7, res_OpResults = [], res_Target = 1, res_Meta = []\<rparr>"

theorem tracker_answers_own_request_witness:
  "\<exists>pr h. tr_run [Reg ex_treq 0, Reg ex_treq 1, Fin ex_tres] (MakeTracker, fresh_heap [0, 1]) = Inr (pr, h)"
  using tracker_answers_own_request [of "[Reg ex_treq 0, Reg ex_treq 1, Fin ex_tres]"] by auto

subsection \<open>Waiting requests are answered\<close>

fun ev_tid :: "tr_event \<Rightarrow> trackerID" where
  "ev_tid (Reg cmd c) = cmd_tid cmd"
| "ev_tid (Fin res) = res_tid res"

fun is_fin :: "tr_event \<Rightarrow> bool" where
  "is_fin (Fin _) = True"
| "is_fin _ = False"

text \<open>Events of other requests leave the entries of \<open>tid\<close> alone.\<close>

lemma tr_do_other:
  assumes "tr_do e (pr, h) = Inr (pr', h')" "ev_tid e \<noteq> tid"
  shows "fmlookup (tr_requests pr') tid = fmlookup (tr_requests pr) tid
    \<and> fmlookup (tr_responses pr') tid = fmlookup (tr_responses pr) tid"
  using assms by (cases e) (auto simp: Tracker_Register_def Tracker_Finish_def Let_def go_simps split: option.splits)

lemma tr_run_other:
  assumes "tr_run es (pr, h) = Inr (pr', h')" "\<And>e. e \<in> set es \<Longrightarrow> ev_tid e \<noteq> tid"
  shows "fmlookup (tr_requests pr') tid = fmlookup (tr_requests pr) tid
    \<and> fmlookup (tr_responses pr') tid = fmlookup (tr_responses pr) tid"
  using assms
proof (induction es arbitrary: pr h)
  case (Cons e es)
  then obtain pr1 h1 where 1: "tr_do e (pr, h) = Inr (pr1, h1)" "tr_run es (pr1, h1) = Inr (pr', h')"
    by (auto simp: tr_run_def)
  with Cons.IH [of pr1 h1] Cons.prems(2) tr_do_other [OF 1(1), of tid] show ?case by simp
qed (simp add: tr_run_def)

text \<open>A waiting request keeps waiting, whatever is registered, until its own result is finished.\<close>

lemma tr_run_waits:
  assumes "tr_run es (pr, h) = Inr (pr', h')" "\<And>e. e \<in> set es \<Longrightarrow> is_fin e \<Longrightarrow> ev_tid e \<noteq> tid"
    and "fmlookup (tr_requests pr) tid = Some c"
  shows "fmlookup (tr_requests pr') tid = Some c"
  using assms
proof (induction es arbitrary: pr h)
  case (Cons e es)
  then obtain pr1 h1 where 1: "tr_do e (pr, h) = Inr (pr1, h1)" "tr_run es (pr1, h1) = Inr (pr', h')"
    by (auto simp: tr_run_def)
  have "fmlookup (tr_requests pr1) tid = Some c"
    using Cons.prems(2) [of e] Cons.prems(3) 1(1)
    by (cases e) (auto simp: Tracker_Register_def Tracker_Finish_def Let_def go_simps split: option.splits)
  with Cons.IH [OF 1(2)] Cons.prems(2) show ?case by simp
qed (simp add: tr_run_def)



end
