(* ===== verification/Req_Buf.thy ===== *)
theory Req_Buf
  imports Prelude
begin

text \<open>
  The buffer of client requests, \<open>peer/req_buf.go\<close>. Many threads call \<open>add\<close> under the read lock and draw a slot
  with an atomic increment of the 32-bit counter; \<open>flush\<close> holds the write lock. An \<open>add\<close> that finds the buffer full waits
  on the condition variable (\<open>rb_wait\<close>); the broadcast of \<open>flush\<close> lets it try again (\<open>rb_woken\<close>).
\<close>

definition propBufCap :: nat where
  "propBufCap = 1024"

lemma propBufCap_pos [simp]: "0 < propBufCap"
  by (simp add: propBufCap_def)

record 'e reqBuf =
  rb_b :: "'e list"
  rb_i :: "32 word"
  rb_threshold :: "32 word"
  rb_wait :: "'e list"
  rb_woken :: "'e list"

text \<open>The zero value of the array, then \<open>init\<close>.\<close>

definition reqBuf_init :: "'e \<Rightarrow> 32 word \<Rightarrow> 'e reqBuf" where
  "reqBuf_init zero threshold =
     \<lparr>rb_b = replicate propBufCap zero, rb_i = 0, rb_threshold = threshold, rb_wait = [], rb_woken = []\<rparr>"

text \<open>One round of the loop of \<open>add\<close>.\<close>

definition reqBuf_add :: "'e \<Rightarrow> 'e reqBuf \<Rightarrow> 'e reqBuf go" where
  "reqBuf_add e b =
     (let n = rb_i b + 1; i = sint (n - 1) in
      if i < int propBufCap
      then (if i < 0 then Inl IndexRange else Inr (b\<lparr>rb_b := (rb_b b)[nat i := e], rb_i := n\<rparr>))
      else Inr (b\<lparr>rb_i := n, rb_wait := rb_wait b @ [e]\<rparr>))"

definition reqBuf_flush :: "bool \<Rightarrow> 'e reqBuf \<Rightarrow> 'e list \<times> 'e reqBuf" where
  "reqBuf_flush force b =
     (if sint (rb_i b) < sint (rb_threshold b) \<and> \<not> force then ([], b)
      else let full = sint (rb_i b) \<ge> int propBufCap;
               i = (if full then int propBufCap else sint (rb_i b));
               b1 = (if full then b\<lparr>rb_wait := [], rb_woken := rb_woken b @ rb_wait b\<rparr> else b)
           in if i > 0 then (take (nat i) (rb_b b1), b1\<lparr>rb_i := 0\<rparr>) else ([], b1))"

subsection \<open>Histories\<close>

datatype 'e rb_ev = Add 'e | Retry nat | Flush bool

fun rb_do :: "'e rb_ev \<Rightarrow> 'e reqBuf \<Rightarrow> ('e list \<times> 'e reqBuf) go" where
  "rb_do (Add e) b = go_bind (reqBuf_add e b) (\<lambda>b'. Inr ([], b'))"
| "rb_do (Retry k) b =
     (if k < length (rb_woken b)
      then go_bind (reqBuf_add (rb_woken b ! k) (b\<lparr>rb_woken := take k (rb_woken b) @ drop (Suc k) (rb_woken b)\<rparr>))
             (\<lambda>b'. Inr ([], b'))
      else Inr ([], b))"
| "rb_do (Flush force) b = Inr (reqBuf_flush force b)"

fun rb_added :: "'e rb_ev \<Rightarrow> 'e list" where
  "rb_added (Add e) = [e]"
| "rb_added _ = []"

text \<open>The states a buffer reaches, with what was added and what was flushed, in order.\<close>

inductive rb_reach :: "'e \<Rightarrow> 32 word \<Rightarrow> 'e list \<Rightarrow> 'e list \<Rightarrow> 'e reqBuf \<Rightarrow> bool" for zero threshold where
  rb_start: "rb_reach zero threshold [] [] (reqBuf_init zero threshold)"
| rb_event: "rb_reach zero threshold A D b \<Longrightarrow> length (rb_wait b) < 2 ^ 30 \<Longrightarrow> rb_do ev b = Inr (batch, b') \<Longrightarrow>
     rb_reach zero threshold (A @ rb_added ev) (D @ batch) b'"

definition rb_ok :: "'e reqBuf \<Rightarrow> bool" where
  "rb_ok b \<longleftrightarrow> length (rb_b b) = propBufCap \<and> 0 \<le> sint (rb_i b)
     \<and> sint (rb_i b) \<le> int propBufCap + int (length (rb_wait b))
     \<and> (rb_wait b \<noteq> [] \<longrightarrow> sint (rb_i b) = int propBufCap + int (length (rb_wait b)))"

definition rb_contents :: "'e reqBuf \<Rightarrow> 'e list" where
  "rb_contents b = take (nat (sint (rb_i b))) (rb_b b)"

lemma sint_inc:
  assumes "0 \<le> sint i" "sint i < 2 ^ 31 - 1"
  shows "sint (i + 1 :: 32 word) = sint i + 1"
proof -
  have "signed_take_bit 31 (sint i + 1) = sint i + 1" using assms by (intro signed_take_bit_int_eq_self) auto
  then show ?thesis by (simp add: sint_word_add)
qed

lemma take_update_snoc: "n < length xs \<Longrightarrow> take (Suc n) (xs[n := e]) = take n xs @ [e]"
  by (simp add: take_Suc_conv_app_nth)

text \<open>With room left a request goes behind the others; without it the thread waits.\<close>

lemma add_room:
  assumes "rb_ok b" "sint (rb_i b) < int propBufCap"
  shows "\<exists>b'. reqBuf_add e b = Inr b' \<and> rb_ok b' \<and> rb_contents b' = rb_contents b @ [e]
    \<and> rb_wait b' = [] \<and> rb_wait b = [] \<and> rb_woken b' = rb_woken b"
proof -
  let ?i = "sint (rb_i b)"
  have i: "0 \<le> ?i" "rb_wait b = []" "length (rb_b b) = propBufCap" using assms by (auto simp: rb_ok_def)
  have inc: "sint (rb_i b + 1) = ?i + 1" using i assms(2) by (intro sint_inc) (auto simp: propBufCap_def)
  have "nat (?i + 1) = Suc (nat ?i)" using i by simp
  with i assms(2) have "take (nat (?i + 1)) ((rb_b b)[nat ?i := e]) = take (nat ?i) (rb_b b) @ [e]"
    by (simp add: take_update_snoc)
  with i assms(2) show ?thesis
    by (auto simp: reqBuf_add_def Let_def rb_ok_def rb_contents_def inc)
qed

lemma add_full:
  assumes "rb_ok b" "\<not> sint (rb_i b) < int propBufCap" "length (rb_wait b) < 2 ^ 30"
  shows "\<exists>b'. reqBuf_add e b = Inr b' \<and> rb_ok b' \<and> rb_contents b' = rb_contents b
    \<and> rb_wait b' = rb_wait b @ [e] \<and> rb_woken b' = rb_woken b"
proof -
  have "sint (rb_i b + 1) = sint (rb_i b) + 1"
    using assms by (intro sint_inc) (auto simp: rb_ok_def propBufCap_def)
  with assms show ?thesis
    by (auto simp: reqBuf_add_def Let_def rb_ok_def rb_contents_def propBufCap_def)
qed

definition rb_pending :: "'e reqBuf \<Rightarrow> 'e multiset" where
  "rb_pending b = mset (rb_contents b) + mset (rb_wait b) + mset (rb_woken b)"

lemma add_ok:
  assumes "rb_ok b" "length (rb_wait b) < 2 ^ 30"
  shows "\<exists>b'. reqBuf_add e b = Inr b' \<and> rb_ok b' \<and> rb_pending b' = add_mset e (rb_pending b)"
proof (cases "sint (rb_i b) < int propBufCap")
  case True
  from add_room [OF assms(1) this, of e] show ?thesis by (auto simp: rb_pending_def)
next
  case False
  from add_full [OF assms(1) this assms(2), of e] show ?thesis by (auto simp: rb_pending_def)
qed

lemma flush_ok:
  assumes "rb_ok b" "reqBuf_flush force b = (batch, b')"
  shows "rb_ok b' \<and> mset batch + rb_pending b' = rb_pending b"
  using assms by (auto simp: reqBuf_flush_def Let_def rb_ok_def rb_pending_def rb_contents_def split: if_splits)

lemma remove_nth_mset:
  "k < length xs \<Longrightarrow> mset xs = add_mset (xs ! k) (mset (take k xs @ drop (Suc k) xs))"
  by (metis id_take_nth_drop mset.simps(2) mset_append union_mset_add_mset_right)

lemma rb_do_ok:
  assumes "rb_ok b" "length (rb_wait b) < 2 ^ 30"
  shows "\<exists>batch b'. rb_do ev b = Inr (batch, b') \<and> rb_ok b' \<and>
    mset batch + rb_pending b' = mset (rb_added ev) + rb_pending b"
proof (cases ev)
  case (Add e)
  with add_ok [OF assms, of e] show ?thesis by auto
next
  case (Retry k)
  let ?b = "b\<lparr>rb_woken := take k (rb_woken b) @ drop (Suc k) (rb_woken b)\<rparr>"
  show ?thesis
  proof (cases "k < length (rb_woken b)")
    case True
    have "rb_ok ?b" "length (rb_wait ?b) < 2 ^ 30" using assms by (simp_all add: rb_ok_def)
    from add_ok [OF this, of "rb_woken b ! k"] obtain b' where b': "reqBuf_add (rb_woken b ! k) ?b = Inr b'" "rb_ok b'"
      "rb_pending b' = add_mset (rb_woken b ! k) (rb_pending ?b)" by blast
    have "add_mset (rb_woken b ! k) (rb_pending ?b) = rb_pending b"
      using remove_nth_mset [OF True] by (simp add: rb_pending_def rb_contents_def)
    with b' Retry True show ?thesis by simp
  qed (use Retry assms in simp)
next
  case (Flush force)
  with flush_ok [OF assms(1)] show ?thesis by (cases "reqBuf_flush force b") auto
qed

lemma rb_reach_ok:
  assumes "rb_reach zero threshold A D b"
  shows "rb_ok b \<and> mset A = mset D + rb_pending b"
  using assms
proof induction
  case rb_start
  show ?case by (simp add: rb_ok_def reqBuf_init_def propBufCap_def rb_pending_def rb_contents_def)
next
  case (rb_event A D b ev batch b')
  from rb_event.IH have ok: "rb_ok b" by simp
  from rb_do_ok [OF ok rb_event.hyps(2), of ev] rb_event.hyps(3)
  have "rb_ok b'" "mset batch + rb_pending b' = mset (rb_added ev) + rb_pending b" by auto
  with rb_event.IH show ?case by (simp add: ac_simps)
qed


lemma ex_reach: "rb_reach (0 :: nat) 1 [5, 6] [] \<lparr>rb_b = [5, 6] @ replicate 1022 0, rb_i = 2, rb_threshold = 1, rb_wait = [], rb_woken = []\<rparr>"
proof -
  let ?s = "\<lambda>xs i. \<lparr>rb_b = xs @ replicate (1024 - length xs) (0 :: nat), rb_i = i, rb_threshold = 1, rb_wait = [], rb_woken = []\<rparr>"
  have 0: "rb_reach (0 :: nat) 1 [] [] (?s [] 0)"
    using rb_start [of "0 :: nat" 1] by (simp add: reqBuf_init_def propBufCap_def)
  have r: "replicate 1024 (0 :: nat) = 0 # replicate 1023 0" "replicate 1023 (0 :: nat) = 0 # replicate 1022 0"
    by (simp_all add: replicate_Suc [symmetric] del: replicate_Suc)
  have "rb_reach (0 :: nat) 1 ([] @ rb_added (Add 5)) ([] @ []) (?s [5] 1)"
    by (rule rb_event [OF 0]) (simp_all add: reqBuf_add_def Let_def propBufCap_def r)
  then have "rb_reach (0 :: nat) 1 ([5] @ rb_added (Add 6)) ([] @ []) (?s [5, 6] 2)"
    by (intro rb_event [where b = "?s [5] 1"]) (simp_all add: reqBuf_add_def Let_def propBufCap_def r)
  then show ?thesis by simp
qed


text \<open>
  Claim C16. Refinement: the buffer is a queue that is emptied as a whole. While there is room, \<open>add\<close> appends to the
  contents; a \<open>flush\<close> that is forced or has reached the threshold hands over the contents in the order in which the
  slots were drawn and leaves the buffer empty; any other \<open>flush\<close> changes nothing.
\<close>

theorem reqbuf_refines_queue:
  assumes "rb_reach zero threshold A D b"
  shows "(sint (rb_i b) < 1024 \<longrightarrow> (\<exists>b'. reqBuf_add e b = Inr b' \<and> rb_contents b' = rb_contents b @ [e]))
    \<and> (case reqBuf_flush force b of (batch, b') \<Rightarrow>
         if force \<or> sint (rb_threshold b) \<le> sint (rb_i b)
         then batch = rb_contents b \<and> rb_contents b' = [] else batch = [] \<and> b' = b)"
proof -
  from rb_reach_ok [OF assms] have ok: "rb_ok b" by simp
  have "sint (rb_i b) < 1024 \<longrightarrow> (\<exists>b'. reqBuf_add e b = Inr b' \<and> rb_contents b' = rb_contents b @ [e])"
    using add_room [OF ok, of e] by (auto simp: propBufCap_def)
  moreover have "case reqBuf_flush force b of (batch, b') \<Rightarrow>
         if force \<or> sint (rb_threshold b) \<le> sint (rb_i b)
         then batch = rb_contents b \<and> rb_contents b' = [] else batch = [] \<and> b' = b"
    using ok by (auto simp: reqBuf_flush_def Let_def rb_ok_def rb_contents_def)
  ultimately show ?thesis ..
qed

theorem reqbuf_refines_queue_witness:
  "fst (reqBuf_flush True \<lparr>rb_b = [5, 6] @ replicate 1022 (0 :: nat), rb_i = 2, rb_threshold = 1, rb_wait = [], rb_woken = []\<rparr>)
    = [5, 6]"
  using reqbuf_refines_queue [OF ex_reach, of 7 True] by (simp add: rb_contents_def split: prod.splits)

end
