(* ===== verification/Timer.thy ===== *)
theory Timer
  imports Prelude
begin

text \<open>
  The ticking timer of \<open>peer/timer.go\<close> and the two ways in which the protocols register one:
  \<open>registerInfiniteTimer\<close> (\<open>chainhotstuff.go\<close>, \<open>prime.go\<close>) instruments it to reset itself,
  \<open>registerOneTimeTimer\<close> (\<open>prime.go\<close>, \<open>dispel.go\<close>) to stop and unregister itself.

  The field \<open>onTimeout\<close> is a closure, and \<open>Instrument\<close> puts another closure in front of it; here it
  is the list of what the closures do, in the order of the calls. \<open>User a\<close> stands for the
  protocol's own callback; a tick returns those it ran.
\<close>

datatype 'a timerCB = ResetSelf | UnregisterSelf | User 'a

record 'a tickingTimer =
  t_timeout :: int
  t_ticksElapsed :: int
  t_paused :: bool
  t_onTimeout :: "'a timerCB list"

definition MakeTickingTimer :: "int \<Rightarrow> 'a \<Rightarrow> 'a tickingTimer" where
  "MakeTickingTimer timeout cb =
     \<lparr>t_timeout = timeout, t_ticksElapsed = 0, t_paused = True, t_onTimeout = [User cb]\<rparr>"

definition Timer_Reset :: "'a tickingTimer \<Rightarrow> 'a tickingTimer" where
  "Timer_Reset t = t\<lparr>t_paused := False, t_ticksElapsed := 0\<rparr>"

definition resetWithJitter :: "int \<Rightarrow> 'a tickingTimer \<Rightarrow> 'a tickingTimer" where
  "resetWithJitter jitter t = t\<lparr>t_paused := False, t_ticksElapsed := jitter\<rparr>"

definition Timer_Stop :: "'a tickingTimer \<Rightarrow> 'a tickingTimer" where
  "Timer_Stop t = t\<lparr>t_paused := True, t_ticksElapsed := 0\<rparr>"

definition Timer_IsSet :: "'a tickingTimer \<Rightarrow> bool" where
  "Timer_IsSet t \<longleftrightarrow> \<not> t_paused t"

definition Timer_Instrument :: "'a timerCB \<Rightarrow> 'a tickingTimer \<Rightarrow> 'a tickingTimer" where
  "Timer_Instrument cb t = t\<lparr>t_onTimeout := cb # t_onTimeout t\<rparr>"

text \<open>The call of \<open>onTimeout\<close>: the timer afterwards, and the protocol's callbacks that ran.\<close>

fun run_onTimeout :: "'a timerCB list \<Rightarrow> 'a tickingTimer \<Rightarrow> 'a tickingTimer \<times> 'a list" where
  "run_onTimeout [] t = (t, [])"
| "run_onTimeout (ResetSelf # cbs) t = run_onTimeout cbs (Timer_Reset t)"
| "run_onTimeout (UnregisterSelf # cbs) t = run_onTimeout cbs (Timer_Stop t)"
| "run_onTimeout (User a # cbs) t = (case run_onTimeout cbs t of (t', as) \<Rightarrow> (t', a # as))"

definition Timer_Tick :: "'a tickingTimer \<Rightarrow> 'a tickingTimer \<times> 'a list" where
  "Timer_Tick t =
     (if t_paused t then (t, [])
      else let t1 = t\<lparr>t_ticksElapsed := t_ticksElapsed t + 1\<rparr> in
        if t_ticksElapsed t1 \<ge> t_timeout t1
        then run_onTimeout (t_onTimeout t1) (t1\<lparr>t_paused := True\<rparr>)
        else (t1, []))"

definition registerInfiniteTimer :: "'a tickingTimer \<Rightarrow> 'a tickingTimer" where
  "registerInfiniteTimer t = Timer_Reset (Timer_Instrument ResetSelf t)"

definition registerOneTimeTimer :: "'a tickingTimer \<Rightarrow> 'a tickingTimer" where
  "registerOneTimeTimer t = Timer_Reset (Timer_Instrument UnregisterSelf t)"

text \<open>Ticking \<open>n\<close> times: the timer and how often the protocol's callbacks ran.\<close>

fun ticks :: "nat \<Rightarrow> 'a tickingTimer \<Rightarrow> 'a tickingTimer \<times> 'a list" where
  "ticks 0 t = (t, [])"
| "ticks (Suc n) t = (case ticks n t of (t1, as) \<Rightarrow> case Timer_Tick t1 of (t2, bs) \<Rightarrow> (t2, as @ bs))"

lemma Tick_paused: "t_paused t \<Longrightarrow> Timer_Tick t = (t, [])"
  by (simp add: Timer_Tick_def)

lemmas timer_defs = Timer_Tick_def Timer_Reset_def Timer_Stop_def Timer_Instrument_def
  MakeTickingTimer_def registerInfiniteTimer_def registerOneTimeTimer_def Let_def

lemma registerInfiniteTimer_Make:
  "registerInfiniteTimer (MakeTickingTimer k a) =
     \<lparr>t_timeout = k, t_ticksElapsed = 0, t_paused = False, t_onTimeout = [ResetSelf, User a]\<rparr>"
  by (simp add: timer_defs)

lemma registerOneTimeTimer_Make:
  "registerOneTimeTimer (MakeTickingTimer k a) =
     \<lparr>t_timeout = k, t_ticksElapsed = 0, t_paused = False, t_onTimeout = [UnregisterSelf, User a]\<rparr>"
  by (simp add: timer_defs)

lemma Tick_infinite:
  "Timer_Tick \<lparr>t_timeout = k, t_ticksElapsed = e, t_paused = False, t_onTimeout = [ResetSelf, User a]\<rparr> =
     (\<lparr>t_timeout = k, t_ticksElapsed = (if k \<le> e + 1 then 0 else e + 1), t_paused = False,
       t_onTimeout = [ResetSelf, User a]\<rparr>, if k \<le> e + 1 then [a] else [])"
  by (simp add: Timer_Tick_def Timer_Reset_def Let_def)

lemma Tick_one_time:
  "Timer_Tick \<lparr>t_timeout = k, t_ticksElapsed = e, t_paused = b, t_onTimeout = [UnregisterSelf, User a]\<rparr> =
     (\<lparr>t_timeout = k, t_ticksElapsed = (if b then e else if k \<le> e + 1 then 0 else e + 1),
       t_paused = (b \<or> k \<le> e + 1), t_onTimeout = [UnregisterSelf, User a]\<rparr>,
      if \<not> b \<and> k \<le> e + 1 then [a] else [])"
  by (simp add: Timer_Tick_def Timer_Stop_def Let_def)

lemma ticks_infinite:
  assumes "0 < k"
  shows "ticks n \<lparr>t_timeout = int k, t_ticksElapsed = 0, t_paused = False, t_onTimeout = [ResetSelf, User a]\<rparr> =
    (\<lparr>t_timeout = int k, t_ticksElapsed = int (n mod k), t_paused = False,
      t_onTimeout = [ResetSelf, User a]\<rparr>, replicate (n div k) a)"
proof (induction n)
  case (Suc n)
  have "n mod k < k" using assms by simp
  then have "int k \<le> int (n mod k) + 1 \<longleftrightarrow> Suc (n mod k) = k" by linarith
  then show ?case
    by (simp only: ticks.simps Suc prod.case Tick_infinite)
      (simp add: mod_Suc div_Suc replicate_append_same)
qed simp

lemma ticks_one_time:
  assumes "0 < k"
  shows "ticks n \<lparr>t_timeout = int k, t_ticksElapsed = 0, t_paused = False, t_onTimeout = [UnregisterSelf, User a]\<rparr> =
    (\<lparr>t_timeout = int k, t_ticksElapsed = (if n < k then int n else 0), t_paused = (k \<le> n),
      t_onTimeout = [UnregisterSelf, User a]\<rparr>, if n < k then [] else [a])"
proof (induction n)
  case (Suc n)
  show ?case by (simp only: ticks.simps Suc prod.case Tick_one_time) auto
qed (use assms in simp)

text \<open>
  A timer registered with \<open>registerInfiniteTimer\<close> and a positive timeout \<open>k\<close> runs its
  callback once in every \<open>k\<close> ticks, for ever; one registered with \<open>registerOneTimeTimer\<close> runs
  it at the \<open>k\<close>-th tick, never again, and is no longer set.
\<close>

theorem timer_fires:
  assumes "0 < k"
  shows "snd (ticks n (registerInfiniteTimer (MakeTickingTimer (int k) a))) = replicate (n div k) a
    \<and> snd (ticks n (registerOneTimeTimer (MakeTickingTimer (int k) a))) = (if n < k then [] else [a])
    \<and> (Timer_IsSet (fst (ticks n (registerOneTimeTimer (MakeTickingTimer (int k) a)))) \<longleftrightarrow> n < k)"
  unfolding registerInfiniteTimer_Make registerOneTimeTimer_Make
  using ticks_infinite [OF assms, of n a] ticks_one_time [OF assms, of n a]
  by (simp add: Timer_IsSet_def not_le)

theorem timer_fires_witness:
  "snd (ticks 7 (registerInfiniteTimer (MakeTickingTimer (int 3) ''beat''))) = [''beat'', ''beat'']"
  using timer_fires [of 3 7 "''beat''"] by (simp add: numeral_2_eq_2)

end
