(* ===== verification/Worker.thy ===== *)
theory Worker
  imports Prelude
begin

text \<open>
  The worker pool of \<open>pkg/worker/worker.go\<close>. Signing and verifying run in workers; what a
  protocol does with the result is a callback that the worker puts on the channel
  \<open>callbackC\<close> and that the protocol runs in its own thread (\<open>AsyncCallback\<close>).

  A job is the pair of closures \<open>execFunc\<close> and \<open>callbackFunc\<close>; here it is a value of type \<open>'j\<close>, and
  the function \<open>ex\<close> that says what its \<open>execFunc\<close> returns is an argument. The threads
  of the pool are interleaved: \<open>pool_step\<close> has one rule per point where one of them proceeds.
  \<open>d_workerPool\<close> is the number of job channels registered in \<open>workerPool\<close>, that is of idle
  workers; \<open>d_held\<close> is the job that \<open>dispatch\<close> has removed from the queue while it waits for an idle
  worker; \<open>d_busy\<close> are the jobs the workers are running.
\<close>

record ('j, 'r) Dispatcher =
  d_jobQueue :: "'j list"
  d_held :: "'j option"
  d_workerPool :: nat
  d_busy :: "'j list"
  d_maxWorkers :: nat
  d_callbackC :: "('j \<times> 'r) list"
  d_callbackCap :: nat

definition NewDispatcher :: "nat \<Rightarrow> nat \<Rightarrow> ('j, 'r) Dispatcher" where
  "NewDispatcher maxWorkers cap =
     \<lparr>d_jobQueue = [], d_held = None, d_workerPool = 0, d_busy = [], d_maxWorkers = maxWorkers,
      d_callbackC = [], d_callbackCap = cap\<rparr>"

text \<open>\<open>Run\<close> starts the workers; each registers its job channel.\<close>

definition Dispatcher_Run :: "('j, 'r) Dispatcher \<Rightarrow> ('j, 'r) Dispatcher" where
  "Dispatcher_Run d = d\<lparr>d_workerPool := d_workerPool d + d_maxWorkers d\<rparr>"

definition Dispatcher_Exec :: "'j \<Rightarrow> ('j, 'r) Dispatcher \<Rightarrow> ('j, 'r) Dispatcher" where
  "Dispatcher_Exec j d = d\<lparr>d_jobQueue := d_jobQueue d @ [j]\<rparr>"

text \<open>\<open>dispatch\<close>: take the front of the queue, then hand it to an idle worker.\<close>

definition dispatch_take :: "('j, 'r) Dispatcher \<Rightarrow> ('j, 'r) Dispatcher option" where
  "dispatch_take d = (case (d_held d, d_jobQueue d) of
     (None, j # js) \<Rightarrow> Some (d\<lparr>d_held := Some j, d_jobQueue := js\<rparr>) | _ \<Rightarrow> None)"

definition dispatch_assign :: "('j, 'r) Dispatcher \<Rightarrow> ('j, 'r) Dispatcher option" where
  "dispatch_assign d = (case d_held d of
     Some j \<Rightarrow> (if 0 < d_workerPool d
        then Some (d\<lparr>d_held := None, d_workerPool := d_workerPool d - 1, d_busy := d_busy d @ [j]\<rparr>)
        else None)
   | None \<Rightarrow> None)"

text \<open>
  A worker finishes the \<open>i\<close>-th running job: it sends the callback, which blocks while \<open>callbackC\<close>
  is full, and registers again.
\<close>

definition worker_finish :: "('j \<Rightarrow> 'r) \<Rightarrow> nat \<Rightarrow> ('j, 'r) Dispatcher \<Rightarrow> ('j, 'r) Dispatcher option" where
  "worker_finish ex i d =
     (if i < length (d_busy d) \<and> length (d_callbackC d) < d_callbackCap d
      then Some (d\<lparr>d_busy := take i (d_busy d) @ drop (Suc i) (d_busy d),
                   d_callbackC := d_callbackC d @ [(d_busy d ! i, ex (d_busy d ! i))],
                   d_workerPool := d_workerPool d + 1\<rparr>)
      else None)"

inductive pool_step :: "('j \<Rightarrow> 'r) \<Rightarrow> ('j, 'r) Dispatcher \<Rightarrow> ('j, 'r) Dispatcher \<Rightarrow> bool" for ex where
  take_step: "dispatch_take d = Some d' \<Longrightarrow> pool_step ex d d'"
| assign_step: "dispatch_assign d = Some d' \<Longrightarrow> pool_step ex d d'"
| finish_step: "worker_finish ex i d = Some d' \<Longrightarrow> pool_step ex d d'"

text \<open>The protocol empties \<open>callbackC\<close>: \<open>AsyncCallback\<close> runs the callbacks in the order received.\<close>

definition drain_callbacks :: "('j, 'r) Dispatcher \<Rightarrow> ('j \<times> 'r) list \<times> ('j, 'r) Dispatcher" where
  "drain_callbacks d = (d_callbackC d, d\<lparr>d_callbackC := []\<rparr>)"

subsection \<open>No job is lost, duplicated or answered wrongly\<close>

definition unfinished :: "('j, 'r) Dispatcher \<Rightarrow> 'j list" where
  "unfinished d = d_busy d @ (case d_held d of None \<Rightarrow> [] | Some j \<Rightarrow> [j]) @ d_jobQueue d"

definition pool_jobs :: "('j, 'r) Dispatcher \<Rightarrow> 'j multiset" where
  "pool_jobs d = mset (map fst (d_callbackC d)) + mset (unfinished d)"

definition pool_ok :: "('j \<Rightarrow> 'r) \<Rightarrow> ('j, 'r) Dispatcher \<Rightarrow> bool" where
  "pool_ok ex d \<longleftrightarrow> d_workerPool d + length (d_busy d) = d_maxWorkers d
     \<and> list_all (\<lambda>(j, r). r = ex j) (d_callbackC d)"

lemma mset_remove_nth:
  "i < length xs \<Longrightarrow> add_mset (xs ! i) (mset (take i xs @ drop (Suc i) xs)) = mset xs"
  by (metis mset_append mset.simps(2) id_take_nth_drop union_mset_add_mset_right)

lemma pool_jobs_Exec [simp]: "pool_jobs (Dispatcher_Exec j d) = add_mset j (pool_jobs d)"
  by (simp add: pool_jobs_def unfinished_def Dispatcher_Exec_def)

lemma finish_jobs:
  assumes "worker_finish ex i d = Some d'"
  shows "pool_jobs d' = pool_jobs d"
proof -
  from assms have i: "i < length (d_busy d)" by (auto simp: worker_finish_def split: if_splits)
  note [simp] = mset_remove_nth [OF i, symmetric]
  from assms show ?thesis
    by (auto simp: worker_finish_def pool_jobs_def unfinished_def split: if_splits)
qed

lemma pool_step_jobs:
  assumes "pool_step ex d d'"
  shows "pool_jobs d' = pool_jobs d"
  using assms
proof (cases rule: pool_step.cases)
  case (finish_step i)
  then show ?thesis by (rule finish_jobs)
qed (auto simp: dispatch_take_def dispatch_assign_def pool_jobs_def unfinished_def
    split: option.splits list.splits if_splits)

lemma pool_step_ok: "pool_step ex d d' \<Longrightarrow> pool_ok ex d \<Longrightarrow> pool_ok ex d'"
  by (cases rule: pool_step.cases, assumption)
    (auto simp: dispatch_take_def dispatch_assign_def worker_finish_def pool_ok_def
      split: option.splits list.splits if_splits)

lemma pool_ok_init: "pool_ok ex (Dispatcher_Run (NewDispatcher w c))"
  by (simp add: pool_ok_def Dispatcher_Run_def NewDispatcher_def)

lemma pool_ok_Exec [simp]: "pool_ok ex (Dispatcher_Exec j d) = pool_ok ex d"
  by (simp add: pool_ok_def Dispatcher_Exec_def)

subsection \<open>Every job reaches its callback\<close>

definition pool_work :: "('j, 'r) Dispatcher \<Rightarrow> nat" where
  "pool_work d = 3 * length (d_jobQueue d) + (if d_held d = None then 0 else 2) + length (d_busy d)"

lemma pool_step_work: "pool_step ex d d' \<Longrightarrow> pool_work d' < pool_work d"
  by (cases rule: pool_step.cases, assumption)
    (auto simp: dispatch_take_def dispatch_assign_def worker_finish_def pool_work_def
      split: option.splits list.splits if_splits)

text \<open>The pool is never stuck while it has work and the callback channel has room.\<close>

lemma pool_progress:
  assumes "pool_ok ex d" "0 < d_maxWorkers d" "unfinished d \<noteq> []"
    "length (d_callbackC d) < d_callbackCap d"
  shows "\<exists>d'. pool_step ex d d'"
proof (cases "d_busy d")
  case Nil
  with assms(1,2) have "0 < d_workerPool d" by (simp add: pool_ok_def)
  with Nil assms(3) have "dispatch_assign d \<noteq> None \<or> dispatch_take d \<noteq> None"
    by (cases "d_held d"; cases "d_jobQueue d")
      (auto simp: unfinished_def dispatch_take_def dispatch_assign_def)
  then show ?thesis by (auto intro: pool_step.take_step pool_step.assign_step)
next
  case (Cons j js)
  with assms(4) have "worker_finish ex 0 d \<noteq> None" by (simp add: worker_finish_def)
  then show ?thesis by (auto intro: pool_step.finish_step)
qed

lemma pool_step_frame:
  "pool_step ex d d' \<Longrightarrow> d_maxWorkers d' = d_maxWorkers d \<and> d_callbackCap d' = d_callbackCap d"
  by (cases rule: pool_step.cases, assumption)
    (auto simp: dispatch_take_def dispatch_assign_def worker_finish_def
      split: option.splits list.splits if_splits)

lemma pool_room:
  assumes "size (pool_jobs d) \<le> d_callbackCap d" "unfinished d \<noteq> []"
  shows "length (d_callbackC d) < d_callbackCap d"
  using assms by (cases "unfinished d") (auto simp: pool_jobs_def)

lemma pool_runs_to_completion:
  assumes "pool_ok ex d" "0 < d_maxWorkers d" "size (pool_jobs d) \<le> d_callbackCap d"
  shows "\<exists>d'. (pool_step ex)\<^sup>*\<^sup>* d d' \<and> unfinished d' = []"
  using assms
proof (induction "pool_work d" arbitrary: d rule: less_induct)
  case less
  show ?case
  proof (cases "unfinished d = []")
    case False
    from less.prems pool_room [OF less.prems(3) False] False
    obtain d1 where s: "pool_step ex d d1" using pool_progress by blast
    from less.prems have "pool_ok ex d1" "0 < d_maxWorkers d1" "size (pool_jobs d1) \<le> d_callbackCap d1"
      using pool_step_ok [OF s] pool_step_frame [OF s] pool_step_jobs [OF s] by auto
    from less.hyps [OF pool_step_work [OF s] this] s show ?thesis
      by (meson converse_rtranclp_into_rtranclp)
  qed blast
qed

text \<open>Along any schedule the jobs are conserved and every result is the job's own.\<close>

lemma pool_steps_jobs:
  assumes "(pool_step ex)\<^sup>*\<^sup>* d d'"
  shows "pool_jobs d' = pool_jobs d"
  using assms by induction (simp_all add: pool_step_jobs)

lemma pool_steps_ok:
  assumes "(pool_step ex)\<^sup>*\<^sup>* d d'" "pool_ok ex d"
  shows "pool_ok ex d'"
  using assms by induction (auto intro: pool_step_ok)

subsection \<open>One worker keeps the order\<close>

text \<open>With a single worker the callbacks arrive in the order of the calls of \<open>Exec\<close>.\<close>

definition pool_line :: "('j, 'r) Dispatcher \<Rightarrow> 'j list" where
  "pool_line d = map fst (d_callbackC d) @ unfinished d"

lemma single_worker_order:
  assumes "pool_step ex d d'" "pool_ok ex d" "d_maxWorkers d = 1"
  shows "pool_line d' = pool_line d"
  using assms
proof (cases rule: pool_step.cases)
  case (finish_step i)
  from assms(2,3) have "length (d_busy d) \<le> 1" by (simp add: pool_ok_def)
  with finish_step show ?thesis
    by (cases "d_busy d") (auto simp: worker_finish_def pool_line_def unfinished_def split: if_splits)
next
  case assign_step
  with assms(2,3) show ?thesis
    by (auto simp: dispatch_assign_def pool_line_def unfinished_def pool_ok_def split: option.splits if_splits)
qed (auto simp: dispatch_take_def pool_line_def unfinished_def split: option.splits list.splits)

lemma single_worker_order_run:
  assumes "(pool_step ex)\<^sup>*\<^sup>* d d'" "pool_ok ex d" "d_maxWorkers d = 1"
  shows "pool_line d' = pool_line d \<and> pool_ok ex d' \<and> d_maxWorkers d' = 1"
  using assms
proof induction
  case (step y z)
  then show ?case
    using single_worker_order [OF step.hyps(2)] pool_step_ok [OF step.hyps(2)]
      pool_step_frame [OF step.hyps(2)] by auto
qed simp

subsection \<open>A batch of jobs given to a fresh pool\<close>

definition pool_with :: "nat \<Rightarrow> nat \<Rightarrow> 'j list \<Rightarrow> ('j, 'r) Dispatcher" where
  "pool_with w c js = fold Dispatcher_Exec js (Dispatcher_Run (NewDispatcher w c))"

lemma fold_Exec:
  "fold Dispatcher_Exec js d = d\<lparr>d_jobQueue := d_jobQueue d @ js\<rparr>"
  by (induction js arbitrary: d) (simp_all add: Dispatcher_Exec_def)

lemma pool_with_sel [simp]:
  "pool_ok ex (pool_with w c js)" "pool_jobs (pool_with w c js) = mset js"
  "d_maxWorkers (pool_with w c js) = w" "d_callbackCap (pool_with w c js) = c" "pool_line (pool_with w c js) = js"
  by (simp_all add: pool_with_def fold_Exec pool_ok_def pool_jobs_def unfinished_def pool_line_def
      Dispatcher_Run_def NewDispatcher_def)

lemma pool_steps_frame:
  assumes "(pool_step ex)\<^sup>*\<^sup>* d d'"
  shows "d_maxWorkers d' = d_maxWorkers d \<and> d_callbackCap d' = d_callbackCap d"
  using assms by induction (auto dest: pool_step_frame)

lemma pool_callbacks:
  assumes "pool_ok ex d"
  shows "mset (d_callbackC d) = image_mset (\<lambda>j. (j, ex j)) (mset (map fst (d_callbackC d)))"
proof -
  have "map (\<lambda>j. (j, ex j)) (map fst (d_callbackC d)) = d_callbackC d"
    using assms by (auto simp: pool_ok_def list_all_iff intro!: map_idI)
  then show ?thesis by (metis mset_map)
qed



text \<open>
  With one worker the callbacks come back in the order in which the jobs were given to \<open>Exec\<close>.
\<close>

theorem single_worker_fifo:
  assumes "(pool_step ex)\<^sup>*\<^sup>* (pool_with 1 c js) d'"
  shows "prefix (map fst (d_callbackC d')) js"
proof -
  have "pool_line d' = js" using single_worker_order_run [OF assms] by simp
  then show ?thesis by (auto simp: pool_line_def)
qed

theorem single_worker_fifo_witness:
  "\<exists>d' :: (nat, nat) Dispatcher. (pool_step Suc)\<^sup>*\<^sup>* (pool_with 1 4 [5, 6]) d' \<and> unfinished d' = []
     \<and> prefix (map fst (d_callbackC d')) [5, 6]"
proof -
  obtain d' :: "(nat, nat) Dispatcher" where d': "(pool_step Suc)\<^sup>*\<^sup>* (pool_with 1 4 [5, 6]) d'" "unfinished d' = []"
    using pool_runs_to_completion [of Suc "pool_with 1 4 [5, 6]"] by auto
  with single_worker_fifo [OF d'(1)] show ?thesis by blast
qed

end
