(* ===== verification/Peer_Types.thy ===== *)
theory Peer_Types
  imports Command Timer Worker
begin

text \<open>
  What the peer and the protocols share: the transport's envelope (\<open>peerpb.Message\<close>), the packets
  handed to the applier (\<open>peer/applier.go\<close>), the ready batch and the configuration (\<open>peer/peer.go\<close>)
  and the interface \<open>Protocol\<close> (\<open>peer/protocol.go\<close>) as a record of operations over a state \<open>'s\<close>.
\<close>

record Message =
  msg_From :: PeerID
  msg_To :: PeerID
  msg_Content :: bytes
  msg_Certificate :: bytes

record ExecPacket =
  ep_Cmd :: Command
  ep_IsSpec :: bool
  ep_Meta :: bytes
  ep_Callback :: bool
  ep_NoExec :: bool

record ExecCallback =
  ec_Cmd :: Command
  ec_Result :: bytes

record Ready =
  rd_Messages :: "Message list"
  rd_OrderedCommands :: "ExecPacket list"

definition containsUpdates :: "Ready \<Rightarrow> bool" where
  "containsUpdates rd \<longleftrightarrow> 0 < length (rd_Messages rd) \<or> 0 < length (rd_OrderedCommands rd)"

text \<open>The packet \<open>peer.ExecPacket{Cmd: *cmd}\<close>.\<close>

definition mkExecPacket :: "Command \<Rightarrow> ExecPacket" where
  "mkExecPacket c =
     \<lparr>ep_Cmd = c, ep_IsSpec = False, ep_Meta = [], ep_Callback = False, ep_NoExec = False\<rparr>"

lemma ep_Cmd_mkExecPacket [simp]: "ep_Cmd (mkExecPacket c) = c"
  by (simp add: mkExecPacket_def)

record LocalConfig =
  cfg_ID :: PeerID
  cfg_Peers :: "PeerID list"
  cfg_LeaderID :: PeerID
  cfg_MaxFailures :: int
  cfg_Workers :: "(string, nat) fmap"
  cfg_WorkersQueueSizes :: "(string, nat) fmap"

record 's Protocol =
  pr_Step :: "Message \<Rightarrow> 's \<Rightarrow> 's go"
  pr_Tick :: "'s \<Rightarrow> 's go"
  pr_Request :: "Command \<Rightarrow> 's \<Rightarrow> 's go"
  pr_Callback :: "ExecCallback \<Rightarrow> 's \<Rightarrow> 's go"
  pr_MakeReady :: "'s \<Rightarrow> (Ready \<times> 's) go"
  pr_ClearMsgs :: "'s \<Rightarrow> 's"
  pr_ClearExecutedCommands :: "'s \<Rightarrow> 's"
  pr_AsyncCallback :: "'s \<Rightarrow> 's go"

text \<open>
  Starting the pool that a protocol's constructor asks for: the process panics when the
  configuration lacks the number of workers or the queue size under the given name.
\<close>

definition startDispatcher :: "LocalConfig \<Rightarrow> string \<Rightarrow> ('j, 'r) Dispatcher go" where
  "startDispatcher c name =
     (case fmlookup (cfg_Workers c) name of
        None \<Rightarrow> Inl PanicCall
      | Some w \<Rightarrow> (case fmlookup (cfg_WorkersQueueSizes c) name of
          None \<Rightarrow> Inl PanicCall
        | Some q \<Rightarrow> Inr (Dispatcher_Run (NewDispatcher w q))))"

end
