(* ===== verification/Applier.thy ===== *)
theory Applier
  imports Peer_Types
begin

text \<open>
  The key-value state machine of \<open>peer/applier.go\<close>: \<open>executeCommand\<close> runs the operations of a command against the map
  \<open>kv\<close>. An operation whose one-of field is not set dereferences nil, and reading a key that was never written
  panics. The map is indexed by \<open>Key.String\<close>, the quoted form \<open>%q\<close> of the bytes, which is the parameter \<open>Q\<close>; what the
  theorems use of it is that different keys have different quoted forms. The specification is \<open>last_write\<close>: what a key holds is the value of the last write to it.
\<close>

type_synonym kv_store = "(string, bytes) fmap"

definition kv_result :: "bytes \<Rightarrow> bytes \<Rightarrow> OperationResult" where
  "kv_result key val = OperationResult_KVOpResult (Some \<lparr>kvr_Key = key, kvr_Value = val, kvr_WriteSuccess = True\<rparr>)"

definition executeOp :: "(bytes \<Rightarrow> string) \<Rightarrow> Operation \<Rightarrow> kv_store \<Rightarrow> (OperationResult \<times> kv_store) go" where
  "executeOp Q op kv =
     (case GetKVOp op of
        None \<Rightarrow> Inl NilDeref
      | Some kvOp \<Rightarrow>
          if \<not> kv_Read kvOp then Inr (kv_result (kv_Key kvOp) [], fmupd (Q (kv_Key kvOp)) (kv_Value kvOp) kv)
          else (case fmlookup kv (Q (kv_Key kvOp)) of
                  None \<Rightarrow> Inl PanicCall
                | Some val \<Rightarrow> Inr (kv_result (kv_Key kvOp) val, kv)))"

fun executeOps :: "(bytes \<Rightarrow> string) \<Rightarrow> Operation list \<Rightarrow> kv_store \<Rightarrow> (OperationResult list \<times> kv_store) go" where
  "executeOps Q [] kv = Inr ([], kv)"
| "executeOps Q (op # ops) kv =
     go_bind (executeOp Q op kv) (\<lambda>(r, kv1). go_bind (executeOps Q ops kv1) (\<lambda>(rs, kv2). Inr (r # rs, kv2)))"

definition executeCommand :: "(bytes \<Rightarrow> string) \<Rightarrow> Command \<Rightarrow> kv_store \<Rightarrow> (CommandResult \<times> kv_store) go" where
  "executeCommand Q cmd kv =
     go_bind (executeOps Q (cmd_Ops cmd) kv) (\<lambda>(results, kv').
       Inr (\<lparr>res_Timestamp = cmd_Timestamp cmd, res_OpResults = results, res_Target = cmd_Target cmd, res_Meta = []\<rparr>, kv'))"

fun executeCommands :: "(bytes \<Rightarrow> string) \<Rightarrow> Command list \<Rightarrow> kv_store \<Rightarrow> (CommandResult list \<times> kv_store) go" where
  "executeCommands Q [] kv = Inr ([], kv)"
| "executeCommands Q (c # cs) kv =
     go_bind (executeCommand Q c kv) (\<lambda>(r, kv1). go_bind (executeCommands Q cs kv1) (\<lambda>(rs, kv2). Inr (r # rs, kv2)))"

subsection \<open>Specification\<close>

fun write_of :: "bytes \<Rightarrow> Operation \<Rightarrow> bytes option \<Rightarrow> bytes option" where
  "write_of k op old = (case GetKVOp op of
     Some o' \<Rightarrow> if \<not> kv_Read o' \<and> kv_Key o' = k then Some (kv_Value o') else old
   | None \<Rightarrow> old)"

definition last_write :: "(bytes \<Rightarrow> string) \<Rightarrow> kv_store \<Rightarrow> Operation list \<Rightarrow> bytes \<Rightarrow> bytes option" where
  "last_write Q kv ops k = fold (write_of k) ops (fmlookup kv (Q k))"

definition op_defined :: "(bytes \<Rightarrow> bytes option) \<Rightarrow> Operation \<Rightarrow> bool" where
  "op_defined st op = (case GetKVOp op of None \<Rightarrow> False | Some o' \<Rightarrow> kv_Read o' \<longrightarrow> st (kv_Key o') \<noteq> None)"

definition op_answer :: "(bytes \<Rightarrow> bytes option) \<Rightarrow> Operation \<Rightarrow> OperationResult" where
  "op_answer st op = (case GetKVOp op of None \<Rightarrow> OpResult_Nil
     | Some o' \<Rightarrow> kv_result (kv_Key o') (if kv_Read o' then the (st (kv_Key o')) else []))"

lemma last_write_Nil [simp]: "last_write Q kv [] = (\<lambda>k. fmlookup kv (Q k))"
  by (rule ext) (simp add: last_write_def)

lemma executeOp_Inr:
  assumes "inj Q" "executeOp Q op kv = Inr (r, kv')"
  shows "op_defined (\<lambda>k. fmlookup kv (Q k)) op \<and> r = op_answer (\<lambda>k. fmlookup kv (Q k)) op \<and> (\<forall>ops. last_write Q kv' ops = last_write Q kv (op # ops))"
  using assms by (auto simp: executeOp_def op_defined_def op_answer_def last_write_def fun_eq_iff inj_eq
      split: option.splits if_splits)

lemma executeOp_ok: "go_ok (executeOp Q op kv) \<longleftrightarrow> op_defined (\<lambda>k. fmlookup kv (Q k)) op"
  by (auto simp: executeOp_def op_defined_def split: option.splits)

text \<open>The state before the \<open>n\<close>-th operation decides whether it is defined and what it answers.\<close>

lemma executeOps_ok:
  assumes Q: "inj Q"
  shows "go_ok (executeOps Q ops kv) \<longleftrightarrow> (\<forall>n < length ops. op_defined (last_write Q kv (take n ops)) (ops ! n))"
proof (induction ops arbitrary: kv)
  case (Cons op ops)
  show ?case
  proof (cases "executeOp Q op kv")
    case (Inl e)
    then have "\<not> op_defined (\<lambda>k. fmlookup kv (Q k)) op" using executeOp_ok [of Q op kv] by simp
    with Inl show ?thesis by (auto intro!: exI [of _ 0])
  next
    case (Inr p)
    obtain r kv1 where p: "p = (r, kv1)" by (cases p)
    note * = executeOp_Inr [OF Q Inr [unfolded p]]
    have "go_ok (executeOps Q (op # ops) kv) \<longleftrightarrow> go_ok (executeOps Q ops kv1)"
      using Inr p by (cases "executeOps Q ops kv1") auto
    also have "\<dots> \<longleftrightarrow> (\<forall>n < length ops. op_defined (last_write Q kv (take (Suc n) (op # ops))) ((op # ops) ! Suc n))"
      using * by (simp add: Cons.IH)
    finally show ?thesis using * by (auto simp: less_Suc_eq_0_disj)
  qed
qed simp

lemma executeOps_Inr:
  assumes "inj Q" "executeOps Q ops kv = Inr (rs, kv')"
  shows "(\<lambda>k. fmlookup kv' (Q k)) = last_write Q kv ops \<and> length rs = length ops
    \<and> (\<forall>n < length ops. rs ! n = op_answer (last_write Q kv (take n ops)) (ops ! n))"
  using assms(2)
proof (induction ops arbitrary: kv rs)
  case (Cons op ops)
  then obtain r kv1 rs' where 1: "executeOp Q op kv = Inr (r, kv1)" "executeOps Q ops kv1 = Inr (rs', kv')" "rs = r # rs'"
    by (auto simp: go_simps)
  note * = executeOp_Inr [OF assms(1) 1(1)] and ih = Cons.IH [OF 1(2)]
  from * ih 1(3) show ?case by (auto simp: less_Suc_eq_0_disj)
qed simp

lemma last_write_append: "last_write Q kv (xs @ ys) k = fold (write_of k) ys (last_write Q kv xs k)"
  by (simp add: last_write_def)

definition all_ops :: "Command list \<Rightarrow> Operation list" where
  "all_ops cs = concat (map cmd_Ops cs)"

text \<open>A list of commands does what the concatenation of their operations does.\<close>

lemma executeOps_append:
  "executeOps Q (xs @ ys) k = go_bind (executeOps Q xs k) (\<lambda>(r, k1).
      go_bind (executeOps Q ys k1) (\<lambda>(rs, k2). Inr (r @ rs, k2)))"
  by (induction xs arbitrary: k) (auto simp: go_bind_def split: sum.splits prod.splits)

lemma executeCommands_ops:
  assumes "inj Q" "executeCommands Q cs kv = Inr (rs, kv')"
  shows "executeOps Q (all_ops cs) kv = Inr (concat (map res_OpResults rs), kv') \<and>
     map (\<lambda>r. (res_Target r, res_Timestamp r, length (res_OpResults r))) rs =
       map (\<lambda>c. (cmd_Target c, cmd_Timestamp c, length (cmd_Ops c))) cs"
  using assms(2)
proof (induction cs arbitrary: kv rs)
  case (Cons c cs)
  from Cons.prems obtain os kv1 rs' where 1: "executeOps Q (cmd_Ops c) kv = Inr (os, kv1)"
    "executeCommands Q cs kv1 = Inr (rs', kv')"
    "rs = \<lparr>res_Timestamp = cmd_Timestamp c, res_OpResults = os, res_Target = cmd_Target c, res_Meta = []\<rparr> # rs'"
    by (auto simp: go_simps executeCommand_def)
  from Cons.IH [OF 1(2)] 1 executeOps_Inr [OF assms(1) 1(1)] show ?case by (simp add: all_ops_def executeOps_append)
qed (simp add: all_ops_def)

lemma executeCommands_ok: "go_ok (executeCommands Q cs kv) \<longleftrightarrow> go_ok (executeOps Q (all_ops cs) kv)"
proof (induction cs arbitrary: kv)
  case (Cons c cs)
  show ?case
  proof (cases "executeOps Q (cmd_Ops c) kv")
    case (Inr p)
    obtain os kv1 where p: "p = (os, kv1)" by (cases p)
    have "go_ok (executeCommands Q (c # cs) kv) \<longleftrightarrow> go_ok (executeCommands Q cs kv1)"
      using Inr p by (cases "executeCommands Q cs kv1") (auto simp: executeCommand_def)
    moreover have "go_ok (executeOps Q (all_ops (c # cs)) kv) \<longleftrightarrow> go_ok (executeOps Q (all_ops cs) kv1)"
      using Inr p by (cases "executeOps Q (all_ops cs) kv1") (auto simp: all_ops_def executeOps_append)
    ultimately show ?thesis by (simp add: Cons.IH)
  qed (simp add: executeCommand_def all_ops_def executeOps_append)
qed (simp add: all_ops_def)

text \<open>
  Claim C11. The applier is a sequential key-value store. A list of commands runs to its end exactly when every
  operation is set and every read is of a key written before. Then each operation gets the answer that the state before
  it determines (a read the value of the last write to its key), in order, each result carries the target and
  time stamp of its command, and the map holds the last value written to every key.
\<close>

theorem applier_is_sequential_store:
  assumes "inj Q"
  shows "(go_ok (executeCommands Q cs kv) \<longleftrightarrow>
      (\<forall>n < length (all_ops cs). op_defined (last_write Q kv (take n (all_ops cs))) (all_ops cs ! n)))
    \<and> (\<forall>rs kv'. executeCommands Q cs kv = Inr (rs, kv') \<longrightarrow>
       (\<lambda>k. fmlookup kv' (Q k)) = last_write Q kv (all_ops cs)
       \<and> concat (map res_OpResults rs) =
           map (\<lambda>n. op_answer (last_write Q kv (take n (all_ops cs))) (all_ops cs ! n)) [0..<length (all_ops cs)]
       \<and> map (\<lambda>r. (res_Target r, res_Timestamp r, length (res_OpResults r))) rs =
           map (\<lambda>c. (cmd_Target c, cmd_Timestamp c, length (cmd_Ops c))) cs)"
proof (intro conjI allI impI)
  show "go_ok (executeCommands Q cs kv) \<longleftrightarrow>
      (\<forall>n < length (all_ops cs). op_defined (last_write Q kv (take n (all_ops cs))) (all_ops cs ! n))"
    by (simp add: executeCommands_ok executeOps_ok [OF assms])
  fix rs kv' assume run: "executeCommands Q cs kv = Inr (rs, kv')"
  note ops = executeCommands_ops [OF assms run]
  note res = executeOps_Inr [OF assms ops [THEN conjunct1]]
  show "(\<lambda>k. fmlookup kv' (Q k)) = last_write Q kv (all_ops cs)" using res by blast
  show "concat (map res_OpResults rs) =
      map (\<lambda>n. op_answer (last_write Q kv (take n (all_ops cs))) (all_ops cs ! n)) [0..<length (all_ops cs)]"
    using res by (intro nth_equalityI) auto
  show "map (\<lambda>r. (res_Target r, res_Timestamp r, length (res_OpResults r))) rs =
      map (\<lambda>c. (cmd_Target c, cmd_Timestamp c, length (cmd_Ops c))) cs" using ops by blast
qed

definition ex_quote :: "bytes \<Rightarrow> string" where
  "ex_quote = map (\<lambda>b. char_of (unat b))"

lemma byte_lt: "unat (b :: byte) < 256"
proof -
  have "unat b < 2 ^ LENGTH(8)" by (rule unsigned_less)
  then show ?thesis by simp
qed

lemma inj_ex_quote: "inj ex_quote"
proof -
  have "inj (\<lambda>b :: byte. char_of (unat b) :: char)"
  proof (rule injI)
    fix a b :: byte assume "char_of (unat a) = (char_of (unat b) :: char)"
    then have "(of_char (char_of (unat a)) :: nat) = of_char (char_of (unat b))" by simp
    then show "a = b" by (simp add: byte_lt word_unat_eq_iff)
  qed
  then show ?thesis unfolding ex_quote_def by (rule inj_mapI)
qed

definition ex_write_read :: Command where
  "ex_write_read = \<lparr>cmd_Timestamp = 7,
     cmd_Ops = [Operation_KVOp (Some \<lparr>kv_Key = [1], kv_Value = [9], kv_Read = False\<rparr>),
                Operation_KVOp (Some \<lparr>kv_Key = [1], kv_Value = [], kv_Read = True\<rparr>)],
     cmd_Target = 1, cmd_Meta = [], cmd_ConflictKey = [], cmd_TraceInfo = fmempty\<rparr>"

theorem applier_is_sequential_store_witness:
  "go_ok (executeCommands ex_quote [ex_write_read] fmempty)"
proof -
  have "\<forall>n < length (all_ops [ex_write_read]).
      op_defined (last_write ex_quote fmempty (take n (all_ops [ex_write_read]))) (all_ops [ex_write_read] ! n)"
    by (auto simp: all_ops_def ex_write_read_def less_Suc_eq op_defined_def last_write_def)
  with applier_is_sequential_store [OF inj_ex_quote, of "[ex_write_read]" fmempty] show ?thesis by blast
qed

end
