(* ===== verification/Peer.thy ===== *)
theory Peer
  imports Tracker Req_Buf Applier
begin

text \<open>
  The peer of \<open>peer/peer.go\<close> and the threads of \<open>peer/applier.go\<close>, for an arbitrary protocol: the record \<open>Protocol\<close> of its
  operations is an argument, and \<open>'s\<close> its state. The threads are the loop \<open>Run\<close>, the ticker, the applier, the
  sender and one per client call; what a thread does while it holds the peer's lock is one operation here, and
  \<open>peer_step\<close> interleaves them. A full channel blocks the thread: its rule does not apply.
\<close>

record peer_env =
  pv_unmarshalCommand :: "bytes \<Rightarrow> Command option"
  pv_verify :: "bytes \<Rightarrow> bytes \<Rightarrow> bool"
  pv_marshalResult :: "CommandResult \<Rightarrow> bytes"
  pv_unmarshalResult :: "bytes \<Rightarrow> CommandResult option"
  pv_quote :: "bytes \<Rightarrow> string"

text \<open>
  An element of the request buffer: a command and its channel; \<open>None\<close> is the zero value. \<open>pe_handoff\<close> are the
  commands that \<open>RunOnce\<close> has taken and not yet put on \<open>toApply\<close>, \<open>pe_applying\<close> the rest of the batch
  that the applier works on. \<open>pe_applied\<close> and \<open>pe_sent\<close> record what was applied and what was given to the transport.
\<close>

type_synonym reqBufElem = "(Command \<times> chan_id) option"

record 's Peer =
  pe_id :: PeerID
  pe_peers :: "PeerID list"
  pe_n :: 's
  pe_sig :: bool
  pe_done :: bool
  pe_exited :: bool
  pe_rb :: "reqBufElem reqBuf"
  pe_ct :: Tracker
  pe_chans :: chan_heap
  pe_msgs :: "Message list list"
  pe_handoff :: "ExecPacket list"
  pe_toApply :: "ExecPacket list list"
  pe_toSend :: "Message list list"
  pe_applying :: "ExecPacket list"
  pe_kv :: kv_store
  pe_applied :: "ExecPacket list"
  pe_sent :: "Message list"

definition Peer_New :: "PeerID \<Rightarrow> PeerID list \<Rightarrow> 32 word \<Rightarrow> 's \<Rightarrow> 's Peer" where
  "Peer_New pid peers threshold n =
     \<lparr>pe_id = pid, pe_peers = peers, pe_n = n, pe_sig = False, pe_done = False, pe_exited = False,
      pe_rb = reqBuf_init None threshold, pe_ct = MakeTracker, pe_chans = fmempty, pe_msgs = [],
      pe_handoff = [], pe_toApply = [], pe_toSend = [], pe_applying = [], pe_kv = fmempty, pe_applied = [], pe_sent = []\<rparr>"

definition Peer_signal :: "'s Peer \<Rightarrow> 's Peer" where
  "Peer_signal p = p\<lparr>pe_sig := True\<rparr>"

subsection \<open>Input (\<open>peer.go\<close>)\<close>

definition Peer_HandleMessage :: "Message list \<Rightarrow> 's Peer \<Rightarrow> 's Peer" where
  "Peer_HandleMessage m p = Peer_signal (p\<lparr>pe_msgs := pe_msgs p @ [m]\<rparr>)"

text \<open>\<open>HandleCommand\<close> up to \<open>rb.add\<close>; \<open>trace\<close> is what the tracer injects, \<open>c\<close> the new channel.\<close>

definition Peer_HandleCommand_add :: "peer_env \<Rightarrow> bytes \<Rightarrow> bytes \<Rightarrow> (string, string) fmap option \<Rightarrow> chan_id
    \<Rightarrow> 's Peer \<Rightarrow> 's Peer go" where
  "Peer_HandleCommand_add V message signature trace c p =
     (case pv_unmarshalCommand V message of
        None \<Rightarrow> Inl PanicCall
      | Some cmd \<Rightarrow>
          if cmd_Target cmd = pe_id p \<and> \<not> pv_verify V message signature then Inl PanicCall
          else (case trace of
                  None \<Rightarrow> Inl PanicCall
                | Some buf \<Rightarrow>
                    go_bind (reqBuf_add (Some (cmd\<lparr>cmd_TraceInfo := buf\<rparr>, c)) (pe_rb p))
                      (\<lambda>rb. Inr (p\<lparr>pe_rb := rb, pe_chans := fmupd c new_ResChan (pe_chans p)\<rparr>))))"

text \<open>What follows \<open>rb.add\<close>: when the peer is stopped the call closes its channel and returns an error.\<close>

definition Peer_HandleCommand_added :: "chan_id \<Rightarrow> 's Peer \<Rightarrow> 's Peer go" where
  "Peer_HandleCommand_added c p =
     (if pe_done p
      then go_bind (chan_close c (pe_chans p)) (\<lambda>h. Inr ((Peer_signal p)\<lparr>pe_chans := h\<rparr>))
      else Inr (Peer_signal p))"

text \<open>The reply: the call receives the result from its channel.\<close>

definition Peer_HandleCommand_reply :: "chan_id \<Rightarrow> 's Peer \<Rightarrow> (CommandResult \<times> 's Peer) option" where
  "Peer_HandleCommand_reply c p =
     (case fmlookup (pe_chans p) c of
        None \<Rightarrow> None
      | Some ch \<Rightarrow> (case rc_buf ch of [] \<Rightarrow> None
          | res # rest \<Rightarrow> Some (res, p\<lparr>pe_chans := fmupd c (ch\<lparr>rc_buf := rest\<rparr>) (pe_chans p)\<rparr>)))"

definition flushCmd :: "'s Protocol \<Rightarrow> reqBufElem \<Rightarrow> 's Peer \<Rightarrow> 's Peer go" where
  "flushCmd P el p =
     (case el of
        None \<Rightarrow> Inl NilDeref
      | Some (cmd, c) \<Rightarrow>
          go_bind (Tracker_Register cmd c (pe_ct p, pe_chans p)) (\<lambda>(ok, ct, h).
            let p1 = p\<lparr>pe_ct := ct, pe_chans := h\<rparr> in
            if \<not> ok then Inr p1
            else if cmd_Target cmd = pe_id p1
                 then go_bind (pr_Request P cmd (pe_n p1)) (\<lambda>n. Inr (p1\<lparr>pe_n := n\<rparr>))
                 else Inr p1))"

definition flushCmds :: "'s Protocol \<Rightarrow> reqBufElem list \<Rightarrow> 's Peer \<Rightarrow> 's Peer go" where
  "flushCmds P rb p = go_fold (flushCmd P) rb p"

definition Peer_rb_flush :: "'s Protocol \<Rightarrow> bool \<Rightarrow> 's Peer \<Rightarrow> 's Peer go" where
  "Peer_rb_flush P force p =
     (case reqBuf_flush force (pe_rb p) of (batch, rb) \<Rightarrow> flushCmds P batch (p\<lparr>pe_rb := rb\<rparr>))"

text \<open>The loop of \<open>flushMsgs\<close>: at most one packet per peer, but one in any case.\<close>

fun flushMsgs_loop :: "'s Protocol \<Rightarrow> nat \<Rightarrow> nat \<Rightarrow> Message list list \<Rightarrow> 's \<Rightarrow> (Message list list \<times> 's) go" where
  "flushMsgs_loop P npeers cnt [] n = Inr ([], n)"
| "flushMsgs_loop P npeers cnt (m # ms) n =
     go_bind (go_fold (pr_Step P) m n) (\<lambda>n'.
       if cnt + 1 \<ge> npeers then Inr (ms, n') else flushMsgs_loop P npeers (cnt + 1) ms n')"

definition flushMsgs :: "'s Protocol \<Rightarrow> 's Peer \<Rightarrow> 's Peer go" where
  "flushMsgs P p =
     go_bind (pr_AsyncCallback P (pe_n p)) (\<lambda>n.
     go_bind (flushMsgs_loop P (length (pe_peers p)) 0 (pe_msgs p) n) (\<lambda>(ms, n').
       Inr (p\<lparr>pe_msgs := ms, pe_n := n'\<rparr>)))"

subsection \<open>Output (\<open>applier.go\<close>)\<close>

definition trySendMessages :: "Message list \<Rightarrow> 's Peer \<Rightarrow> bool \<times> 's Peer" where
  "trySendMessages msgs p =
     (if length msgs = 0 then (False, p)
      else if length (pe_toSend p) < 512 then (True, p\<lparr>pe_toSend := pe_toSend p @ [msgs]\<rparr>)
      else (False, p))"

text \<open>\<open>RunOnce\<close> up to the point where it releases the lock to hand over the commands.\<close>

definition RunOnce :: "'s Protocol \<Rightarrow> 's Peer \<Rightarrow> 's Peer go" where
  "RunOnce P p =
     go_bind (pr_MakeReady P (pe_n p)) (\<lambda>(rd, n).
       case trySendMessages (rd_Messages rd) p of (sent, p1) \<Rightarrow>
         let n1 = (if sent then pr_ClearMsgs P n else n)
         in Inr (p1\<lparr>pe_n := pr_ClearExecutedCommands P n1, pe_handoff := rd_OrderedCommands rd\<rparr>))"

definition maybeApplyAsync :: "'s Peer \<Rightarrow> 's Peer option" where
  "maybeApplyAsync p =
     (if length (pe_handoff p) = 0 then Some p
      else if length (pe_toApply p) < 512
           then Some (p\<lparr>pe_toApply := pe_toApply p @ [pe_handoff p], pe_handoff := []\<rparr>)
      else None)"

text \<open>One round of the loop of \<open>handleExecutedCmds\<close>.\<close>

definition handleExecutedCmd :: "peer_env \<Rightarrow> 's Protocol \<Rightarrow> ExecPacket \<Rightarrow> 's Peer \<Rightarrow> 's Peer go" where
  "handleExecutedCmd V P pkt p =
     go_bind (if \<not> ep_NoExec pkt
         then go_bind (executeCommand (pv_quote V) (ep_Cmd pkt) (pe_kv p)) (\<lambda>(r, kv). Inr (r\<lparr>res_Meta := ep_Meta pkt\<rparr>, kv))
         else if ep_Callback pkt then Inl PanicCall
         else (case pv_unmarshalResult V (ep_Meta pkt) of None \<Rightarrow> Inl PanicCall | Some r \<Rightarrow> Inr (r, pe_kv p)))
       (\<lambda>(result, kv).
          let p1 = p\<lparr>pe_kv := kv, pe_applied := pe_applied p @ [pkt]\<rparr> in
          if ep_Callback pkt
          then go_bind (pr_Callback P \<lparr>ec_Cmd = ep_Cmd pkt, ec_Result = pv_marshalResult V result\<rparr> (pe_n p1))
                 (\<lambda>n. Inr (p1\<lparr>pe_n := n\<rparr>))
          else go_bind (Tracker_Finish result (pe_ct p1, pe_chans p1)) (\<lambda>(ct, h). Inr (p1\<lparr>pe_ct := ct, pe_chans := h\<rparr>)))"

definition sendMessages :: "Message list \<Rightarrow> 's Peer \<Rightarrow> 's Peer" where
  "sendMessages msgs p = (if length msgs > 0 then p\<lparr>pe_sent := pe_sent p @ msgs\<rparr> else p)"

subsection \<open>The threads\<close>

definition Peer_tick :: "'s Protocol \<Rightarrow> 's Peer \<Rightarrow> 's Peer go" where
  "Peer_tick P p = go_bind (pr_Tick P (pe_n p)) (\<lambda>n. Inr (Peer_signal (p\<lparr>pe_n := n\<rparr>)))"

text \<open>One round of \<open>Run\<close> after it has received the signal.\<close>

definition Peer_round :: "'s Protocol \<Rightarrow> 's Peer \<Rightarrow> 's Peer go" where
  "Peer_round P p0 =
     (let p = p0\<lparr>pe_sig := False\<rparr> in
      if pe_done p then go_bind (Peer_rb_flush P True p) (\<lambda>p'. Inr (p'\<lparr>pe_exited := True\<rparr>))
      else go_bind (flushMsgs P p) (\<lambda>p1. go_bind (Peer_rb_flush P False p1) (RunOnce P)))"

text \<open>\<open>Stop\<close>: first the flag and the signal; when \<open>Run\<close> has returned, \<open>FinishAll\<close>.\<close>

definition Peer_Stop_begin :: "'s Peer \<Rightarrow> 's Peer" where
  "Peer_Stop_begin p = Peer_signal (p\<lparr>pe_done := True\<rparr>)"

definition Peer_Stop_end :: "trackerID list \<Rightarrow> 's Peer \<Rightarrow> 's Peer go" where
  "Peer_Stop_end order p =
     go_bind (Tracker_FinishAll order (pe_ct p, pe_chans p)) (\<lambda>(ct, h). Inr (p\<lparr>pe_ct := ct, pe_chans := h\<rparr>))"

inductive peer_step :: "peer_env \<Rightarrow> 's Protocol \<Rightarrow> 's Peer \<Rightarrow> 's Peer \<Rightarrow> bool" for V P where
  message: "length (pe_msgs p) < 1024 \<Longrightarrow> peer_step V P p (Peer_HandleMessage m p)"
| command_add: "fmlookup (pe_chans p) c = None \<Longrightarrow> Peer_HandleCommand_add V message signature trace c p = Inr p' \<Longrightarrow>
     peer_step V P p p'"
| command_retry: "rb_do (Retry k) (pe_rb p) = Inr (batch, rb) \<Longrightarrow> peer_step V P p (p\<lparr>pe_rb := rb\<rparr>)"
| command_added: "Peer_HandleCommand_added c p = Inr p' \<Longrightarrow> peer_step V P p p'"
| command_reply: "Peer_HandleCommand_reply c p = Some (res, p') \<Longrightarrow> peer_step V P p p'"
| ticker: "Peer_tick P p = Inr p' \<Longrightarrow> peer_step V P p p'"
| round: "pe_sig p \<Longrightarrow> pe_handoff p = [] \<Longrightarrow> \<not> pe_exited p \<Longrightarrow> Peer_round P p = Inr p' \<Longrightarrow> peer_step V P p p'"
| handoff: "maybeApplyAsync p = Some p' \<Longrightarrow> peer_step V P p p'"
| apply_batch: "pe_applying p = [] \<Longrightarrow> pe_toApply p = ents # rest \<Longrightarrow>
     peer_step V P p (p\<lparr>pe_toApply := rest, pe_applying := ents\<rparr>)"
| apply_packet: "pe_applying p = pkt # pkts \<Longrightarrow> handleExecutedCmd V P pkt (p\<lparr>pe_applying := pkts\<rparr>) = Inr p' \<Longrightarrow>
     peer_step V P p (if pkts = [] then Peer_signal p' else p')"
| send: "pe_toSend p = msgs # rest \<Longrightarrow> peer_step V P p (sendMessages msgs (p\<lparr>pe_toSend := rest\<rparr>))"
| stop_begin: "peer_step V P p (Peer_Stop_begin p)"
| stop_end: "pe_exited p \<Longrightarrow> Peer_Stop_end order p = Inr p' \<Longrightarrow> peer_step V P p p'"

subsection \<open>The contract between the peer and a protocol\<close>

text \<open>
  A protocol keeps two output queues. Every operation appends to them at most, but for the two that clear one each; \<open>MakeReady\<close> shows them. That is all the peer
  needs to lose nothing. The contract of one queue comes first, then what the commands and the messages add to it.
\<close>

locale protocol_queue =
  fixes P :: "'s Protocol" and queue :: "'s \<Rightarrow> 'a list"
  assumes step_appends: "pr_Step P m s = Inr s' \<Longrightarrow> prefix (queue s) (queue s')"
    and tick_appends: "pr_Tick P s = Inr s' \<Longrightarrow> prefix (queue s) (queue s')"
    and request_appends: "pr_Request P c s = Inr s' \<Longrightarrow> prefix (queue s) (queue s')"
    and callback_appends: "pr_Callback P cb s = Inr s' \<Longrightarrow> prefix (queue s) (queue s')"
    and async_appends: "pr_AsyncCallback P s = Inr s' \<Longrightarrow> prefix (queue s) (queue s')"
    and ready_appends: "pr_MakeReady P s = Inr (rd, s') \<Longrightarrow> prefix (queue s) (queue s')"
begin

text \<open>An operation that touches the protocol only, and no queue of the peer.\<close>

definition quiet :: "'s Peer \<Rightarrow> 's Peer \<Rightarrow> bool" where
  "quiet p p' \<longleftrightarrow> prefix (queue (pe_n p)) (queue (pe_n p')) \<and> pe_sent p' = pe_sent p \<and> pe_toSend p' = pe_toSend p
     \<and> pe_applied p' = pe_applied p \<and> pe_applying p' = pe_applying p \<and> pe_toApply p' = pe_toApply p
     \<and> pe_handoff p' = pe_handoff p"

lemma quiet_refl [simp]: "quiet p p"
  by (simp add: quiet_def)

lemma quiet_trans: "quiet p p1 \<Longrightarrow> quiet p1 p2 \<Longrightarrow> quiet p p2"
  by (auto simp: quiet_def intro: prefix_order.trans)

lemma fold_step_appends: "go_fold (pr_Step P) ms s = Inr s' \<Longrightarrow> prefix (queue s) (queue s')"
proof (induction ms arbitrary: s)
  case (Cons m ms)
  then obtain s1 where "pr_Step P m s = Inr s1" "go_fold (pr_Step P) ms s1 = Inr s'" by auto
  with Cons.IH step_appends show ?case by (blast intro: prefix_order.trans)
qed simp

lemma flushMsgs_loop_appends: "flushMsgs_loop P np t ms s = Inr (ms', s') \<Longrightarrow> prefix (queue s) (queue s')"
proof (induction ms arbitrary: t s)
  case (Cons m ms)
  then obtain s1 where s1: "go_fold (pr_Step P) m s = Inr s1"
    and r: "(if t + 1 \<ge> np then Inr (ms, s1) else flushMsgs_loop P np (t + 1) ms s1) = Inr (ms', s')" by auto
  have "prefix (queue s1) (queue s')" using r Cons.IH by (auto split: if_splits)
  with fold_step_appends [OF s1] show ?case by (rule prefix_order.trans)
qed simp

lemma flushMsgs_quiet: "flushMsgs P p = Inr p' \<Longrightarrow> quiet p p'"
  by (auto simp: flushMsgs_def go_simps quiet_def dest!: flushMsgs_loop_appends async_appends intro: prefix_order.trans)

lemma flushCmd_quiet: "flushCmd P el p = Inr p' \<Longrightarrow> quiet p p'"
  by (auto simp: flushCmd_def go_simps quiet_def Let_def dest!: request_appends split: option.splits if_splits)

lemma flushCmds_quiet: "flushCmds P els p = Inr p' \<Longrightarrow> quiet p p'"
proof (induction els arbitrary: p)
  case (Cons el els)
  then obtain p1 where "flushCmd P el p = Inr p1" "flushCmds P els p1 = Inr p'"
    by (auto simp: flushCmds_def)
  with Cons.IH [of p1] flushCmd_quiet [of el p p1] show ?case by (blast intro: quiet_trans)
qed (simp add: flushCmds_def)

lemma rb_flush_quiet: "Peer_rb_flush P force p = Inr p' \<Longrightarrow> quiet p p'"
  by (auto simp: Peer_rb_flush_def quiet_def dest!: flushCmds_quiet split: prod.splits)

lemma handleExecutedCmd_applies:
  assumes "handleExecutedCmd V P pkt p = Inr p'"
  shows "quiet p (p'\<lparr>pe_applied := pe_applied p\<rparr>) \<and> pe_applied p' = pe_applied p @ [pkt]"
proof -
  from assms obtain kv result where "(let p1 = p\<lparr>pe_kv := kv, pe_applied := pe_applied p @ [pkt]\<rparr> in
          if ep_Callback pkt
          then go_bind (pr_Callback P \<lparr>ec_Cmd = ep_Cmd pkt, ec_Result = pv_marshalResult V result\<rparr> (pe_n p1))
                 (\<lambda>n. Inr (p1\<lparr>pe_n := n\<rparr>))
          else go_bind (Tracker_Finish result (pe_ct p1, pe_chans p1)) (\<lambda>(ct, h). Inr (p1\<lparr>pe_ct := ct, pe_chans := h\<rparr>))) = Inr p'"
    unfolding handleExecutedCmd_def by (auto elim: go_bindE)
  then show ?thesis by (auto simp: Let_def go_simps quiet_def dest!: callback_appends split: if_splits)
qed

text \<open>A round of \<open>Run\<close> is a quiet operation, then \<open>RunOnce\<close> unless the peer is stopping.\<close>

lemma round_cases:
  assumes "Peer_round P p = Inr p'"
  obtains (stop) q where "quiet p q" "p' = q\<lparr>pe_exited := True\<rparr>" | (run) q where "quiet p q" "RunOnce P q = Inr p'"
proof (cases "pe_done p")
  case True
  with assms obtain q where q: "Peer_rb_flush P True (p\<lparr>pe_sig := False\<rparr>) = Inr q" "p' = q\<lparr>pe_exited := True\<rparr>"
    by (auto simp: Peer_round_def Let_def)
  from rb_flush_quiet [OF q(1)] have "quiet p q" by (simp add: quiet_def)
  with q(2) show thesis by (intro stop)
next
  case False
  with assms obtain p1 p2 where q: "flushMsgs P (p\<lparr>pe_sig := False\<rparr>) = Inr p1" "Peer_rb_flush P False p1 = Inr p2" "RunOnce P p2 = Inr p'"
    by (auto simp: Peer_round_def Let_def go_simps)
  from quiet_trans [OF flushMsgs_quiet [OF q(1)] rb_flush_quiet [OF q(2)]] have "quiet p p2" by (simp add: quiet_def)
  with q(3) show thesis by (intro run)
qed

lemma step_quiet:
  "Peer_HandleCommand_add V message signature trace c p = Inr p' \<Longrightarrow> quiet p p'"
  "Peer_HandleCommand_added c p = Inr p' \<Longrightarrow> quiet p p'"
  "Peer_tick P p = Inr p' \<Longrightarrow> quiet p p'"
  by (auto simp: quiet_def Peer_HandleCommand_add_def Peer_HandleCommand_added_def Peer_tick_def Peer_signal_def go_simps
      dest!: tick_appends split: option.splits if_splits)

end

lemmas peer_thread_defs = Peer_HandleMessage_def Peer_signal_def Peer_HandleCommand_reply_def maybeApplyAsync_def sendMessages_def
  Peer_Stop_begin_def Peer_Stop_end_def

text \<open>The ordered commands. The stream is everything applied and everything that will be, in order.\<close>

locale protocol_commands = protocol_queue P cmds
  for P :: "'s Protocol" and cmds :: "'s \<Rightarrow> ExecPacket list" +
  assumes ready_cmds: "pr_MakeReady P s = Inr (rd, s') \<Longrightarrow> rd_OrderedCommands rd = cmds s'"
    and clear_cmds: "cmds (pr_ClearExecutedCommands P s) = []"
    and clear_msgs_cmds: "cmds (pr_ClearMsgs P s) = cmds s"
begin

definition cmd_stream :: "'s Peer \<Rightarrow> ExecPacket list" where
  "cmd_stream p = pe_applied p @ pe_applying p @ concat (pe_toApply p) @ pe_handoff p @ cmds (pe_n p)"

lemma quiet_cmd_stream: "quiet p p' \<Longrightarrow> prefix (cmd_stream p) (cmd_stream p')"
  by (auto simp: quiet_def cmd_stream_def)

lemma ready_cmds_prefix: "pr_MakeReady P s = Inr (rd, s') \<Longrightarrow> prefix (cmds s) (rd_OrderedCommands rd)"
  using ready_cmds ready_appends by metis

lemma RunOnce_cmd_stream:
  assumes "pe_handoff p = []" "RunOnce P p = Inr p'"
  shows "prefix (cmd_stream p) (cmd_stream p')"
  using assms by (auto simp: RunOnce_def Let_def trySendMessages_def go_simps cmd_stream_def clear_cmds clear_msgs_cmds
      dest: ready_cmds_prefix split: if_splits)

lemma peer_step_cmd_stream:
  assumes "peer_step V P p p'"
  shows "prefix (cmd_stream p) (cmd_stream p')"
  using assms
proof (cases rule: peer_step.cases)
  case round
  from round(4) show ?thesis
  proof (cases rule: round_cases)
    case (stop q)
    from quiet_cmd_stream [OF stop(1)] stop(2) show ?thesis by (simp add: cmd_stream_def)
  next
    case (run q)
    from run(1) round(2) have "pe_handoff q = []" by (simp add: quiet_def)
    from quiet_cmd_stream [OF run(1)] RunOnce_cmd_stream [OF this run(2)] show ?thesis by (rule prefix_order.trans)
  qed
next
  case (apply_packet pkt pkts q)
  from handleExecutedCmd_applies [OF apply_packet(3)] apply_packet(1,2) show ?thesis
    by (auto simp: cmd_stream_def Peer_signal_def quiet_def)
qed (auto simp: cmd_stream_def peer_thread_defs go_simps dest: step_quiet [THEN quiet_cmd_stream, unfolded cmd_stream_def]
    split: option.splits list.splits if_splits)

lemma peer_steps_cmd_stream: "(peer_step V P)\<^sup>*\<^sup>* p p' \<Longrightarrow> prefix (cmd_stream p) (cmd_stream p')"
  by (induction rule: rtranclp_induct) (auto dest: peer_step_cmd_stream intro: prefix_order.trans)

end

text \<open>The messages: everything sent and everything that will be.\<close>

locale protocol_messages = protocol_queue P msgs
  for P :: "'s Protocol" and msgs :: "'s \<Rightarrow> Message list" +
  assumes ready_msgs: "pr_MakeReady P s = Inr (rd, s') \<Longrightarrow> rd_Messages rd = msgs s'"
    and clear_msgs: "msgs (pr_ClearMsgs P s) = []"
    and clear_cmds_msgs: "msgs (pr_ClearExecutedCommands P s) = msgs s"
begin

definition msg_stream :: "'s Peer \<Rightarrow> Message list" where
  "msg_stream p = pe_sent p @ concat (pe_toSend p) @ msgs (pe_n p)"

lemma quiet_msg_stream: "quiet p p' \<Longrightarrow> prefix (msg_stream p) (msg_stream p')"
  by (auto simp: quiet_def msg_stream_def)

lemma ready_msgs_prefix: "pr_MakeReady P s = Inr (rd, s') \<Longrightarrow> prefix (msgs s) (rd_Messages rd)"
  using ready_msgs ready_appends by metis

lemma RunOnce_msg_stream: "RunOnce P p = Inr p' \<Longrightarrow> prefix (msg_stream p) (msg_stream p')"
  by (auto simp: RunOnce_def Let_def trySendMessages_def go_simps msg_stream_def clear_msgs clear_cmds_msgs
      dest: ready_msgs_prefix ready_appends split: if_splits)

lemma peer_step_msg_stream:
  assumes "peer_step V P p p'"
  shows "prefix (msg_stream p) (msg_stream p')"
  using assms
proof (cases rule: peer_step.cases)
  case round
  from round(4) show ?thesis
  proof (cases rule: round_cases)
    case (stop q)
    from quiet_msg_stream [OF stop(1)] stop(2) show ?thesis by (simp add: msg_stream_def)
  next
    case (run q)
    from quiet_msg_stream [OF run(1)] RunOnce_msg_stream [OF run(2)] show ?thesis by (rule prefix_order.trans)
  qed
next
  case (apply_packet pkt pkts q)
  from handleExecutedCmd_applies [OF apply_packet(3)] apply_packet(1,2) show ?thesis
    by (auto simp: msg_stream_def Peer_signal_def quiet_def)
qed (auto simp: msg_stream_def peer_thread_defs go_simps dest: step_quiet [THEN quiet_msg_stream, unfolded msg_stream_def]
    split: option.splits list.splits if_splits)

lemma peer_steps_msg_stream: "(peer_step V P)\<^sup>*\<^sup>* p p' \<Longrightarrow> prefix (msg_stream p) (msg_stream p')"
  by (induction rule: rtranclp_induct) (auto dest: peer_step_msg_stream intro: prefix_order.trans)

end

text \<open>The usual protocol: \<open>MakeReady\<close> only reads the two queues.\<close>

locale protocol_output =
  fixes P :: "'s Protocol" and msgs :: "'s \<Rightarrow> Message list" and cmds :: "'s \<Rightarrow> ExecPacket list"
  assumes ready: "pr_MakeReady P s = Inr (\<lparr>rd_Messages = msgs s, rd_OrderedCommands = cmds s\<rparr>, s)"
    and clears_msgs: "msgs (pr_ClearMsgs P s) = []" "cmds (pr_ClearMsgs P s) = cmds s"
    and clears_cmds: "cmds (pr_ClearExecutedCommands P s) = []" "msgs (pr_ClearExecutedCommands P s) = msgs s"
    and step: "pr_Step P m s = Inr s' \<Longrightarrow> prefix (msgs s) (msgs s') \<and> prefix (cmds s) (cmds s')"
    and tick: "pr_Tick P s = Inr s' \<Longrightarrow> prefix (msgs s) (msgs s') \<and> prefix (cmds s) (cmds s')"
    and request: "pr_Request P c s = Inr s' \<Longrightarrow> prefix (msgs s) (msgs s') \<and> prefix (cmds s) (cmds s')"
    and callback: "pr_Callback P cb s = Inr s' \<Longrightarrow> prefix (msgs s) (msgs s') \<and> prefix (cmds s) (cmds s')"
    and async: "pr_AsyncCallback P s = Inr s' \<Longrightarrow> prefix (msgs s) (msgs s') \<and> prefix (cmds s) (cmds s')"

sublocale protocol_output \<subseteq> commands: protocol_commands P cmds
  by unfold_locales (auto simp: ready clears_msgs clears_cmds dest: step tick request callback async)

sublocale protocol_output \<subseteq> messages: protocol_messages P msgs
  by unfold_locales (auto simp: ready clears_msgs clears_cmds dest: step tick request callback async)

context protocol_output
begin

lemma peer_steps_stream:
  assumes "(peer_step V P)\<^sup>*\<^sup>* p p'"
  shows "prefix (messages.msg_stream p) (messages.msg_stream p') \<and> prefix (commands.cmd_stream p) (commands.cmd_stream p')"
  using messages.peer_steps_msg_stream [OF assms] commands.peer_steps_cmd_stream [OF assms] by simp

end

subsection \<open>Shutdown\<close>

text \<open>The first request added to an empty buffer is what a forced flush hands over.\<close>

lemma flush_single:
  "reqBuf_add e (reqBuf_init z t) = Inr b \<Longrightarrow> fst (reqBuf_flush True b) = [e]"
  by (auto simp: reqBuf_add_def reqBuf_init_def reqBuf_flush_def Let_def propBufCap_def take_Suc_conv_app_nth)

text \<open>
  A client call that arrives while the peer is being stopped closes its own channel, but its request stays in
  the buffer; the last round of \<open>Run\<close> registers it, and \<open>FinishAll\<close> closes the channel a second time: \<open>Stop\<close> panics.
\<close>

theorem peer_shutdown_closes_twice:
  assumes "pv_unmarshalCommand V message = Some cmd" "pv_verify V message signature"
    and "go_ok (pr_Request P (cmd\<lparr>cmd_TraceInfo := trace\<rparr>) n)"
  shows "go_bind (Peer_HandleCommand_add V message signature (Some trace) c (Peer_Stop_begin (Peer_New pid peers th n)))
    (\<lambda>p1. go_bind (Peer_HandleCommand_added c p1)
    (\<lambda>p2. go_bind (Peer_round P p2) (Peer_Stop_end [cmd_tid cmd]))) = Inl PanicCall"
proof -
  let ?cmd = "cmd\<lparr>cmd_TraceInfo := trace\<rparr>"
  let ?b = "(reqBuf_init None th)\<lparr>rb_b := (replicate propBufCap None)[0 := Some (?cmd, c)], rb_i := 1\<rparr>"
  have add: "reqBuf_add (Some (?cmd, c)) (reqBuf_init None th) = Inr ?b"
    by (simp add: reqBuf_add_def reqBuf_init_def Let_def)
  obtain n' where n': "pr_Request P ?cmd n = Inr n'" using assms(3) by (auto simp: go_ok_iff)
  show ?thesis using assms(1,2) add n' flush_single [OF add]
    by (auto simp: Peer_HandleCommand_add_def Peer_HandleCommand_added_def Peer_round_def Peer_Stop_begin_def
        Peer_Stop_end_def Peer_New_def Peer_signal_def Peer_rb_flush_def flushCmds_def flushCmd_def Tracker_Register_def
        Tracker_FinishAll_def MakeTracker_def chan_close_def new_ResChan_def cmd_tid_def Let_def split: prod.splits)
qed

definition ex_idle_protocol :: "unit Protocol" where
  "ex_idle_protocol = \<lparr>pr_Step = \<lambda>_ s. Inr s, pr_Tick = Inr, pr_Request = \<lambda>_ s. Inr s, pr_Callback = \<lambda>_ s. Inr s,
     pr_MakeReady = \<lambda>s. Inr (\<lparr>rd_Messages = [], rd_OrderedCommands = []\<rparr>, s), pr_ClearMsgs = id,
     pr_ClearExecutedCommands = id, pr_AsyncCallback = Inr\<rparr>"

definition ex_peer_env :: peer_env where
  "ex_peer_env = \<lparr>pv_unmarshalCommand = \<lambda>_. Some ex_treq, pv_verify = \<lambda>_ _. True, pv_marshalResult = \<lambda>_. [],
     pv_unmarshalResult = \<lambda>_. None, pv_quote = ex_quote\<rparr>"

theorem peer_shutdown_closes_twice_witness:
  "go_bind (Peer_HandleCommand_add ex_peer_env [] [] (Some fmempty) 0 (Peer_Stop_begin (Peer_New 1 [1] 1 ())))
    (\<lambda>p1. go_bind (Peer_HandleCommand_added 0 p1)
    (\<lambda>p2. go_bind (Peer_round ex_idle_protocol p2) (Peer_Stop_end [cmd_tid ex_treq]))) = Inl PanicCall"
  by (rule peer_shutdown_closes_twice) (simp_all add: ex_peer_env_def ex_idle_protocol_def)

end
