(* ===== verification/Vote_Quorum.thy ===== *)
theory Vote_Quorum
  imports Prelude
begin

text \<open>
  The interface of the vote tables that the protocols of the repository keep per instance
  (the \<open>Quorum\<close> types of \<open>protocols/pbft\<close>, \<open>protocols/minbft\<close> and their relatives): a vote of a
  replica is recorded under its view, a second vote of the same replica in the same view
  never replaces the first, and \<open>Majority\<close> asks whether more than a threshold of the recorded
  votes agree with a given message. What agreement needs of such a table is proved here once.
\<close>

subsection \<open>Counting voters\<close>

lemma card_inter_gt:
  assumes "finite N" "Q1 \<subseteq> N" "Q2 \<subseteq> N" "card N + b < card Q1 + card Q2"
  shows "b < card (Q1 \<inter> Q2)"
proof -
  have fin: "finite Q1" "finite Q2" using assms finite_subset by auto
  have "card (Q1 \<union> Q2) \<le> card N" using assms by (intro card_mono) auto
  with card_Un_Int [OF fin] assms(4) show ?thesis by linarith
qed

lemma common_voter_outside:
  assumes "finite N" "Q1 \<subseteq> N" "Q2 \<subseteq> N" "card N + card B < card Q1 + card Q2" "finite B"
  obtains i where "i \<in> Q1" "i \<in> Q2" "i \<notin> B"
proof -
  have "card B < card (Q1 \<inter> Q2)" using assms by (intro card_inter_gt)
  then have "\<not> Q1 \<inter> Q2 \<subseteq> B"
    using \<open>finite B\<close> by (meson card_mono leD)
  with that show thesis by blast
qed

subsection \<open>The interface\<close>

locale vote_quorum =
  fixes logv :: "PeerID \<Rightarrow> 'm \<Rightarrow> 'q \<Rightarrow> 'q go"
    and votes :: "'q \<Rightarrow> u64 \<Rightarrow> (PeerID, 'm) fmap"
    and majority :: "int \<Rightarrow> 'm \<Rightarrow> 'q \<Rightarrow> bool"
    and viewof :: "'m \<Rightarrow> u64"
    and key :: "'m \<Rightarrow> 'k"
    and thr :: "int \<Rightarrow> int"
  assumes log_votes: "logv i m q = Inr q' \<Longrightarrow> votes q' v =
      (if v = viewof m \<and> fmlookup (votes q v) i = None then fmupd i m (votes q v) else votes q v)"
    and majority_iff: "0 \<le> f \<Longrightarrow> majority f m q \<longleftrightarrow>
      thr f < int (fmcount (\<lambda>m'. key m' = key m) (votes q (viewof m)))"
begin

definition supporters :: "'q \<Rightarrow> u64 \<Rightarrow> 'k \<Rightarrow> PeerID set" where
  "supporters q v k = voters (\<lambda>m'. key m' = k) (votes q v)"

lemma log_lookup:
  assumes "logv i m q = Inr q'"
  shows "fmlookup (votes q' v) j =
     (if v = viewof m \<and> j = i \<and> fmlookup (votes q v) i = None then Some m else fmlookup (votes q v) j)"
  using log_votes [OF assms, of v] by auto

lemma vote_persists:
  assumes "logv i m q = Inr q'" "fmlookup (votes q v) j = Some m'"
  shows "fmlookup (votes q' v) j = Some m'"
  using log_lookup [OF assms(1), of v j] assms(2) by (auto split: if_splits)

lemma vote_origin:
  assumes "logv i m q = Inr q'" "fmlookup (votes q' v) j = Some m'"
  shows "fmlookup (votes q v) j = Some m' \<or> (v = viewof m \<and> j = i \<and> m' = m)"
  using log_lookup [OF assms(1), of v j] assms(2) by (auto split: if_splits)

lemma vote_recorded:
  assumes "logv i m q = Inr q'"
  shows "\<exists>m'. fmlookup (votes q' (viewof m)) i = Some m' \<and>
     (m' = m \<or> fmlookup (votes q (viewof m)) i = Some m')"
  using log_lookup [OF assms, of "viewof m" i] by (cases "fmlookup (votes q (viewof m)) i") auto

lemma finite_supporters [simp]: "finite (supporters q v k)"
  by (simp add: supporters_def)

lemma supporters_mono:
  assumes "logv i m q = Inr q'"
  shows "supporters q v k \<subseteq> supporters q' v k"
  using vote_persists [OF assms] by (auto simp: supporters_def voters_def)

lemma majority_supporters:
  assumes "0 \<le> f"
  shows "majority f m q \<longleftrightarrow> thr f < int (card (supporters q (viewof m) (key m)))"
  using assms by (simp add: majority_iff fmcount_card supporters_def)

lemma majority_stable:
  assumes "0 \<le> f" "majority f m q" "logv i m' q = Inr q'"
  shows "majority f m q'"
proof -
  have "card (supporters q (viewof m) (key m)) \<le> card (supporters q' (viewof m) (key m))"
    using supporters_mono [OF assms(3)] by (intro card_mono) auto
  with assms(1,2) show ?thesis by (simp add: majority_supporters)
qed

text \<open>
  Two tables of two replicas: if the voters are members of \<open>N\<close>, at most \<open>card B\<close> of them are
  faulty and the threshold is large enough, some correct replica voted in both.
\<close>

lemma majorities_share_correct_voter:
  assumes "thr f < int (card (supporters q1 v k1))" "thr f < int (card (supporters q2 v k2))"
    and "supporters q1 v k1 \<subseteq> N" "supporters q2 v k2 \<subseteq> N" "finite N" "finite B"
    and "int (card N) + int (card B) < 2 * (thr f + 1)"
  obtains i m1 m2 where "i \<in> N" "i \<notin> B"
    "fmlookup (votes q1 v) i = Some m1" "key m1 = k1"
    "fmlookup (votes q2 v) i = Some m2" "key m2 = k2"
proof -
  have "card N + card B < card (supporters q1 v k1) + card (supporters q2 v k2)"
    using assms(1,2,7) by presburger
  then obtain i where i: "i \<in> supporters q1 v k1" "i \<in> supporters q2 v k2" "i \<notin> B"
    using common_voter_outside assms(3-6) by metis
  with assms(3) that show thesis by (force simp: supporters_def voters_def)
qed

end

end
