(* ===== verification/PBFT.thy ===== *)
theory PBFT
  imports Peer_Types Vote_Quorum
begin

text \<open>
  The PBFT replica of \<open>protocols/pbft\<close>: its messages (\<open>pbftpb\<close>), the vote tables (\<open>quorum.go\<close>,
  \<open>vcquorum.go\<close>), the agreement handlers (\<open>instance.go\<close>, \<open>request.go\<close>), the view change and the
  entry points (\<open>pbft.go\<close>) and the message layer (\<open>messaging.go\<close>). The replica's struct is the record
  \<open>PBFT\<close>; an operation takes it and returns the new one, or the crash that ends the process.

  The wire format is a parameter: \<open>pbft_env\<close> adds to \<open>go_env\<close> the generated encoders. The
  protobuf decoder gives nil for a field that is absent, so the pointer to a command and the
  slice of a hash are options.
\<close>

subsection \<open>Messages (\<open>pbftpb\<close>)\<close>

datatype AgreementMessage_Type =
    AMT_PrePrepare | AMT_Prepare | AMT_Commit | AMT_Unknown nat

datatype InstanceState_Status =
    St_None | St_PrePrepared | St_Prepared | St_Committed | St_Executed

fun status_num :: "InstanceState_Status \<Rightarrow> nat" where
  "status_num St_None = 0"
| "status_num St_PrePrepared = 1"
| "status_num St_Prepared = 2"
| "status_num St_Committed = 3"
| "status_num St_Executed = 4"

lemma status_num_inject: "status_num a = status_num b \<longleftrightarrow> a = b"
  by (cases a; cases b) simp_all

instantiation InstanceState_Status :: linorder
begin

definition less_eq_InstanceState_Status :: "InstanceState_Status \<Rightarrow> InstanceState_Status \<Rightarrow> bool" where
  "less_eq_InstanceState_Status a b \<longleftrightarrow> status_num a \<le> status_num b"

definition less_InstanceState_Status :: "InstanceState_Status \<Rightarrow> InstanceState_Status \<Rightarrow> bool" where
  "less_InstanceState_Status a b \<longleftrightarrow> status_num a < status_num b"

instance
  by standard
    (auto simp: less_eq_InstanceState_Status_def less_InstanceState_Status_def status_num_inject)

end

record AgreementMessage =
  am_View :: u64
  am_Index :: u64
  am_Type :: AgreementMessage_Type
  am_Command :: "Command option"
  am_CommandHash :: slice

record InstanceState =
  is_View :: u64
  is_Index :: u64
  is_Status :: InstanceState_Status
  is_Command :: "Command option"
  is_CommandHash :: slice

record ViewChangeMessage =
  vc_NewView :: u64
  vc_LowIndex :: u64
  vc_HighIndex :: u64
  vc_PSet :: "InstanceState list"
  vc_QSet :: "InstanceState list"

record ViewChangeAckMessage =
  vca_NewView :: u64
  vca_AckFor :: PeerID
  vca_Digest :: slice

record NewViewProof =
  nvp_AckFor :: PeerID
  nvp_Digest :: slice

record NewViewMessage =
  nv_NewView :: u64
  nv_NvProof :: "NewViewProof list"
  nv_Instances :: "(u64, InstanceState) fmap"

text \<open>\<open>WrapPBFTMessage\<close> chooses the constructor by the type of the message.\<close>

datatype PBFTMessage =
    PBFTMessage_Agreement AgreementMessage
  | PBFTMessage_ViewChange ViewChangeMessage
  | PBFTMessage_ViewChangeAck ViewChangeAckMessage
  | PBFTMessage_NewView NewViewMessage
  | PBFTMessage_Unset

record pbft_env = go_env +
  env_marshalPBFT :: "PBFTMessage \<Rightarrow> bytes"
  env_unmarshalPBFT :: "bytes \<Rightarrow> PBFTMessage option"
  env_marshalViewChange :: "ViewChangeMessage \<Rightarrow> bytes"

definition IsPrePrepared :: "InstanceState \<Rightarrow> bool" where
  "IsPrePrepared m \<longleftrightarrow> is_Status m = St_PrePrepared"

definition IsPrepared :: "InstanceState \<Rightarrow> bool" where
  "IsPrepared m \<longleftrightarrow> is_Status m = St_Prepared"

definition IsCommitted :: "InstanceState \<Rightarrow> bool" where
  "IsCommitted m \<longleftrightarrow> is_Status m = St_Committed"

definition IsAtleastPrePrepared :: "InstanceState \<Rightarrow> bool" where
  "IsAtleastPrePrepared m \<longleftrightarrow> is_Status m \<ge> St_PrePrepared"

definition IsAtleastPrepared :: "InstanceState \<Rightarrow> bool" where
  "IsAtleastPrepared m \<longleftrightarrow> is_Status m \<ge> St_Prepared"

definition AgreementMessage_Equals :: "AgreementMessage \<Rightarrow> AgreementMessage \<Rightarrow> bool" where
  "AgreementMessage_Equals m other =
     (if am_View m \<noteq> am_View other then False
      else if am_Index m \<noteq> am_Index other then False
      else bytes_Equal (am_CommandHash m) (am_CommandHash other))"

definition InstanceState_Equals :: "InstanceState \<Rightarrow> InstanceState \<Rightarrow> bool" where
  "InstanceState_Equals m other \<longleftrightarrow>
     is_Index m = is_Index other \<and> bytes_Equal (is_CommandHash m) (is_CommandHash other)
     \<and> is_View m = is_View other"

text \<open>The zero value, which Go gives for a missing key of a map.\<close>

definition zero_InstanceState :: InstanceState where
  "zero_InstanceState =
     \<lparr>is_View = 0, is_Index = 0, is_Status = St_None, is_Command = None, is_CommandHash = None\<rparr>"

subsection \<open>Vote tables (\<open>quorum.go\<close>)\<close>

record Quorum =
  q_maxView :: u64
  q_msgs :: "(u64, (PeerID, AgreementMessage) fmap) fmap"

definition pbft_newQuorum :: Quorum where
  "pbft_newQuorum = \<lparr>q_maxView = 0, q_msgs = fmempty\<rparr>"

definition Quorum_log :: "PeerID \<Rightarrow> AgreementMessage \<Rightarrow> Quorum \<Rightarrow> Quorum go" where
  "Quorum_log qid m q =
     (if q_maxView q > am_View m then Inl PanicCall
      else let msgs = fmsub (q_msgs q) (am_View m) in
        (case fmlookup msgs qid of
           None \<Rightarrow> Inr \<lparr>q_maxView = am_View m, q_msgs = fmupd (am_View m) (fmupd qid m msgs) (q_msgs q)\<rparr>
         | Some _ \<Rightarrow> Inl PanicCall))"

definition Quorum_Majority :: "int \<Rightarrow> AgreementMessage \<Rightarrow> Quorum \<Rightarrow> bool" where
  "Quorum_Majority f m q =
     (case fmlookup (q_msgs q) (am_View m) of
        None \<Rightarrow> False
      | Some msgPairs \<Rightarrow>
          (if int (fmlen msgPairs) \<le> 2 * f then False
           else int (fmcount (AgreementMessage_Equals m) msgPairs) > 2 * f))"

subsection \<open>View-change tables (\<open>vcquorum.go\<close>)\<close>

record vcItem =
  vi_vcSender :: PeerID
  vi_vcMessage :: "ViewChangeMessage option"
  vi_vcDigest :: slice
  vi_vcaMessages :: "(PeerID, ViewChangeAckMessage) fmap"
  vi_valid :: bool

record VCQuorum =
  vq_messages :: "(u64, (PeerID, vcItem) fmap) fmap"
  vq_nvMessage :: "(PeerID, NewViewMessage) fmap"

definition newVCQuorum :: VCQuorum where
  "newVCQuorum = \<lparr>vq_messages = fmempty, vq_nvMessage = fmempty\<rparr>"

definition addVCMessage :: "int \<Rightarrow> PeerID \<Rightarrow> ViewChangeMessage \<Rightarrow> slice \<Rightarrow> VCQuorum \<Rightarrow> VCQuorum" where
  "addVCMessage f vid m digest q =
     (let vMsgs = fmsub (vq_messages q) (vc_NewView m);
          item = (case fmlookup vMsgs vid of
             None \<Rightarrow> \<lparr>vi_vcSender = vid, vi_vcMessage = Some m, vi_vcDigest = digest,
                      vi_vcaMessages = fmempty, vi_valid = False\<rparr>
           | Some it \<Rightarrow> it\<lparr>vi_vcMessage := Some m, vi_vcDigest := digest, vi_vcSender := vid,
                           vi_valid := int (fmlen (vi_vcaMessages it)) \<ge> 2 * f\<rparr>)
      in q\<lparr>vq_messages := fmupd (vc_NewView m) (fmupd vid item vMsgs) (vq_messages q)\<rparr>)"

definition addVCAMessage :: "int \<Rightarrow> PeerID \<Rightarrow> ViewChangeAckMessage \<Rightarrow> VCQuorum \<Rightarrow> VCQuorum go" where
  "addVCAMessage f vid m q =
     (let vMsgs = fmsub (vq_messages q) (vca_NewView m);
          finish = (\<lambda>it. let acks = fmupd vid m (vi_vcaMessages it);
              it' = it\<lparr>vi_vcaMessages := acks,
                       vi_valid := int (fmlen acks) \<ge> 2 * f \<and> vi_vcMessage it \<noteq> None\<rparr>
            in Inr (q\<lparr>vq_messages := fmupd (vca_NewView m) (fmupd (vca_AckFor m) it' vMsgs) (vq_messages q)\<rparr>))
      in case fmlookup vMsgs (vca_AckFor m) of
           None \<Rightarrow> finish \<lparr>vi_vcSender = 0, vi_vcMessage = None, vi_vcDigest = None,
                           vi_vcaMessages = fmempty, vi_valid = False\<rparr>
         | Some it \<Rightarrow>
             (if vi_vcMessage it \<noteq> None \<and> \<not> bytes_Equal (vi_vcDigest it) (vca_Digest m)
              then Inl FatalExit else finish it))"

definition addNVMessage :: "PeerID \<Rightarrow> NewViewMessage \<Rightarrow> VCQuorum \<Rightarrow> VCQuorum" where
  "addNVMessage vid m q = q\<lparr>vq_nvMessage := fmupd vid m (vq_nvMessage q)\<rparr>"

subsection \<open>The replica\<close>

record pbft_instance =
  inst_is :: InstanceState
  inst_pCert :: Quorum
  inst_cCert :: Quorum

record PBFT =
  p_id :: PeerID
  p_nodes :: "PeerID list"
  p_log :: "(u64, pbft_instance) fmap"
  p_execute :: u64
  p_active :: bool
  p_view :: u64
  p_index :: u64
  p_msgs :: "Message list"
  p_executedCmds :: "ExecPacket list"
  p_timers :: "unit tickingTimer list"
  p_viewChanging :: bool
  p_changingView :: u64
  p_vcQuorum :: VCQuorum
  p_f :: int
  p_signDispatcher :: "(bytes \<times> bool, bytes) Dispatcher"

definition NewPBFT :: "LocalConfig \<Rightarrow> PBFT go" where
  "NewPBFT c = go_bind (startDispatcher c ''mac_sign'') (\<lambda>d.
     Inr \<lparr>p_id = cfg_ID c, p_nodes = cfg_Peers c, p_log = fmempty, p_execute = 1, p_active = False,
          p_view = cfg_LeaderID c, p_index = 0, p_msgs = [], p_executedCmds = [], p_timers = [],
          p_viewChanging = False, p_changingView = 0, p_vcQuorum = newVCQuorum,
          p_f = cfg_MaxFailures c, p_signDispatcher = d\<rparr>)"

subsection \<open>Sending (\<open>messaging.go\<close>)\<close>

definition pbft_enqueueForSending :: "PeerID \<Rightarrow> bytes \<Rightarrow> bytes \<Rightarrow> PBFT \<Rightarrow> PBFT" where
  "pbft_enqueueForSending to mm certificate p =
     p\<lparr>p_msgs := p_msgs p @ [\<lparr>msg_From = p_id p, msg_To = to, msg_Content = mm,
                              msg_Certificate = certificate\<rparr>]\<rparr>"

definition pbft_sendTo :: "pbft_env \<Rightarrow> PeerID \<Rightarrow> PBFTMessage \<Rightarrow> PBFT \<Rightarrow> PBFT" where
  "pbft_sendTo E to m p =
     (let mBytes = env_marshalPBFT E m
      in pbft_enqueueForSending to mBytes (env_createSignedCertificate E mBytes) p)"

text \<open>\<open>broadcast\<close> queues the signing; the pair holds what the two closures captured.\<close>

definition pbft_broadcast :: "pbft_env \<Rightarrow> PBFTMessage \<Rightarrow> bool \<Rightarrow> PBFT \<Rightarrow> PBFT" where
  "pbft_broadcast E m sendToSelf p =
     p\<lparr>p_signDispatcher := Dispatcher_Exec (env_marshalPBFT E m, sendToSelf) (p_signDispatcher p)\<rparr>"

text \<open>The closure run by the worker: one certificate per node, one after the other.\<close>

definition pbft_signVector :: "pbft_env \<Rightarrow> PeerID list \<Rightarrow> bytes \<times> bool \<Rightarrow> bytes" where
  "pbft_signVector E nodes job = concat (map (\<lambda>_. env_createSignedCertificate E (fst job)) nodes)"

text \<open>The closure run by the replica with the vector of certificates.\<close>

definition pbft_broadcastCallback :: "bytes \<times> bool \<Rightarrow> bytes \<Rightarrow> PBFT \<Rightarrow> PBFT go" where
  "pbft_broadcastCallback job cert p =
     go_fold (\<lambda>node p'.
        if snd job \<or> node \<noteq> p_id p'
        then go_bind (slice_range cert (unat (node * 32)) (unat (node * 32 + 32)))
               (\<lambda>c. Inr (pbft_enqueueForSending node (fst job) c p'))
        else Inr p') (p_nodes p) p"

definition pbft_AsyncCallback :: "PBFT \<Rightarrow> PBFT go" where
  "pbft_AsyncCallback p =
     (case drain_callbacks (p_signDispatcher p) of (cbs, d) \<Rightarrow>
        go_fold (\<lambda>(job, cert). pbft_broadcastCallback job cert) cbs (p\<lparr>p_signDispatcher := d\<rparr>))"

definition pbft_ClearMsgs :: "PBFT \<Rightarrow> PBFT" where
  "pbft_ClearMsgs p = p\<lparr>p_msgs := []\<rparr>"

subsection \<open>Agreement (\<open>instance.go\<close>)\<close>

definition isPrimaryAtView :: "PBFT \<Rightarrow> PeerID \<Rightarrow> u64 \<Rightarrow> bool go" where
  "isPrimaryAtView p rid v = go_bind (go_imod v (length (p_nodes p))) (\<lambda>r. Inr (rid = r))"

definition isCurrentPrimary :: "PBFT \<Rightarrow> PeerID \<Rightarrow> bool go" where
  "isCurrentPrimary p rid = isPrimaryAtView p rid (p_view p)"

definition pbft_makeInstance :: "AgreementMessage \<Rightarrow> pbft_instance" where
  "pbft_makeInstance m =
     \<lparr>inst_is = \<lparr>is_View = am_View m, is_Index = am_Index m, is_Status = St_None,
                 is_Command = am_Command m, is_CommandHash = am_CommandHash m\<rparr>,
      inst_pCert = pbft_newQuorum, inst_cCert = pbft_newQuorum\<rparr>"

definition pbft_updateCommand :: "pbft_instance \<Rightarrow> AgreementMessage \<Rightarrow> pbft_instance go" where
  "pbft_updateCommand inst m =
     (if is_Command (inst_is inst) \<noteq> None
      then go_bind (Command_Equal (is_Command (inst_is inst)) (am_Command m))
             (\<lambda>b. if \<not> b then Inl FatalExit else Inr inst)
      else Inr (inst\<lparr>inst_is := (inst_is inst)\<lparr>is_Command := am_Command m\<rparr>\<rparr>))"

definition pbft_updateCommandHash :: "pbft_instance \<Rightarrow> AgreementMessage \<Rightarrow> pbft_instance go" where
  "pbft_updateCommandHash inst m =
     (if is_CommandHash (inst_is inst) \<noteq> None
      then (if \<not> bytes_Equal (is_CommandHash (inst_is inst)) (am_CommandHash m)
            then Inl PanicCall else Inr inst)
      else Inr (inst\<lparr>inst_is := (inst_is inst)\<lparr>is_CommandHash := am_CommandHash m\<rparr>\<rparr>))"

definition pbft_checkCommandHash :: "'a go_env_scheme \<Rightarrow> Command option \<Rightarrow> slice \<Rightarrow> bool go" where
  "pbft_checkCommandHash E cmd h = go_bind (Hash_ptr E cmd) (\<lambda>compHash. Inr (bytes_Equal h compHash))"

definition set_status :: "InstanceState_Status \<Rightarrow> pbft_instance \<Rightarrow> pbft_instance" where
  "set_status st inst = inst\<lparr>inst_is := (inst_is inst)\<lparr>is_Status := st\<rparr>\<rparr>"

definition put_inst :: "u64 \<Rightarrow> pbft_instance \<Rightarrow> PBFT \<Rightarrow> PBFT" where
  "put_inst idx inst p = p\<lparr>p_log := fmupd idx inst (p_log p)\<rparr>"

definition pbft_Execute :: "Command \<Rightarrow> PBFT \<Rightarrow> PBFT" where
  "pbft_Execute cmd p = p\<lparr>p_executedCmds := p_executedCmds p @ [mkExecPacket cmd]\<rparr>"

text \<open>
  The loop of \<open>exec\<close>. It ends: each round clears the command of one instance, and an instance
  without a command stops it.
\<close>

definition pending_cmds :: "PBFT \<Rightarrow> u64 set" where
  "pending_cmds p = {i. \<exists>inst. fmlookup (p_log p) i = Some inst \<and> is_Command (inst_is inst) \<noteq> None}"

function pbft_exec :: "PBFT \<Rightarrow> PBFT" where
  "pbft_exec p =
     (case fmlookup (p_log p) (p_execute p) of
        None \<Rightarrow> p
      | Some inst \<Rightarrow>
          (case is_Command (inst_is inst) of
             None \<Rightarrow> p
           | Some cmd \<Rightarrow>
               (if \<not> IsCommitted (inst_is inst) then p
                else pbft_exec (put_inst (p_execute p) (inst\<lparr>inst_is := (inst_is inst)\<lparr>is_Command := None\<rparr>\<rparr>)
                       ((pbft_Execute cmd p)\<lparr>p_execute := p_execute p + 1\<rparr>)))))"
  by pat_completeness auto
termination
proof (relation "measure (\<lambda>p. card (pending_cmds p))", simp, clarsimp)
  fix p :: PBFT and inst cmd
  assume *: "fmlookup (p_log p) (p_execute p) = Some inst" "is_Command (inst_is inst) = Some cmd"
  let ?p' = "put_inst (p_execute p) (inst\<lparr>inst_is := (inst_is inst)\<lparr>is_Command := None\<rparr>\<rparr>)
    ((pbft_Execute cmd p)\<lparr>p_execute := p_execute p + 1\<rparr>)"
  have "pending_cmds ?p' = pending_cmds p - {p_execute p}"
    by (auto simp: pending_cmds_def put_inst_def pbft_Execute_def split: if_splits)
  moreover have "p_execute p \<in> pending_cmds p" using * by (simp add: pending_cmds_def)
  ultimately show "card (pending_cmds ?p') < card (pending_cmds p)"
    by (metis card_Diff1_less finite)
qed

declare pbft_exec.simps [simp del]

text \<open>
  The end of \<open>onPrePrepare\<close> and of \<open>onPrepare\<close>: the instance is prepared, the replica sends its
  commit and counts its own.
\<close>

definition commit_message :: "u64 \<Rightarrow> u64 \<Rightarrow> slice \<Rightarrow> AgreementMessage" where
  "commit_message v idx h =
     \<lparr>am_View = v, am_Index = idx, am_Type = AMT_Commit, am_Command = None, am_CommandHash = h\<rparr>"

definition pbft_becomePrepared :: "pbft_env \<Rightarrow> u64 \<Rightarrow> AgreementMessage \<Rightarrow> pbft_instance \<Rightarrow> PBFT \<Rightarrow> PBFT go" where
  "pbft_becomePrepared E idx m inst p =
     (let inst1 = set_status St_Prepared inst;
          cm = commit_message (am_View m) (am_Index m) (is_CommandHash (inst_is inst1));
          p1 = pbft_broadcast E (PBFTMessage_Agreement cm) False p
      in go_bind (Quorum_log (p_id p) cm (inst_cCert inst1)) (\<lambda>cc.
           let inst2 = inst1\<lparr>inst_cCert := cc\<rparr> in
           if Quorum_Majority (p_f p) cm cc \<and> IsPrepared (inst_is inst2)
           then Inr (pbft_exec (put_inst idx (set_status St_Committed inst2) p1))
           else Inr (put_inst idx inst2 p1)))"

definition pbft_onPrePrepare :: "pbft_env \<Rightarrow> AgreementMessage \<Rightarrow> PeerID \<Rightarrow> PBFT \<Rightarrow> PBFT go" where
  "pbft_onPrePrepare E m from p =
     go_bind (isCurrentPrimary p from) (\<lambda>primary.
     if \<not> primary then Inr p
     else go_bind (pbft_checkCommandHash E (am_Command m) (am_CommandHash m)) (\<lambda>ok.
     if \<not> ok then Inl PanicCall
     else go_bind (case fmlookup (p_log p) (am_Index m) of
             None \<Rightarrow> Inr (pbft_makeInstance m)
           | Some inst \<Rightarrow> go_bind (pbft_updateCommand inst m) (\<lambda>inst'. pbft_updateCommandHash inst' m)) (\<lambda>inst.
     let m' = m\<lparr>am_Command := None\<rparr> in
     go_bind (Quorum_log from m' (inst_pCert inst)) (\<lambda>pc1.
     let inst1 = set_status St_PrePrepared inst;
         pm = \<lparr>am_View = is_View (inst_is inst1), am_Index = is_Index (inst_is inst1),
               am_Type = AMT_Prepare, am_Command = None, am_CommandHash = is_CommandHash (inst_is inst1)\<rparr> in
     go_bind (Quorum_log (p_id p) pm pc1) (\<lambda>pc2.
     let inst2 = inst1\<lparr>inst_pCert := pc2\<rparr>;
         p1 = pbft_broadcast E (PBFTMessage_Agreement pm) False (put_inst (am_Index m) inst2 p) in
     if Quorum_Majority (p_f p) pm pc2 \<and> IsPrePrepared (inst_is inst2)
     then pbft_becomePrepared E (am_Index m) pm inst2 p1
     else Inr p1)))))"

definition pbft_onPrepare :: "pbft_env \<Rightarrow> AgreementMessage \<Rightarrow> PeerID \<Rightarrow> PBFT \<Rightarrow> PBFT go" where
  "pbft_onPrepare E m from p =
     go_bind (isCurrentPrimary p from) (\<lambda>primary.
     if primary then Inr p
     else go_bind (case fmlookup (p_log p) (am_Index m) of
             None \<Rightarrow> Inr (pbft_makeInstance m)
           | Some inst \<Rightarrow> pbft_updateCommandHash inst m) (\<lambda>inst.
     go_bind (Quorum_log from m (inst_pCert inst)) (\<lambda>pc.
     let inst1 = inst\<lparr>inst_pCert := pc\<rparr>;
         p1 = put_inst (am_Index m) inst1 p in
     if Quorum_Majority (p_f p) m pc \<and> IsPrePrepared (inst_is inst1)
     then pbft_becomePrepared E (am_Index m) m inst1 p1
     else Inr p1)))"

definition pbft_onCommit :: "AgreementMessage \<Rightarrow> PeerID \<Rightarrow> PBFT \<Rightarrow> PBFT go" where
  "pbft_onCommit m from p =
     go_bind (case fmlookup (p_log p) (am_Index m) of
             None \<Rightarrow> Inr (pbft_makeInstance m)
           | Some inst \<Rightarrow> pbft_updateCommandHash inst m) (\<lambda>inst.
     go_bind (Quorum_log from m (inst_cCert inst)) (\<lambda>cc.
     let inst1 = inst\<lparr>inst_cCert := cc\<rparr> in
     if Quorum_Majority (p_f p) m cc \<and> IsPrepared (inst_is inst1)
     then Inr (pbft_exec (put_inst (am_Index m) (set_status St_Committed inst1) p))
     else Inr (put_inst (am_Index m) inst1 p)))"

definition pbft_stepAgreement :: "pbft_env \<Rightarrow> AgreementMessage \<Rightarrow> PeerID \<Rightarrow> PBFT \<Rightarrow> PBFT go" where
  "pbft_stepAgreement E m from p =
     (if p_viewChanging p then Inr p
      else if am_View m \<noteq> p_view p then Inr p
      else case am_Type m of
          AMT_PrePrepare \<Rightarrow> pbft_onPrePrepare E m from p
        | AMT_Prepare \<Rightarrow> pbft_onPrepare E m from p
        | AMT_Commit \<Rightarrow> pbft_onCommit m from p
        | AMT_Unknown _ \<Rightarrow> Inl PanicCall)"

subsection \<open>Requests (\<open>request.go\<close>)\<close>

definition pbft_onRequest :: "pbft_env \<Rightarrow> Command \<Rightarrow> PBFT \<Rightarrow> PBFT go" where
  "pbft_onRequest E cmd p =
     go_bind (go_umod (p_view p) (length (p_nodes p))) (\<lambda>leader.
     if leader \<noteq> p_id p then Inr p
     else let idx = p_index p + 1;
              cmdHash = Command_Hash E cmd;
              is = \<lparr>is_View = p_view p, is_Index = idx, is_Status = St_PrePrepared,
                    is_Command = Some cmd, is_CommandHash = cmdHash\<rparr>;
              ppm = \<lparr>am_View = p_view p, am_Index = idx, am_Type = AMT_PrePrepare,
                     am_Command = Some cmd, am_CommandHash = cmdHash\<rparr>
          in go_bind (Quorum_log (p_id p) ppm pbft_newQuorum) (\<lambda>pc.
             Inr (pbft_broadcast E (PBFTMessage_Agreement ppm) False
                (put_inst idx \<lparr>inst_is = is, inst_pCert = pc, inst_cCert = pbft_newQuorum\<rparr>
                   (p\<lparr>p_index := idx\<rparr>)))))"

end
