(* ===== verification/PBFT_ViewChange.thy ===== *)
theory PBFT_ViewChange
  imports PBFT
begin

text \<open>
  The view change of the PBFT replica and its entry points (\<open>protocols/pbft/pbft.go\<close>). A loop over a
  Go map visits the entries in the order \<open>env_rangeOrder\<close>. A loop \<open>for idx := 1; idx <= maxIdx; idx++\<close>
  over unsigned words need not end when \<open>maxIdx\<close> is the largest word; it is a partial function, and
  the crash \<open>Hang\<close> stands for not returning.
\<close>

datatype nv_error = ErrNewViewVerifyFailed | ErrNewViewNotPossible

subsection \<open>Starting a view change\<close>

definition vc_sets :: "pbft_env \<Rightarrow> PBFT \<Rightarrow> InstanceState list \<times> InstanceState list \<times> u64" where
  "vc_sets E p =
     (let entries = map (\<lambda>k. (k, inst_is (the (fmlookup (p_log p) k)))) (fmkeys (env_rangeOrder E) (p_log p))
      in (map snd (filter (\<lambda>(_, s). IsAtleastPrepared s) entries),
          map snd (filter (\<lambda>(_, s). IsAtleastPrePrepared s) entries),
          fold (\<lambda>(idx, _) maxIdx. if maxIdx < idx then idx else maxIdx) entries 0))"

definition pbft_startViewChange :: "pbft_env \<Rightarrow> u64 \<Rightarrow> PBFT \<Rightarrow> PBFT" where
  "pbft_startViewChange E nextView p =
     (if p_viewChanging p \<and> nextView \<le> p_changingView p then p
      else let p1 = p\<lparr>p_viewChanging := True, p_changingView := nextView\<rparr>
        in case vc_sets E p1 of (pset, qset, maxIdx) \<Rightarrow>
          pbft_broadcast E (PBFTMessage_ViewChange
             \<lparr>vc_NewView = nextView, vc_LowIndex = 0, vc_HighIndex = maxIdx,
              vc_PSet = pset, vc_QSet = qset\<rparr>) True p1)"

subsection \<open>Choosing the instances of the new view\<close>

definition verifyA1 :: "int \<Rightarrow> InstanceState \<Rightarrow> ViewChangeMessage list \<Rightarrow> bool" where
  "verifyA1 f is1 SSet \<longleftrightarrow>
     int (length (filter (\<lambda>vcm. vc_LowIndex vcm < is_Index is1 \<and>
        list_all (\<lambda>is2. is_View is2 < is_View is1 \<or>
           (is_View is1 = is_View is2 \<and> bytes_Equal (is_CommandHash is1) (is_CommandHash is2)))
          (vc_PSet vcm)) SSet)) \<ge> 2 * f + 1"

definition verifyA2 :: "int \<Rightarrow> InstanceState \<Rightarrow> ViewChangeMessage list \<Rightarrow> bool" where
  "verifyA2 f is1 SSet \<longleftrightarrow>
     int (sum_list (map (\<lambda>vcm. length (filter (\<lambda>is2. is_View is2 \<ge> is_View is1 \<and>
        bytes_Equal (is_CommandHash is1) (is_CommandHash is2)) (vc_QSet vcm))) SSet)) \<ge> f + 1"

definition getInstanceAtIndex :: "int \<Rightarrow> ViewChangeMessage list \<Rightarrow> u64 \<Rightarrow> InstanceState option" where
  "getInstanceAtIndex f SSet idx =
     find (\<lambda>is. is_Index is = idx \<and> verifyA1 f is SSet \<and> verifyA2 f is SSet) (concat (map vc_PSet SSet))"

text \<open>
  The first loop of \<open>constructNewView\<close>, over the entries for the new view. It returns from the
  whole function, here with \<open>None\<close>, at the first entry that is not valid.
\<close>

fun cnv_collect :: "vcItem list \<Rightarrow> NewViewProof list \<Rightarrow> ViewChangeMessage list \<Rightarrow> u64
    \<Rightarrow> (NewViewProof list \<times> ViewChangeMessage list \<times> u64) option go" where
  "cnv_collect [] nvproof SSet maxIdx = Inr (Some (nvproof, SSet, maxIdx))"
| "cnv_collect (entry # es) nvproof SSet maxIdx =
     (if vi_valid entry
      then (case vi_vcMessage entry of
          None \<Rightarrow> Inl NilDeref
        | Some vm \<Rightarrow> cnv_collect es
            (nvproof @ [\<lparr>nvp_AckFor = vi_vcSender entry, nvp_Digest = vi_vcDigest entry\<rparr>])
            (SSet @ [vm]) (if maxIdx < vc_HighIndex vm then vc_HighIndex vm else maxIdx))
      else Inr None)"

partial_function (option) cnv_loop :: "(u64 \<Rightarrow> InstanceState option) \<Rightarrow> u64 \<Rightarrow> u64
    \<Rightarrow> (u64, InstanceState) fmap \<Rightarrow> bool \<Rightarrow> ((u64, InstanceState) fmap \<times> bool) option" where
  "cnv_loop get maxIdx idx instances hasHoles =
     (if idx \<le> maxIdx
      then (case get idx of
          Some inst \<Rightarrow> cnv_loop get maxIdx (idx + 1) (fmupd idx inst instances) False
        | None \<Rightarrow> Some (instances, True))
      else Some (instances, hasHoles))"

declare cnv_loop.simps [code]

definition pbft_constructNewView :: "pbft_env \<Rightarrow> u64 \<Rightarrow> PBFT \<Rightarrow> PBFT go" where
  "pbft_constructNewView E newView p =
     go_bind (cnv_collect (fmvals (env_rangeOrder E) (fmsub (vq_messages (p_vcQuorum p)) newView)) [] [] 0)
       (\<lambda>r. case r of
          None \<Rightarrow> Inr p
        | Some (nvproof, SSet, maxIdx) \<Rightarrow>
            (case cnv_loop (getInstanceAtIndex (p_f p) SSet) maxIdx 1 fmempty True of
               None \<Rightarrow> Inl Hang
             | Some (instances, hasHoles) \<Rightarrow>
                 (if \<not> hasHoles
                  then Inr (pbft_broadcast E (PBFTMessage_NewView
                       \<lparr>nv_NewView = newView, nv_NvProof = nvproof, nv_Instances = instances\<rparr>) True p)
                  else Inr p)))"

subsection \<open>Accepting a new view\<close>

text \<open>The loop of \<open>verifyNewView\<close> over the entries: those that are not valid are left out.\<close>

fun vnv_collect :: "vcItem list \<Rightarrow> ViewChangeMessage list \<Rightarrow> u64 \<Rightarrow> (ViewChangeMessage list \<times> u64) go" where
  "vnv_collect [] SSet maxIdx = Inr (SSet, maxIdx)"
| "vnv_collect (entry # es) SSet maxIdx =
     (if vi_valid entry
      then (case vi_vcMessage entry of
          None \<Rightarrow> Inl NilDeref
        | Some vm \<Rightarrow> vnv_collect es (SSet @ [vm])
            (if maxIdx < vc_HighIndex vm then vc_HighIndex vm else maxIdx))
      else vnv_collect es SSet maxIdx)"

partial_function (option) vnv_loop :: "(u64 \<Rightarrow> InstanceState option) \<Rightarrow> (u64, InstanceState) fmap
    \<Rightarrow> u64 \<Rightarrow> u64 \<Rightarrow> nv_error option option" where
  "vnv_loop get instances maxIdx idx =
     (if idx \<le> maxIdx
      then (case get idx of
          None \<Rightarrow> Some (Some ErrNewViewNotPossible)
        | Some inst \<Rightarrow>
            (if \<not> InstanceState_Equals inst
                  (case fmlookup instances idx of None \<Rightarrow> zero_InstanceState | Some s \<Rightarrow> s)
             then Some (Some ErrNewViewVerifyFailed)
             else vnv_loop get instances maxIdx (idx + 1)))
      else Some None)"

declare vnv_loop.simps [code]

definition pbft_verifyNewView :: "pbft_env \<Rightarrow> NewViewMessage \<Rightarrow> PBFT \<Rightarrow> nv_error option go" where
  "pbft_verifyNewView E m p =
     go_bind (vnv_collect (fmvals (env_rangeOrder E) (fmsub (vq_messages (p_vcQuorum p)) (nv_NewView m))) [] 0)
       (\<lambda>(SSet, maxIdx).
          case vnv_loop (getInstanceAtIndex (p_f p) SSet) (nv_Instances m) maxIdx 1 of
            None \<Rightarrow> Inl Hang
          | Some err \<Rightarrow> Inr err)"

text \<open>One round of the loop of \<open>processNewView\<close> that installs the instances.\<close>

definition pbft_installInstance :: "pbft_env \<Rightarrow> u64 \<Rightarrow> PeerID \<Rightarrow> InstanceState \<Rightarrow> PBFT \<Rightarrow> PBFT go" where
  "pbft_installInstance E newView from is p =
     (let inst = \<lparr>inst_is = \<lparr>is_View = newView, is_Index = is_Index is, is_Status = St_PrePrepared,
                             is_Command = is_Command is, is_CommandHash = None\<rparr>,
                  inst_pCert = pbft_newQuorum, inst_cCert = pbft_newQuorum\<rparr>;
          p1 = put_inst (is_Index is) inst p;
          ppm = \<lparr>am_View = newView, am_Index = is_Index is, am_Type = AMT_PrePrepare,
                 am_Command = is_Command is, am_CommandHash = is_CommandHash is\<rparr>
      in go_bind (isCurrentPrimary p1 (p_id p1)) (\<lambda>primary.
           if \<not> primary then pbft_onPrePrepare E ppm from p1
           else go_bind (Quorum_log (p_id p1) ppm (inst_pCert inst)) (\<lambda>pc.
             Inr (put_inst (is_Index is) (inst\<lparr>inst_pCert := pc\<rparr>) p1))))"

definition pbft_processNewView :: "pbft_env \<Rightarrow> NewViewMessage \<Rightarrow> PeerID \<Rightarrow> PBFT \<Rightarrow> PBFT go" where
  "pbft_processNewView E m from p =
     (if \<not> p_viewChanging p \<and> p_view p = nv_NewView m then Inr p
      else go_bind (pbft_verifyNewView E m p) (\<lambda>err.
        case err of
          Some ErrNewViewVerifyFailed \<Rightarrow> Inl PanicCall
        | Some ErrNewViewNotPossible \<Rightarrow> Inr p
        | None \<Rightarrow>
            go_fold (pbft_installInstance E (nv_NewView m) from)
              (fmvals (env_rangeOrder E) (nv_Instances m))
              (p\<lparr>p_view := nv_NewView m, p_viewChanging := False\<rparr>)))"

subsection \<open>Handlers of the view-change messages\<close>

definition pbft_onViewChange :: "pbft_env \<Rightarrow> ViewChangeMessage \<Rightarrow> PeerID \<Rightarrow> PBFT \<Rightarrow> PBFT go" where
  "pbft_onViewChange E m from p =
     (if vc_NewView m \<le> p_view p \<or> (p_viewChanging p \<and> vc_NewView m < p_changingView p) then Inr p
      else if list_ex (\<lambda>is. is_View is > p_view p) (vc_PSet m) then Inl FatalExit
      else if list_ex (\<lambda>is. is_View is > p_view p) (vc_QSet m) then Inl FatalExit
      else let digest = Some (env_sha256 E (env_marshalViewChange E m)) in
        go_bind (go_imod (vc_NewView m) (length (p_nodes p))) (\<lambda>to.
        let p1 = pbft_sendTo E to (PBFTMessage_ViewChangeAck
                   \<lparr>vca_NewView = vc_NewView m, vca_AckFor = from, vca_Digest = digest\<rparr>) p;
            p2 = p1\<lparr>p_vcQuorum := addVCMessage (p_f p) from m digest (p_vcQuorum p1)\<rparr> in
        go_bind (isPrimaryAtView p2 (p_id p2) (vc_NewView m)) (\<lambda>primary.
        go_bind (if primary then pbft_constructNewView E (vc_NewView m) p2 else Inr p2) (\<lambda>p3.
        case fmlookup (vq_nvMessage (p_vcQuorum p3)) to of
          Some nv \<Rightarrow> pbft_processNewView E nv to p3
        | None \<Rightarrow> Inr p3))))"

definition pbft_onViewChangeAck :: "pbft_env \<Rightarrow> ViewChangeAckMessage \<Rightarrow> PeerID \<Rightarrow> PBFT \<Rightarrow> PBFT go" where
  "pbft_onViewChangeAck E m from p =
     go_bind (addVCAMessage (p_f p) from m (p_vcQuorum p)) (\<lambda>q.
       pbft_constructNewView E (vca_NewView m) (p\<lparr>p_vcQuorum := q\<rparr>))"

definition pbft_onNewView :: "pbft_env \<Rightarrow> NewViewMessage \<Rightarrow> PeerID \<Rightarrow> PBFT \<Rightarrow> PBFT go" where
  "pbft_onNewView E m from p =
     go_bind (isPrimaryAtView p from (nv_NewView m)) (\<lambda>primary.
       if \<not> primary then Inl FatalExit
       else pbft_processNewView E m from (p\<lparr>p_vcQuorum := addNVMessage from m (p_vcQuorum p)\<rparr>))"

subsection \<open>Entry points\<close>

definition pbft_Step :: "pbft_env \<Rightarrow> Message \<Rightarrow> PBFT \<Rightarrow> PBFT go" where
  "pbft_Step E message p =
     (case env_unmarshalPBFT E (msg_Content message) of
        None \<Rightarrow> Inl PanicCall
      | Some pbftMsg \<Rightarrow>
          (if \<not> env_verifyCertificate E (msg_Content message) (msg_Certificate message) then Inl PanicCall
           else case pbftMsg of
               PBFTMessage_Agreement m \<Rightarrow> pbft_stepAgreement E m (msg_From message) p
             | PBFTMessage_ViewChange m \<Rightarrow> pbft_onViewChange E m (msg_From message) p
             | PBFTMessage_ViewChangeAck m \<Rightarrow> pbft_onViewChangeAck E m (msg_From message) p
             | PBFTMessage_NewView m \<Rightarrow> pbft_onNewView E m (msg_From message) p
             | PBFTMessage_Unset \<Rightarrow> Inr p))"

definition pbft_Callback :: "ExecCallback \<Rightarrow> PBFT \<Rightarrow> PBFT go" where
  "pbft_Callback cb p = Inl PanicCall"

definition pbft_Tick :: "PBFT \<Rightarrow> PBFT go" where
  "pbft_Tick p = Inr (p\<lparr>p_timers := map (fst \<circ> Timer_Tick) (p_timers p)\<rparr>)"

definition pbft_Request :: "pbft_env \<Rightarrow> Command \<Rightarrow> PBFT \<Rightarrow> PBFT go" where
  "pbft_Request E cmd p = pbft_onRequest E cmd p"

definition pbft_MakeReady :: "PBFT \<Rightarrow> Ready" where
  "pbft_MakeReady p = \<lparr>rd_Messages = p_msgs p, rd_OrderedCommands = p_executedCmds p\<rparr>"

definition pbft_ClearExecutedCommands :: "PBFT \<Rightarrow> PBFT" where
  "pbft_ClearExecutedCommands p = p\<lparr>p_executedCmds := []\<rparr>"

definition pbft_hasStatus :: "u64 \<Rightarrow> InstanceState_Status \<Rightarrow> PBFT \<Rightarrow> bool" where
  "pbft_hasStatus idx status p =
     (case fmlookup (p_log p) idx of Some inst \<Rightarrow> is_Status (inst_is inst) = status | None \<Rightarrow> False)"

definition pbft_hasPrePrepared :: "u64 \<Rightarrow> PBFT \<Rightarrow> bool" where
  "pbft_hasPrePrepared idx p = pbft_hasStatus idx St_PrePrepared p"

definition pbft_hasExecuted :: "u64 \<Rightarrow> PBFT \<Rightarrow> bool" where
  "pbft_hasExecuted idx p = pbft_hasStatus idx St_Committed p"

definition pbft_Protocol :: "pbft_env \<Rightarrow> PBFT Protocol" where
  "pbft_Protocol E =
     \<lparr>pr_Step = pbft_Step E, pr_Tick = pbft_Tick, pr_Request = pbft_Request E,
      pr_Callback = pbft_Callback, pr_MakeReady = (\<lambda>s. Inr (pbft_MakeReady s, s)), pr_ClearMsgs = pbft_ClearMsgs,
      pr_ClearExecutedCommands = pbft_ClearExecutedCommands, pr_AsyncCallback = pbft_AsyncCallback\<rparr>"

end
