(* ===== verification/PBFT_Local.thy ===== *)
theory PBFT_Local
  imports PBFT_ViewChange
begin

text \<open>
  What one PBFT replica guarantees while it stays in one view: the table of votes is an
  instance of the interface \<open>vote_quorum\<close>, and every handler keeps the invariant \<open>replica_ok\<close>, records
  only its own votes and the vote it received, never drops a vote of its own, and sends only
  votes that it has recorded.
\<close>

subsection \<open>The vote table\<close>

definition am_key :: "AgreementMessage \<Rightarrow> u64 \<times> u64 \<times> bytes" where
  "am_key m = (am_View m, am_Index m, sbytes (am_CommandHash m))"

definition q_votes :: "Quorum \<Rightarrow> u64 \<Rightarrow> (PeerID, AgreementMessage) fmap" where
  "q_votes q v = fmsub (q_msgs q) v"

lemma AgreementMessage_Equals_key: "AgreementMessage_Equals m m' \<longleftrightarrow> am_key m' = am_key m"
  by (auto simp: AgreementMessage_Equals_def am_key_def bytes_Equal_def)

lemma q_votes_new [simp]: "q_votes pbft_newQuorum v = fmempty"
  by (simp add: q_votes_def pbft_newQuorum_def)

lemma Quorum_log_Inr:
  "Quorum_log i m q = Inr q' \<longleftrightarrow> q_maxView q \<le> am_View m \<and> fmlookup (q_votes q (am_View m)) i = None
     \<and> q' = \<lparr>q_maxView = am_View m,
            q_msgs = fmupd (am_View m) (fmupd i m (q_votes q (am_View m))) (q_msgs q)\<rparr>"
  by (auto simp: Quorum_log_def q_votes_def Let_def not_less split: option.splits if_splits)

lemma Quorum_log_fresh: "Quorum_log i m q = Inr q' \<Longrightarrow> fmlookup (q_votes q (am_View m)) i = None"
  by (simp add: Quorum_log_Inr)

lemma q_votes_log:
  "Quorum_log i m q = Inr q' \<Longrightarrow>
     q_votes q' v = (if v = am_View m then fmupd i m (q_votes q v) else q_votes q v)"
  by (auto simp: Quorum_log_Inr q_votes_def)

lemma Quorum_Majority_count:
  assumes "0 \<le> f"
  shows "Quorum_Majority f m q \<longleftrightarrow> 2 * f < int (fmcount (\<lambda>m'. am_key m' = am_key m) (q_votes q (am_View m)))"
proof (cases "fmlookup (q_msgs q) (am_View m)")
  case None
  then show ?thesis using assms
    by (simp add: Quorum_Majority_def q_votes_def fmsub_def fmcount_card)
next
  case (Some t)
  have "int (fmcount (AgreementMessage_Equals m) t) \<le> int (fmlen t)"
    by (simp add: fmcount_le_fmlen)
  moreover have "AgreementMessage_Equals m = (\<lambda>m'. am_key m' = am_key m)"
    by (auto simp: AgreementMessage_Equals_key)
  ultimately show ?thesis using Some
    by (simp add: Quorum_Majority_def q_votes_def fmsub_def)
qed

interpretation pq: vote_quorum Quorum_log q_votes Quorum_Majority am_View am_key "\<lambda>f. 2 * f"
  by unfold_locales (auto simp: q_votes_log Quorum_Majority_count dest: Quorum_log_fresh)

subsection \<open>Recorded and emitted votes\<close>

text \<open>
  A vote is an index, a replica and the hash it supports. \<open>rec_votes\<close> are those in the tables of
  prepare votes; \<open>own_votes\<close> the replica's own.
\<close>

definition rec_votes :: "u64 \<Rightarrow> PBFT \<Rightarrow> (u64 \<times> PeerID \<times> bytes) set" where
  "rec_votes v p = {(i, j, h). \<exists>inst m. fmlookup (p_log p) i = Some inst \<and>
      fmlookup (q_votes (inst_pCert inst) v) j = Some m \<and> h = sbytes (am_CommandHash m)}"

definition own_votes :: "u64 \<Rightarrow> PBFT \<Rightarrow> (u64 \<times> bytes) set" where
  "own_votes v p = {(i, h). (i, p_id p, h) \<in> rec_votes v p}"

lemma own_votes_unique: "(i, h) \<in> own_votes v p \<Longrightarrow> (i, h') \<in> own_votes v p \<Longrightarrow> h = h'"
  by (auto simp: own_votes_def rec_votes_def)

text \<open>The contents a replica has produced and not yet passed to the transport.\<close>

definition contents :: "PBFT \<Rightarrow> bytes set" where
  "contents p = fst ` set_mset (pool_jobs (p_signDispatcher p)) \<union> msg_Content ` set (p_msgs p)"

definition votes_in :: "pbft_env \<Rightarrow> u64 \<Rightarrow> bytes set \<Rightarrow> (u64 \<times> bytes) set" where
  "votes_in E v C = {(i, h). \<exists>c \<in> C. \<exists>m. env_unmarshalPBFT E c = Some (PBFTMessage_Agreement m)
      \<and> am_Type m \<in> {AMT_PrePrepare, AMT_Prepare} \<and> am_key m = (v, i, h)}"

text \<open>
  What the theorems need of the wire format: an encoded message that decodes to an agreement
  message was one, with the same view, index, type and hash.
\<close>

definition wire_faithful :: "pbft_env \<Rightarrow> bool" where
  "wire_faithful E \<longleftrightarrow> (\<forall>M m'. env_unmarshalPBFT E (env_marshalPBFT E M) = Some (PBFTMessage_Agreement m') \<longrightarrow>
      (\<exists>m. M = PBFTMessage_Agreement m \<and> am_key m' = am_key m \<and> am_Type m' = am_Type m))"

lemma votes_in_mono: "C \<subseteq> D \<Longrightarrow> votes_in E v C \<subseteq> votes_in E v D"
  by (auto simp: votes_in_def)

lemma votes_in_Un: "votes_in E v (C \<union> D) = votes_in E v C \<union> votes_in E v D"
  by (auto simp: votes_in_def)

lemma contents_broadcast [simp]:
  "contents (pbft_broadcast E m b p) = insert (env_marshalPBFT E m) (contents p)"
  by (simp add: contents_def pbft_broadcast_def)

lemma votes_in_insert_marshal:
  assumes "wire_faithful E" "(i, h) \<in> votes_in E v (insert (env_marshalPBFT E M) C)"
  shows "(i, h) \<in> votes_in E v C \<or> (\<exists>m. M = PBFTMessage_Agreement m \<and> am_key m = (v, i, h)
      \<and> am_Type m \<in> {AMT_PrePrepare, AMT_Prepare})"
  using assms unfolding wire_faithful_def votes_in_def by fastforce

subsection \<open>The invariant of a replica\<close>

text \<open>
  A command \<open>agrees\<close> with a hash when it, or a command that \<open>Equal\<close> identifies with it, has that hash:
  \<open>updateCommand\<close> keeps the command it already has when the one of the pre-prepare is \<open>Equal\<close> to it.
\<close>

definition agrees :: "pbft_env \<Rightarrow> Command \<Rightarrow> bytes \<Rightarrow> bool" where
  "agrees E c h \<longleftrightarrow> (\<exists>c0. sbytes (Command_Hash E c0) = h
      \<and> (c = c0 \<or> Command_Equal (Some c) (Some c0) = Inr True))"

definition inst_hash :: "pbft_instance \<Rightarrow> bytes" where
  "inst_hash inst = sbytes (is_CommandHash (inst_is inst))"

definition inst_ok :: "pbft_env \<Rightarrow> u64 \<Rightarrow> int \<Rightarrow> PeerID \<Rightarrow> u64 \<Rightarrow> pbft_instance \<Rightarrow> bool" where
  "inst_ok E v f rid i inst \<longleftrightarrow>
     is_View (inst_is inst) = v \<and> is_Index (inst_is inst) = i
     \<and> (St_PrePrepared \<le> is_Status (inst_is inst) \<longrightarrow>
          is_CommandHash (inst_is inst) \<noteq> None \<and> fmlookup (q_votes (inst_pCert inst) v) rid \<noteq> None
          \<and> (\<forall>c. is_Command (inst_is inst) = Some c \<longrightarrow> agrees E c (inst_hash inst)))
     \<and> (St_Prepared \<le> is_Status (inst_is inst) \<longrightarrow>
          2 * f < int (card (pq.supporters (inst_pCert inst) v (v, i, inst_hash inst))))"

text \<open>The commands executed so far, in order: those already applied and those waiting.\<close>

definition executed :: "Command list \<Rightarrow> PBFT \<Rightarrow> Command list" where
  "executed H p = H @ map ep_Cmd (p_executedCmds p)"

definition exec_ok :: "pbft_env \<Rightarrow> Command list \<Rightarrow> PBFT \<Rightarrow> bool" where
  "exec_ok E H p \<longleftrightarrow> p_execute p = of_nat (length (executed H p) + 1)
     \<and> (\<forall>k < length (executed H p). \<exists>inst. fmlookup (p_log p) (of_nat (k + 1)) = Some inst
          \<and> is_Status (inst_is inst) = St_Committed \<and> agrees E (executed H p ! k) (inst_hash inst))"

definition leads :: "u64 \<Rightarrow> PBFT \<Rightarrow> bool" where
  "leads v p \<longleftrightarrow> p_id p = v mod of_nat (length (p_nodes p))"

text \<open>
  The last two conjuncts: the primary has voted only for the numbers it has given out, and
  a replica puts its own name on what it sends.
\<close>

definition replica_ok :: "pbft_env \<Rightarrow> u64 \<Rightarrow> Command list \<Rightarrow> PBFT \<Rightarrow> bool" where
  "replica_ok E v H p \<longleftrightarrow> p_view p = v \<and> 0 \<le> p_f p \<and> vq_nvMessage (p_vcQuorum p) = fmempty
     \<and> (\<forall>i inst. fmlookup (p_log p) i = Some inst \<longrightarrow> inst_ok E v (p_f p) (p_id p) i inst)
     \<and> exec_ok E H p
     \<and> (leads v p \<longrightarrow> (\<forall>(i, h) \<in> own_votes v p. i \<le> p_index p))
     \<and> (\<forall>m \<in> set (p_msgs p). msg_From m = p_id p)"

text \<open>
  The effect of a step on the votes, where \<open>F\<close> are the votes of other replicas that it received.
\<close>

definition vote_step :: "pbft_env \<Rightarrow> u64 \<Rightarrow> (u64 \<times> PeerID \<times> bytes) set \<Rightarrow> PBFT \<Rightarrow> PBFT \<Rightarrow> bool" where
  "vote_step E v F p p' \<longleftrightarrow> p_id p' = p_id p \<and> p_nodes p' = p_nodes p \<and> p_f p' = p_f p
     \<and> own_votes v p \<subseteq> own_votes v p'
     \<and> rec_votes v p' \<subseteq> rec_votes v p \<union> F \<union> {(i, p_id p, h) | i h. True}
     \<and> votes_in E v (contents p') \<subseteq> votes_in E v (contents p) \<union> own_votes v p'"

lemma vote_step_refl: "vote_step E v F p p"
  by (auto simp: vote_step_def)

lemma vote_step_trans:
  "vote_step E v F p p1 \<Longrightarrow> vote_step E v F p1 p2 \<Longrightarrow> vote_step E v F p p2"
  unfolding vote_step_def by auto

text \<open>What a handler does to a replica: the invariant holds again and the votes are accounted for.\<close>

definition ok_step :: "pbft_env \<Rightarrow> u64 \<Rightarrow> Command list \<Rightarrow> (u64 \<times> PeerID \<times> bytes) set \<Rightarrow> PBFT \<Rightarrow> PBFT \<Rightarrow> bool" where
  "ok_step E v H F p p' \<longleftrightarrow> replica_ok E v H p' \<and> vote_step E v F p p'"

lemma ok_step_refl: "replica_ok E v H p \<Longrightarrow> ok_step E v H F p p"
  by (simp add: ok_step_def vote_step_refl)

lemma ok_step_trans: "ok_step E v H F p p1 \<Longrightarrow> ok_step E v H F p1 p2 \<Longrightarrow> ok_step E v H F p p2"
  by (auto simp: ok_step_def intro: vote_step_trans)

lemma ok_step_replica: "ok_step E v H F p p' \<Longrightarrow> replica_ok E v H p'"
  by (simp add: ok_step_def)

lemma ok_step_id: "ok_step E v H F p p' \<Longrightarrow> p_id p' = p_id p \<and> p_nodes p' = p_nodes p \<and> p_f p' = p_f p"
  by (simp add: ok_step_def vote_step_def)

lemma replica_ok_inst:
  "replica_ok E v H p \<Longrightarrow> fmlookup (p_log p) i = Some inst \<Longrightarrow> inst_ok E v (p_f p) (p_id p) i inst"
  by (simp add: replica_ok_def)

lemmas replica_unfold = replica_ok_def exec_ok_def executed_def own_votes_def rec_votes_def leads_def

subsection \<open>Changing one instance\<close>

text \<open>
  How the entry of an instance may change: votes are added only by \<open>F\<close> and the replica itself, the
  replica's own vote stays, and so does a committed instance.
\<close>

definition inst_ext :: "u64 \<Rightarrow> PeerID \<Rightarrow> u64 \<Rightarrow> (u64 \<times> PeerID \<times> bytes) set
    \<Rightarrow> pbft_instance option \<Rightarrow> pbft_instance \<Rightarrow> bool" where
  "inst_ext v rid i F old new \<longleftrightarrow>
     (\<forall>j m. fmlookup (q_votes (inst_pCert new) v) j = Some m \<longrightarrow>
        (\<exists>o'. old = Some o' \<and> fmlookup (q_votes (inst_pCert o') v) j = Some m)
        \<or> j = rid \<or> (i, j, sbytes (am_CommandHash m)) \<in> F)
     \<and> (\<forall>o'. old = Some o' \<longrightarrow>
        (\<forall>m. fmlookup (q_votes (inst_pCert o') v) rid = Some m \<longrightarrow>
           fmlookup (q_votes (inst_pCert new) v) rid = Some m)
        \<and> (is_Status (inst_is o') = St_Committed \<longrightarrow>
             is_Status (inst_is new) = St_Committed \<and> inst_hash new = inst_hash o'))"

lemma put_inst_sel [simp]:
  "p_id (put_inst i inst p) = p_id p" "p_nodes (put_inst i inst p) = p_nodes p"
  "p_f (put_inst i inst p) = p_f p" "p_view (put_inst i inst p) = p_view p"
  "p_log (put_inst i inst p) = fmupd i inst (p_log p)" "p_msgs (put_inst i inst p) = p_msgs p"
  "p_index (put_inst i inst p) = p_index p" "p_vcQuorum (put_inst i inst p) = p_vcQuorum p"
  "p_execute (put_inst i inst p) = p_execute p" "p_executedCmds (put_inst i inst p) = p_executedCmds p"
  "p_signDispatcher (put_inst i inst p) = p_signDispatcher p" "contents (put_inst i inst p) = contents p"
  by (simp_all add: put_inst_def contents_def)

lemma rec_votes_put:
  "(i', j, h) \<in> rec_votes v (put_inst i inst p) \<longleftrightarrow>
     (if i' = i then \<exists>m. fmlookup (q_votes (inst_pCert inst) v) j = Some m \<and> h = sbytes (am_CommandHash m)
      else (i', j, h) \<in> rec_votes v p)"
  by (auto simp: rec_votes_def)

lemma put_inst_votes:
  assumes "inst_ext v (p_id p) i F (fmlookup (p_log p) i) inst"
  shows "vote_step E v F p (put_inst i inst p)"
proof -
  have "own_votes v p \<subseteq> own_votes v (put_inst i inst p)"
    using assms by (auto simp: own_votes_def rec_votes_put inst_ext_def rec_votes_def)
  moreover have "rec_votes v (put_inst i inst p) \<subseteq> rec_votes v p \<union> F \<union> {(i, p_id p, h) | i h. True}"
  proof
    fix x assume x: "x \<in> rec_votes v (put_inst i inst p)"
    obtain i' j h where [simp]: "x = (i', j, h)" by (cases x)
    show "x \<in> rec_votes v p \<union> F \<union> {(i, p_id p, h) | i h. True}"
      using x assms unfolding inst_ext_def
      by (cases "i' = i"; simp add: rec_votes_put) (simp add: rec_votes_def, metis)
  qed
  ultimately show ?thesis by (simp add: vote_step_def)
qed

lemma put_inst_exec_ok:
  assumes "exec_ok E H p" "inst_ext v rid i F (fmlookup (p_log p) i) inst"
  shows "exec_ok E H (put_inst i inst p)"
  unfolding exec_ok_def
proof (intro conjI allI impI)
  show "p_execute (put_inst i inst p) = of_nat (length (executed H (put_inst i inst p)) + 1)"
    using assms(1) by (simp add: exec_ok_def executed_def)
  fix k assume "k < length (executed H (put_inst i inst p))"
  then have "k < length (executed H p)" by (simp add: executed_def)
  with assms(1) obtain o' where o': "fmlookup (p_log p) (of_nat (k + 1)) = Some o'"
    "is_Status (inst_is o') = St_Committed" "agrees E (executed H p ! k) (inst_hash o')"
    unfolding exec_ok_def by blast
  show "\<exists>inst'. fmlookup (p_log (put_inst i inst p)) (of_nat (k + 1)) = Some inst' \<and>
      is_Status (inst_is inst') = St_Committed \<and>
      agrees E (executed H (put_inst i inst p) ! k) (inst_hash inst')"
  proof (cases "of_nat (k + 1) = i")
    case True
    with o' assms(2) show ?thesis by (auto simp: inst_ext_def executed_def)
  next
    case False
    with o' show ?thesis by (auto simp: executed_def)
  qed
qed

lemma put_inst_ok:
  assumes p: "replica_ok E v H p"
    and new: "inst_ok E v (p_f p) (p_id p) i inst"
    and ext: "inst_ext v (p_id p) i F (fmlookup (p_log p) i) inst"
    and lead: "leads v p \<Longrightarrow> fmlookup (q_votes (inst_pCert inst) v) (p_id p) \<noteq> None \<Longrightarrow> i \<le> p_index p"
  shows "ok_step E v H F p (put_inst i inst p)"
proof -
  have "leads v (put_inst i inst p) = leads v p" by (simp add: leads_def)
  moreover have "i' \<le> p_index p" if "leads v p" "(i', h) \<in> own_votes v (put_inst i inst p)" for i' h
    using that p lead by (cases "i' = i") (auto simp: own_votes_def rec_votes_put replica_ok_def)
  ultimately have "replica_ok E v H (put_inst i inst p)"
    using p new put_inst_exec_ok [OF _ ext, of E H] unfolding replica_ok_def by auto
  with put_inst_votes [OF ext] show ?thesis by (simp add: ok_step_def)
qed

subsection \<open>Sending\<close>

lemma broadcast_sel [simp]:
  "p_log (pbft_broadcast E M b p) = p_log p" "p_id (pbft_broadcast E M b p) = p_id p"
  "p_f (pbft_broadcast E M b p) = p_f p" "p_nodes (pbft_broadcast E M b p) = p_nodes p"
  "p_index (pbft_broadcast E M b p) = p_index p" "p_vcQuorum (pbft_broadcast E M b p) = p_vcQuorum p"
  by (simp_all add: pbft_broadcast_def)

lemma broadcast_ok:
  assumes "replica_ok E v H p" "wire_faithful E"
    and "\<And>m i h. M = PBFTMessage_Agreement m \<Longrightarrow> am_Type m \<in> {AMT_PrePrepare, AMT_Prepare} \<Longrightarrow>
        am_key m = (v, i, h) \<Longrightarrow> (i, h) \<in> own_votes v p"
  shows "ok_step E v H F p (pbft_broadcast E M b p)"
proof -
  let ?p = "pbft_broadcast E M b p"
  have [simp]: "own_votes v ?p = own_votes v p" "rec_votes v ?p = rec_votes v p"
    by (simp_all add: own_votes_def rec_votes_def pbft_broadcast_def)
  have "replica_ok E v H ?p"
    using assms(1) by (simp add: replica_unfold pbft_broadcast_def)
  moreover have "votes_in E v (insert (env_marshalPBFT E M) (contents p)) \<subseteq> votes_in E v (contents p) \<union> own_votes v p"
    using votes_in_insert_marshal [OF assms(2)] assms(3) by (auto simp del: insert_iff) blast
  then have "vote_step E v F p ?p"
    by (auto simp: vote_step_def)
  ultimately show ?thesis by (simp add: ok_step_def)
qed


subsection \<open>Execution\<close>

lemma inst_ok_clear_command:
  "inst_ok E v f rid i inst \<Longrightarrow> inst_ok E v f rid i (inst\<lparr>inst_is := (inst_is inst)\<lparr>is_Command := None\<rparr>\<rparr>)"
  by (simp add: inst_ok_def inst_hash_def)

lemma exec_ok_push:
  assumes "exec_ok E H q" "fmlookup (p_log q) (p_execute q) = Some inst"
    "is_Status (inst_is inst) = St_Committed" "agrees E cmd (inst_hash inst)"
  shows "exec_ok E H (q\<lparr>p_execute := p_execute q + 1, p_executedCmds := p_executedCmds q @ [mkExecPacket cmd]\<rparr>)"
    (is "exec_ok E H ?q'")
proof -
  have ex: "executed H ?q' = executed H q @ [cmd]" by (simp add: executed_def)
  show ?thesis unfolding exec_ok_def ex
  proof (intro conjI allI impI)
    show "p_execute ?q' = of_nat (length (executed H q @ [cmd]) + 1)"
      using assms(1) by (simp add: exec_ok_def)
    fix k assume k: "k < length (executed H q @ [cmd])"
    show "\<exists>inst. fmlookup (p_log ?q') (of_nat (k + 1)) = Some inst \<and> is_Status (inst_is inst) = St_Committed
        \<and> agrees E ((executed H q @ [cmd]) ! k) (inst_hash inst)"
    proof (cases "k = length (executed H q)")
      case True
      with assms show ?thesis by (simp add: exec_ok_def)
    next
      case False
      with k assms(1) show ?thesis by (simp add: exec_ok_def nth_append)
    qed
  qed
qed

lemma exec_round_ok:
  assumes p: "replica_ok E v H p" and inst: "fmlookup (p_log p) (p_execute p) = Some inst"
    and cmd: "is_Command (inst_is inst) = Some cmd" and st: "IsCommitted (inst_is inst)"
  defines "p' \<equiv> put_inst (p_execute p) (inst\<lparr>inst_is := (inst_is inst)\<lparr>is_Command := None\<rparr>\<rparr>)
      ((pbft_Execute cmd p)\<lparr>p_execute := p_execute p + 1\<rparr>)"
  shows "ok_step E v H F p p'"
proof -
  let ?new = "inst\<lparr>inst_is := (inst_is inst)\<lparr>is_Command := None\<rparr>\<rparr>"
  let ?q = "put_inst (p_execute p) ?new p"
  have ok: "inst_ok E v (p_f p) (p_id p) (p_execute p) inst" using replica_ok_inst [OF p inst] .
  have q: "ok_step E v H F p ?q"
  proof (rule put_inst_ok [OF p inst_ok_clear_command [OF ok]])
    show "inst_ext v (p_id p) (p_execute p) F (fmlookup (p_log p) (p_execute p)) ?new"
      by (simp add: inst_ext_def inst inst_hash_def)
    show "p_execute p \<le> p_index p" if "leads v p" "fmlookup (q_votes (inst_pCert ?new) v) (p_id p) \<noteq> None"
      using that p inst by (force simp: replica_unfold)
  qed
  have p'_def': "p' = ?q\<lparr>p_execute := p_execute p + 1, p_executedCmds := p_executedCmds p @ [mkExecPacket cmd]\<rparr>"
    by (simp add: p'_def put_inst_def pbft_Execute_def)
  have agr: "agrees E cmd (inst_hash ?new)" "is_Status (inst_is ?new) = St_Committed"
    using ok cmd st by (auto simp: inst_ok_def IsCommitted_def inst_hash_def less_eq_InstanceState_Status_def)
  have "exec_ok E H ?q" using q by (simp add: ok_step_def replica_ok_def)
  then have "exec_ok E H p'"
    using exec_ok_push [of E H ?q ?new cmd] agr by (simp add: p'_def')
  moreover have "replica_ok E v H ?q" using q by (rule ok_step_replica)
  ultimately have "replica_ok E v H p'"
    unfolding replica_ok_def by (simp add: p'_def' own_votes_def rec_votes_def leads_def)
  moreover have "vote_step E v F p p'"
    using q by (simp add: ok_step_def vote_step_def p'_def' own_votes_def rec_votes_def contents_def)
  ultimately show ?thesis by (simp add: ok_step_def)
qed

lemma exec_ok_step: "replica_ok E v H p \<Longrightarrow> ok_step E v H F p (pbft_exec p)"
proof (induction p rule: pbft_exec.induct)
  case (1 p)
  show ?case
  proof (cases "\<exists>inst cmd. fmlookup (p_log p) (p_execute p) = Some inst \<and>
      is_Command (inst_is inst) = Some cmd \<and> IsCommitted (inst_is inst)")
    case True
    then obtain inst cmd where *: "fmlookup (p_log p) (p_execute p) = Some inst"
      "is_Command (inst_is inst) = Some cmd" "IsCommitted (inst_is inst)" by blast
    note step = exec_round_ok [OF 1(2) *, of F]
    from 1(1) [OF * (1,2) _ ok_step_replica [OF step]] *(3) step show ?thesis
      by (subst pbft_exec.simps) (auto simp: * intro: ok_step_trans)
  next
    case False
    then show ?thesis using 1(2)
      by (subst pbft_exec.simps) (auto simp: ok_step_refl split: option.split)
  qed
qed

lemma exec_after: "ok_step E v H F p q \<Longrightarrow> ok_step E v H F p (pbft_exec q)"
  using exec_ok_step ok_step_replica ok_step_trans by blast

subsection \<open>Agreement\<close>

lemma set_status_sel [simp]:
  "inst_pCert (set_status st inst) = inst_pCert inst" "inst_cCert (set_status st inst) = inst_cCert inst"
  "is_Status (inst_is (set_status st inst)) = st" "inst_hash (set_status st inst) = inst_hash inst"
  "is_CommandHash (inst_is (set_status st inst)) = is_CommandHash (inst_is inst)"
  "is_Command (inst_is (set_status st inst)) = is_Command (inst_is inst)"
  "is_View (inst_is (set_status st inst)) = is_View (inst_is inst)"
  "is_Index (inst_is (set_status st inst)) = is_Index (inst_is inst)"
  by (simp_all add: set_status_def inst_hash_def)

lemma inst_ok_Committed:
  "inst_ok E v f rid i inst \<Longrightarrow> St_Prepared \<le> is_Status (inst_is inst) \<Longrightarrow>
     inst_ok E v f rid i (set_status St_Committed inst)"
  by (auto simp: inst_ok_def set_status_def inst_hash_def less_eq_InstanceState_Status_def)

lemma inst_ok_cCert: "inst_ok E v f rid i inst \<Longrightarrow> inst_ok E v f rid i (inst\<lparr>inst_cCert := cc\<rparr>)"
  by (simp add: inst_ok_def inst_hash_def)

lemma inst_ok_Prepared:
  assumes "inst_ok E v f rid i inst" "is_Status (inst_is inst) = St_PrePrepared" "0 \<le> f"
    "am_key m = (v, i, inst_hash inst)" "Quorum_Majority f m (inst_pCert inst)"
  shows "inst_ok E v f rid i (set_status St_Prepared inst)"
proof -
  have "am_View m = v" using assms(4) by (simp add: am_key_def)
  with assms show ?thesis
    by (auto simp: inst_ok_def set_status_def inst_hash_def less_eq_InstanceState_Status_def
        pq.majority_supporters)
qed

text \<open>An update that keeps the table of prepare votes.\<close>

lemma inst_ext_same_pCert:
  assumes "fmlookup (p_log p) i = Some inst" "inst_pCert new = inst_pCert inst"
    "is_Status (inst_is inst) = St_Committed \<Longrightarrow>
       is_Status (inst_is new) = St_Committed \<and> inst_hash new = inst_hash inst"
  shows "inst_ext v rid i F (fmlookup (p_log p) i) new"
  using assms by (auto simp: inst_ext_def)

lemma own_index_le:
  "replica_ok E v H p \<Longrightarrow> leads v p \<Longrightarrow> fmlookup (p_log p) i = Some inst \<Longrightarrow>
     fmlookup (q_votes (inst_pCert inst) v) (p_id p) \<noteq> None \<Longrightarrow> i \<le> p_index p"
  by (force simp: replica_unfold)

lemma becomePrepared_ok:
  assumes p: "replica_ok E v H p" and E: "wire_faithful E"
    and inst: "fmlookup (p_log p) i = Some inst" and st: "is_Status (inst_is inst) = St_PrePrepared"
    and key: "am_key m = (v, i, inst_hash inst)" and maj: "Quorum_Majority (p_f p) m (inst_pCert inst)"
    and res: "pbft_becomePrepared E i m inst p = Inr p'"
  shows "ok_step E v H F p p'"
proof -
  let ?cm = "commit_message (am_View m) (am_Index m) (is_CommandHash (inst_is (set_status St_Prepared inst)))"
  let ?p1 = "pbft_broadcast E (PBFTMessage_Agreement ?cm) False p"
  have s1: "ok_step E v H F p ?p1"
    by (rule broadcast_ok [OF p E]) (auto simp: commit_message_def)
  note p1 = ok_step_replica [OF s1]
  have ok: "inst_ok E v (p_f p) (p_id p) i (set_status St_Prepared inst)"
    using replica_ok_inst [OF p inst] st key maj p by (intro inst_ok_Prepared) (auto simp: replica_ok_def)
  have put: "ok_step E v H F ?p1 (put_inst i new ?p1)"
    if "inst_ok E v (p_f p) (p_id p) i new" "inst_pCert new = inst_pCert inst" for new
  proof (rule put_inst_ok [OF p1])
    show "inst_ext v (p_id ?p1) i F (fmlookup (p_log ?p1) i) new"
      using that inst st by (intro inst_ext_same_pCert [where inst = inst]) auto
    show "i \<le> p_index ?p1"
      if "leads v ?p1" "fmlookup (q_votes (inst_pCert new) v) (p_id ?p1) \<noteq> None"
      using that \<open>inst_pCert new = inst_pCert inst\<close> own_index_le [OF p1] inst by simp
  qed (use that in simp)
  from res obtain cc where "Quorum_log (p_id p) ?cm (inst_cCert (set_status St_Prepared inst)) = Inr cc"
    and p': "p' = put_inst i ((set_status St_Prepared inst)\<lparr>inst_cCert := cc\<rparr>) ?p1
      \<or> p' = pbft_exec (put_inst i (set_status St_Committed ((set_status St_Prepared inst)\<lparr>inst_cCert := cc\<rparr>)) ?p1)"
    by (auto simp: pbft_becomePrepared_def Let_def go_simps split: if_splits)
  have "inst_ok E v (p_f p) (p_id p) i ((set_status St_Prepared inst)\<lparr>inst_cCert := cc\<rparr>)"
    using ok by (rule inst_ok_cCert)
  moreover then have "inst_ok E v (p_f p) (p_id p) i
      (set_status St_Committed ((set_status St_Prepared inst)\<lparr>inst_cCert := cc\<rparr>))"
    by (rule inst_ok_Committed) (simp add: set_status_def)
  ultimately have "ok_step E v H F ?p1 p'"
    using p' put exec_after [of E v H F ?p1] by (elim disjE) auto
  with s1 show ?thesis by (rule ok_step_trans)
qed

lemma updateCommandHash_Inr:
  "pbft_updateCommandHash inst m = Inr inst' \<longleftrightarrow>
     (if is_CommandHash (inst_is inst) = None
      then inst' = inst\<lparr>inst_is := (inst_is inst)\<lparr>is_CommandHash := am_CommandHash m\<rparr>\<rparr>
      else inst' = inst \<and> inst_hash inst = sbytes (am_CommandHash m))"
  by (auto simp: pbft_updateCommandHash_def bytes_Equal_def inst_hash_def)

lemma updateCommandHash_ok:
  assumes "pbft_updateCommandHash inst m = Inr inst'" "inst_ok E v f rid i inst"
  shows "inst_ok E v f rid i inst' \<and> inst_hash inst' = sbytes (am_CommandHash m)
    \<and> inst_pCert inst' = inst_pCert inst \<and> inst_cCert inst' = inst_cCert inst
    \<and> is_Status (inst_is inst') = is_Status (inst_is inst)
    \<and> is_Command (inst_is inst') = is_Command (inst_is inst)
    \<and> (St_PrePrepared \<le> is_Status (inst_is inst) \<longrightarrow> inst' = inst)"
proof (cases "is_CommandHash (inst_is inst) = None")
  case True
  moreover from this have "\<not> St_PrePrepared \<le> is_Status (inst_is inst)"
    using assms(2) by (auto simp: inst_ok_def)
  moreover from this have "\<not> St_Prepared \<le> is_Status (inst_is inst)"
    by (simp add: less_eq_InstanceState_Status_def)
  ultimately show ?thesis using assms
    by (auto simp: updateCommandHash_Inr inst_ok_def inst_hash_def)
qed (use assms in \<open>simp add: updateCommandHash_Inr\<close>)

lemma makeInstance_ok:
  "am_View m = v \<Longrightarrow> am_Index m = i \<Longrightarrow> inst_ok E v f rid i (pbft_makeInstance m)"
  by (simp add: inst_ok_def pbft_makeInstance_def less_eq_InstanceState_Status_def)

lemma makeInstance_sel [simp]:
  "q_votes (inst_pCert (pbft_makeInstance m)) v = fmempty" "is_Status (inst_is (pbft_makeInstance m)) = St_None"
  "inst_hash (pbft_makeInstance m) = sbytes (am_CommandHash m)"
  "is_CommandHash (inst_is (pbft_makeInstance m)) = am_CommandHash m"
  "is_Command (inst_is (pbft_makeInstance m)) = am_Command m"
  by (simp_all add: pbft_makeInstance_def inst_hash_def)

text \<open>
  The instance that \<open>onPrepare\<close> and \<open>onCommit\<close> work on: the entry of the log with the hash of the message,
  or a new one.
\<close>

lemma target_instance:
  assumes p: "replica_ok E v H p" and v: "am_View m = v"
    and res: "(case fmlookup (p_log p) (am_Index m) of None \<Rightarrow> Inr (pbft_makeInstance m)
       | Some inst \<Rightarrow> pbft_updateCommandHash inst m) = Inr inst"
  shows "inst_ok E v (p_f p) (p_id p) (am_Index m) inst \<and> inst_hash inst = sbytes (am_CommandHash m)
    \<and> inst_ext v (p_id p) (am_Index m) {} (fmlookup (p_log p) (am_Index m)) inst
    \<and> (leads v p \<longrightarrow> fmlookup (q_votes (inst_pCert inst) v) (p_id p) \<noteq> None \<longrightarrow> am_Index m \<le> p_index p)"
proof (cases "fmlookup (p_log p) (am_Index m)")
  case None
  with res v show ?thesis by (auto simp: makeInstance_ok inst_ext_def)
next
  case (Some o')
  with res have u: "pbft_updateCommandHash o' m = Inr inst" by simp
  note * = updateCommandHash_ok [OF u replica_ok_inst [OF p Some]]
  from * Some own_index_le [OF p _ Some] show ?thesis
    by (auto simp: inst_ext_def less_eq_InstanceState_Status_def)
qed

text \<open>Adding the vote of another replica to the table.\<close>

lemma pCert_ok:
  assumes "inst_ok E v f rid i inst" "Quorum_log j m (inst_pCert inst) = Inr pc" "0 \<le> f"
  shows "inst_ok E v f rid i (inst\<lparr>inst_pCert := pc\<rparr>)"
proof -
  have "card (pq.supporters (inst_pCert inst) v (v, i, inst_hash inst)) \<le>
      card (pq.supporters pc v (v, i, inst_hash inst))"
    using pq.supporters_mono [OF assms(2)] by (intro card_mono) auto
  moreover have "fmlookup (q_votes (inst_pCert inst) v) rid \<noteq> None \<Longrightarrow> fmlookup (q_votes pc v) rid \<noteq> None"
    using pq.vote_persists [OF assms(2)] by auto
  ultimately show ?thesis using assms(1) by (auto simp: inst_ok_def inst_hash_def)
qed

lemma pCert_ext:
  assumes "inst_ext v rid i F old inst" "Quorum_log j m (inst_pCert inst) = Inr pc"
    "am_View m = v" "am_Index m = i"
  shows "inst_ext v rid i (insert (i, j, sbytes (am_CommandHash m)) F) old (inst\<lparr>inst_pCert := pc\<rparr>)"
  using assms(1,3,4) pq.vote_origin [OF assms(2)] pq.vote_persists [OF assms(2)]
  unfolding inst_ext_def by (simp add: inst_hash_def) metis

lemma inst_ext_mono: "inst_ext v rid i F old inst \<Longrightarrow> F \<subseteq> F' \<Longrightarrow> inst_ext v rid i F' old inst"
  by (auto simp: inst_ext_def)


lemma onPrepare_ok:
  assumes p: "replica_ok E v H p" and E: "wire_faithful E" and v: "am_View m = v"
    and prim: "isPrimaryAtView p (p_id p) v = Inr (leads v p)"
    and res: "pbft_onPrepare E m from p = Inr p'"
  shows "ok_step E v H {(am_Index m, from, sbytes (am_CommandHash m))} p p'"
proof -
  let ?F = "{(am_Index m, from, sbytes (am_CommandHash m))}"
  have pv: "p_view p = v" "0 \<le> p_f p" using p by (auto simp: replica_ok_def)
  from res obtain b where b: "isCurrentPrimary p from = Inr b" by (auto simp: pbft_onPrepare_def)
  show ?thesis
  proof (cases b)
    case True
    with res b p show ?thesis by (auto simp: pbft_onPrepare_def ok_step_refl)
  next
    case False
    with res b obtain inst pc
      where t: "(case fmlookup (p_log p) (am_Index m) of None \<Rightarrow> Inr (pbft_makeInstance m)
          | Some inst \<Rightarrow> pbft_updateCommandHash inst m) = Inr inst"
        and pc: "Quorum_log from m (inst_pCert inst) = Inr pc"
        and p': "(if Quorum_Majority (p_f p) m pc \<and> IsPrePrepared (inst_is (inst\<lparr>inst_pCert := pc\<rparr>))
          then pbft_becomePrepared E (am_Index m) m (inst\<lparr>inst_pCert := pc\<rparr>) (put_inst (am_Index m) (inst\<lparr>inst_pCert := pc\<rparr>) p)
          else Inr (put_inst (am_Index m) (inst\<lparr>inst_pCert := pc\<rparr>) p)) = Inr p'"
      by (auto simp: pbft_onPrepare_def Let_def go_simps)
    note ti = target_instance [OF p v t]
    let ?i1 = "inst\<lparr>inst_pCert := pc\<rparr>" and ?p1 = "put_inst (am_Index m) (inst\<lparr>inst_pCert := pc\<rparr>) p"
    have s1: "ok_step E v H ?F p ?p1"
    proof (rule put_inst_ok [OF p])
      show "inst_ok E v (p_f p) (p_id p) (am_Index m) ?i1" using ti pc pv by (blast intro: pCert_ok)
      show "inst_ext v (p_id p) (am_Index m) ?F (fmlookup (p_log p) (am_Index m)) ?i1"
        using pCert_ext [OF _ pc v] ti by blast
      show "am_Index m \<le> p_index p" if "leads v p" "fmlookup (q_votes (inst_pCert ?i1) v) (p_id p) \<noteq> None"
      proof -
        have "from \<noteq> p_id p" using prim b False that(1) pv by (auto simp: isCurrentPrimary_def)
        then have "fmlookup (q_votes (inst_pCert inst) v) (p_id p) \<noteq> None"
          using that(2) pq.vote_origin [OF pc] by fastforce
        with ti that(1) show ?thesis by blast
      qed
    qed
    show ?thesis
    proof (cases "Quorum_Majority (p_f p) m pc \<and> IsPrePrepared (inst_is ?i1)")
      case True
      then have "pbft_becomePrepared E (am_Index m) m ?i1 ?p1 = Inr p'" using p' by simp
      moreover have "am_key m = (v, am_Index m, inst_hash ?i1)" using ti v by (simp add: am_key_def inst_hash_def)
      ultimately have "ok_step E v H ?F ?p1 p'"
        using True becomePrepared_ok [OF ok_step_replica [OF s1] E, of "am_Index m" ?i1 m p' ?F]
        by (simp add: IsPrePrepared_def)
      with s1 show ?thesis by (rule ok_step_trans)
    next
      case False
      with p' s1 show ?thesis by (simp split: if_splits)
    qed
  qed
qed

lemma onCommit_ok:
  assumes p: "replica_ok E v H p" and v: "am_View m = v" and res: "pbft_onCommit m from p = Inr p'"
  shows "ok_step E v H {} p p'"
proof -
  from res obtain inst cc
    where t: "(case fmlookup (p_log p) (am_Index m) of None \<Rightarrow> Inr (pbft_makeInstance m)
        | Some inst \<Rightarrow> pbft_updateCommandHash inst m) = Inr inst"
      and p': "(p' = put_inst (am_Index m) (inst\<lparr>inst_cCert := cc\<rparr>) p)
        \<or> (IsPrepared (inst_is inst) \<and>
           p' = pbft_exec (put_inst (am_Index m) (set_status St_Committed (inst\<lparr>inst_cCert := cc\<rparr>)) p))"
    by (auto simp: pbft_onCommit_def Let_def go_simps split: if_splits)
  note ti = target_instance [OF p v t]
  have ok: "inst_ok E v (p_f p) (p_id p) (am_Index m) (inst\<lparr>inst_cCert := cc\<rparr>)"
    using ti inst_ok_cCert by blast
  have s1: "ok_step E v H {} p (put_inst (am_Index m) (inst\<lparr>inst_cCert := cc\<rparr>) p)"
    using ti by (intro put_inst_ok [OF p ok]) (auto simp: inst_ext_def inst_hash_def)
  have s2: "ok_step E v H {} p (put_inst (am_Index m) (set_status St_Committed (inst\<lparr>inst_cCert := cc\<rparr>)) p)"
    if "IsPrepared (inst_is inst)"
  proof (rule put_inst_ok [OF p inst_ok_Committed [OF ok]])
    show "St_Prepared \<le> is_Status (inst_is (inst\<lparr>inst_cCert := cc\<rparr>))" using that by (simp add: IsPrepared_def)
  qed (use ti in \<open>auto simp: inst_ext_def inst_hash_def\<close>)
  show ?thesis using p' s1 s2 exec_after by blast
qed


text \<open>
  The instance that \<open>onPrePrepare\<close> works on holds the hash of the message, and a command that agrees
  with it.
\<close>

definition env_ok :: "pbft_env \<Rightarrow> bool" where
  "env_ok E \<longleftrightarrow> wire_faithful E \<and> encodes_commands E \<and> (\<forall>b. env_sha256 E b \<noteq> [])"

lemma updateCommand_Inr:
  assumes "pbft_updateCommand inst m = Inr inst'" "am_Command m = Some c"
  shows "\<exists>c'. inst' = inst\<lparr>inst_is := (inst_is inst)\<lparr>is_Command := Some c'\<rparr>\<rparr>
    \<and> (c' = c \<or> Command_Equal (Some c') (Some c) = Inr True)"
proof (cases "is_Command (inst_is inst)")
  case None
  with assms show ?thesis by (auto simp: pbft_updateCommand_def)
next
  case (Some c')
  with assms have "inst' = inst" "Command_Equal (Some c') (Some c) = Inr True"
    by (auto simp: pbft_updateCommand_def go_simps split: if_splits)
  with Some show ?thesis by (intro exI [of _ c']) auto
qed

lemma checkCommandHash_True:
  assumes "pbft_checkCommandHash E cmd h = Inr True" "env_ok E"
  obtains c where "cmd = Some c" "sbytes h = sbytes (Command_Hash E c)" "h \<noteq> None" "sbytes h \<noteq> []"
proof -
  from assms(1) obtain c where c: "cmd = Some c" "sbytes h = sbytes (Command_Hash E c)"
    by (auto simp: pbft_checkCommandHash_def go_simps Hash_ptr_Inr bytes_Equal_def)
  moreover have "sbytes (Command_Hash E c) \<noteq> []"
    using assms(2) by (auto simp: Command_Hash_def env_ok_def encodes_commands_def split: option.split)
  ultimately show thesis using that by (cases h) auto
qed

lemma preprepare_instance:
  assumes p: "replica_ok E v H p" and E: "env_ok E" and v: "am_View m = v"
    and chk: "pbft_checkCommandHash E (am_Command m) (am_CommandHash m) = Inr True"
    and res: "(case fmlookup (p_log p) (am_Index m) of None \<Rightarrow> Inr (pbft_makeInstance m)
       | Some inst \<Rightarrow> go_bind (pbft_updateCommand inst m) (\<lambda>inst'. pbft_updateCommandHash inst' m)) = Inr inst"
  shows "is_View (inst_is inst) = v \<and> is_Index (inst_is inst) = am_Index m
    \<and> is_CommandHash (inst_is inst) \<noteq> None \<and> inst_hash inst = sbytes (am_CommandHash m)
    \<and> (\<forall>c. is_Command (inst_is inst) = Some c \<longrightarrow> agrees E c (inst_hash inst))
    \<and> (case fmlookup (p_log p) (am_Index m) of None \<Rightarrow> inst_pCert inst = pbft_newQuorum
        | Some o' \<Rightarrow> inst_pCert inst = inst_pCert o')"
proof -
  obtain c where c: "am_Command m = Some c" "sbytes (am_CommandHash m) = sbytes (Command_Hash E c)"
    "am_CommandHash m \<noteq> None" "sbytes (am_CommandHash m) \<noteq> []"
    using checkCommandHash_True [OF chk E] by blast
  show ?thesis
  proof (cases "fmlookup (p_log p) (am_Index m)")
    case None
    with res v c show ?thesis
      by (auto simp: pbft_makeInstance_def inst_hash_def agrees_def)
  next
    case (Some o')
    with res obtain inst' where u: "pbft_updateCommand o' m = Inr inst'" "pbft_updateCommandHash inst' m = Inr inst"
      by (auto simp: go_simps)
    from updateCommand_Inr [OF u(1) c(1)] obtain c'
      where i': "inst' = o'\<lparr>inst_is := (inst_is o')\<lparr>is_Command := Some c'\<rparr>\<rparr>"
        and c': "c' = c \<or> Command_Equal (Some c') (Some c) = Inr True" by blast
    have "agrees E c' (sbytes (am_CommandHash m))" using c(2) c' by (auto simp: agrees_def)
    with u(2) i' c Some replica_ok_inst [OF p Some] show ?thesis
      by (auto simp: updateCommandHash_Inr inst_hash_def inst_ok_def split: if_splits)
  qed
qed

text \<open>The prepare that a replica sends for an instance it has pre-prepared.\<close>

definition prepare_of :: "pbft_instance \<Rightarrow> AgreementMessage" where
  "prepare_of inst = \<lparr>am_View = is_View (inst_is inst), am_Index = is_Index (inst_is inst),
     am_Type = AMT_Prepare, am_Command = None, am_CommandHash = is_CommandHash (inst_is inst)\<rparr>"

text \<open>
  \<open>onPrePrepare\<close> records two votes, of the primary and of the replica itself. It reaches that point only
  once per number: the second time its own vote is already there.
\<close>

lemma preprepare_votes:
  assumes p: "replica_ok E v H p" and v: "am_View m = v" and i: "am_Index m = i"
    and inst: "is_View (inst_is inst) = v" "is_Index (inst_is inst) = i"
      "is_CommandHash (inst_is inst) \<noteq> None" "inst_hash inst = sbytes (am_CommandHash m)"
      "\<forall>c. is_Command (inst_is inst) = Some c \<longrightarrow> agrees E c (inst_hash inst)"
      "case fmlookup (p_log p) i of None \<Rightarrow> inst_pCert inst = pbft_newQuorum
        | Some o' \<Rightarrow> inst_pCert inst = inst_pCert o'"
    and pc1: "Quorum_log from m (inst_pCert inst) = Inr pc1"
    and pc2: "Quorum_log (p_id p) (prepare_of inst) pc1 = Inr pc2"
    and lead: "leads v p \<Longrightarrow> from = p_id p"
  defines "new \<equiv> (set_status St_PrePrepared inst)\<lparr>inst_pCert := pc2\<rparr>"
  shows "ok_step E v H {(i, from, sbytes (am_CommandHash m))} p (put_inst i new p)
    \<and> (i, inst_hash new) \<in> own_votes v (put_inst i new p)"
proof -
  let ?F = "{(i, from, sbytes (am_CommandHash m))}"
  have pm: "am_View (prepare_of inst) = v" "sbytes (am_CommandHash (prepare_of inst)) = inst_hash inst"
    using inst by (simp_all add: prepare_of_def inst_hash_def)
  have fresh1: "fmlookup (q_votes pc1 v) (p_id p) = None"
    using Quorum_log_fresh [OF pc2] pm by simp
  then have "from \<noteq> p_id p" using pq.vote_recorded [OF pc1] v by auto
  with lead have nl: "\<not> leads v p" by blast
  have fresh: "fmlookup (q_votes (inst_pCert inst) v) (p_id p) = None"
    using fresh1 pq.vote_persists [OF pc1, of v "p_id p"] by (cases "fmlookup (q_votes (inst_pCert inst) v) (p_id p)") auto
  have own: "fmlookup (q_votes pc2 v) (p_id p) = Some (prepare_of inst)"
    using q_votes_log [OF pc2, of v] pm by simp
  have ok: "inst_ok E v (p_f p) (p_id p) i new"
    using inst own by (auto simp: inst_ok_def inst_hash_def less_eq_InstanceState_Status_def new_def)
  have old: "fmlookup (q_votes (inst_pCert o') v) (p_id p) = None \<and> is_Status (inst_is o') \<noteq> St_Committed"
    if "fmlookup (p_log p) i = Some o'" for o'
    using that inst fresh replica_ok_inst [OF p that] by (auto simp: inst_ok_def less_eq_InstanceState_Status_def)
  have "(\<exists>o'. fmlookup (p_log p) i = Some o' \<and> fmlookup (q_votes (inst_pCert o') v) j = Some x)
      \<or> j = p_id p \<or> (i, j, sbytes (am_CommandHash x)) \<in> ?F"
    if "fmlookup (q_votes pc2 v) j = Some x" for j x
    using pq.vote_origin [OF pc2 that] pq.vote_origin [OF pc1, of v j x] inst(6)
    by (auto split: option.splits)
  with old have "inst_ext v (p_id p) i ?F (fmlookup (p_log p) i) new"
    by (auto simp: inst_ext_def new_def)
  then have "ok_step E v H ?F p (put_inst i new p)" by (rule put_inst_ok [OF p ok]) (use nl in simp)
  moreover have "(i, inst_hash new) \<in> own_votes v (put_inst i new p)"
    using own pm by (auto simp: own_votes_def rec_votes_def new_def inst_hash_def)
  ultimately show ?thesis ..
qed

lemma onPrePrepare_ok:
  assumes p: "replica_ok E v H p" and E: "env_ok E" and v: "am_View m = v"
    and prim: "isPrimaryAtView p (p_id p) v = Inr (leads v p)"
    and res: "pbft_onPrePrepare E m from p = Inr p'"
  shows "ok_step E v H {(am_Index m, from, sbytes (am_CommandHash m))} p p'"
proof -
  let ?F = "{(am_Index m, from, sbytes (am_CommandHash m))}" and ?i = "am_Index m"
  have pv: "p_view p = v" and wf: "wire_faithful E" using p E by (auto simp: replica_ok_def env_ok_def)
  from res obtain b where b: "isCurrentPrimary p from = Inr b" by (auto simp: pbft_onPrePrepare_def)
  show ?thesis
  proof (cases b)
    case False
    with res b p show ?thesis by (auto simp: pbft_onPrePrepare_def ok_step_refl)
  next
    case True
    from True res b obtain inst pc1 pc2
      where chk: "pbft_checkCommandHash E (am_Command m) (am_CommandHash m) = Inr True"
        and t: "(case fmlookup (p_log p) ?i of None \<Rightarrow> Inr (pbft_makeInstance m)
          | Some inst \<Rightarrow> go_bind (pbft_updateCommand inst m) (\<lambda>inst'. pbft_updateCommandHash inst' m)) = Inr inst"
        and pc1: "Quorum_log from (m\<lparr>am_Command := None\<rparr>) (inst_pCert inst) = Inr pc1"
        and pc2: "Quorum_log (p_id p) (prepare_of inst) pc1 = Inr pc2"
        and p': "(let inst2 = (set_status St_PrePrepared inst)\<lparr>inst_pCert := pc2\<rparr>;
             p1 = pbft_broadcast E (PBFTMessage_Agreement (prepare_of inst)) False (put_inst ?i inst2 p)
           in if Quorum_Majority (p_f p) (prepare_of inst) pc2 \<and> IsPrePrepared (inst_is inst2)
              then pbft_becomePrepared E ?i (prepare_of inst) inst2 p1 else Inr p1) = Inr p'"
      by (auto simp: pbft_onPrePrepare_def Let_def go_simps prepare_of_def cong: if_cong split: if_splits)
    note ti = preprepare_instance [OF p E v chk t]
    let ?i2 = "(set_status St_PrePrepared inst)\<lparr>inst_pCert := pc2\<rparr>"
    let ?p1 = "pbft_broadcast E (PBFTMessage_Agreement (prepare_of inst)) False (put_inst ?i ?i2 p)"
    have key: "am_key (prepare_of inst) = (v, ?i, inst_hash ?i2)"
      using ti by (simp add: prepare_of_def am_key_def inst_hash_def)
    have "leads v p \<Longrightarrow> from = p_id p"
      using prim b True pv by (auto simp: isCurrentPrimary_def isPrimaryAtView_def go_simps)
    with preprepare_votes [OF p _ _ _ _ _ _ _ _ pc1 pc2] ti v
    have s0: "ok_step E v H ?F p (put_inst ?i ?i2 p)" and own: "(?i, inst_hash ?i2) \<in> own_votes v (put_inst ?i ?i2 p)"
      by auto
    from own key have s1: "ok_step E v H ?F (put_inst ?i ?i2 p) ?p1"
      by (intro broadcast_ok [OF ok_step_replica [OF s0] wf]) auto
    note s01 = ok_step_trans [OF s0 s1]
    show ?thesis
    proof (cases "Quorum_Majority (p_f p) (prepare_of inst) pc2 \<and> IsPrePrepared (inst_is ?i2)")
      case True
      then have "pbft_becomePrepared E ?i (prepare_of inst) ?i2 ?p1 = Inr p'" using p' by (simp add: Let_def)
      then have "ok_step E v H ?F ?p1 p'"
        using becomePrepared_ok [OF ok_step_replica [OF s1] wf _ _ key] True by simp
      with s01 show ?thesis by (rule ok_step_trans)
    next
      case False
      with p' s01 show ?thesis by (auto simp: Let_def split: if_splits)
    qed
  qed
qed


subsection \<open>Requests\<close>

lemma onRequest_ok:
  assumes p: "replica_ok E v H p" and E: "env_ok E" and idx: "p_index p \<noteq> -1"
    and res: "pbft_onRequest E cmd p = Inr p'"
  shows "ok_step E v H {} p p'"
proof -
  have pv: "p_view p = v" and wf: "wire_faithful E" using p E by (auto simp: replica_ok_def env_ok_def)
  let ?i = "p_index p + 1" and ?h = "Command_Hash E cmd"
  let ?ppm = "\<lparr>am_View = v, am_Index = ?i, am_Type = AMT_PrePrepare, am_Command = Some cmd, am_CommandHash = ?h\<rparr>"
  let ?is = "\<lparr>is_View = v, is_Index = ?i, is_Status = St_PrePrepared, is_Command = Some cmd, is_CommandHash = ?h\<rparr>"
  from res pv have cases: "p' = p \<or> leads v p \<and> (\<exists>pc. Quorum_log (p_id p) ?ppm pbft_newQuorum = Inr pc \<and>
      p' = pbft_broadcast E (PBFTMessage_Agreement ?ppm) False
        (put_inst ?i \<lparr>inst_is = ?is, inst_pCert = pc, inst_cCert = pbft_newQuorum\<rparr> (p\<lparr>p_index := ?i\<rparr>)))"
    by (auto simp: pbft_onRequest_def Let_def go_simps go_umod_def leads_def split: if_splits)
  show ?thesis
  proof (cases "p' = p")
    case True
    with p show ?thesis by (simp add: ok_step_refl)
  next
    case False
    with cases obtain pc where lead: "leads v p" and pc: "Quorum_log (p_id p) ?ppm pbft_newQuorum = Inr pc"
      and p': "p' = pbft_broadcast E (PBFTMessage_Agreement ?ppm) False
        (put_inst ?i \<lparr>inst_is = ?is, inst_pCert = pc, inst_cCert = pbft_newQuorum\<rparr> (p\<lparr>p_index := ?i\<rparr>))"
      by blast
    let ?inst = "\<lparr>inst_is = ?is, inst_pCert = pc, inst_cCert = pbft_newQuorum\<rparr>" and ?p0 = "p\<lparr>p_index := ?i\<rparr>"
    have gt: "p_index p < ?i" using idx by (rule word_less_plus1)
    then have p0: "replica_ok E v H ?p0" using p by (force simp: replica_unfold)
    have s0: "vote_step E v {} p ?p0" by (simp add: vote_step_def own_votes_def rec_votes_def contents_def)
    have votes: "fmlookup (q_votes pc v) j = Some x \<longleftrightarrow> j = p_id p \<and> x = ?ppm" for j x
      using q_votes_log [OF pc, of v] by auto
    have fresh: "fmlookup (q_votes (inst_pCert o') v) (p_id p) = None \<and> is_Status (inst_is o') \<noteq> St_Committed"
      if "fmlookup (p_log p) ?i = Some o'" for o'
    proof -
      have "fmlookup (q_votes (inst_pCert o') v) (p_id p) = None"
        using own_index_le [OF p lead that] gt by (meson leD)
      with replica_ok_inst [OF p that] show ?thesis by (auto simp: inst_ok_def less_eq_InstanceState_Status_def)
    qed
    have s1: "ok_step E v H {} ?p0 (put_inst ?i ?inst ?p0)"
    proof (rule put_inst_ok [OF p0])
      show "inst_ok E v (p_f ?p0) (p_id ?p0) ?i ?inst"
        using votes E by (auto simp: inst_ok_def inst_hash_def less_eq_InstanceState_Status_def agrees_def env_ok_def
            dest: Hash_not_nil)
      show "inst_ext v (p_id ?p0) ?i {} (fmlookup (p_log ?p0) ?i) ?inst"
        using votes fresh by (auto simp: inst_ext_def)
    qed simp
    have "(?i, sbytes ?h) \<in> own_votes v (put_inst ?i ?inst ?p0)"
      using votes by (auto simp: own_votes_def rec_votes_def)
    then have "ok_step E v H {} (put_inst ?i ?inst ?p0) p'" unfolding p'
      by (intro broadcast_ok [OF ok_step_replica [OF s1] wf]) (auto simp: am_key_def)
    with s1 s0 show ?thesis by (auto simp: ok_step_def intro: vote_step_trans)
  qed
qed


subsection \<open>The other steps of a replica\<close>

text \<open>
  None of the remaining operations touches the log: they produce no vote and keep every one.
\<close>

definition same_log :: "PBFT \<Rightarrow> PBFT \<Rightarrow> bool" where
  "same_log p p' \<longleftrightarrow> p_id p' = p_id p \<and> p_nodes p' = p_nodes p \<and> p_f p' = p_f p \<and> p_view p' = p_view p
     \<and> p_log p' = p_log p \<and> p_index p' = p_index p \<and> p_execute p' = p_execute p
     \<and> p_executedCmds p' = p_executedCmds p \<and> vq_nvMessage (p_vcQuorum p') = vq_nvMessage (p_vcQuorum p)"

lemma same_log_ok:
  assumes "replica_ok E v H p" "same_log p p'" "\<forall>m \<in> set (p_msgs p'). msg_From m = p_id p'"
    and "votes_in E v (contents p') \<subseteq> votes_in E v (contents p)"
  shows "ok_step E v H {} p p'"
proof -
  have "replica_ok E v H p'" using assms by (auto simp: replica_unfold same_log_def)
  moreover have "own_votes v p' = own_votes v p" "rec_votes v p' = rec_votes v p"
    using assms(2) by (simp_all add: own_votes_def rec_votes_def same_log_def)
  ultimately show ?thesis using assms(2,4) by (auto simp: ok_step_def vote_step_def same_log_def)
qed

text \<open>Sending a message that is not a vote.\<close>

definition is_vote_msg :: "PBFTMessage \<Rightarrow> bool" where
  "is_vote_msg M = (case M of PBFTMessage_Agreement m \<Rightarrow> am_Type m \<in> {AMT_PrePrepare, AMT_Prepare} | _ \<Rightarrow> False)"

lemma broadcast_other_ok:
  assumes "replica_ok E v H p" "wire_faithful E" "\<not> is_vote_msg M"
  shows "ok_step E v H F p (pbft_broadcast E M b p)"
  by (rule broadcast_ok [OF assms(1,2)]) (use assms(3) in \<open>auto simp: is_vote_msg_def\<close>)

lemma enqueue_sel [simp]:
  "contents (pbft_enqueueForSending to mm c p) = insert mm (contents p)"
  "same_log p (pbft_enqueueForSending to mm c q) = same_log p q"
  "p_signDispatcher (pbft_enqueueForSending to mm c p) = p_signDispatcher p"
  "p_id (pbft_enqueueForSending to mm c p) = p_id p"
  "p_msgs (pbft_enqueueForSending to mm c p) = p_msgs p @
     [\<lparr>msg_From = p_id p, msg_To = to, msg_Content = mm, msg_Certificate = c\<rparr>]"
  by (simp_all add: contents_def same_log_def pbft_enqueueForSending_def)

lemma same_log_refl [simp]: "same_log p p"
  by (simp add: same_log_def)

lemma sendTo_other_ok:
  assumes p: "replica_ok E v H p" and E: "wire_faithful E" and M: "\<not> is_vote_msg M"
  shows "ok_step E v H {} p (pbft_sendTo E to M p)"
proof (rule same_log_ok [OF p])
  have "contents (pbft_sendTo E to M p) = insert (env_marshalPBFT E M) (contents p)"
    by (simp add: pbft_sendTo_def Let_def)
  then show "votes_in E v (contents (pbft_sendTo E to M p)) \<subseteq> votes_in E v (contents p)"
    using votes_in_insert_marshal [OF E] M by (force simp: is_vote_msg_def)
qed (use p in \<open>auto simp: pbft_sendTo_def Let_def replica_ok_def\<close>)

lemma broadcastCallback_ok:
  assumes "pbft_broadcastCallback job cert p = Inr p'" "\<forall>m \<in> set (p_msgs p). msg_From m = p_id p"
  shows "same_log p p' \<and> p_signDispatcher p' = p_signDispatcher p \<and> (\<forall>m \<in> set (p_msgs p'). msg_From m = p_id p')
    \<and> contents p' \<subseteq> insert (fst job) (contents p)"
proof -
  have "(\<lambda>q. same_log p q \<and> p_signDispatcher q = p_signDispatcher p \<and> (\<forall>m \<in> set (p_msgs q). msg_From m = p_id q)
      \<and> contents q \<subseteq> insert (fst job) (contents p)) p'"
  proof (rule go_fold_invariant [OF assms(1) [unfolded pbft_broadcastCallback_def]])
  qed (use assms(2) in \<open>auto simp: go_simps split: if_splits\<close>)
  then show ?thesis .
qed

lemma AsyncCallback_ok:
  assumes p: "replica_ok E v H p" and res: "pbft_AsyncCallback p = Inr p'"
  shows "ok_step E v H {} p p'"
proof -
  let ?d = "p_signDispatcher p"
  let ?I = "\<lambda>q. same_log p q \<and> p_signDispatcher q = ?d\<lparr>d_callbackC := []\<rparr> \<and> (\<forall>m \<in> set (p_msgs q). msg_From m = p_id q)
      \<and> contents q \<subseteq> contents p"
  have fold: "go_fold (\<lambda>(job, cert). pbft_broadcastCallback job cert) (d_callbackC ?d)
      (p\<lparr>p_signDispatcher := ?d\<lparr>d_callbackC := []\<rparr>\<rparr>) = Inr p'"
    using res by (simp add: pbft_AsyncCallback_def drain_callbacks_def)
  have "?I p'"
  proof (rule go_fold_invariant [OF fold])
    show "?I (p\<lparr>p_signDispatcher := ?d\<lparr>d_callbackC := []\<rparr>\<rparr>)"
      using p by (auto simp: same_log_def contents_def replica_ok_def pool_jobs_def unfinished_def)
  next
    fix x q q' assume x: "x \<in> set (d_callbackC ?d)" and q: "?I q"
      and s: "(case x of (job, cert) \<Rightarrow> pbft_broadcastCallback job cert) q = Inr q'"
    have "fst (fst x) \<in> contents p" using x by (force simp: contents_def pool_jobs_def)
    with broadcastCallback_ok [of "fst x" "snd x" q q'] s q show "?I q'"
      by (cases x) (auto simp: same_log_def)
  qed
  then show ?thesis by (intro same_log_ok [OF p]) (auto intro: votes_in_mono [THEN subsetD])
qed

lemma pool_step_replica_ok:
  assumes "replica_ok E v H p" "pool_step ex (p_signDispatcher p) d"
  shows "ok_step E v H {} p (p\<lparr>p_signDispatcher := d\<rparr>)"
  using assms pool_step_jobs [OF assms(2)]
  by (intro same_log_ok) (auto simp: same_log_def contents_def replica_ok_def)

lemma Tick_ok: "replica_ok E v H p \<Longrightarrow> pbft_Tick p = Inr p' \<Longrightarrow> ok_step E v H {} p p'"
  by (intro same_log_ok) (auto simp: same_log_def contents_def replica_ok_def pbft_Tick_def)

lemma ClearMsgs_ok: "replica_ok E v H p \<Longrightarrow> ok_step E v H {} p (pbft_ClearMsgs p)"
  by (intro same_log_ok) (auto simp: same_log_def contents_def replica_ok_def pbft_ClearMsgs_def votes_in_def)

lemma ClearExecuted_ok:
  assumes "replica_ok E v H p"
  shows "ok_step E v (executed H p) {} p (pbft_ClearExecutedCommands p)"
proof -
  have "executed (executed H p) (pbft_ClearExecutedCommands p) = executed H p"
    by (simp add: executed_def pbft_ClearExecutedCommands_def)
  moreover have "p_log (pbft_ClearExecutedCommands p) = p_log p" by (simp add: pbft_ClearExecutedCommands_def)
  ultimately have "exec_ok E (executed H p) (pbft_ClearExecutedCommands p) \<longleftrightarrow> exec_ok E H p"
    by (simp add: exec_ok_def) (simp add: pbft_ClearExecutedCommands_def)
  then show ?thesis using assms
    by (simp add: ok_step_def replica_ok_def vote_step_def own_votes_def rec_votes_def contents_def leads_def
        pbft_ClearExecutedCommands_def)
qed


lemma vcQuorum_ok:
  assumes "replica_ok E v H p" "vq_nvMessage q = vq_nvMessage (p_vcQuorum p)"
  shows "ok_step E v H {} p (p\<lparr>p_vcQuorum := q\<rparr>)"
  using assms by (intro same_log_ok) (auto simp: same_log_def contents_def replica_ok_def)

lemma constructNewView_ok:
  assumes "replica_ok E v H p" "wire_faithful E" "pbft_constructNewView E w p = Inr p'"
  shows "ok_step E v H {} p p'"
proof -
  have "p' = p \<or> (\<exists>nv. p' = pbft_broadcast E (PBFTMessage_NewView nv) True p)"
    using assms(3) unfolding pbft_constructNewView_def
    by (elim go_bindE) (auto split: option.splits if_splits prod.splits)
  with assms(1,2) show ?thesis
    by (auto simp: is_vote_msg_def intro: ok_step_refl broadcast_other_ok)
qed

lemma onViewChangeAck_ok:
  assumes p: "replica_ok E v H p" and E: "wire_faithful E" and res: "pbft_onViewChangeAck E m from p = Inr p'"
  shows "ok_step E v H {} p p'"
proof -
  from res obtain q where q: "addVCAMessage (p_f p) from m (p_vcQuorum p) = Inr q"
    and p': "pbft_constructNewView E (vca_NewView m) (p\<lparr>p_vcQuorum := q\<rparr>) = Inr p'"
    by (auto simp: pbft_onViewChangeAck_def)
  have "vq_nvMessage q = vq_nvMessage (p_vcQuorum p)"
    using q by (auto simp: addVCAMessage_def Let_def split: option.splits if_splits)
  then have s: "ok_step E v H {} p (p\<lparr>p_vcQuorum := q\<rparr>)" using p by (intro vcQuorum_ok)
  from s constructNewView_ok [OF ok_step_replica [OF s] E p'] show ?thesis by (rule ok_step_trans)
qed

text \<open>The state in which \<open>onViewChange\<close> has acknowledged and recorded the message.\<close>

definition vc_recorded :: "pbft_env \<Rightarrow> ViewChangeMessage \<Rightarrow> PeerID \<Rightarrow> PeerID \<Rightarrow> PBFT \<Rightarrow> PBFT" where
  "vc_recorded E m from to p =
     (let dg = Some (env_sha256 E (env_marshalViewChange E m));
          p1 = pbft_sendTo E to (PBFTMessage_ViewChangeAck
            \<lparr>vca_NewView = vc_NewView m, vca_AckFor = from, vca_Digest = dg\<rparr>) p
      in p1\<lparr>p_vcQuorum := addVCMessage (p_f p) from m dg (p_vcQuorum p1)\<rparr>)"

lemma onViewChange_cases:
  assumes "pbft_onViewChange E m from p = Inr p'"
  obtains "p' = p"
  | to p3 where "p3 = vc_recorded E m from to p \<or> pbft_constructNewView E (vc_NewView m) (vc_recorded E m from to p) = Inr p3"
      "(case fmlookup (vq_nvMessage (p_vcQuorum p3)) to of
          Some nv \<Rightarrow> pbft_processNewView E nv to p3 | None \<Rightarrow> Inr p3) = Inr p'"
proof (cases "p' = p")
  case False
  have g: "\<not> (vc_NewView m \<le> p_view p \<or> (p_viewChanging p \<and> vc_NewView m < p_changingView p))"
    "\<not> list_ex (\<lambda>is. is_View is > p_view p) (vc_PSet m)" "\<not> list_ex (\<lambda>is. is_View is > p_view p) (vc_QSet m)"
    using False assms unfolding pbft_onViewChange_def by (simp split: if_split_asm)+
  let ?p2 = "\<lambda>to. vc_recorded E m from to p"
  have "go_bind (go_imod (vc_NewView m) (length (p_nodes p))) (\<lambda>to.
      go_bind (isPrimaryAtView (?p2 to) (p_id (?p2 to)) (vc_NewView m)) (\<lambda>primary.
      go_bind (if primary then pbft_constructNewView E (vc_NewView m) (?p2 to) else Inr (?p2 to)) (\<lambda>p3.
      case fmlookup (vq_nvMessage (p_vcQuorum p3)) to of
        Some nv \<Rightarrow> pbft_processNewView E nv to p3 | None \<Rightarrow> Inr p3))) = Inr p'"
    using assms unfolding pbft_onViewChange_def if_not_P [OF g(1)] if_not_P [OF g(2)] if_not_P [OF g(3)] Let_def
      vc_recorded_def by simp
  then obtain to primary p3
    where c: "(if primary then pbft_constructNewView E (vc_NewView m) (?p2 to) else Inr (?p2 to)) = Inr p3"
      and last: "(case fmlookup (vq_nvMessage (p_vcQuorum p3)) to of
          Some nv \<Rightarrow> pbft_processNewView E nv to p3 | None \<Rightarrow> Inr p3) = Inr p'"
    by (elim go_bindE)
  from c have "p3 = ?p2 to \<or> pbft_constructNewView E (vc_NewView m) (?p2 to) = Inr p3" by (auto split: if_splits)
  with last that(2) show thesis by blast
qed (rule that(1))

lemma onViewChange_ok:
  assumes p: "replica_ok E v H p" and E: "wire_faithful E" and res: "pbft_onViewChange E m from p = Inr p'"
  shows "ok_step E v H {} p p'"
  using res
proof (cases rule: onViewChange_cases)
  case 1
  with p show ?thesis by (simp add: ok_step_refl)
next
  case (2 to p3)
  let ?ack = "PBFTMessage_ViewChangeAck \<lparr>vca_NewView = vc_NewView m, vca_AckFor = from,
    vca_Digest = Some (env_sha256 E (env_marshalViewChange E m))\<rparr>"
  have s1: "ok_step E v H {} p (pbft_sendTo E to ?ack p)"
    by (rule sendTo_other_ok [OF p E]) (simp add: is_vote_msg_def)
  have s2: "ok_step E v H {} (pbft_sendTo E to ?ack p) (vc_recorded E m from to p)" unfolding vc_recorded_def Let_def
    by (rule vcQuorum_ok [OF ok_step_replica [OF s1]]) (simp add: addVCMessage_def Let_def)
  have s3: "ok_step E v H {} (vc_recorded E m from to p) p3"
    using 2(1) constructNewView_ok [OF ok_step_replica [OF s2] E] ok_step_refl [OF ok_step_replica [OF s2]] by blast
  have "vq_nvMessage (p_vcQuorum p3) = fmempty" using ok_step_replica [OF s3] by (simp add: replica_ok_def)
  with 2(2) have "p' = p3" by simp
  with s1 s2 s3 show ?thesis by (blast intro: ok_step_trans)
qed

lemma startViewChange_ok:
  assumes p: "replica_ok E v H p" and E: "wire_faithful E"
  shows "ok_step E v H {} p (pbft_startViewChange E w p)"
proof -
  let ?p1 = "p\<lparr>p_viewChanging := True, p_changingView := w\<rparr>"
  have s: "ok_step E v H {} p ?p1" using p by (intro same_log_ok) (auto simp: same_log_def contents_def replica_ok_def)
  have "ok_step E v H {} ?p1 (pbft_broadcast E (PBFTMessage_ViewChange vc) True ?p1)" for vc
    using broadcast_other_ok [OF ok_step_replica [OF s] E] by (simp add: is_vote_msg_def)
  with s p show ?thesis
    by (auto simp: pbft_startViewChange_def Let_def intro: ok_step_trans ok_step_refl split: prod.split)
qed

lemma stepAgreement_ok:
  assumes p: "replica_ok E v H p" and E: "env_ok E"
    and prim: "isPrimaryAtView p (p_id p) v = Inr (leads v p)"
    and res: "pbft_stepAgreement E m from p = Inr p'"
  shows "ok_step E v H (if am_View m = v \<and> am_Type m \<in> {AMT_PrePrepare, AMT_Prepare}
     then {(am_Index m, from, sbytes (am_CommandHash m))} else {}) p p'"
proof -
  have pv: "p_view p = v" and wf: "wire_faithful E" using p E by (auto simp: replica_ok_def env_ok_def)
  show ?thesis
  proof (cases "p_viewChanging p \<or> am_View m \<noteq> v")
    case True
    with res pv have "p' = p" by (auto simp: pbft_stepAgreement_def split: if_splits)
    with p show ?thesis by (simp add: ok_step_refl)
  next
    case False
    with res pv show ?thesis
      using onPrePrepare_ok [OF p E _ prim] onPrepare_ok [OF p wf _ prim] onCommit_ok [OF p]
      by (cases "am_Type m") (auto simp: pbft_stepAgreement_def)
  qed
qed

end
