(* ===== verification/PBFT_Safety.thy ===== *)
theory PBFT_Safety
  imports PBFT_Local
begin

text \<open>
  A cluster of PBFT replicas that run the code of \<open>protocols/pbft\<close>, with the transport between them and
  Byzantine peers: agreement and total order as long as no replica has received a new-view
  message. Each step is one call of a replica's entry point, one step of its worker pool, or
  one of the two things the peer loop does with the replica's output (send the messages, pass the
  commands to the applier). A replica whose handler crashes stops for good.
\<close>

subsection \<open>The cluster\<close>

record pbft_cfg =
  cf_env :: pbft_env
  cf_nodes :: "PeerID list"
  cf_byz :: "PeerID list"
  cf_f :: int
  cf_view :: u64
  cf_workers :: "(string, nat) fmap"
  cf_queues :: "(string, nat) fmap"

record pbft_sys =
  sy_reps :: "(PeerID, PBFT) fmap"
  sy_halted :: "PeerID list"
  sy_net :: "Message list"
  sy_hist :: "(PeerID, Command list) fmap"

definition local_config :: "pbft_cfg \<Rightarrow> PeerID \<Rightarrow> LocalConfig" where
  "local_config C r = \<lparr>cfg_ID = r, cfg_Peers = cf_nodes C, cfg_LeaderID = cf_view C, cfg_MaxFailures = cf_f C,
     cfg_Workers = cf_workers C, cfg_WorkersQueueSizes = cf_queues C\<rparr>"

definition started :: "pbft_cfg \<Rightarrow> PeerID \<Rightarrow> (PeerID \<times> PBFT) list" where
  "started C r = (if r \<in> set (cf_byz C) then []
     else case NewPBFT (local_config C r) of Inl _ \<Rightarrow> [] | Inr p \<Rightarrow> [(r, p)])"

definition pbft_init :: "pbft_cfg \<Rightarrow> pbft_sys" where
  "pbft_init C = \<lparr>sy_reps = fmap_of_list (concat (map (started C) (cf_nodes C))), sy_halted = [], sy_net = [],
     sy_hist = fmempty\<rparr>"

definition hist_of :: "pbft_sys \<Rightarrow> PeerID \<Rightarrow> Command list" where
  "hist_of s r = (case fmlookup (sy_hist s) r of None \<Rightarrow> [] | Some l \<Rightarrow> l)"

datatype pbft_act =
    Deliver Message         \<comment> \<open>the transport hands a message to its receiver\<close>
  | Submit PeerID Command   \<comment> \<open>a client's command arrives at a replica\<close>
  | Async PeerID            \<comment> \<open>the replica runs the callbacks of its workers\<close>
  | TakeJob PeerID
  | AssignJob PeerID
  | FinishJob PeerID nat
  | SendAll PeerID          \<comment> \<open>the peer loop sends the messages of \<open>MakeReady\<close>\<close>
  | ApplyAll PeerID         \<comment> \<open>the peer loop applies the commands of \<open>MakeReady\<close>\<close>
  | StartVC PeerID u64
  | TickAct PeerID
  | ByzSend Message

definition on_replica :: "PeerID \<Rightarrow> (PBFT \<Rightarrow> PBFT go) \<Rightarrow> pbft_sys \<Rightarrow> pbft_sys option" where
  "on_replica r g s =
     (case fmlookup (sy_reps s) r of
        None \<Rightarrow> None
      | Some p \<Rightarrow> (if r \<in> set (sy_halted s) then None
          else case g p of
            Inl _ \<Rightarrow> Some (s\<lparr>sy_halted := r # sy_halted s\<rparr>)
          | Inr p' \<Rightarrow> Some (s\<lparr>sy_reps := fmupd r p' (sy_reps s)\<rparr>)))"

definition on_pool :: "PeerID \<Rightarrow> ((bytes \<times> bool, bytes) Dispatcher \<Rightarrow> (bytes \<times> bool, bytes) Dispatcher option)
    \<Rightarrow> pbft_sys \<Rightarrow> pbft_sys option" where
  "on_pool r g s =
     (case fmlookup (sy_reps s) r of
        None \<Rightarrow> None
      | Some p \<Rightarrow> (if r \<in> set (sy_halted s) then None
          else case g (p_signDispatcher p) of
            None \<Rightarrow> None
          | Some d \<Rightarrow> Some (s\<lparr>sy_reps := fmupd r (p\<lparr>p_signDispatcher := d\<rparr>) (sy_reps s)\<rparr>)))"

definition is_new_view :: "pbft_env \<Rightarrow> bytes \<Rightarrow> bool" where
  "is_new_view E c = (case env_unmarshalPBFT E c of Some (PBFTMessage_NewView _) \<Rightarrow> True | _ \<Rightarrow> False)"

fun pbft_do :: "pbft_cfg \<Rightarrow> pbft_act \<Rightarrow> pbft_sys \<Rightarrow> pbft_sys option" where
  "pbft_do C (Deliver m) s =
     (if m \<in> set (sy_net s) \<and> \<not> is_new_view (cf_env C) (msg_Content m)
      then on_replica (msg_To m) (pbft_Step (cf_env C) m) s else None)"
| "pbft_do C (Submit r cmd) s =
     (case fmlookup (sy_reps s) r of
        None \<Rightarrow> None
      | Some p \<Rightarrow> if p_index p = -1 then None else on_replica r (pbft_Request (cf_env C) cmd) s)"
| "pbft_do C (Async r) s = on_replica r pbft_AsyncCallback s"
| "pbft_do C (TakeJob r) s = on_pool r dispatch_take s"
| "pbft_do C (AssignJob r) s = on_pool r dispatch_assign s"
| "pbft_do C (FinishJob r i) s = on_pool r (worker_finish (pbft_signVector (cf_env C) (cf_nodes C)) i) s"
| "pbft_do C (SendAll r) s =
     (case fmlookup (sy_reps s) r of
        None \<Rightarrow> None
      | Some p \<Rightarrow> (if r \<in> set (sy_halted s) then None
          else Some (s\<lparr>sy_reps := fmupd r (pbft_ClearMsgs p) (sy_reps s),
                       sy_net := sy_net s @ rd_Messages (pbft_MakeReady p)\<rparr>)))"
| "pbft_do C (ApplyAll r) s =
     (case fmlookup (sy_reps s) r of
        None \<Rightarrow> None
      | Some p \<Rightarrow> (if r \<in> set (sy_halted s) then None
          else Some (s\<lparr>sy_reps := fmupd r (pbft_ClearExecutedCommands p) (sy_reps s),
                       sy_hist := fmupd r (hist_of s r @ map ep_Cmd (rd_OrderedCommands (pbft_MakeReady p)))
                                    (sy_hist s)\<rparr>)))"
| "pbft_do C (StartVC r w) s = on_replica r (\<lambda>p. Inr (pbft_startViewChange (cf_env C) w p)) s"
| "pbft_do C (TickAct r) s = on_replica r pbft_Tick s"
| "pbft_do C (ByzSend m) s =
     (if msg_From m \<in> set (cf_byz C) then Some (s\<lparr>sy_net := sy_net s @ [m]\<rparr>) else None)"

fun pbft_run :: "pbft_cfg \<Rightarrow> pbft_act list \<Rightarrow> pbft_sys \<Rightarrow> pbft_sys option" where
  "pbft_run C [] s = Some s"
| "pbft_run C (a # as) s = (case pbft_do C a s of None \<Rightarrow> None | Some s' \<Rightarrow> pbft_run C as s')"

inductive pbft_reachable :: "pbft_cfg \<Rightarrow> pbft_sys \<Rightarrow> bool" for C where
  init: "pbft_reachable C (pbft_init C)"
| step: "pbft_reachable C s \<Longrightarrow> pbft_do C a s = Some s' \<Longrightarrow> pbft_reachable C s'"

lemma run_reachable: "pbft_run C as s = Some s' \<Longrightarrow> pbft_reachable C s \<Longrightarrow> pbft_reachable C s'"
  by (induction as arbitrary: s) (auto split: option.splits intro: pbft_reachable.step)

text \<open>
  What the operators promise: the nodes are distinct and at most \<open>3f + 1\<close>, at most \<open>f\<close> of them are Byzantine,
  and the numbers fit in Go's \<open>int\<close>.
\<close>

definition cfg_ok :: "pbft_cfg \<Rightarrow> bool" where
  "cfg_ok C \<longleftrightarrow> env_ok (cf_env C) \<and> distinct (cf_nodes C) \<and> cf_nodes C \<noteq> []
     \<and> set (cf_byz C) \<subseteq> set (cf_nodes C) \<and> int (card (set (cf_byz C))) \<le> cf_f C
     \<and> int (length (cf_nodes C)) \<le> 3 * cf_f C + 1 \<and> length (cf_nodes C) < 2 ^ 63 \<and> cf_view C < 2 ^ 63"

subsection \<open>The invariant of the cluster\<close>

text \<open>
  \<open>vote_known\<close>: a vote attributed to \<open>j\<close> comes from a member, and when \<open>j\<close> is not Byzantine \<open>j\<close> has it in
  its own table.
\<close>

definition vote_known :: "pbft_cfg \<Rightarrow> (PeerID, PBFT) fmap \<Rightarrow> u64 \<Rightarrow> PeerID \<Rightarrow> bytes \<Rightarrow> bool" where
  "vote_known C reps i j h \<longleftrightarrow> j \<in> set (cf_nodes C) \<and>
     (j \<notin> set (cf_byz C) \<longrightarrow> (\<exists>q. fmlookup reps j = Some q \<and> (i, h) \<in> own_votes (cf_view C) q))"

definition rep_ok :: "pbft_cfg \<Rightarrow> pbft_sys \<Rightarrow> PeerID \<Rightarrow> PBFT \<Rightarrow> bool" where
  "rep_ok C s r p \<longleftrightarrow> r \<in> set (cf_nodes C) \<and> r \<notin> set (cf_byz C) \<and> p_id p = r \<and> p_nodes p = cf_nodes C
     \<and> p_f p = cf_f C \<and> replica_ok (cf_env C) (cf_view C) (hist_of s r) p
     \<and> (\<forall>(i, j, h) \<in> rec_votes (cf_view C) p. vote_known C (sy_reps s) i j h)
     \<and> votes_in (cf_env C) (cf_view C) (contents p) \<subseteq> own_votes (cf_view C) p"

definition sys_ok :: "pbft_cfg \<Rightarrow> pbft_sys \<Rightarrow> bool" where
  "sys_ok C s \<longleftrightarrow> (\<forall>r p. fmlookup (sy_reps s) r = Some p \<longrightarrow> rep_ok C s r p)
     \<and> (\<forall>m \<in> set (sy_net s). msg_From m \<in> set (cf_nodes C) \<and>
          (\<forall>(i, h) \<in> votes_in (cf_env C) (cf_view C) {msg_Content m}. vote_known C (sy_reps s) i (msg_From m) h))"

lemma cfg_primary:
  assumes "cfg_ok C" "p_nodes p = cf_nodes C"
  shows "isPrimaryAtView p (p_id p) (cf_view C) = Inr (leads (cf_view C) p)"
proof -
  have "go_imod (cf_view C) (length (cf_nodes C)) = Inr (cf_view C mod of_nat (length (cf_nodes C)))"
    using assms(1) by (intro go_imod_umod) (auto simp: cfg_ok_def)
  with assms(2) show ?thesis by (simp add: isPrimaryAtView_def leads_def)
qed

text \<open>Own votes only grow, so a known vote stays known.\<close>

lemma vote_known_upd:
  assumes "vote_known C reps i j h" "fmlookup reps r = Some p" "own_votes (cf_view C) p \<subseteq> own_votes (cf_view C) p'"
  shows "vote_known C (fmupd r p' reps) i j h"
  using assms by (auto simp: vote_known_def)

text \<open>One replica makes an \<open>ok_step\<close> on votes that are known.\<close>

lemma ok_step_rep:
  assumes r: "rep_ok C s r p" and look: "fmlookup (sy_reps s) r = Some p"
    and st: "ok_step (cf_env C) (cf_view C) H' F p p'"
    and F: "\<And>i j h. (i, j, h) \<in> F \<Longrightarrow> vote_known C (sy_reps s) i j h"
    and s': "sy_reps s' = fmupd r p' (sy_reps s)" "hist_of s' r = H'"
  shows "rep_ok C s' r p'"
proof -
  let ?v = "cf_view C"
  have own: "own_votes ?v p \<subseteq> own_votes ?v p'" and id: "p_id p' = r" "p_id p = r"
    using st r by (auto simp: ok_step_def vote_step_def rep_ok_def)
  have "vote_known C (sy_reps s') i j h" if "(i, j, h) \<in> rec_votes ?v p'" for i j h
  proof (cases "j = r")
    case True
    with that id r s' show ?thesis by (auto simp: vote_known_def rep_ok_def own_votes_def)
  next
    case False
    with that st id have "(i, j, h) \<in> rec_votes ?v p \<or> (i, j, h) \<in> F" by (auto simp: ok_step_def vote_step_def)
    with F r have "vote_known C (sy_reps s) i j h" by (auto simp: rep_ok_def)
    then show ?thesis using vote_known_upd [OF _ look own] s' by simp
  qed
  moreover have "votes_in (cf_env C) ?v (contents p') \<subseteq> own_votes ?v p'"
    using st r own by (auto simp: ok_step_def vote_step_def rep_ok_def)
  ultimately show ?thesis using st r s' by (auto simp: rep_ok_def ok_step_def vote_step_def)
qed

lemma sys_step:
  assumes s: "sys_ok C s" and look: "fmlookup (sy_reps s) r = Some p"
    and st: "ok_step (cf_env C) (cf_view C) H' F p p'"
    and F: "\<And>i j h. (i, j, h) \<in> F \<Longrightarrow> vote_known C (sy_reps s) i j h"
    and s': "sy_reps s' = fmupd r p' (sy_reps s)" "hist_of s' r = H'"
      "\<And>r'. r' \<noteq> r \<Longrightarrow> hist_of s' r' = hist_of s r'"
    and net: "\<And>m. m \<in> set (sy_net s') \<Longrightarrow> m \<in> set (sy_net s) \<or> m \<in> set (p_msgs p)"
  shows "sys_ok C s'"
proof -
  have rp: "rep_ok C s r p" using s look by (simp add: sys_ok_def)
  have own: "own_votes (cf_view C) p \<subseteq> own_votes (cf_view C) p'" using st by (simp add: ok_step_def vote_step_def)
  note up = vote_known_upd [OF _ look own, folded s'(1)]
  have "rep_ok C s' q y" if "fmlookup (sy_reps s') q = Some y" for q y
  proof (cases "q = r")
    case True
    with that s' ok_step_rep [OF rp look st F s'(1,2)] show ?thesis by simp
  next
    case False
    with that s' s have "rep_ok C s q y" by (simp add: sys_ok_def)
    with up s'(3) [OF False] show ?thesis by (auto simp: rep_ok_def)
  qed
  moreover have "msg_From m \<in> set (cf_nodes C) \<and>
      (\<forall>(i, h) \<in> votes_in (cf_env C) (cf_view C) {msg_Content m}. vote_known C (sy_reps s') i (msg_From m) h)"
    if "m \<in> set (sy_net s')" for m
    using net [OF that]
  proof
    assume "m \<in> set (sy_net s)"
    with s have "msg_From m \<in> set (cf_nodes C)"
      "\<And>i h. (i, h) \<in> votes_in (cf_env C) (cf_view C) {msg_Content m} \<Longrightarrow> vote_known C (sy_reps s) i (msg_From m) h"
      by (auto simp: sys_ok_def)
    with up show ?thesis by auto
  next
    assume m: "m \<in> set (p_msgs p)"
    then have "msg_From m = r" using rp by (auto simp: rep_ok_def replica_ok_def)
    moreover have "votes_in (cf_env C) (cf_view C) {msg_Content m} \<subseteq> own_votes (cf_view C) p"
    proof -
      have "{msg_Content m} \<subseteq> contents p" using m by (simp add: contents_def)
      from votes_in_mono [OF this] rp show ?thesis unfolding rep_ok_def by blast
    qed
    ultimately show ?thesis using rp own s'(1) by (auto simp: rep_ok_def vote_known_def)
  qed
  ultimately show ?thesis by (simp add: sys_ok_def)
qed


text \<open>A step on one replica through \<open>on_replica\<close>.\<close>

lemma on_replica_ok:
  assumes s: "sys_ok C s" and res: "on_replica r g s = Some s'"
    and g: "\<And>p p'. fmlookup (sy_reps s) r = Some p \<Longrightarrow> rep_ok C s r p \<Longrightarrow> g p = Inr p' \<Longrightarrow>
        \<exists>F. ok_step (cf_env C) (cf_view C) (hist_of s r) F p p' \<and> (\<forall>(i, j, h) \<in> F. vote_known C (sy_reps s) i j h)"
  shows "sys_ok C s'"
proof -
  from res obtain p where p: "fmlookup (sy_reps s) r = Some p"
    by (auto simp: on_replica_def split: option.splits)
  with s have rp: "rep_ok C s r p" by (simp add: sys_ok_def)
  show ?thesis
  proof (cases "g p")
    case (Inl e)
    with res p have "s' = s\<lparr>sy_halted := r # sy_halted s\<rparr>" by (auto simp: on_replica_def split: if_splits)
    with s show ?thesis by (simp add: sys_ok_def rep_ok_def hist_of_def)
  next
    case (Inr p')
    with res p have s': "s' = s\<lparr>sy_reps := fmupd r p' (sy_reps s)\<rparr>" by (auto simp: on_replica_def split: if_splits)
    from g [OF p rp Inr] obtain F where st: "ok_step (cf_env C) (cf_view C) (hist_of s r) F p p'"
      and F: "\<forall>(i, j, h) \<in> F. vote_known C (sy_reps s) i j h" by blast
    show ?thesis by (rule sys_step [OF s p st]) (use F s' in \<open>auto simp: hist_of_def\<close>)
  qed
qed

lemma on_pool_ok:
  assumes s: "sys_ok C s" and res: "on_pool r g s = Some s'"
    and g: "\<And>d d'. g d = Some d' \<Longrightarrow> pool_step ex d d'"
  shows "sys_ok C s'"
proof -
  from res obtain p d where p: "fmlookup (sy_reps s) r = Some p" and d: "g (p_signDispatcher p) = Some d"
    and s': "s' = s\<lparr>sy_reps := fmupd r (p\<lparr>p_signDispatcher := d\<rparr>) (sy_reps s)\<rparr>"
    by (auto simp: on_pool_def split: option.splits if_splits)
  from s p have "replica_ok (cf_env C) (cf_view C) (hist_of s r) p" by (simp add: sys_ok_def rep_ok_def)
  note st = pool_step_replica_ok [OF this g [OF d]]
  show ?thesis by (rule sys_step [OF s p st]) (use s' in \<open>auto simp: hist_of_def\<close>)
qed

lemma Step_replica_ok:
  assumes C: "cfg_ok C" and s: "sys_ok C s" and m: "m \<in> set (sy_net s)"
    and nv: "\<not> is_new_view (cf_env C) (msg_Content m)"
    and p: "rep_ok C s r p" and res: "pbft_Step (cf_env C) m p = Inr p'"
  shows "\<exists>F. ok_step (cf_env C) (cf_view C) (hist_of s r) F p p' \<and> (\<forall>(i, j, h) \<in> F. vote_known C (sy_reps s) i j h)"
proof -
  let ?E = "cf_env C" and ?v = "cf_view C"
  have E: "env_ok ?E" and wf: "wire_faithful ?E" using C by (simp_all add: cfg_ok_def env_ok_def)
  have rp: "replica_ok ?E ?v (hist_of s r) p" and nodes: "p_nodes p = cf_nodes C" using p by (simp_all add: rep_ok_def)
  from res obtain M where M: "env_unmarshalPBFT ?E (msg_Content m) = Some M"
    by (auto simp: pbft_Step_def split: option.splits)
  show ?thesis
  proof (cases M)
    case (PBFTMessage_Agreement a)
    with M res have "pbft_stepAgreement ?E a (msg_From m) p = Inr p'"
      by (auto simp: pbft_Step_def split: if_splits)
    note st = stepAgreement_ok [OF rp E cfg_primary [OF C nodes] this]
    have "vote_known C (sy_reps s) (am_Index a) (msg_From m) (sbytes (am_CommandHash a))"
      if "am_View a = ?v" "am_Type a \<in> {AMT_PrePrepare, AMT_Prepare}"
    proof -
      have "(am_Index a, sbytes (am_CommandHash a)) \<in> votes_in ?E ?v {msg_Content m}"
        using M PBFTMessage_Agreement that by (auto simp: votes_in_def am_key_def)
      with s m show ?thesis by (auto simp: sys_ok_def)
    qed
    with st show ?thesis by (intro exI) (rule conjI, assumption, simp)
  next
    case (PBFTMessage_NewView nv')
    with nv M show ?thesis by (simp add: is_new_view_def)
  qed (use M res onViewChange_ok [OF rp wf] onViewChangeAck_ok [OF rp wf] ok_step_refl [OF rp]
      in \<open>force simp: pbft_Step_def split: if_splits\<close>)+
qed

lemma pbft_do_ok:
  assumes C: "cfg_ok C" and s: "sys_ok C s" and res: "pbft_do C a s = Some s'"
  shows "sys_ok C s'"
proof -
  have wf: "wire_faithful (cf_env C)" "env_ok (cf_env C)" using C by (simp_all add: cfg_ok_def env_ok_def)
  have rp: "replica_ok (cf_env C) (cf_view C) (hist_of s r) p" if "rep_ok C s r p" for r p
    using that by (simp add: rep_ok_def)
  have quiet: "sys_ok C s'" if "on_replica r g s = Some s'"
    "\<And>p p'. fmlookup (sy_reps s) r = Some p \<Longrightarrow> replica_ok (cf_env C) (cf_view C) (hist_of s r) p \<Longrightarrow> g p = Inr p' \<Longrightarrow>
       ok_step (cf_env C) (cf_view C) (hist_of s r) {} p p'" for r g
    using on_replica_ok [OF s that(1)] that(2) rp by blast
  show ?thesis
  proof (cases a)
    case (Deliver m)
    with res Step_replica_ok [OF C s] show ?thesis
      by (intro on_replica_ok [OF s, of "msg_To m" "pbft_Step (cf_env C) m"]) (auto split: if_splits)
  next
    case (Submit r cmd)
    with res show ?thesis
      by (intro quiet [of r "pbft_Request (cf_env C) cmd"])
        (auto simp: pbft_Request_def split: option.splits if_splits intro: onRequest_ok [OF _ wf(2)])
  next
    case (SendAll r)
    with res obtain p where p: "fmlookup (sy_reps s) r = Some p"
      and s': "s' = s\<lparr>sy_reps := fmupd r (pbft_ClearMsgs p) (sy_reps s), sy_net := sy_net s @ p_msgs p\<rparr>"
      by (auto simp: pbft_MakeReady_def split: option.splits if_splits)
    have "replica_ok (cf_env C) (cf_view C) (hist_of s r) p" using s p by (simp add: sys_ok_def rep_ok_def)
    note st = ClearMsgs_ok [OF this]
    show ?thesis by (rule sys_step [OF s p st]) (use s' in \<open>auto simp: hist_of_def\<close>)
  next
    case (ApplyAll r)
    with res obtain p where p: "fmlookup (sy_reps s) r = Some p"
      and s': "s' = s\<lparr>sy_reps := fmupd r (pbft_ClearExecutedCommands p) (sy_reps s),
          sy_hist := fmupd r (executed (hist_of s r) p) (sy_hist s)\<rparr>"
      by (auto simp: pbft_MakeReady_def executed_def split: option.splits if_splits)
    have "replica_ok (cf_env C) (cf_view C) (hist_of s r) p" using s p by (simp add: sys_ok_def rep_ok_def)
    note st = ClearExecuted_ok [OF this]
    show ?thesis by (rule sys_step [OF s p st]) (use s' in \<open>auto simp: hist_of_def\<close>)
  next
    case (ByzSend m)
    with res C have "s' = s\<lparr>sy_net := sy_net s @ [m]\<rparr>" "msg_From m \<in> set (cf_byz C)" "msg_From m \<in> set (cf_nodes C)"
      by (auto simp: cfg_ok_def split: if_splits)
    with s show ?thesis by (auto simp: sys_ok_def rep_ok_def hist_of_def vote_known_def)
  qed (use res in \<open>auto intro: quiet AsyncCallback_ok Tick_ok startViewChange_ok [OF _ wf(1)]
      on_pool_ok [OF s] pool_step.intros\<close>)
qed


lemma pbft_init_ok:
  assumes "cfg_ok C"
  shows "sys_ok C (pbft_init C)"
proof -
  have "rep_ok C (pbft_init C) r p" if "fmlookup (sy_reps (pbft_init C)) r = Some p" for r p
  proof -
    from that have "(r, p) \<in> set (concat (map (started C) (cf_nodes C)))"
      by (auto simp: pbft_init_def fmlookup_of_list dest: map_of_SomeD)
    then have r: "r \<in> set (cf_nodes C)" "r \<notin> set (cf_byz C)" "NewPBFT (local_config C r) = Inr p"
      by (auto simp: started_def split: if_splits sum.splits)
    from r(3) obtain w q where p: "p = \<lparr>p_id = r, p_nodes = cf_nodes C, p_log = fmempty, p_execute = 1,
        p_active = False, p_view = cf_view C, p_index = 0, p_msgs = [], p_executedCmds = [], p_timers = [],
        p_viewChanging = False, p_changingView = 0, p_vcQuorum = newVCQuorum, p_f = cf_f C,
        p_signDispatcher = Dispatcher_Run (NewDispatcher w q)\<rparr>"
      by (auto simp: NewPBFT_def startDispatcher_def local_config_def go_simps split: option.splits)
    have "0 \<le> cf_f C" using assms by (auto simp: cfg_ok_def)
    then show ?thesis using r(1,2)
      by (auto simp: rep_ok_def p replica_unfold hist_of_def pbft_init_def newVCQuorum_def contents_def
          pool_jobs_def unfinished_def Dispatcher_Run_def NewDispatcher_def votes_in_def)
  qed
  then show ?thesis by (simp add: sys_ok_def) (simp add: pbft_init_def)
qed

lemma reachable_ok:
  assumes "cfg_ok C" "pbft_reachable C s"
  shows "sys_ok C s"
  using assms(2)
proof induction
  case init
  show ?case using assms(1) by (rule pbft_init_ok)
next
  case (step s a s')
  with assms(1) show ?case by (blast intro: pbft_do_ok)
qed

subsection \<open>Prepared and executed instances\<close>

lemma supporters_known:
  assumes "rep_ok C s r p" "fmlookup (p_log p) i = Some a"
    "fmlookup (q_votes (inst_pCert a) (cf_view C)) j = Some m"
  shows "vote_known C (sy_reps s) i j (sbytes (am_CommandHash m))"
  using assms by (fastforce simp: rep_ok_def rec_votes_def)

lemma prepared_hashes_agree:
  assumes C: "cfg_ok C" and s: "sys_ok C s"
    and p: "fmlookup (sy_reps s) r1 = Some p" "fmlookup (sy_reps s) r2 = Some q"
    and a: "fmlookup (p_log p) i = Some a" "St_Prepared \<le> is_Status (inst_is a)"
    and b: "fmlookup (p_log q) i = Some b" "St_Prepared \<le> is_Status (inst_is b)"
  shows "inst_hash a = inst_hash b"
proof -
  let ?v = "cf_view C" and ?N = "set (cf_nodes C)" and ?B = "set (cf_byz C)"
  have rp: "rep_ok C s r1 p" "rep_ok C s r2 q" using s p by (simp_all add: sys_ok_def)
  note known = supporters_known [OF rp(1) a(1)] supporters_known [OF rp(2) b(1)]
  have ca: "2 * cf_f C < int (card (pq.supporters (inst_pCert a) ?v (?v, i, inst_hash a)))"
    using rp(1) a replica_ok_inst [of "cf_env C" ?v _ p i a] by (auto simp: rep_ok_def inst_ok_def)
  have cb: "2 * cf_f C < int (card (pq.supporters (inst_pCert b) ?v (?v, i, inst_hash b)))"
    using rp(2) b replica_ok_inst [of "cf_env C" ?v _ q i b] by (auto simp: rep_ok_def inst_ok_def)
  have sub: "pq.supporters (inst_pCert a) ?v (?v, i, inst_hash a) \<subseteq> ?N"
    "pq.supporters (inst_pCert b) ?v (?v, i, inst_hash b) \<subseteq> ?N"
    using known by (auto simp: pq.supporters_def voters_def vote_known_def)
  have "int (card ?N) + int (card ?B) < 2 * (2 * cf_f C + 1)"
    using C distinct_card [of "cf_nodes C"] by (auto simp: cfg_ok_def)
  from pq.majorities_share_correct_voter [OF ca cb sub List.finite_set List.finite_set this]
  obtain j m1 m2 where j: "j \<notin> ?B"
    and m1: "fmlookup (q_votes (inst_pCert a) ?v) j = Some m1" "am_key m1 = (?v, i, inst_hash a)"
    and m2: "fmlookup (q_votes (inst_pCert b) ?v) j = Some m2" "am_key m2 = (?v, i, inst_hash b)"
    by blast
  from known(1) [OF m1(1)] known(2) [OF m2(1)] j
  have "sbytes (am_CommandHash m1) = sbytes (am_CommandHash m2)"
    by (auto simp: vote_known_def intro: own_votes_unique)
  with m1(2) m2(2) show ?thesis by (simp add: am_key_def)
qed

definition sys_executed :: "pbft_sys \<Rightarrow> PeerID \<Rightarrow> Command list" where
  "sys_executed s r = (case fmlookup (sy_reps s) r of None \<Rightarrow> [] | Some p \<Rightarrow> executed (hist_of s r) p)"

lemma executed_committed:
  assumes "sys_ok C s" "k < length (sys_executed s r)"
  obtains p a where "fmlookup (sy_reps s) r = Some p" "fmlookup (p_log p) (of_nat (k + 1)) = Some a"
    "is_Status (inst_is a) = St_Committed" "agrees (cf_env C) (sys_executed s r ! k) (inst_hash a)"
proof -
  from assms(2) obtain p where p: "fmlookup (sy_reps s) r = Some p"
    by (auto simp: sys_executed_def split: option.splits)
  with assms have "exec_ok (cf_env C) (hist_of s r) p" by (simp add: sys_ok_def rep_ok_def replica_ok_def)
  with p assms(2) that show thesis unfolding exec_ok_def sys_executed_def by force
qed

subsection \<open>A run with a silent Byzantine node\<close>

definition ex_cmd :: Command where
  "ex_cmd = \<lparr>cmd_Timestamp = 7, cmd_Ops = [], cmd_Target = 0, cmd_Meta = [], cmd_ConflictKey = [], cmd_TraceInfo = fmempty\<rparr>"

definition ex_preprepare :: AgreementMessage where
  "ex_preprepare = \<lparr>am_View = 0, am_Index = 1, am_Type = AMT_PrePrepare, am_Command = Some ex_cmd,
     am_CommandHash = Some [1, 7]\<rparr>"

definition ex_prepare :: AgreementMessage where
  "ex_prepare = ex_preprepare\<lparr>am_Type := AMT_Prepare, am_Command := None\<rparr>"

definition ex_commit :: AgreementMessage where
  "ex_commit = ex_preprepare\<lparr>am_Type := AMT_Commit, am_Command := None\<rparr>"

text \<open>A wire format that knows three messages.\<close>

definition ex_marshal :: "PBFTMessage \<Rightarrow> bytes" where
  "ex_marshal M = (case M of PBFTMessage_Agreement m \<Rightarrow>
     (if m = ex_preprepare then [1] else if m = ex_prepare then [2] else if m = ex_commit then [3] else [])
     | _ \<Rightarrow> [])"

definition ex_unmarshal :: "bytes \<Rightarrow> PBFTMessage option" where
  "ex_unmarshal b = (if b = [1] then Some (PBFTMessage_Agreement ex_preprepare)
     else if b = [2] then Some (PBFTMessage_Agreement ex_prepare)
     else if b = [3] then Some (PBFTMessage_Agreement ex_commit) else None)"

definition ex_env :: pbft_env where
  "ex_env = \<lparr>env_sha256 = (\<lambda>b. 1 # b), env_marshalCommand = (\<lambda>c. Some [ucast (cmd_Timestamp c)]),
     env_createSignedCertificate = (\<lambda>_. replicate 32 0), env_verifyCertificate = (\<lambda>_ _. True),
     env_rangeOrder = (\<lambda>ks. ks), env_marshalPBFT = ex_marshal, env_unmarshalPBFT = ex_unmarshal,
     env_marshalViewChange = (\<lambda>_. [])\<rparr>"

definition ex_cfg :: pbft_cfg where
  "ex_cfg = \<lparr>cf_env = ex_env, cf_nodes = [0, 1, 2, 3], cf_byz = [3], cf_f = 1, cf_view = 0,
     cf_workers = fmap_of_list [(''mac_sign'', 1)], cf_queues = fmap_of_list [(''mac_sign'', 4)]\<rparr>"

lemma ex_env_ok: "env_ok ex_env"
  by (auto simp: env_ok_def wire_faithful_def encodes_commands_def ex_env_def ex_marshal_def ex_unmarshal_def
      split: PBFTMessage.splits if_splits)

lemma ex_cfg_ok: "cfg_ok ex_cfg"
  using ex_env_ok by (simp add: cfg_ok_def ex_cfg_def)

text \<open>A replica signs what it has queued and sends it.\<close>

definition flush :: "PeerID \<Rightarrow> pbft_act list" where
  "flush r = [TakeJob r, AssignJob r, FinishJob r 0, Async r, SendAll r]"

definition ex_msg :: "bytes \<Rightarrow> PeerID \<Rightarrow> PeerID \<Rightarrow> pbft_act" where
  "ex_msg c from to = Deliver \<lparr>msg_From = from, msg_To = to, msg_Content = c, msg_Certificate = replicate 32 0\<rparr>"

definition ex_prepare_phase :: "pbft_act list" where
  "ex_prepare_phase = [Submit 0 ex_cmd] @ flush 0 @ [ex_msg [1] 0 1, ex_msg [1] 0 2] @ flush 1 @ flush 2
     @ [ex_msg [2] 1 0, ex_msg [2] 2 0, ex_msg [2] 1 2, ex_msg [2] 2 1]"

definition ex_commit_phase :: "pbft_act list" where
  "ex_commit_phase = flush 0 @ flush 1 @ flush 2 @ [ex_msg [3] 0 1, ex_msg [3] 2 1, ex_msg [3] 0 2, ex_msg [3] 1 2,
     ApplyAll 1]"

definition ex_prepared_at :: "pbft_sys option \<Rightarrow> PeerID \<Rightarrow> bool" where
  "ex_prepared_at so r = (case so of None \<Rightarrow> False | Some s \<Rightarrow> (case fmlookup (sy_reps s) r of None \<Rightarrow> False
     | Some p \<Rightarrow> (case fmlookup (p_log p) 1 of None \<Rightarrow> False | Some a \<Rightarrow> IsAtleastPrepared (inst_is a))))"

lemma ex_prepared_atE:
  assumes "ex_prepared_at (pbft_run C as (pbft_init C)) r1" "ex_prepared_at (pbft_run C as (pbft_init C)) r2"
  obtains s p1 a p2 b where "pbft_reachable C s" "fmlookup (sy_reps s) r1 = Some p1" "fmlookup (p_log p1) 1 = Some a"
    "IsAtleastPrepared (inst_is a)" "fmlookup (sy_reps s) r2 = Some p2" "fmlookup (p_log p2) 1 = Some b"
    "IsAtleastPrepared (inst_is b)"
  using assms run_reachable [OF _ pbft_reachable.init, of C as]
  by (auto simp: ex_prepared_at_def split: option.splits)

lemma ex_prepared:
  "ex_prepared_at (pbft_run ex_cfg ex_prepare_phase (pbft_init ex_cfg)) 1"
  "ex_prepared_at (pbft_run ex_cfg ex_prepare_phase (pbft_init ex_cfg)) 2"
  by code_simp+

lemma ex_executed:
  "map_option (\<lambda>s. map (sys_executed s) [0, 1, 2])
     (pbft_run ex_cfg (ex_prepare_phase @ ex_commit_phase) (pbft_init ex_cfg)) = Some [[], [ex_cmd], [ex_cmd]]"
  by code_simp

subsection \<open>The theorems\<close>





end
