(* ===== verification/PBFT_Peer.thy ===== *)
theory PBFT_Peer
  imports Peer PBFT_Safety
begin

text \<open>
  PBFT under the peer: every operation of the replica only appends to its two output queues, so that PBFT meets
  the contract \<open>protocol_output\<close> and the peer loses nothing of what it produces.
\<close>

definition grows :: "PBFT \<Rightarrow> PBFT \<Rightarrow> bool" where
  "grows p p' \<longleftrightarrow> prefix (p_msgs p) (p_msgs p') \<and> prefix (p_executedCmds p) (p_executedCmds p')"

lemma grows_refl [simp]: "grows p p"
  by (simp add: grows_def)

lemma grows_trans: "grows p p1 \<Longrightarrow> grows p1 p2 \<Longrightarrow> grows p p2"
  by (auto simp: grows_def intro: prefix_order.trans)

text \<open>Updates that leave both queues alone.\<close>

lemma grows_frame [simp]:
  "grows p (put_inst i inst q) = grows p q" "grows p (pbft_broadcast E M b q) = grows p q"
  "grows p (q\<lparr>p_index := i\<rparr>) = grows p q" "grows p (q\<lparr>p_vcQuorum := vc\<rparr>) = grows p q"
  "grows p (q\<lparr>p_view := v, p_viewChanging := b'\<rparr>) = grows p q" "grows p (q\<lparr>p_timers := ts\<rparr>) = grows p q"
  "grows p (q\<lparr>p_signDispatcher := d\<rparr>) = grows p q"
  "grows (put_inst i inst q) p = grows q p" "grows (pbft_broadcast E M b q) p = grows q p"
  "grows (q\<lparr>p_view := v, p_viewChanging := b'\<rparr>) p = grows q p" "grows (q\<lparr>p_vcQuorum := vc\<rparr>) p = grows q p"
  "grows (q\<lparr>p_signDispatcher := d\<rparr>) p = grows q p"
  by (simp_all add: grows_def pbft_broadcast_def)

lemma grows_enqueue [simp]: "grows p q \<Longrightarrow> grows p (pbft_enqueueForSending to mm c q)"
  by (auto simp: grows_def pbft_enqueueForSending_def intro: prefix_order.trans)

lemma grows_exec: "grows p (pbft_exec p)"
proof (induction p rule: pbft_exec.induct)
  case (1 p)
  show ?case
  proof (cases "\<exists>inst cmd. fmlookup (p_log p) (p_execute p) = Some inst \<and>
      is_Command (inst_is inst) = Some cmd \<and> IsCommitted (inst_is inst)")
    case True
    then obtain inst cmd where *: "fmlookup (p_log p) (p_execute p) = Some inst"
      "is_Command (inst_is inst) = Some cmd" "IsCommitted (inst_is inst)" by blast
    let ?q = "(pbft_Execute cmd p)\<lparr>p_execute := p_execute p + 1\<rparr>"
    have "grows p ?q" by (simp add: grows_def pbft_Execute_def)
    with 1 [OF *(1,2)] *(3) have "grows p (pbft_exec (put_inst (p_execute p)
        (inst\<lparr>inst_is := (inst_is inst)\<lparr>is_Command := None\<rparr>\<rparr>) ?q))" by (auto intro: grows_trans)
    with * show ?thesis by (subst pbft_exec.simps) simp
  next
    case False
    then show ?thesis by (subst pbft_exec.simps) (auto split: option.split)
  qed
qed

lemma grows_exec' [simp]: "grows p q \<Longrightarrow> grows p (pbft_exec q)"
  using grows_exec grows_trans by blast

lemma grows_becomePrepared: "pbft_becomePrepared E i m inst p = Inr p' \<Longrightarrow> grows p p'"
  by (auto simp: pbft_becomePrepared_def Let_def go_simps split: if_splits)

lemma grows_onPrepare: "pbft_onPrepare E m from p = Inr p' \<Longrightarrow> grows p p'"
  unfolding pbft_onPrepare_def Let_def
  by (elim go_bindE) (auto simp: go_simps dest!: grows_becomePrepared split: if_splits)

lemma grows_onPrePrepare: "pbft_onPrePrepare E m from p = Inr p' \<Longrightarrow> grows p p'"
  unfolding pbft_onPrePrepare_def Let_def
  by (elim go_bindE) (auto simp: go_simps dest!: grows_becomePrepared split: if_splits)

lemma grows_onCommit: "pbft_onCommit m from p = Inr p' \<Longrightarrow> grows p p'"
  unfolding pbft_onCommit_def Let_def by (elim go_bindE) (auto simp: go_simps split: if_splits)

lemma grows_stepAgreement: "pbft_stepAgreement E m from p = Inr p' \<Longrightarrow> grows p p'"
  by (cases "am_Type m") (auto simp: pbft_stepAgreement_def dest: grows_onPrePrepare grows_onPrepare grows_onCommit
      split: if_splits)

lemma grows_fold:
  assumes "go_fold g xs p = Inr p'" "\<And>x p p'. g x p = Inr p' \<Longrightarrow> grows p p'"
  shows "grows p p'"
  using assms(1)
proof (induction xs arbitrary: p)
  case (Cons x xs)
  then obtain p1 where "g x p = Inr p1" "go_fold g xs p1 = Inr p'" by auto
  with Cons.IH assms(2) show ?case by (blast intro: grows_trans)
qed simp

lemma grows_installInstance: "pbft_installInstance E v from is p = Inr p' \<Longrightarrow> grows p p'"
  unfolding pbft_installInstance_def Let_def
  by (elim go_bindE) (auto simp: go_simps dest!: grows_onPrePrepare split: if_splits)

lemma grows_processNewView: "pbft_processNewView E m from p = Inr p' \<Longrightarrow> grows p p'"
proof (cases "\<not> p_viewChanging p \<and> p_view p = nv_NewView m")
  case False
  assume "pbft_processNewView E m from p = Inr p'"
  with False obtain err where "(case err of
      Some ErrNewViewVerifyFailed \<Rightarrow> Inl PanicCall
    | Some ErrNewViewNotPossible \<Rightarrow> Inr p
    | None \<Rightarrow> go_fold (pbft_installInstance E (nv_NewView m) from) (fmvals (env_rangeOrder E) (nv_Instances m))
        (p\<lparr>p_view := nv_NewView m, p_viewChanging := False\<rparr>)) = Inr p'"
    unfolding pbft_processNewView_def if_not_P [OF False] by (elim go_bindE)
  then show ?thesis
    by (cases err; (cases "the err")?) (auto dest!: grows_fold [OF _ grows_installInstance])
qed (simp add: pbft_processNewView_def)

lemma grows_constructNewView: "pbft_constructNewView E w p = Inr p' \<Longrightarrow> grows p p'"
  unfolding pbft_constructNewView_def
  by (elim go_bindE) (auto split: option.splits if_splits prod.splits)

lemma grows_sendTo [simp]: "grows p q \<Longrightarrow> grows p (pbft_sendTo E to M q)"
  by (simp add: pbft_sendTo_def Let_def)

lemma grows_onViewChange: "pbft_onViewChange E m from p = Inr p' \<Longrightarrow> grows p p'"
proof (erule onViewChange_cases)
  fix to p3
  assume p3: "p3 = vc_recorded E m from to p \<or> pbft_constructNewView E (vc_NewView m) (vc_recorded E m from to p) = Inr p3"
    and p': "(case fmlookup (vq_nvMessage (p_vcQuorum p3)) to of
        Some nv \<Rightarrow> pbft_processNewView E nv to p3 | None \<Rightarrow> Inr p3) = Inr p'"
  have "grows p (vc_recorded E m from to p)" by (simp add: vc_recorded_def Let_def)
  with p3 have "grows p p3" by (auto dest: grows_constructNewView intro: grows_trans)
  with p' show "grows p p'" by (auto dest: grows_processNewView intro: grows_trans split: option.splits)
qed simp

lemma grows_onViewChangeAck: "pbft_onViewChangeAck E m from p = Inr p' \<Longrightarrow> grows p p'"
  unfolding pbft_onViewChangeAck_def by (elim go_bindE) (auto dest!: grows_constructNewView)

lemma grows_onNewView: "pbft_onNewView E m from p = Inr p' \<Longrightarrow> grows p p'"
  unfolding pbft_onNewView_def by (elim go_bindE) (auto dest!: grows_processNewView split: if_splits)

lemma grows_Step: "pbft_Step E m p = Inr p' \<Longrightarrow> grows p p'"
  by (auto simp: pbft_Step_def dest: grows_stepAgreement grows_onViewChange grows_onViewChangeAck grows_onNewView
      split: option.splits if_splits PBFTMessage.splits)

lemma grows_onRequest: "pbft_onRequest E cmd p = Inr p' \<Longrightarrow> grows p p'"
  unfolding pbft_onRequest_def Let_def by (elim go_bindE) (auto simp: go_simps split: if_splits)

lemma grows_broadcastCallback: "pbft_broadcastCallback job cert p = Inr p' \<Longrightarrow> grows p p'"
  unfolding pbft_broadcastCallback_def
  by (erule grows_fold) (auto simp: go_simps split: if_splits)

lemma grows_AsyncCallback: "pbft_AsyncCallback p = Inr p' \<Longrightarrow> grows p p'"
proof -
  assume "pbft_AsyncCallback p = Inr p'"
  then have "go_fold (\<lambda>(job, cert). pbft_broadcastCallback job cert) (d_callbackC (p_signDispatcher p))
      (p\<lparr>p_signDispatcher := (p_signDispatcher p)\<lparr>d_callbackC := []\<rparr>\<rparr>) = Inr p'"
    by (simp add: pbft_AsyncCallback_def drain_callbacks_def)
  then have "grows (p\<lparr>p_signDispatcher := (p_signDispatcher p)\<lparr>d_callbackC := []\<rparr>\<rparr>) p'"
    by (rule grows_fold) (auto dest: grows_broadcastCallback)
  then show ?thesis by simp
qed

interpretation pbft_out: protocol_output "pbft_Protocol E" p_msgs p_executedCmds
  by unfold_locales
    (auto simp: pbft_Protocol_def pbft_MakeReady_def pbft_ClearMsgs_def pbft_ClearExecutedCommands_def
      pbft_Callback_def pbft_Tick_def pbft_Request_def grows_def [symmetric]
      dest: grows_Step grows_onRequest grows_AsyncCallback)

text \<open>
  Claim C7. A peer that runs PBFT loses, duplicates and reorders nothing: along every interleaving of its threads the
  messages given to the transport, then those waiting in its queues, then those the replica still holds form a
  list that only grows at the end, and so do the commands applied to the store, those on their way to the
  applier and those the replica still holds.
\<close>

theorem pbft_peer_streams_grow:
  assumes "(peer_step V (pbft_Protocol E))\<^sup>*\<^sup>* p p'"
  shows "prefix (pe_sent p @ concat (pe_toSend p) @ p_msgs (pe_n p))
      (pe_sent p' @ concat (pe_toSend p') @ p_msgs (pe_n p'))
    \<and> prefix (pe_applied p @ pe_applying p @ concat (pe_toApply p) @ pe_handoff p @ p_executedCmds (pe_n p))
      (pe_applied p' @ pe_applying p' @ concat (pe_toApply p') @ pe_handoff p' @ p_executedCmds (pe_n p'))"
  using pbft_out.peer_steps_stream [OF assms] unfolding pbft_out.messages.msg_stream_def pbft_out.commands.cmd_stream_def .


definition ex_out_msg :: Message where
  "ex_out_msg = \<lparr>msg_From = 0, msg_To = 1, msg_Content = [1], msg_Certificate = []\<rparr>"

definition ex_replica :: PBFT where
  "ex_replica = \<lparr>p_id = 0, p_nodes = [0, 1, 2, 3], p_log = fmempty, p_execute = 2, p_active = False, p_view = 0,
     p_index = 0, p_msgs = [ex_out_msg], p_executedCmds = [mkExecPacket ex_cmd], p_timers = [], p_viewChanging = False,
     p_changingView = 0, p_vcQuorum = newVCQuorum, p_f = 1, p_signDispatcher = Dispatcher_Run (NewDispatcher 1 4)\<rparr>"

definition ex_peer :: "PBFT Peer" where
  "ex_peer = (Peer_New 0 [0, 1, 2, 3] 1 ex_replica)\<lparr>pe_sig := True\<rparr>"

definition ex_peer_round :: "PBFT Peer" where
  "ex_peer_round = ex_peer\<lparr>pe_sig := False, pe_toSend := [[ex_out_msg]], pe_handoff := [mkExecPacket ex_cmd],
     pe_n := ex_replica\<lparr>p_msgs := [], p_executedCmds := []\<rparr>\<rparr>"

lemma ex_round: "Peer_round (pbft_Protocol ex_env) ex_peer = Inr ex_peer_round"
  by (simp add: Peer_round_def Let_def ex_peer_def ex_peer_round_def Peer_New_def flushMsgs_def pbft_Protocol_def
      pbft_AsyncCallback_def drain_callbacks_def ex_replica_def Dispatcher_Run_def NewDispatcher_def Peer_rb_flush_def
      reqBuf_flush_def reqBuf_init_def flushCmds_def RunOnce_def trySendMessages_def pbft_MakeReady_def
      pbft_ClearMsgs_def pbft_ClearExecutedCommands_def)

theorem pbft_peer_streams_grow_witness:
  "\<exists>p'. (peer_step ex_peer_env (pbft_Protocol ex_env))\<^sup>*\<^sup>* ex_peer p' \<and> pe_sent p' = [ex_out_msg]
     \<and> prefix (pe_sent ex_peer @ concat (pe_toSend ex_peer) @ p_msgs (pe_n ex_peer))
         (pe_sent p' @ concat (pe_toSend p') @ p_msgs (pe_n p'))"
proof -
  let ?S = "peer_step ex_peer_env (pbft_Protocol ex_env)"
  let ?p' = "sendMessages [ex_out_msg] (ex_peer_round\<lparr>pe_toSend := []\<rparr>)"
  have "?S ex_peer ex_peer_round"
    by (rule peer_step.round [OF _ _ _ ex_round]) (simp_all add: ex_peer_def Peer_New_def)
  moreover have "?S ex_peer_round ?p'"
    by (rule peer_step.send) (simp add: ex_peer_round_def)
  ultimately have *: "?S\<^sup>*\<^sup>* ex_peer ?p'" by simp
  have "pe_sent ?p' = [ex_out_msg]"
    by (simp add: sendMessages_def ex_peer_round_def ex_peer_def Peer_New_def)
  with * pbft_peer_streams_grow [OF *] show ?thesis by blast
qed

end
