(* ===== verification/MinBFT.thy ===== *)
theory MinBFT
  imports Peer Vote_Quorum
begin

text \<open>
  The MinBFT replica of \<open>protocols/minbft\<close>: its messages (\<open>minbftpb\<close>), the vote table (\<open>quorum.go\<close>), the handlers
  (\<open>instance.go\<close>, \<open>request.go\<close>), the entry points (\<open>minbft.go\<close>) and the message layer (\<open>messaging.go\<close>).

  The USIG enclave is a parameter: \<open>env_CreateUIMac\<close> gives the MAC of a digest and a counter value, \<open>env_VerifyUIMac\<close>
  checks it; the counter that the enclave keeps is the field \<open>mb_usig\<close>, which every certificate advances.
  The counter is appended to the MAC in little-endian order.
\<close>

unbundle bit_operations_syntax

subsection \<open>\<open>binary.LittleEndian\<close>\<close>

definition le_bytes :: "u64 \<Rightarrow> bytes" where
  "le_bytes w = map (\<lambda>i. ucast (drop_bit (8 * i) w)) [0..<8]"

fun le_uint64 :: "bytes \<Rightarrow> u64" where
  "le_uint64 [] = 0"
| "le_uint64 (b # bs) = ucast b OR push_bit 8 (le_uint64 bs)"

subsection \<open>Messages (\<open>minbftpb\<close>)\<close>

datatype NormalMessage_Type = NM_Prepare | NM_Commit | NM_ViewChange | NM_NewView | NM_NewViewAck | NM_Unknown nat

record NormalMessage =
  nm_Type :: NormalMessage_Type
  nm_View :: u64
  nm_Order :: u64
  nm_Command :: "Command option"
  nm_CommandHash :: slice

datatype MinBFTMessage = MinBFTMessage_Normal NormalMessage | MinBFTMessage_Unset

record minbft_env = go_env +
  env_marshalMinBFT :: "MinBFTMessage \<Rightarrow> bytes"
  env_unmarshalMinBFT :: "bytes \<Rightarrow> MinBFTMessage option"
  env_CreateUIMac :: "bytes \<Rightarrow> u64 \<Rightarrow> bytes"
  env_VerifyUIMac :: "bytes \<Rightarrow> bytes \<Rightarrow> u64 \<Rightarrow> bool go"

definition NormalMessage_Equals :: "NormalMessage \<Rightarrow> NormalMessage \<Rightarrow> bool" where
  "NormalMessage_Equals m other =
     (if nm_View m \<noteq> nm_View other then False
      else if nm_Order m \<noteq> nm_Order other then False
      else bytes_Equal (nm_CommandHash m) (nm_CommandHash other))"

subsection \<open>Vote tables (\<open>quorum.go\<close>)\<close>

record MinQuorum =
  mq_maxView :: u64
  mq_msgs :: "(u64, (PeerID, NormalMessage) fmap) fmap"

definition min_newQuorum :: MinQuorum where
  "min_newQuorum = \<lparr>mq_maxView = 0, mq_msgs = fmempty\<rparr>"

definition MinQuorum_log :: "PeerID \<Rightarrow> NormalMessage \<Rightarrow> MinQuorum \<Rightarrow> MinQuorum go" where
  "MinQuorum_log qid m q =
     (if mq_maxView q > nm_View m then Inl PanicCall
      else let msgs = fmsub (mq_msgs q) (nm_View m) in
        (case fmlookup msgs qid of
           None \<Rightarrow> Inr \<lparr>mq_maxView = nm_View m, mq_msgs = fmupd (nm_View m) (fmupd qid m msgs) (mq_msgs q)\<rparr>
         | Some _ \<Rightarrow> Inr \<lparr>mq_maxView = nm_View m, mq_msgs = fmupd (nm_View m) msgs (mq_msgs q)\<rparr>))"

definition MinQuorum_Reset :: "MinQuorum \<Rightarrow> MinQuorum" where
  "MinQuorum_Reset q = q\<lparr>mq_msgs := fmempty\<rparr>"

definition MinQuorum_Majority :: "int \<Rightarrow> NormalMessage \<Rightarrow> MinQuorum \<Rightarrow> bool" where
  "MinQuorum_Majority f m q =
     (case fmlookup (mq_msgs q) (nm_View m) of
        None \<Rightarrow> False
      | Some msgPairs \<Rightarrow>
          (if int (fmlen msgPairs) \<le> f then False
           else int (fmcount (NormalMessage_Equals m) msgPairs) > f))"

subsection \<open>The replica\<close>

text \<open>The quorum of an instance is a pointer; it is nil in the instance that \<open>NewMinBFT\<close> puts at slot 0.\<close>

record min_instance =
  mi_slot :: u64
  mi_view :: u64
  mi_command :: "Command option"
  mi_commandHash :: slice
  mi_prepared :: bool
  mi_commit :: bool
  mi_executed :: bool
  mi_quorum :: "MinQuorum option"

record minbft =
  mb_id :: PeerID
  mb_nodes :: "PeerID list"
  mb_f :: int
  mb_log :: "(u64, min_instance) fmap"
  mb_execute :: u64
  mb_active :: bool
  mb_slot :: u64
  mb_msgs :: "Message list"
  mb_executedCmds :: "ExecPacket list"
  mb_timers :: "unit tickingTimer list"
  mb_usig :: u64
  mb_stableView :: u64
  mb_curView :: u64

definition min_zero_instance :: min_instance where
  "min_zero_instance =
     \<lparr>mi_slot = 0, mi_view = 0, mi_command = None, mi_commandHash = None, mi_prepared = False, mi_commit = False,
      mi_executed = False, mi_quorum = None\<rparr>"

definition NewMinBFT :: "LocalConfig \<Rightarrow> minbft" where
  "NewMinBFT c =
     \<lparr>mb_id = cfg_ID c, mb_nodes = cfg_Peers c, mb_f = cfg_MaxFailures c,
      mb_log = fmupd 0 min_zero_instance fmempty, mb_execute = 1, mb_active = False, mb_slot = 0, mb_msgs = [],
      mb_executedCmds = [], mb_timers = [], mb_usig = 0, mb_stableView = cfg_LeaderID c, mb_curView = cfg_LeaderID c\<rparr>"

definition leaderOfView :: "minbft \<Rightarrow> u64 \<Rightarrow> PeerID go" where
  "leaderOfView p v = go_umod v (length (mb_nodes p))"

subsection \<open>Sending (\<open>messaging.go\<close>)\<close>

definition min_wrapAndMarshal :: "minbft_env \<Rightarrow> NormalMessage \<Rightarrow> bytes" where
  "min_wrapAndMarshal E m = env_marshalMinBFT E (MinBFTMessage_Normal m)"

definition marshalAndSignNormal :: "minbft_env \<Rightarrow> NormalMessage \<Rightarrow> minbft \<Rightarrow> (bytes \<times> bytes) \<times> minbft" where
  "marshalAndSignNormal E m p =
     (let mBytes = min_wrapAndMarshal E m;
          mHash = env_sha256 E mBytes;
          counter = mb_usig p + 1;
          cert = env_CreateUIMac E mHash counter
      in ((mBytes, cert @ le_bytes counter), p\<lparr>mb_usig := counter\<rparr>))"

definition min_sendTo :: "PeerID \<Rightarrow> bytes \<Rightarrow> bytes \<Rightarrow> minbft \<Rightarrow> minbft" where
  "min_sendTo to mm cert p =
     p\<lparr>mb_msgs := mb_msgs p @ [\<lparr>msg_From = mb_id p, msg_To = to, msg_Content = mm, msg_Certificate = cert\<rparr>]\<rparr>"

definition min_broadcast :: "bytes \<Rightarrow> bytes \<Rightarrow> minbft \<Rightarrow> minbft" where
  "min_broadcast mBytes cert p =
     fold (\<lambda>node p'. if node \<noteq> mb_id p' then min_sendTo node mBytes cert p' else p') (mb_nodes p) p"

definition broadcastNormal :: "minbft_env \<Rightarrow> NormalMessage \<Rightarrow> minbft \<Rightarrow> minbft" where
  "broadcastNormal E m p = (case marshalAndSignNormal E m p of ((mBytes, cert), p') \<Rightarrow> min_broadcast mBytes cert p')"

definition min_ClearMsgs :: "minbft \<Rightarrow> minbft" where
  "min_ClearMsgs p = p\<lparr>mb_msgs := []\<rparr>"

subsection \<open>Agreement (\<open>instance.go\<close>)\<close>

definition min_makeInstance :: "NormalMessage \<Rightarrow> min_instance" where
  "min_makeInstance m =
     \<lparr>mi_slot = nm_Order m, mi_view = nm_View m, mi_command = nm_Command m, mi_commandHash = nm_CommandHash m,
      mi_prepared = False, mi_commit = False, mi_executed = False, mi_quorum = Some min_newQuorum\<rparr>"

definition min_updateCommand :: "min_instance \<Rightarrow> NormalMessage \<Rightarrow> min_instance go" where
  "min_updateCommand inst m =
     (if mi_command inst \<noteq> None
      then go_bind (Command_Equal (mi_command inst) (nm_Command m)) (\<lambda>b. if \<not> b then Inl PanicCall else Inr inst)
      else Inr (inst\<lparr>mi_command := nm_Command m\<rparr>))"

definition min_updateCommandHash :: "min_instance \<Rightarrow> NormalMessage \<Rightarrow> min_instance go" where
  "min_updateCommandHash inst m =
     (if mi_commandHash inst \<noteq> None
      then (if \<not> bytes_Equal (mi_commandHash inst) (nm_CommandHash m) then Inl PanicCall else Inr inst)
      else Inr (inst\<lparr>mi_commandHash := nm_CommandHash m\<rparr>))"

definition min_checkCommandHash :: "'a go_env_scheme \<Rightarrow> Command option \<Rightarrow> slice \<Rightarrow> bool go" where
  "min_checkCommandHash E cmd h = go_bind (Hash_ptr E cmd) (\<lambda>compHash. Inr (bytes_Equal h compHash))"

definition inst_log :: "PeerID \<Rightarrow> NormalMessage \<Rightarrow> min_instance \<Rightarrow> min_instance go" where
  "inst_log i m inst =
     (case mi_quorum inst of
        None \<Rightarrow> Inl NilDeref
      | Some q \<Rightarrow> go_bind (MinQuorum_log i m q) (\<lambda>q'. Inr (inst\<lparr>mi_quorum := Some q'\<rparr>)))"

text \<open>\<open>Majority\<close> is called only after a vote was logged, which panics on a nil quorum.\<close>

definition inst_Majority :: "int \<Rightarrow> NormalMessage \<Rightarrow> min_instance \<Rightarrow> bool" where
  "inst_Majority f m inst = (case mi_quorum inst of None \<Rightarrow> False | Some q \<Rightarrow> MinQuorum_Majority f m q)"

definition min_put :: "u64 \<Rightarrow> min_instance \<Rightarrow> minbft \<Rightarrow> minbft" where
  "min_put o' inst p = p\<lparr>mb_log := fmupd o' inst (mb_log p)\<rparr>"

definition min_Execute :: "Command option \<Rightarrow> minbft \<Rightarrow> minbft go" where
  "min_Execute cmd p =
     (case cmd of None \<Rightarrow> Inl NilDeref
      | Some c \<Rightarrow> Inr (p\<lparr>mb_executedCmds := mb_executedCmds p @ [mkExecPacket c]\<rparr>))"

text \<open>The loop of \<open>exec\<close>; unlike in PBFT nothing is cleared, so that it ends only at a slot not committed.\<close>

partial_function (option) min_exec_loop :: "minbft \<Rightarrow> minbft go option" where
  "min_exec_loop p =
     (case fmlookup (mb_log p) (mb_execute p) of
        None \<Rightarrow> Some (Inr p)
      | Some e \<Rightarrow>
          if \<not> mi_commit e then Some (Inr p)
          else (case min_Execute (mi_command e) p of
                  Inl err \<Rightarrow> Some (Inl err)
                | Inr p1 \<Rightarrow> min_exec_loop ((min_put (mb_execute p) (e\<lparr>mi_executed := True\<rparr>) p1)\<lparr>mb_execute := mb_execute p + 1\<rparr>)))"

declare min_exec_loop.simps [code]

definition min_exec :: "minbft \<Rightarrow> minbft go" where
  "min_exec p = (case min_exec_loop p of None \<Rightarrow> Inl Hang | Some r \<Rightarrow> r)"

definition raise_slot :: "u64 \<Rightarrow> minbft \<Rightarrow> minbft" where
  "raise_slot o' p = (if mb_slot p < o' then p\<lparr>mb_slot := o'\<rparr> else p)"

text \<open>The end of \<open>onPrepare\<close> and of \<open>onCommit\<close>.\<close>

definition min_tryCommit :: "NormalMessage \<Rightarrow> min_instance \<Rightarrow> minbft \<Rightarrow> minbft go" where
  "min_tryCommit m inst p =
     (if mi_prepared inst \<and> \<not> mi_commit inst \<and> inst_Majority (mb_f p) m inst
      then min_exec (min_put (nm_Order m) (inst\<lparr>mi_commit := True\<rparr>) p)
      else Inr (min_put (nm_Order m) inst p))"

definition min_onPrepare :: "minbft_env \<Rightarrow> NormalMessage \<Rightarrow> PeerID \<Rightarrow> minbft \<Rightarrow> minbft go" where
  "min_onPrepare E m from p =
     (if nm_View m < mb_curView p then Inr p
      else let p1 = raise_slot (nm_Order m) p in
        go_bind (min_checkCommandHash E (nm_Command m) (nm_CommandHash m)) (\<lambda>ok.
        if \<not> ok then Inl PanicCall
        else go_bind (case fmlookup (mb_log p1) (nm_Order m) of
               None \<Rightarrow> Inr (min_makeInstance m)
             | Some inst \<Rightarrow> go_bind (min_updateCommand inst m) (\<lambda>inst'. min_updateCommandHash inst' m)) (\<lambda>inst.
        go_bind (inst_log from m inst) (\<lambda>inst1.
        let inst2 = inst1\<lparr>mi_prepared := True\<rparr>;
            cm = \<lparr>nm_Type = NM_Commit, nm_View = nm_View m, nm_Order = nm_Order m, nm_Command = None,
                  nm_CommandHash = nm_CommandHash m\<rparr> in
        go_bind (inst_log (mb_id p1) cm inst2) (\<lambda>inst3.
        min_tryCommit m inst3 (broadcastNormal E cm p1))))))"

definition min_onCommit :: "NormalMessage \<Rightarrow> PeerID \<Rightarrow> minbft \<Rightarrow> minbft go" where
  "min_onCommit m from p =
     (let p1 = raise_slot (nm_Order m) p in
      go_bind (case fmlookup (mb_log p1) (nm_Order m) of
             None \<Rightarrow> Inr (min_makeInstance m)
           | Some inst \<Rightarrow> min_updateCommandHash inst m) (\<lambda>inst.
      go_bind (inst_log from m inst) (\<lambda>inst1. min_tryCommit m inst1 p1)))"

subsection \<open>Requests (\<open>request.go\<close>)\<close>

definition min_onRequest :: "minbft_env \<Rightarrow> Command \<Rightarrow> minbft \<Rightarrow> minbft go" where
  "min_onRequest E cmd p =
     (if mb_curView p \<noteq> mb_stableView p then Inl PanicCall
      else go_bind (go_umod (mb_stableView p) (length (mb_nodes p))) (\<lambda>leader.
        if leader \<noteq> mb_id p then Inl PanicCall
        else let slot = mb_slot p + 1;
                 inst = \<lparr>mi_slot = slot, mi_view = mb_curView p, mi_command = Some cmd, mi_commandHash = None,
                         mi_prepared = False, mi_commit = False, mi_executed = False, mi_quorum = Some min_newQuorum\<rparr>;
                 pr = \<lparr>nm_Type = NM_Prepare, nm_View = mb_curView p, nm_Order = slot, nm_Command = Some cmd,
                       nm_CommandHash = Command_Hash E cmd\<rparr> in
          go_bind (inst_log (mb_id p) pr inst) (\<lambda>inst1.
            Inr (broadcastNormal E pr (min_put slot (inst1\<lparr>mi_prepared := True\<rparr>) (p\<lparr>mb_slot := slot\<rparr>))))))"

subsection \<open>Entry points (\<open>minbft.go\<close>)\<close>

definition stepNormal :: "minbft_env \<Rightarrow> NormalMessage \<Rightarrow> bytes \<Rightarrow> bytes \<Rightarrow> PeerID \<Rightarrow> minbft \<Rightarrow> minbft go" where
  "stepNormal E m hash cert from p =
     (if mb_curView p \<noteq> mb_stableView p then Inr p
      else if length cert < 8 then Inl IndexRange
      else let counter = le_uint64 (drop (length cert - 8) cert) in
        go_bind (env_VerifyUIMac E hash (take (length cert - 8) cert) counter) (\<lambda>valid.
        if \<not> valid then Inr p
        else if nm_View m \<noteq> mb_curView p then Inl FatalExit
        else case nm_Type m of
            NM_Prepare \<Rightarrow> min_onPrepare E m from p
          | NM_Commit \<Rightarrow> min_onCommit m from p
          | _ \<Rightarrow> Inl PanicCall))"

definition min_Step :: "minbft_env \<Rightarrow> Message \<Rightarrow> minbft \<Rightarrow> minbft go" where
  "min_Step E mm p =
     (case env_unmarshalMinBFT E (msg_Content mm) of
        None \<Rightarrow> Inl PanicCall
      | Some (MinBFTMessage_Normal m) \<Rightarrow>
          stepNormal E m (env_sha256 E (msg_Content mm)) (msg_Certificate mm) (msg_From mm) p
      | Some MinBFTMessage_Unset \<Rightarrow> Inl PanicCall)"

definition min_Callback :: "ExecCallback \<Rightarrow> minbft \<Rightarrow> minbft go" where
  "min_Callback cb p = Inr p"

definition min_Tick :: "minbft \<Rightarrow> minbft go" where
  "min_Tick p = Inr (p\<lparr>mb_timers := map (fst \<circ> Timer_Tick) (mb_timers p)\<rparr>)"

definition min_Request :: "minbft_env \<Rightarrow> Command \<Rightarrow> minbft \<Rightarrow> minbft go" where
  "min_Request E cmd p = min_onRequest E cmd p"

definition min_MakeReady :: "minbft \<Rightarrow> Ready" where
  "min_MakeReady p = \<lparr>rd_Messages = mb_msgs p, rd_OrderedCommands = mb_executedCmds p\<rparr>"

definition min_ClearExecutedCommands :: "minbft \<Rightarrow> minbft" where
  "min_ClearExecutedCommands p = p\<lparr>mb_executedCmds := []\<rparr>"

definition min_AsyncCallback :: "minbft \<Rightarrow> minbft go" where
  "min_AsyncCallback p = Inr p"

definition min_hasPrepared :: "u64 \<Rightarrow> minbft \<Rightarrow> bool" where
  "min_hasPrepared idx p = (case fmlookup (mb_log p) idx of Some inst \<Rightarrow> mi_prepared inst | None \<Rightarrow> False)"

definition min_hasCommitted :: "u64 \<Rightarrow> minbft \<Rightarrow> bool" where
  "min_hasCommitted idx p =
     (case fmlookup (mb_log p) idx of Some inst \<Rightarrow> mi_prepared inst \<and> mi_commit inst | None \<Rightarrow> False)"

definition min_hasExecuted :: "u64 \<Rightarrow> minbft \<Rightarrow> bool" where
  "min_hasExecuted idx p =
     (case fmlookup (mb_log p) idx of Some inst \<Rightarrow> mi_prepared inst \<and> mi_commit inst \<and> mi_executed inst | None \<Rightarrow> False)"

definition min_Protocol :: "minbft_env \<Rightarrow> minbft Protocol" where
  "min_Protocol E =
     \<lparr>pr_Step = min_Step E, pr_Tick = min_Tick, pr_Request = min_Request E, pr_Callback = min_Callback,
      pr_MakeReady = (\<lambda>s. Inr (min_MakeReady s, s)), pr_ClearMsgs = min_ClearMsgs,
      pr_ClearExecutedCommands = min_ClearExecutedCommands, pr_AsyncCallback = min_AsyncCallback\<rparr>"

end
