(* ===== verification/MinBFT_Votes.thy ===== *)
theory MinBFT_Votes
  imports MinBFT
begin

text \<open>
  What one MinBFT replica guarantees: its vote table meets the interface \<open>vote_quorum\<close> with threshold \<open>f\<close>, its
  certificates carry the counter of the enclave, and its execution loop ends.
\<close>

subsection \<open>The vote table\<close>

definition nm_key :: "NormalMessage \<Rightarrow> u64 \<times> u64 \<times> bytes" where
  "nm_key m = (nm_View m, nm_Order m, sbytes (nm_CommandHash m))"

definition mq_votes :: "MinQuorum \<Rightarrow> u64 \<Rightarrow> (PeerID, NormalMessage) fmap" where
  "mq_votes q v = fmsub (mq_msgs q) v"

lemma NormalMessage_Equals_key: "NormalMessage_Equals m m' \<longleftrightarrow> nm_key m' = nm_key m"
  by (auto simp: NormalMessage_Equals_def nm_key_def bytes_Equal_def)

lemma mq_votes_log:
  "MinQuorum_log i m q = Inr q' \<Longrightarrow> mq_votes q' v =
     (if v = nm_View m \<and> fmlookup (mq_votes q v) i = None then fmupd i m (mq_votes q v) else mq_votes q v)"
  by (auto simp: MinQuorum_log_def mq_votes_def Let_def fmsub_def split: if_splits option.splits)

lemma MinQuorum_Majority_count:
  assumes "0 \<le> f"
  shows "MinQuorum_Majority f m q \<longleftrightarrow> f < int (fmcount (\<lambda>m'. nm_key m' = nm_key m) (mq_votes q (nm_View m)))"
proof (cases "fmlookup (mq_msgs q) (nm_View m)")
  case None
  then show ?thesis using assms by (simp add: MinQuorum_Majority_def mq_votes_def fmsub_def fmcount_card)
next
  case (Some t)
  have "int (fmcount (NormalMessage_Equals m) t) \<le> int (fmlen t)" by (simp add: fmcount_le_fmlen)
  moreover have "NormalMessage_Equals m = (\<lambda>m'. nm_key m' = nm_key m)" by (auto simp: NormalMessage_Equals_key)
  ultimately show ?thesis using Some by (simp add: MinQuorum_Majority_def mq_votes_def fmsub_def)
qed

interpretation mq: vote_quorum MinQuorum_log mq_votes MinQuorum_Majority nm_View nm_key "\<lambda>f. f"
  by unfold_locales (auto simp: mq_votes_log MinQuorum_Majority_count)

text \<open>
  The vote table of an instance: a logged vote stays, a second message of the same replica in the same
  view does not count, and once more than \<open>f\<close> replicas support a message they do so for ever.
\<close>

theorem minquorum_majority_stable:
  assumes "0 \<le> f" "MinQuorum_Majority f m q" "MinQuorum_log i m' q = Inr q'"
  shows "MinQuorum_Majority f m q' \<and> f < int (card {j. \<exists>x. fmlookup (mq_votes q' (nm_View m)) j = Some x \<and> nm_key x = nm_key m})"
  using mq.majority_stable [OF assms] mq.majority_supporters [OF assms(1), of m q']
  by (simp add: mq.supporters_def voters_def)

definition ex_nm :: NormalMessage where
  "ex_nm = \<lparr>nm_Type = NM_Commit, nm_View = 0, nm_Order = 1, nm_Command = None, nm_CommandHash = Some [7]\<rparr>"

definition ex_mq :: MinQuorum where
  "ex_mq = \<lparr>mq_maxView = 0, mq_msgs = fmap_of_list [(0, fmap_of_list [(0, ex_nm), (1, ex_nm)])]\<rparr>"

theorem minquorum_majority_stable_witness:
  "\<exists>q'. MinQuorum_log 2 ex_nm ex_mq = Inr q' \<and> MinQuorum_Majority 1 ex_nm q'"
proof -
  have "MinQuorum_Majority 1 ex_nm ex_mq" by code_simp
  moreover obtain q' where "MinQuorum_log 2 ex_nm ex_mq = Inr q'" by (simp add: MinQuorum_log_def ex_mq_def ex_nm_def)
  ultimately show ?thesis using minquorum_majority_stable [of 1 ex_nm ex_mq 2 ex_nm q'] by auto
qed

subsection \<open>Certificates\<close>

lemma le_uint64_range:
  "le_uint64 (map (\<lambda>i. ucast (drop_bit (8 * i) w)) [k..<k + n]) = take_bit (8 * n) (drop_bit (8 * k) w)"
proof (induction n arbitrary: k)
  case (Suc n)
  have "[k..<k + Suc n] = k # [Suc k..<Suc k + n]" by (simp add: upt_conv_Cons)
  then have "le_uint64 (map (\<lambda>i. ucast (drop_bit (8 * i) w)) [k..<k + Suc n]) =
      ucast (ucast (drop_bit (8 * k) w) :: byte) OR push_bit 8 (take_bit (8 * n) (drop_bit (8 * Suc k) w))"
    by (simp only: list.map le_uint64.simps Suc.IH)
  also have "\<dots> = take_bit (8 * Suc n) (drop_bit (8 * k) w)"
    by (rule bit_eqI) (auto simp: bit_simps)
  finally show ?case .
qed simp

lemma le_uint64_bytes [simp]: "le_uint64 (le_bytes w) = w"
proof -
  have "le_uint64 (le_bytes w) = take_bit 64 w" using le_uint64_range [of w 0 8] by (simp add: le_bytes_def)
  then show ?thesis by (simp add: take_bit_word_eq_self)
qed

lemma length_le_bytes [simp]: "length (le_bytes w) = 8"
  by (simp add: le_bytes_def)

text \<open>
  Round trip of the certificate: what \<open>marshalAndSignNormal\<close> puts into the certificate \<open>stepNormal\<close> reads out again,
  the counter of the enclave and the MAC that was made for the message and that counter. The counter grows by one
  with every certificate.
\<close>

theorem minbft_certificate_roundtrip:
  "case marshalAndSignNormal E m p of ((content, cert), p') \<Rightarrow>
     content = min_wrapAndMarshal E m \<and> 8 \<le> length cert \<and> le_uint64 (drop (length cert - 8) cert) = mb_usig p'
     \<and> take (length cert - 8) cert = env_CreateUIMac E (env_sha256 E content) (mb_usig p')
     \<and> p' = p\<lparr>mb_usig := mb_usig p + 1\<rparr>"
  by (simp add: marshalAndSignNormal_def Let_def)

subsection \<open>The execution loop\<close>

definition slot_committed :: "minbft \<Rightarrow> u64 \<Rightarrow> bool" where
  "slot_committed p o' \<longleftrightarrow> (\<exists>e. fmlookup (mb_log p) o' = Some e \<and> mi_commit e)"

definition exec_round :: "minbft \<Rightarrow> min_instance \<Rightarrow> Command \<Rightarrow> minbft" where
  "exec_round p e c = (min_put (mb_execute p) (e\<lparr>mi_executed := True\<rparr>)
     (p\<lparr>mb_executedCmds := mb_executedCmds p @ [mkExecPacket c]\<rparr>))\<lparr>mb_execute := mb_execute p + 1\<rparr>"

lemma min_exec_loop_unfold:
  "min_exec_loop p =
     (case fmlookup (mb_log p) (mb_execute p) of
        None \<Rightarrow> Some (Inr p)
      | Some e \<Rightarrow> if \<not> mi_commit e then Some (Inr p)
          else (case mi_command e of None \<Rightarrow> Some (Inl NilDeref) | Some c \<Rightarrow> min_exec_loop (exec_round p e c)))"
  by (subst min_exec_loop.simps) (auto simp: min_Execute_def exec_round_def split: option.split)

lemma slot_committed_round:
  "fmlookup (mb_log p) (mb_execute p) = Some e \<Longrightarrow> slot_committed (exec_round p e c) o' = slot_committed p o'"
  by (auto simp: slot_committed_def exec_round_def min_put_def)

lemma min_exec_loop_stops:
  "\<not> slot_committed p (mb_execute p + of_nat k) \<Longrightarrow> \<exists>r. min_exec_loop p = Some r"
proof (induction k arbitrary: p)
  case 0
  then show ?case by (subst min_exec_loop_unfold) (auto simp: slot_committed_def split: option.splits)
next
  case (Suc k)
  show ?case
  proof (cases "\<exists>e c. fmlookup (mb_log p) (mb_execute p) = Some e \<and> mi_commit e \<and> mi_command e = Some c")
    case True
    then obtain e c where e: "fmlookup (mb_log p) (mb_execute p) = Some e" "mi_commit e" "mi_command e = Some c" by blast
    have "mb_execute (exec_round p e c) = mb_execute p + 1" by (simp add: exec_round_def)
    with Suc.prems slot_committed_round [OF e(1)]
    have "\<not> slot_committed (exec_round p e c) (mb_execute (exec_round p e c) + of_nat k)" by (simp add: add.assoc)
    from Suc.IH [OF this] e show ?thesis by (subst min_exec_loop_unfold) simp
  next
    case False
    then show ?thesis by (subst min_exec_loop_unfold) (auto split: option.split)
  qed
qed

text \<open>
  The execution loop ends whenever some slot is not committed, which slot 0 never is: it holds the instance that
  \<open>NewMinBFT\<close> put there, and a message for slot 0 makes the handler panic before it could commit.
\<close>

theorem minbft_exec_terminates:
  assumes "\<not> slot_committed p o'"
  shows "min_exec p \<noteq> Inl Hang \<and> \<not> slot_committed (NewMinBFT c) 0
    \<and> (fmlookup (mb_log q) 0 = Some min_zero_instance \<longrightarrow> nm_Order m = 0 \<longrightarrow>
         \<not> go_ok (min_onCommit m from q) \<and> (nm_View m \<ge> mb_curView q \<longrightarrow> \<not> go_ok (min_onPrepare E m from q)))"
proof (intro conjI impI)
  have "o' = mb_execute p + of_nat (unat (o' - mb_execute p))" by simp
  with assms have "\<not> slot_committed p (mb_execute p + of_nat (unat (o' - mb_execute p)))" by metis
  from min_exec_loop_stops [OF this] obtain r where r: "min_exec_loop p = Some r" by blast
  have "r \<noteq> Inl Hang" if "min_exec_loop p = Some r" for p r
    by (rule min_exec_loop.raw_induct [OF _ that, where P = "\<lambda>_ r. r \<noteq> Inl Hang"])
      (auto simp: min_Execute_def split: option.splits if_splits sum.splits)
  with r show "min_exec p \<noteq> Inl Hang" by (simp add: min_exec_def)
  show "\<not> slot_committed (NewMinBFT c) 0" by (simp add: slot_committed_def NewMinBFT_def min_zero_instance_def)
  assume q: "fmlookup (mb_log q) 0 = Some min_zero_instance" and m: "nm_Order m = 0"
  have log: "mb_log (raise_slot o' q) = mb_log q" for o' by (simp add: raise_slot_def)
  show "\<not> go_ok (min_onCommit m from q)"
    using q m by (auto simp: min_onCommit_def Let_def log min_updateCommandHash_def inst_log_def min_zero_instance_def)
  show "\<not> go_ok (min_onPrepare E m from q)" if "nm_View m \<ge> mb_curView q"
    using q m that by (cases "min_checkCommandHash E (nm_Command m) (nm_CommandHash m)")
      (auto simp: min_onPrepare_def Let_def log min_updateCommand_def min_updateCommandHash_def inst_log_def
        min_zero_instance_def)
qed

theorem minbft_exec_terminates_witness:
  "min_exec (NewMinBFT \<lparr>cfg_ID = 0, cfg_Peers = [0, 1, 2], cfg_LeaderID = 0, cfg_MaxFailures = 1, cfg_Workers = fmempty,
     cfg_WorkersQueueSizes = fmempty\<rparr>) \<noteq> Inl Hang"
  using minbft_exec_terminates [of _ 5] by (auto simp: slot_committed_def NewMinBFT_def)

lemma min_exec_invariant:
  assumes "min_exec p = Inr p'" "I p"
    and "\<And>p e c. I p \<Longrightarrow> fmlookup (mb_log p) (mb_execute p) = Some e \<Longrightarrow> mi_commit e \<Longrightarrow> mi_command e = Some c \<Longrightarrow>
        I (exec_round p e c)"
  shows "I p'"
proof -
  have "\<forall>p'. r = Inr p' \<longrightarrow> I p \<longrightarrow> I p'" if "min_exec_loop p = Some r" for p r
  proof (rule min_exec_loop.raw_induct [OF _ that, where P = "\<lambda>p r. \<forall>p'. r = Inr p' \<longrightarrow> I p \<longrightarrow> I p'"])
    fix f p r assume ih: "\<And>p r. f p = Some r \<Longrightarrow> \<forall>p'. r = Inr p' \<longrightarrow> I p \<longrightarrow> I p'"
      and body: "(case fmlookup (mb_log p) (mb_execute p) of None \<Rightarrow> Some (Inr p)
        | Some e \<Rightarrow> if \<not> mi_commit e then Some (Inr p)
            else case min_Execute (mi_command e) p of Inl err \<Rightarrow> Some (Inl err)
              | Inr p1 \<Rightarrow> f ((min_put (mb_execute p) (e\<lparr>mi_executed := True\<rparr>) p1)\<lparr>mb_execute := mb_execute p + 1\<rparr>)) = Some r"
    show "\<forall>p'. r = Inr p' \<longrightarrow> I p \<longrightarrow> I p'"
    proof (cases "\<exists>e c. fmlookup (mb_log p) (mb_execute p) = Some e \<and> mi_commit e \<and> mi_command e = Some c")
      case True
      then obtain e c where e: "fmlookup (mb_log p) (mb_execute p) = Some e" "mi_commit e" "mi_command e = Some c" by blast
      with body have "f (exec_round p e c) = Some r" by (simp add: min_Execute_def exec_round_def)
      with ih assms(3) [OF _ e] show ?thesis by blast
    next
      case False
      with body show ?thesis by (auto simp: min_Execute_def split: option.splits if_splits)
    qed
  qed
  with assms(1,2) show ?thesis by (auto simp: min_exec_def split: option.splits)
qed

end
