(* ===== verification/MinBFT_Cluster.thy ===== *)
theory MinBFT_Cluster
  imports MinBFT_Votes
begin

text \<open>
  A cluster of MinBFT replicas. When replicas only crash, all of them execute the same commands in the same order:
  the primary numbers the commands, and a replica prepares a number with the primary's command only. When the
  primary is Byzantine they need not, although the enclave gives every message a counter: no
  handler looks at the order of the counters.
\<close>

subsection \<open>Output queues\<close>

definition min_grows :: "minbft \<Rightarrow> minbft \<Rightarrow> bool" where
  "min_grows p p' \<longleftrightarrow> prefix (mb_msgs p) (mb_msgs p') \<and> prefix (mb_executedCmds p) (mb_executedCmds p')"

lemma min_grows_refl [simp]: "min_grows p p" "min_grows p (p\<lparr>mb_timers := ts\<rparr>)"
  by (simp_all add: min_grows_def)

lemma min_grows_trans: "min_grows p p1 \<Longrightarrow> min_grows p1 p2 \<Longrightarrow> min_grows p p2"
  by (auto simp: min_grows_def intro: prefix_order.trans)

text \<open>What a broadcast adds to the queue.\<close>

definition sent_copies :: "bytes \<Rightarrow> bytes \<Rightarrow> minbft \<Rightarrow> Message list" where
  "sent_copies content cert p = map (\<lambda>node. \<lparr>msg_From = mb_id p, msg_To = node, msg_Content = content, msg_Certificate = cert\<rparr>)
     (filter (\<lambda>node. node \<noteq> mb_id p) (mb_nodes p))"

lemma min_broadcast_eq: "min_broadcast content cert p = p\<lparr>mb_msgs := mb_msgs p @ sent_copies content cert p\<rparr>"
proof -
  have "fold (\<lambda>node p'. if node \<noteq> mb_id p' then min_sendTo node content cert p' else p') ns q =
      q\<lparr>mb_msgs := mb_msgs q @ map (\<lambda>node. \<lparr>msg_From = mb_id q, msg_To = node, msg_Content = content, msg_Certificate = cert\<rparr>)
        (filter (\<lambda>node. node \<noteq> mb_id q) ns)\<rparr>" for ns q
    by (induction ns arbitrary: q) (simp_all add: min_sendTo_def)
  then show ?thesis by (simp add: min_broadcast_def sent_copies_def)
qed

lemma broadcastNormal_eq:
  "\<exists>cert. broadcastNormal E m p = p\<lparr>mb_usig := mb_usig p + 1, mb_msgs := mb_msgs p @ sent_copies (min_wrapAndMarshal E m) cert p\<rparr>"
  by (auto simp: broadcastNormal_def marshalAndSignNormal_def Let_def min_broadcast_eq sent_copies_def)

lemma broadcastNormal_sel [simp]:
  "mb_id (broadcastNormal E m p) = mb_id p" "mb_nodes (broadcastNormal E m p) = mb_nodes p"
  "mb_f (broadcastNormal E m p) = mb_f p" "mb_log (broadcastNormal E m p) = mb_log p"
  "mb_slot (broadcastNormal E m p) = mb_slot p" "mb_execute (broadcastNormal E m p) = mb_execute p"
  "mb_executedCmds (broadcastNormal E m p) = mb_executedCmds p" "mb_curView (broadcastNormal E m p) = mb_curView p"
  "mb_stableView (broadcastNormal E m p) = mb_stableView p"
  using broadcastNormal_eq [of E m p] by auto

lemma raise_slot_sel [simp]:
  "mb_id (raise_slot o' p) = mb_id p" "mb_nodes (raise_slot o' p) = mb_nodes p" "mb_f (raise_slot o' p) = mb_f p"
  "mb_log (raise_slot o' p) = mb_log p" "mb_execute (raise_slot o' p) = mb_execute p" "mb_msgs (raise_slot o' p) = mb_msgs p"
  "mb_executedCmds (raise_slot o' p) = mb_executedCmds p" "mb_curView (raise_slot o' p) = mb_curView p"
  "mb_stableView (raise_slot o' p) = mb_stableView p" "o' \<le> mb_slot (raise_slot o' p)" "mb_slot p \<le> mb_slot (raise_slot o' p)"
  by (auto simp: raise_slot_def)

lemma min_grows_exec: "min_exec p = Inr p' \<Longrightarrow> min_grows p p'"
  by (erule min_exec_invariant [where I = "min_grows p"])
    (auto simp: min_grows_def exec_round_def min_put_def intro: prefix_order.trans)

lemma min_grows_tryCommit: "min_tryCommit m inst p = Inr p' \<Longrightarrow> min_grows p p'"
  by (auto simp: min_tryCommit_def min_put_def min_grows_def dest!: min_grows_exec split: if_splits)

lemma min_grows_broadcast: "min_grows p (broadcastNormal E m p)"
  using broadcastNormal_eq [of E m p] by (auto simp: min_grows_def)

lemma min_grows_onCommit: "min_onCommit m from p = Inr p' \<Longrightarrow> min_grows p p'"
  unfolding min_onCommit_def Let_def by (elim go_bindE) (auto dest!: min_grows_tryCommit simp: min_grows_def)

lemma min_grows_onPrepare:
  assumes "min_onPrepare E m from p = Inr p'"
  shows "min_grows p p'"
proof (cases "p' = p")
  case False
  with assms obtain cm inst where "min_tryCommit m inst (broadcastNormal E cm (raise_slot (nm_Order m) p)) = Inr p'"
    by (auto simp: min_onPrepare_def Let_def go_simps split: if_splits)
  then have "min_grows (raise_slot (nm_Order m) p) p'"
    using min_grows_tryCommit min_grows_broadcast min_grows_trans by blast
  then show ?thesis by (simp add: min_grows_def)
qed simp

lemma min_grows_Step: "min_Step E mm p = Inr p' \<Longrightarrow> min_grows p p'"
  by (auto simp: min_Step_def stepNormal_def Let_def go_simps dest: min_grows_onPrepare min_grows_onCommit
      split: option.splits MinBFTMessage.splits if_splits NormalMessage_Type.splits)

lemma min_grows_onRequest: "min_onRequest E cmd p = Inr p' \<Longrightarrow> min_grows p p'"
proof -
  assume "min_onRequest E cmd p = Inr p'"
  then obtain pr inst s where "p' = broadcastNormal E pr (min_put s inst (p\<lparr>mb_slot := s\<rparr>))"
    by (auto simp: min_onRequest_def Let_def go_simps split: if_splits)
  with min_grows_broadcast [of "min_put s inst (p\<lparr>mb_slot := s\<rparr>)" E pr] show ?thesis
    by (simp add: min_grows_def min_put_def)
qed

interpretation min_out: protocol_output "min_Protocol E" mb_msgs mb_executedCmds
  by unfold_locales
    (auto simp: min_Protocol_def min_MakeReady_def min_ClearMsgs_def min_ClearExecutedCommands_def
      min_Callback_def min_Tick_def min_Request_def min_AsyncCallback_def min_grows_def [symmetric]
      dest: min_grows_Step min_grows_onRequest)

text \<open>
  A peer that runs MinBFT loses, duplicates and reorders nothing either: the stream of messages and the stream of
  commands only grow at the end, under every interleaving of the peer's threads.
\<close>

theorem minbft_peer_streams_grow:
  assumes "(peer_step V (min_Protocol E))\<^sup>*\<^sup>* p p'"
  shows "prefix (pe_sent p @ concat (pe_toSend p) @ mb_msgs (pe_n p))
      (pe_sent p' @ concat (pe_toSend p') @ mb_msgs (pe_n p'))
    \<and> prefix (pe_applied p @ pe_applying p @ concat (pe_toApply p) @ pe_handoff p @ mb_executedCmds (pe_n p))
      (pe_applied p' @ pe_applying p' @ concat (pe_toApply p') @ pe_handoff p' @ mb_executedCmds (pe_n p'))"
  using min_out.peer_steps_stream [OF assms] unfolding min_out.messages.msg_stream_def min_out.commands.cmd_stream_def .


subsection \<open>The invariant of a replica\<close>

text \<open>The numbers a replica has prepared, with the hash of its command.\<close>

definition issued :: "minbft_env \<Rightarrow> minbft \<Rightarrow> (u64 \<times> bytes) set" where
  "issued E p = {(o', h). \<exists>inst c. fmlookup (mb_log p) o' = Some inst \<and> mi_prepared inst \<and> mi_command inst = Some c
     \<and> h = sbytes (Command_Hash E c)}"

lemma issued_unique: "(o', h) \<in> issued E p \<Longrightarrow> (o', h') \<in> issued E p \<Longrightarrow> h = h'"
  by (auto simp: issued_def)

text \<open>A content that a correct replica may have sent when the primary has issued \<open>IS\<close>.\<close>

definition good :: "minbft_env \<Rightarrow> u64 \<Rightarrow> (u64 \<times> bytes) set \<Rightarrow> bytes \<Rightarrow> bool" where
  "good E v IS c \<longleftrightarrow> (\<forall>m. env_unmarshalMinBFT E c = Some (MinBFTMessage_Normal m) \<longrightarrow>
     (nm_Type m = NM_Prepare \<longrightarrow> nm_View m = v \<longrightarrow> (nm_Order m, sbytes (nm_CommandHash m)) \<in> IS)
     \<and> (nm_Type m = NM_Commit \<longrightarrow> nm_Command m = None))"

text \<open>What is needed of the wire format: it keeps the type, the view, the number and the hash, and a missing command.\<close>

definition min_wire :: "minbft_env \<Rightarrow> bool" where
  "min_wire E \<longleftrightarrow> (\<forall>m m'. env_unmarshalMinBFT E (env_marshalMinBFT E (MinBFTMessage_Normal m)) = Some (MinBFTMessage_Normal m') \<longrightarrow>
     nm_Type m' = nm_Type m \<and> nm_key m' = nm_key m \<and> (nm_Command m = None \<longrightarrow> nm_Command m' = None))"

definition min_executed :: "Command list \<Rightarrow> minbft \<Rightarrow> Command list" where
  "min_executed H p = H @ map ep_Cmd (mb_executedCmds p)"

definition min_exec_ok :: "Command list \<Rightarrow> minbft \<Rightarrow> bool" where
  "min_exec_ok H p \<longleftrightarrow> mb_execute p = of_nat (length (min_executed H p) + 1)
     \<and> (\<forall>k < length (min_executed H p). \<exists>inst. fmlookup (mb_log p) (of_nat (k + 1)) = Some inst
          \<and> mi_prepared inst \<and> mi_command inst = Some (min_executed H p ! k))"

definition mi_ok :: "minbft_env \<Rightarrow> (u64 \<times> bytes) set \<Rightarrow> u64 \<Rightarrow> min_instance \<Rightarrow> bool" where
  "mi_ok E IS o' inst \<longleftrightarrow>
     (if mi_prepared inst then \<exists>c. mi_command inst = Some c \<and> (o', sbytes (Command_Hash E c)) \<in> IS
      else mi_command inst = None \<and> \<not> mi_commit inst)"

definition min_ok :: "minbft_env \<Rightarrow> u64 \<Rightarrow> Command list \<Rightarrow> (u64 \<times> bytes) set \<Rightarrow> minbft \<Rightarrow> bool" where
  "min_ok E v H IS p \<longleftrightarrow> mb_curView p = v \<and> mb_stableView p = v
     \<and> (\<forall>o' inst. fmlookup (mb_log p) o' = Some inst \<longrightarrow> mi_ok E IS o' inst \<and> o' \<le> mb_slot p)
     \<and> min_exec_ok H p \<and> (\<forall>m \<in> set (mb_msgs p). good E v IS (msg_Content m))"

lemma good_mono: "good E v IS c \<Longrightarrow> IS \<subseteq> IS' \<Longrightarrow> good E v IS' c"
  by (auto simp: good_def)

lemma mi_ok_mono: "mi_ok E IS o' inst \<Longrightarrow> IS \<subseteq> IS' \<Longrightarrow> mi_ok E IS' o' inst"
  by (auto simp: mi_ok_def split: if_splits)

lemma min_ok_mono: "min_ok E v H IS p \<Longrightarrow> IS \<subseteq> IS' \<Longrightarrow> min_ok E v H IS' p"
  unfolding min_ok_def using good_mono mi_ok_mono by blast

text \<open>What a handler does: the invariant again, and nothing issued is taken back.\<close>

definition min_step :: "minbft_env \<Rightarrow> u64 \<Rightarrow> Command list \<Rightarrow> (u64 \<times> bytes) set \<Rightarrow> minbft \<Rightarrow> minbft \<Rightarrow> bool" where
  "min_step E v H IS p p' \<longleftrightarrow> min_ok E v H IS p' \<and> mb_id p' = mb_id p \<and> mb_nodes p' = mb_nodes p
     \<and> issued E p \<subseteq> issued E p'"

lemma min_step_refl: "min_ok E v H IS p \<Longrightarrow> min_step E v H IS p p"
  by (simp add: min_step_def)

lemma min_step_trans: "min_step E v H IS p p1 \<Longrightarrow> min_step E v H IS p1 p2 \<Longrightarrow> min_step E v H IS p p2"
  by (auto simp: min_step_def)

lemma min_step_ok: "min_step E v H IS p p' \<Longrightarrow> min_ok E v H IS p'"
  by (simp add: min_step_def)

definition keeps :: "min_instance option \<Rightarrow> min_instance \<Rightarrow> bool" where
  "keeps old new \<longleftrightarrow> (\<forall>o'. old = Some o' \<longrightarrow> mi_prepared o' \<longrightarrow> mi_prepared new \<and> mi_command new = mi_command o')"

lemma min_put_sel [simp]:
  "mb_id (min_put i inst p) = mb_id p" "mb_nodes (min_put i inst p) = mb_nodes p" "mb_slot (min_put i inst p) = mb_slot p"
  "mb_log (min_put i inst p) = fmupd i inst (mb_log p)" "mb_curView (min_put i inst p) = mb_curView p"
  "mb_stableView (min_put i inst p) = mb_stableView p" "mb_msgs (min_put i inst p) = mb_msgs p"
  "mb_execute (min_put i inst p) = mb_execute p" "mb_executedCmds (min_put i inst p) = mb_executedCmds p"
  "mb_f (min_put i inst p) = mb_f p"
  by (simp_all add: min_put_def)

lemma min_put_exec_ok:
  assumes "min_exec_ok H p" "keeps (fmlookup (mb_log p) i) inst"
  shows "min_exec_ok H (min_put i inst p)"
proof -
  have "\<exists>x. fmlookup (mb_log (min_put i inst p)) (of_nat (k + 1)) = Some x \<and> mi_prepared x
      \<and> mi_command x = Some (min_executed H p ! k)" if "k < length (min_executed H p)" for k
  proof -
    from assms(1) that obtain x where "fmlookup (mb_log p) (of_nat (k + 1)) = Some x" "mi_prepared x"
      "mi_command x = Some (min_executed H p ! k)" unfolding min_exec_ok_def by blast
    with assms(2) show ?thesis by (cases "of_nat (k + 1) = i") (auto simp: keeps_def)
  qed
  with assms(1) show ?thesis by (simp add: min_exec_ok_def min_executed_def)
qed

lemma min_put_ok:
  assumes "min_ok E v H IS p" "mi_ok E IS i inst" "keeps (fmlookup (mb_log p) i) inst" "i \<le> mb_slot p"
  shows "min_step E v H IS p (min_put i inst p)"
proof -
  have "min_exec_ok H (min_put i inst p)" using assms(1,3) by (auto simp: min_ok_def intro: min_put_exec_ok)
  then have "min_ok E v H IS (min_put i inst p)" using assms by (auto simp: min_ok_def)
  moreover have "issued E p \<subseteq> issued E (min_put i inst p)" using assms(3) by (auto simp: issued_def keeps_def)
  ultimately show ?thesis by (simp add: min_step_def)
qed

text \<open>Changes outside the log.\<close>

lemma min_frame_ok:
  assumes "min_ok E v H IS p" "mb_log p' = mb_log p" "mb_execute p' = mb_execute p" "mb_executedCmds p' = mb_executedCmds p"
    "mb_curView p' = mb_curView p" "mb_stableView p' = mb_stableView p" "mb_slot p \<le> mb_slot p'"
    "mb_id p' = mb_id p" "mb_nodes p' = mb_nodes p" "\<forall>m \<in> set (mb_msgs p'). good E v IS (msg_Content m)"
  shows "min_step E v H IS p p'"
  using assms unfolding min_step_def min_ok_def min_exec_ok_def min_executed_def issued_def
  by (auto intro: order.trans)

lemma raise_slot_ok: "min_ok E v H IS p \<Longrightarrow> min_step E v H IS p (raise_slot o' p)"
  by (rule min_frame_ok) (auto simp: min_ok_def)

lemma broadcastNormal_ok:
  assumes "min_ok E v H IS p" "good E v IS (min_wrapAndMarshal E m)"
  shows "min_step E v H IS p (broadcastNormal E m p)"
proof (rule min_frame_ok [OF assms(1)])
  show "\<forall>x \<in> set (mb_msgs (broadcastNormal E m p)). good E v IS (msg_Content x)"
    using broadcastNormal_eq [of E m p] assms by (auto simp: sent_copies_def min_ok_def)
qed simp_all

lemma min_exec_round_ok:
  assumes p: "min_ok E v H IS p" and e: "fmlookup (mb_log p) (mb_execute p) = Some e" "mi_commit e" "mi_command e = Some c"
  shows "min_step E v H IS p (exec_round p e c)"
proof -
  let ?q = "min_put (mb_execute p) (e\<lparr>mi_executed := True\<rparr>) p"
  have mi: "mi_ok E IS (mb_execute p) e" "mb_execute p \<le> mb_slot p" using p e by (auto simp: min_ok_def)
  then have pr: "mi_prepared e" using e(2) by (auto simp: mi_ok_def split: if_splits)
  have q: "min_step E v H IS p ?q"
    by (rule min_put_ok [OF p]) (use mi e pr in \<open>auto simp: mi_ok_def keeps_def\<close>)
  have r: "exec_round p e c = ?q\<lparr>mb_executedCmds := mb_executedCmds p @ [mkExecPacket c], mb_execute := mb_execute p + 1\<rparr>"
    by (simp add: exec_round_def min_put_def)
  have ex: "min_executed H (exec_round p e c) = min_executed H p @ [c]" by (simp add: r min_executed_def)
  have "\<exists>x. fmlookup (mb_log (exec_round p e c)) (of_nat (k + 1)) = Some x \<and> mi_prepared x
      \<and> mi_command x = Some ((min_executed H p @ [c]) ! k)" if "k < length (min_executed H p @ [c])" for k
  proof (cases "k = length (min_executed H p)")
    case True
    then show ?thesis using p pr e by (auto simp: r min_ok_def min_exec_ok_def)
  next
    case False
    with that have k: "k < length (min_executed H p)" by simp
    have "min_exec_ok H ?q" "min_executed H ?q = min_executed H p"
      using q by (simp_all add: min_step_def min_ok_def min_executed_def)
    with k obtain x where "fmlookup (mb_log ?q) (of_nat (k + 1)) = Some x" "mi_prepared x"
      "mi_command x = Some (min_executed H p ! k)" unfolding min_exec_ok_def by metis
    moreover have "mb_log (exec_round p e c) = mb_log ?q" by (simp add: r)
    ultimately show ?thesis using k by (metis nth_append)
  qed
  then have "min_exec_ok H (exec_round p e c)"
    using p unfolding min_exec_ok_def ex by (auto simp: r min_ok_def min_exec_ok_def)
  with q show ?thesis unfolding min_step_def min_ok_def by (auto simp: r issued_def)
qed

lemma min_exec_step:
  assumes "min_ok E v H IS p" "min_exec p = Inr p'"
  shows "min_step E v H IS p p'"
  using assms(2) min_step_refl [OF assms(1)]
  by (rule min_exec_invariant [where I = "min_step E v H IS p"])
    (blast intro: min_step_trans min_exec_round_ok min_step_ok)

lemma min_tryCommit_ok:
  assumes "min_ok E v H IS p" "mi_ok E IS (nm_Order m) inst" "keeps (fmlookup (mb_log p) (nm_Order m)) inst"
    "nm_Order m \<le> mb_slot p" "min_tryCommit m inst p = Inr p'"
  shows "min_step E v H IS p p'"
proof (cases "mi_prepared inst \<and> \<not> mi_commit inst \<and> inst_Majority (mb_f p) m inst")
  case True
  let ?q = "min_put (nm_Order m) (inst\<lparr>mi_commit := True\<rparr>) p"
  have q: "min_step E v H IS p ?q"
    using assms True by (intro min_put_ok) (auto simp: mi_ok_def keeps_def)
  have "min_exec ?q = Inr p'" using assms(5) True by (simp add: min_tryCommit_def)
  from min_step_trans [OF q min_exec_step [OF min_step_ok [OF q] this]] show ?thesis .
next
  case False
  with assms show ?thesis by (auto simp: min_tryCommit_def intro: min_put_ok split: if_splits)
qed


lemma inst_log_sel:
  "inst_log i m inst = Inr inst' \<Longrightarrow> mi_prepared inst' = mi_prepared inst \<and> mi_command inst' = mi_command inst
     \<and> mi_commit inst' = mi_commit inst"
  by (auto simp: inst_log_def go_simps split: option.splits)

lemma updateCommandHash_sel:
  "min_updateCommandHash inst m = Inr inst' \<Longrightarrow> mi_prepared inst' = mi_prepared inst \<and> mi_command inst' = mi_command inst
     \<and> mi_commit inst' = mi_commit inst"
  by (auto simp: min_updateCommandHash_def split: if_splits)

lemma min_onCommit_ok:
  assumes p: "min_ok E v H IS p" and none: "nm_Command m = None" and res: "min_onCommit m from p = Inr p'"
  shows "min_step E v H IS p p'"
proof -
  let ?p1 = "raise_slot (nm_Order m) p"
  note s1 = raise_slot_ok [OF p, of "nm_Order m"]
  from res obtain inst inst1 where t: "(case fmlookup (mb_log p) (nm_Order m) of None \<Rightarrow> Inr (min_makeInstance m)
      | Some inst \<Rightarrow> min_updateCommandHash inst m) = Inr inst"
    and l: "inst_log from m inst = Inr inst1" and c: "min_tryCommit m inst1 ?p1 = Inr p'"
    by (auto simp: min_onCommit_def Let_def go_simps)
  have "mi_ok E IS (nm_Order m) inst1 \<and> keeps (fmlookup (mb_log p) (nm_Order m)) inst1"
  proof (cases "fmlookup (mb_log p) (nm_Order m)")
    case None
    with t inst_log_sel [OF l] none show ?thesis by (auto simp: mi_ok_def keeps_def min_makeInstance_def)
  next
    case (Some x)
    with t have "min_updateCommandHash x m = Inr inst" by simp
    from updateCommandHash_sel [OF this] inst_log_sel [OF l] p Some show ?thesis
      by (auto simp: mi_ok_def keeps_def min_ok_def)
  qed
  then have "min_step E v H IS ?p1 p'"
    by (intro min_tryCommit_ok [OF min_step_ok [OF s1] _ _ _ c]) simp_all
  with s1 show ?thesis by (rule min_step_trans)
qed

text \<open>The instance of \<open>onPrepare\<close>: an unprepared one takes the command of the message, a prepared one keeps its own.\<close>

lemma prepare_instance:
  assumes p: "min_ok E v H IS p" and c: "nm_Command m = Some c" "(nm_Order m, sbytes (Command_Hash E c)) \<in> IS"
    and t: "(case fmlookup (mb_log p) (nm_Order m) of None \<Rightarrow> Inr (min_makeInstance m)
      | Some inst \<Rightarrow> go_bind (min_updateCommand inst m) (\<lambda>inst'. min_updateCommandHash inst' m)) = Inr inst"
    and new: "mi_prepared new" "mi_command new = mi_command inst"
  shows "mi_ok E IS (nm_Order m) new \<and> keeps (fmlookup (mb_log p) (nm_Order m)) new"
proof (cases "fmlookup (mb_log p) (nm_Order m)")
  case None
  with t c new show ?thesis by (auto simp: mi_ok_def keeps_def min_makeInstance_def)
next
  case (Some x)
  have x: "mi_ok E IS (nm_Order m) x" using p Some by (auto simp: min_ok_def)
  from Some t obtain y where y: "min_updateCommand x m = Inr y" "min_updateCommandHash y m = Inr inst"
    by (auto simp: go_simps)
  have "mi_command inst = mi_command y" using updateCommandHash_sel [OF y(2)] by simp
  moreover have "mi_command y = (if mi_command x = None then Some c else mi_command x)"
    using y(1) c by (auto simp: min_updateCommand_def go_simps split: if_splits)
  ultimately show ?thesis using x c new Some by (auto simp: mi_ok_def keeps_def split: if_splits)
qed

lemma min_onPrepare_ok:
  assumes p: "min_ok E v H IS p" and E: "min_wire E" and m: "nm_View m = v" "(nm_Order m, sbytes (nm_CommandHash m)) \<in> IS"
    and res: "min_onPrepare E m from p = Inr p'"
  shows "min_step E v H IS p p'"
proof -
  let ?p1 = "raise_slot (nm_Order m) p"
  let ?cm = "\<lparr>nm_Type = NM_Commit, nm_View = nm_View m, nm_Order = nm_Order m, nm_Command = None,
    nm_CommandHash = nm_CommandHash m\<rparr>"
  note s1 = raise_slot_ok [OF p, of "nm_Order m"]
  have cur: "mb_curView p = v" using p by (simp add: min_ok_def)
  from res m cur obtain inst inst1 inst3
    where chk: "min_checkCommandHash E (nm_Command m) (nm_CommandHash m) = Inr True"
      and t: "(case fmlookup (mb_log p) (nm_Order m) of None \<Rightarrow> Inr (min_makeInstance m)
      | Some inst \<Rightarrow> go_bind (min_updateCommand inst m) (\<lambda>inst'. min_updateCommandHash inst' m)) = Inr inst"
    and l1: "inst_log from m inst = Inr inst1" and l3: "inst_log (mb_id p) ?cm (inst1\<lparr>mi_prepared := True\<rparr>) = Inr inst3"
    and c: "min_tryCommit m inst3 (broadcastNormal E ?cm ?p1) = Inr p'"
    by (auto simp: min_onPrepare_def Let_def go_simps split: if_splits)
  from chk m obtain c where c0: "nm_Command m = Some c" "(nm_Order m, sbytes (Command_Hash E c)) \<in> IS"
    by (auto simp: min_checkCommandHash_def go_simps Hash_ptr_Inr bytes_Equal_def)
  have i3: "mi_prepared inst3" "mi_command inst3 = mi_command inst" using inst_log_sel [OF l1] inst_log_sel [OF l3] by auto
  have "good E v IS (min_wrapAndMarshal E ?cm)"
    using E by (fastforce simp: good_def min_wire_def min_wrapAndMarshal_def)
  note s2 = broadcastNormal_ok [OF min_step_ok [OF s1] this]
  have "nm_Order m \<le> mb_slot (broadcastNormal E ?cm ?p1)" by simp
  with prepare_instance [OF p c0 t i3] have "min_step E v H IS (broadcastNormal E ?cm ?p1) p'"
    by (intro min_tryCommit_ok [OF min_step_ok [OF s2] _ _ _ c]) simp_all
  with s1 s2 show ?thesis by (blast intro: min_step_trans)
qed

lemma min_Step_ok:
  assumes p: "min_ok E v H IS p" and E: "min_wire E" and g: "good E v IS (msg_Content mm)" and res: "min_Step E mm p = Inr p'"
  shows "min_step E v H IS p p'"
proof -
  from res obtain m where m: "env_unmarshalMinBFT E (msg_Content mm) = Some (MinBFTMessage_Normal m)"
    and st: "stepNormal E m (env_sha256 E (msg_Content mm)) (msg_Certificate mm) (msg_From mm) p = Inr p'"
    by (auto simp: min_Step_def split: option.splits MinBFTMessage.splits)
  have cur: "mb_curView p = v" "mb_stableView p = v" using p by (auto simp: min_ok_def)
  show ?thesis
  proof (cases "p' = p")
    case False
    with st cur have "nm_View m = v" and "nm_Type m = NM_Prepare \<and> min_onPrepare E m (msg_From mm) p = Inr p'
        \<or> nm_Type m = NM_Commit \<and> min_onCommit m (msg_From mm) p = Inr p'"
      by (auto simp: stepNormal_def Let_def go_simps split: if_splits NormalMessage_Type.splits)
    with g m min_onPrepare_ok [OF p E] min_onCommit_ok [OF p] show ?thesis by (auto simp: good_def)
  qed (use p in \<open>simp add: min_step_refl\<close>)
qed

text \<open>A request issues a new number: the invariant holds with what the primary has issued then.\<close>

lemma min_onRequest_ok:
  assumes p: "min_ok E v H IS p" and E: "min_wire E" and slot: "mb_slot p \<noteq> -1" and res: "min_onRequest E cmd p = Inr p'"
  shows "go_umod v (length (mb_nodes p)) = Inr (mb_id p) \<and> min_step E v H (IS \<union> issued E p') p p'"
proof -
  let ?i = "mb_slot p + 1"
  let ?pr = "\<lparr>nm_Type = NM_Prepare, nm_View = v, nm_Order = ?i, nm_Command = Some cmd, nm_CommandHash = Command_Hash E cmd\<rparr>"
  have cur: "mb_curView p = v" "mb_stableView p = v" using p by (auto simp: min_ok_def)
  from res cur obtain inst1 where lead: "go_umod v (length (mb_nodes p)) = Inr (mb_id p)"
    and l1: "mi_command inst1 = Some cmd" "\<not> mi_commit inst1"
    and p': "p' = broadcastNormal E ?pr (min_put ?i (inst1\<lparr>mi_prepared := True\<rparr>) (p\<lparr>mb_slot := ?i\<rparr>))"
    by (auto simp: min_onRequest_def Let_def go_simps split: if_splits dest!: inst_log_sel)
  let ?inst = "inst1\<lparr>mi_prepared := True\<rparr>"
  have l: "mi_prepared ?inst" "mi_command ?inst = Some cmd" "\<not> mi_commit ?inst" using l1 by simp_all
  let ?p0 = "p\<lparr>mb_slot := ?i\<rparr>" and ?IS = "IS \<union> issued E p'"
  have gt: "mb_slot p < ?i" using slot by (rule word_less_plus1)
  have new: "(?i, sbytes (Command_Hash E cmd)) \<in> issued E p'" using l by (auto simp: p' issued_def)
  note p1 = min_ok_mono [OF p, of ?IS]
  have s0: "min_step E v H ?IS p ?p0" by (rule min_frame_ok) (use p1 gt in \<open>auto simp: min_ok_def\<close>)
  have "fmlookup (mb_log p) ?i = None" using p gt unfolding min_ok_def by (meson leD option.exhaust)
  then have s1: "min_step E v H ?IS ?p0 (min_put ?i ?inst ?p0)"
    by (intro min_put_ok [OF min_step_ok [OF s0]]) (use l new in \<open>auto simp: mi_ok_def keeps_def\<close>)
  have "good E v ?IS (min_wrapAndMarshal E ?pr)"
    using E new by (fastforce simp: good_def min_wire_def min_wrapAndMarshal_def nm_key_def)
  from broadcastNormal_ok [OF min_step_ok [OF s1] this] s0 s1 lead show ?thesis
    unfolding p' by (blast intro: min_step_trans)
qed


subsection \<open>The cluster\<close>

record min_cfg =
  mc_env :: minbft_env
  mc_nodes :: "PeerID list"
  mc_byz :: "PeerID list"
  mc_f :: int
  mc_view :: u64

record min_sys =
  ms_reps :: "(PeerID, minbft) fmap"
  ms_halted :: "PeerID list"
  ms_net :: "Message list"
  ms_hist :: "(PeerID, Command list) fmap"

definition min_config :: "min_cfg \<Rightarrow> PeerID \<Rightarrow> LocalConfig" where
  "min_config C r = \<lparr>cfg_ID = r, cfg_Peers = mc_nodes C, cfg_LeaderID = mc_view C, cfg_MaxFailures = mc_f C,
     cfg_Workers = fmempty, cfg_WorkersQueueSizes = fmempty\<rparr>"

definition min_init :: "min_cfg \<Rightarrow> min_sys" where
  "min_init C = \<lparr>ms_reps = fmap_of_list (map (\<lambda>r. (r, NewMinBFT (min_config C r)))
      (filter (\<lambda>r. r \<notin> set (mc_byz C)) (mc_nodes C))), ms_halted = [], ms_net = [], ms_hist = fmempty\<rparr>"

definition min_hist :: "min_sys \<Rightarrow> PeerID \<Rightarrow> Command list" where
  "min_hist s r = (case fmlookup (ms_hist s) r of None \<Rightarrow> [] | Some l \<Rightarrow> l)"

datatype min_act =
    MDeliver Message | MSubmit PeerID Command | MSend PeerID | MApply PeerID | MTick PeerID | MCrash PeerID | MByz Message

definition min_on :: "PeerID \<Rightarrow> (minbft \<Rightarrow> minbft go) \<Rightarrow> min_sys \<Rightarrow> min_sys option" where
  "min_on r g s =
     (case fmlookup (ms_reps s) r of
        None \<Rightarrow> None
      | Some p \<Rightarrow> (if r \<in> set (ms_halted s) then None
          else case g p of
            Inl _ \<Rightarrow> Some (s\<lparr>ms_halted := r # ms_halted s\<rparr>)
          | Inr p' \<Rightarrow> Some (s\<lparr>ms_reps := fmupd r p' (ms_reps s)\<rparr>)))"

fun min_do :: "min_cfg \<Rightarrow> min_act \<Rightarrow> min_sys \<Rightarrow> min_sys option" where
  "min_do C (MDeliver m) s =
     (if m \<in> set (ms_net s) then min_on (msg_To m) (min_Step (mc_env C) m) s else None)"
| "min_do C (MSubmit r cmd) s =
     (case fmlookup (ms_reps s) r of
        None \<Rightarrow> None
      | Some p \<Rightarrow> if mb_slot p = -1 then None else min_on r (min_Request (mc_env C) cmd) s)"
| "min_do C (MSend r) s =
     (case fmlookup (ms_reps s) r of
        None \<Rightarrow> None
      | Some p \<Rightarrow> (if r \<in> set (ms_halted s) then None
          else Some (s\<lparr>ms_reps := fmupd r (min_ClearMsgs p) (ms_reps s),
                       ms_net := ms_net s @ rd_Messages (min_MakeReady p)\<rparr>)))"
| "min_do C (MApply r) s =
     (case fmlookup (ms_reps s) r of
        None \<Rightarrow> None
      | Some p \<Rightarrow> (if r \<in> set (ms_halted s) then None
          else Some (s\<lparr>ms_reps := fmupd r (min_ClearExecutedCommands p) (ms_reps s),
                       ms_hist := fmupd r (min_hist s r @ map ep_Cmd (rd_OrderedCommands (min_MakeReady p)))
                                    (ms_hist s)\<rparr>)))"
| "min_do C (MTick r) s = min_on r min_Tick s"
| "min_do C (MCrash r) s = Some (s\<lparr>ms_halted := r # ms_halted s\<rparr>)"
| "min_do C (MByz m) s = (if msg_From m \<in> set (mc_byz C) then Some (s\<lparr>ms_net := ms_net s @ [m]\<rparr>) else None)"

fun min_run :: "min_cfg \<Rightarrow> min_act list \<Rightarrow> min_sys \<Rightarrow> min_sys option" where
  "min_run C [] s = Some s"
| "min_run C (a # as) s = (case min_do C a s of None \<Rightarrow> None | Some s' \<Rightarrow> min_run C as s')"

inductive min_reachable :: "min_cfg \<Rightarrow> min_sys \<Rightarrow> bool" for C where
  min_start: "min_reachable C (min_init C)"
| min_action: "min_reachable C s \<Longrightarrow> min_do C a s = Some s' \<Longrightarrow> min_reachable C s'"

lemma min_run_reachable: "min_run C as s = Some s' \<Longrightarrow> min_reachable C s \<Longrightarrow> min_reachable C s'"
  by (induction as arbitrary: s) (auto split: option.splits intro: min_action)

definition sys_min_executed :: "min_sys \<Rightarrow> PeerID \<Rightarrow> Command list" where
  "sys_min_executed s r = (case fmlookup (ms_reps s) r of None \<Rightarrow> [] | Some p \<Rightarrow> min_executed (min_hist s r) p)"

text \<open>What the primary has issued, and the invariant of the cluster.\<close>

definition primary :: "min_cfg \<Rightarrow> PeerID" where
  "primary C = mc_view C mod of_nat (length (mc_nodes C))"

definition sys_issued :: "min_cfg \<Rightarrow> min_sys \<Rightarrow> (u64 \<times> bytes) set" where
  "sys_issued C s = (case fmlookup (ms_reps s) (primary C) of None \<Rightarrow> {} | Some q \<Rightarrow> issued (mc_env C) q)"

definition min_sys_ok :: "min_cfg \<Rightarrow> min_sys \<Rightarrow> bool" where
  "min_sys_ok C s \<longleftrightarrow>
     (\<forall>r p. fmlookup (ms_reps s) r = Some p \<longrightarrow> mb_id p = r \<and> mb_nodes p = mc_nodes C
        \<and> min_ok (mc_env C) (mc_view C) (min_hist s r) (sys_issued C s) p)
     \<and> (\<forall>m \<in> set (ms_net s). good (mc_env C) (mc_view C) (sys_issued C s) (msg_Content m))"

text \<open>One replica moves; \<open>IS\<close> is what the primary has issued then.\<close>

lemma min_sys_step:
  assumes s: "min_sys_ok C s" and look: "fmlookup (ms_reps s) r = Some p"
    and st: "min_step (mc_env C) (mc_view C) H' (sys_issued C s \<union> X) p p'"
    and X: "X \<subseteq> (if r = primary C then issued (mc_env C) p' else {})"
    and s': "ms_reps s' = fmupd r p' (ms_reps s)" "min_hist s' r = H'" "\<And>r'. r' \<noteq> r \<Longrightarrow> min_hist s' r' = min_hist s r'"
    and net: "\<And>m. m \<in> set (ms_net s') \<Longrightarrow> m \<in> set (ms_net s) \<or> m \<in> set (mb_msgs p)"
  shows "min_sys_ok C s'"
proof -
  let ?E = "mc_env C" and ?v = "mc_view C"
  have sub: "sys_issued C s \<union> X \<subseteq> sys_issued C s'"
    using st X look s'(1) by (auto simp: sys_issued_def min_step_def split: if_splits option.splits)
  have p: "mb_id p = r" "mb_nodes p = mc_nodes C" "min_ok ?E ?v (min_hist s r) (sys_issued C s) p"
    using s look by (auto simp: min_sys_ok_def)
  have "mb_id q = r' \<and> mb_nodes q = mc_nodes C \<and> min_ok ?E ?v (min_hist s' r') (sys_issued C s') q"
    if "fmlookup (ms_reps s') r' = Some q" for r' q
  proof (cases "r' = r")
    case True
    with that st p s' min_ok_mono [OF _ sub] show ?thesis by (auto simp: min_step_def)
  next
    case False
    with that s s' have "mb_id q = r'" "mb_nodes q = mc_nodes C" "min_ok ?E ?v (min_hist s' r') (sys_issued C s) q"
      by (auto simp: min_sys_ok_def)
    with min_ok_mono sub show ?thesis by blast
  qed
  moreover have "good ?E ?v (sys_issued C s') (msg_Content m)" if "m \<in> set (ms_net s')" for m
  proof -
    have "good ?E ?v (sys_issued C s) (msg_Content m)"
      using net [OF that] s p(3) by (auto simp: min_sys_ok_def min_ok_def)
    with good_mono sub show ?thesis by blast
  qed
  ultimately show ?thesis by (simp add: min_sys_ok_def)
qed

lemma min_on_ok:
  assumes s: "min_sys_ok C s" and res: "min_on r g s = Some s'"
    and g: "\<And>p p'. fmlookup (ms_reps s) r = Some p \<Longrightarrow> mb_id p = r \<Longrightarrow> mb_nodes p = mc_nodes C \<Longrightarrow>
        min_ok (mc_env C) (mc_view C) (min_hist s r) (sys_issued C s) p \<Longrightarrow> g p = Inr p' \<Longrightarrow>
        \<exists>X \<subseteq> (if r = primary C then issued (mc_env C) p' else {}).
          min_step (mc_env C) (mc_view C) (min_hist s r) (sys_issued C s \<union> X) p p'"
  shows "min_sys_ok C s'"
proof -
  from res obtain p where p: "fmlookup (ms_reps s) r = Some p" by (auto simp: min_on_def split: option.splits)
  show ?thesis
  proof (cases "g p")
    case (Inl e)
    with res p have "s' = s\<lparr>ms_halted := r # ms_halted s\<rparr>" by (auto simp: min_on_def split: if_splits)
    with s show ?thesis by (simp add: min_sys_ok_def sys_issued_def min_hist_def)
  next
    case (Inr p')
    with res p have s': "s' = s\<lparr>ms_reps := fmupd r p' (ms_reps s)\<rparr>" by (auto simp: min_on_def split: if_splits)
    from s p have "mb_id p = r" "mb_nodes p = mc_nodes C"
      "min_ok (mc_env C) (mc_view C) (min_hist s r) (sys_issued C s) p" by (auto simp: min_sys_ok_def)
    from g [OF p this Inr] obtain X where X: "X \<subseteq> (if r = primary C then issued (mc_env C) p' else {})"
      "min_step (mc_env C) (mc_view C) (min_hist s r) (sys_issued C s \<union> X) p p'" by blast
    show ?thesis by (rule min_sys_step [OF s p X(2,1)]) (use s' in \<open>auto simp: min_hist_def\<close>)
  qed
qed


lemma min_frame_clear:
  assumes "min_ok E v H IS p"
  shows "min_step E v H (IS \<union> {}) p (min_ClearMsgs p)"
    and "min_step E v (min_executed H p) (IS \<union> {}) p (min_ClearExecutedCommands p)"
proof -
  show "min_step E v H (IS \<union> {}) p (min_ClearMsgs p)"
    by (rule min_frame_ok) (use assms in \<open>auto simp: min_ClearMsgs_def\<close>)
  have "min_executed (min_executed H p) (min_ClearExecutedCommands p) = min_executed H p"
    by (simp add: min_executed_def min_ClearExecutedCommands_def)
  then have "min_exec_ok (min_executed H p) (min_ClearExecutedCommands p) = min_exec_ok H p"
    by (simp add: min_exec_ok_def) (simp add: min_ClearExecutedCommands_def)
  with assms show "min_step E v (min_executed H p) (IS \<union> {}) p (min_ClearExecutedCommands p)"
    by (auto simp: min_step_def min_ok_def issued_def) (auto simp: min_ClearExecutedCommands_def)
qed

definition min_cfg_ok :: "min_cfg \<Rightarrow> bool" where
  "min_cfg_ok C \<longleftrightarrow> mc_byz C = [] \<and> mc_nodes C \<noteq> [] \<and> min_wire (mc_env C)"

lemma min_do_ok:
  assumes C: "min_cfg_ok C" and s: "min_sys_ok C s" and res: "min_do C a s = Some s'"
  shows "min_sys_ok C s'"
proof (cases a)
  case (MDeliver m)
  then have m: "m \<in> set (ms_net s)" and on: "min_on (msg_To m) (min_Step (mc_env C) m) s = Some s'"
    using res by (auto split: if_splits)
  have g: "good (mc_env C) (mc_view C) (sys_issued C s) (msg_Content m)" using s m by (simp add: min_sys_ok_def)
  have w: "min_wire (mc_env C)" using C by (simp add: min_cfg_ok_def)
  show ?thesis by (rule min_on_ok [OF s on]) (use min_Step_ok [OF _ w g] in \<open>auto intro!: exI [of _ "{}"]\<close>)
next
  case (MSubmit r cmd)
  then obtain q where q: "fmlookup (ms_reps s) r = Some q" "mb_slot q \<noteq> -1"
    and on: "min_on r (min_Request (mc_env C) cmd) s = Some s'" using res by (auto split: option.splits if_splits)
  have w: "min_wire (mc_env C)" using C by (simp add: min_cfg_ok_def)
  show ?thesis
  proof (rule min_on_ok [OF s on])
    fix p p' assume p: "fmlookup (ms_reps s) r = Some p" "mb_id p = r" "mb_nodes p = mc_nodes C"
      "min_ok (mc_env C) (mc_view C) (min_hist s r) (sys_issued C s) p" "min_Request (mc_env C) cmd p = Inr p'"
    with q have "mb_slot p \<noteq> -1" by simp
    from min_onRequest_ok [OF p(4) w this p(5) [unfolded min_Request_def]] p C
    show "\<exists>X \<subseteq> (if r = primary C then issued (mc_env C) p' else {}).
        min_step (mc_env C) (mc_view C) (min_hist s r) (sys_issued C s \<union> X) p p'"
      by (intro exI [of _ "issued (mc_env C) p'"]) (auto simp: primary_def go_umod_def min_cfg_ok_def)
  qed
next
  case (MSend r)
  with res obtain p where p: "fmlookup (ms_reps s) r = Some p"
    and s': "s' = s\<lparr>ms_reps := fmupd r (min_ClearMsgs p) (ms_reps s), ms_net := ms_net s @ mb_msgs p\<rparr>"
    by (auto simp: min_MakeReady_def split: option.splits if_splits)
  have "min_ok (mc_env C) (mc_view C) (min_hist s r) (sys_issued C s) p" using s p by (simp add: min_sys_ok_def)
  note st = min_frame_clear(1) [OF this]
  show ?thesis by (rule min_sys_step [OF s p st]) (use s' in \<open>auto simp: min_hist_def\<close>)
next
  case (MApply r)
  with res obtain p where p: "fmlookup (ms_reps s) r = Some p"
    and s': "s' = s\<lparr>ms_reps := fmupd r (min_ClearExecutedCommands p) (ms_reps s),
        ms_hist := fmupd r (min_executed (min_hist s r) p) (ms_hist s)\<rparr>"
    by (auto simp: min_MakeReady_def min_executed_def split: option.splits if_splits)
  have "min_ok (mc_env C) (mc_view C) (min_hist s r) (sys_issued C s) p" using s p by (simp add: min_sys_ok_def)
  note st = min_frame_clear(2) [OF this]
  show ?thesis by (rule min_sys_step [OF s p st]) (use s' in \<open>auto simp: min_hist_def\<close>)
next
  case (MTick r)
  have tick: "min_step E v H (IS \<union> {}) p p'" if "min_ok E v H IS p" "min_Tick p = Inr p'" for E v H IS p p'
    by (rule min_frame_ok) (use that in \<open>auto simp: min_Tick_def min_ok_def\<close>)
  from MTick res have "min_on r min_Tick s = Some s'" by simp
  then show ?thesis by (rule min_on_ok [OF s]) (use tick in blast)
next
  case (MCrash r)
  with res s show ?thesis by (auto simp: min_sys_ok_def sys_issued_def min_hist_def)
next
  case (MByz m)
  with res C show ?thesis by (simp add: min_cfg_ok_def)
qed

lemma min_init_ok: "min_sys_ok C (min_init C)"
proof -
  have "p = NewMinBFT (min_config C r)" if "fmlookup (ms_reps (min_init C)) r = Some p" for r p
    using that by (auto simp: min_init_def fmlookup_of_list dest: map_of_SomeD)
  moreover have "min_ok E v [] IS (NewMinBFT (min_config C r))" if "v = mc_view C" for E v IS r
    using that by (auto simp: min_ok_def NewMinBFT_def min_config_def mi_ok_def min_zero_instance_def min_exec_ok_def
        min_executed_def split: if_splits)
  moreover have "min_hist (min_init C) r = []" "ms_net (min_init C) = []" for r
    by (simp_all add: min_hist_def min_init_def)
  moreover have "mb_id (NewMinBFT (min_config C r)) = r" "mb_nodes (NewMinBFT (min_config C r)) = mc_nodes C" for r
    by (simp_all add: NewMinBFT_def min_config_def)
  ultimately show ?thesis unfolding min_sys_ok_def by (metis empty_iff empty_set)
qed

lemma min_reachable_ok:
  assumes "min_cfg_ok C" "min_reachable C s"
  shows "min_sys_ok C s"
  using assms(2)
proof induction
  case min_start
  show ?case by (rule min_init_ok)
next
  case (min_action s a s')
  with assms(1) show ?case by (blast intro: min_do_ok)
qed

text \<open>
  Claim C4. Total order under crashes. In every reachable state of a MinBFT cluster whose replicas run the code or have
  crashed, the \<open>k\<close>-th commands executed by any two replicas have the same hash.
\<close>

theorem minbft_total_order_crash:
  assumes "min_cfg_ok C" "min_reachable C s" "k < length (sys_min_executed s r1)" "k < length (sys_min_executed s r2)"
  shows "sbytes (Command_Hash (mc_env C) (sys_min_executed s r1 ! k)) = sbytes (Command_Hash (mc_env C) (sys_min_executed s r2 ! k))"
proof -
  note ok = min_reachable_ok [OF assms(1,2)]
  have "(of_nat (k + 1), sbytes (Command_Hash (mc_env C) (sys_min_executed s r ! k))) \<in> sys_issued C s"
    if k: "k < length (sys_min_executed s r)" for r
  proof -
    from k obtain p where p: "fmlookup (ms_reps s) r = Some p" and e: "sys_min_executed s r = min_executed (min_hist s r) p"
      by (auto simp: sys_min_executed_def split: option.splits)
    have m: "min_ok (mc_env C) (mc_view C) (min_hist s r) (sys_issued C s) p" using ok p by (simp add: min_sys_ok_def)
    then obtain inst where i: "fmlookup (mb_log p) (of_nat (k + 1)) = Some inst" "mi_prepared inst"
      "mi_command inst = Some (sys_min_executed s r ! k)"
      using k unfolding min_ok_def min_exec_ok_def e by blast
    from m i(1) have "mi_ok (mc_env C) (sys_issued C s) (of_nat (k + 1)) inst" by (auto simp: min_ok_def)
    with i show ?thesis by (auto simp: mi_ok_def)
  qed
  note iss = this [OF assms(3)] this [OF assms(4)]
  then show ?thesis by (cases "fmlookup (ms_reps s) (primary C)") (auto simp: sys_issued_def dest: issued_unique)
qed

subsection \<open>Concrete clusters\<close>

text \<open>
  Two commands, the prepares and commits of number 1 for them, a wire format for these four messages and an enclave
  whose MAC is the digest with the counter.
\<close>

definition min_cmdA :: Command where
  "min_cmdA = \<lparr>cmd_Timestamp = 7, cmd_Ops = [], cmd_Target = 0, cmd_Meta = [], cmd_ConflictKey = [], cmd_TraceInfo = fmempty\<rparr>"

definition min_cmdB :: Command where
  "min_cmdB = \<lparr>cmd_Timestamp = 8, cmd_Ops = [], cmd_Target = 0, cmd_Meta = [], cmd_ConflictKey = [], cmd_TraceInfo = fmempty\<rparr>"

definition ex_min_prepare :: "Command \<Rightarrow> NormalMessage" where
  "ex_min_prepare c = \<lparr>nm_Type = NM_Prepare, nm_View = 0, nm_Order = 1, nm_Command = Some c,
     nm_CommandHash = Some [1, ucast (cmd_Timestamp c)]\<rparr>"

definition ex_min_commit :: "Command \<Rightarrow> NormalMessage" where
  "ex_min_commit c = (ex_min_prepare c)\<lparr>nm_Type := NM_Commit, nm_Command := None\<rparr>"

definition ex_min_marshal :: "MinBFTMessage \<Rightarrow> bytes" where
  "ex_min_marshal mm = (case mm of MinBFTMessage_Normal m \<Rightarrow>
       if m = ex_min_prepare min_cmdA then [1] else if m = ex_min_commit min_cmdA then [2]
       else if m = ex_min_prepare min_cmdB then [3] else if m = ex_min_commit min_cmdB then [4] else []
     | MinBFTMessage_Unset \<Rightarrow> [])"

definition ex_min_unmarshal :: "bytes \<Rightarrow> MinBFTMessage option" where
  "ex_min_unmarshal b = map_option MinBFTMessage_Normal
     (if b = [1] then Some (ex_min_prepare min_cmdA) else if b = [2] then Some (ex_min_commit min_cmdA)
      else if b = [3] then Some (ex_min_prepare min_cmdB) else if b = [4] then Some (ex_min_commit min_cmdB) else None)"

definition ex_min_env :: minbft_env where
  "ex_min_env = \<lparr>env_sha256 = (\<lambda>b. 1 # b), env_marshalCommand = (\<lambda>c. Some [ucast (cmd_Timestamp c)]),
     env_createSignedCertificate = (\<lambda>_. []), env_verifyCertificate = (\<lambda>_ _. True), env_rangeOrder = (\<lambda>ks. ks),
     env_marshalMinBFT = ex_min_marshal, env_unmarshalMinBFT = ex_min_unmarshal,
     env_CreateUIMac = (\<lambda>h c. h @ le_bytes c), env_VerifyUIMac = (\<lambda>h mac c. Inr (mac = h @ le_bytes c))\<rparr>"

definition ex_min_cfg :: "PeerID list \<Rightarrow> min_cfg" where
  "ex_min_cfg byz = \<lparr>mc_env = ex_min_env, mc_nodes = [0, 1, 2], mc_byz = byz, mc_f = 1, mc_view = 0\<rparr>"

lemma ex_min_cfg_ok: "min_cfg_ok (ex_min_cfg [])"
  by (auto simp: min_cfg_ok_def ex_min_cfg_def min_wire_def ex_min_env_def ex_min_marshal_def ex_min_unmarshal_def
      split: if_splits)

text \<open>Content \<open>b\<close>, certified with counter \<open>c\<close>.\<close>

definition ex_min_msg :: "bytes \<Rightarrow> u64 \<Rightarrow> PeerID \<Rightarrow> PeerID \<Rightarrow> Message" where
  "ex_min_msg b c from to = \<lparr>msg_From = from, msg_To = to, msg_Content = b,
     msg_Certificate = env_CreateUIMac ex_min_env (env_sha256 ex_min_env b) c @ le_bytes c\<rparr>"

definition ex_min_acts :: "min_act list" where
  "ex_min_acts = [MSubmit 0 min_cmdA, MSend 0, MDeliver (ex_min_msg [1] 1 0 1), MApply 1, MSend 1,
     MDeliver (ex_min_msg [2] 1 1 0), MCrash 1, MDeliver (ex_min_msg [1] 1 0 2)]"

definition ex_min_byz_acts :: "min_act list" where
  "ex_min_byz_acts = [MByz (ex_min_msg [1] 1 0 1), MByz (ex_min_msg [3] 2 0 2),
     MDeliver (ex_min_msg [1] 1 0 1), MDeliver (ex_min_msg [3] 2 0 2)]"

lemma ex_min_run:
  "map_option (\<lambda>s. map (sys_min_executed s) [0, 1, 2]) (min_run (ex_min_cfg []) ex_min_acts (min_init (ex_min_cfg [])))
     = Some [[min_cmdA], [min_cmdA], [min_cmdA]]"
  by code_simp

lemma ex_min_byz_run:
  "map_option (\<lambda>s. map (sys_min_executed s) [1, 2]) (min_run (ex_min_cfg [0]) ex_min_byz_acts (min_init (ex_min_cfg [0])))
     = Some [[min_cmdA], [min_cmdB]]"
  by code_simp

theorem minbft_total_order_crash_witness:
  "\<exists>s. min_reachable (ex_min_cfg []) s \<and> length (sys_min_executed s 0) = 1 \<and> length (sys_min_executed s 2) = 1
     \<and> sbytes (Command_Hash ex_min_env (sys_min_executed s 0 ! 0)) = sbytes (Command_Hash ex_min_env (sys_min_executed s 2 ! 0))"
proof -
  from ex_min_run obtain s where run: "min_run (ex_min_cfg []) ex_min_acts (min_init (ex_min_cfg [])) = Some s"
    and ex: "sys_min_executed s 0 = [min_cmdA]" "sys_min_executed s 2 = [min_cmdA]" by auto
  note s = min_run_reachable [OF run min_start]
  from minbft_total_order_crash [OF ex_min_cfg_ok s, of 0 0 2] ex s show ?thesis
    by (intro exI [of _ s]) (simp add: ex_min_cfg_def)
qed


theorem minbft_peer_streams_grow_witness:
  "\<exists>p p'. (peer_step ex_peer_env (min_Protocol ex_min_env))\<^sup>*\<^sup>* p p' \<and> mb_msgs (pe_n p) = [ex_min_msg [1] 1 0 1]
     \<and> pe_sent p' = [ex_min_msg [1] 1 0 1]
     \<and> prefix (pe_sent p @ concat (pe_toSend p) @ mb_msgs (pe_n p)) (pe_sent p' @ concat (pe_toSend p') @ mb_msgs (pe_n p'))"
proof -
  let ?S = "peer_step ex_peer_env (min_Protocol ex_min_env)" and ?m = "ex_min_msg [1] 1 0 1"
  let ?r = "(NewMinBFT (min_config (ex_min_cfg []) 0))\<lparr>mb_msgs := [?m]\<rparr>"
  let ?p = "(Peer_New 0 [0, 1, 2] 1 ?r)\<lparr>pe_sig := True\<rparr>"
  let ?q = "?p\<lparr>pe_sig := False, pe_toSend := [[?m]], pe_n := ?r\<lparr>mb_msgs := []\<rparr>\<rparr>"
  have "Peer_round (min_Protocol ex_min_env) ?p = Inr ?q"
    by (simp add: Peer_round_def Let_def Peer_New_def flushMsgs_def min_Protocol_def min_AsyncCallback_def
        Peer_rb_flush_def reqBuf_flush_def reqBuf_init_def flushCmds_def RunOnce_def trySendMessages_def min_MakeReady_def
        min_ClearMsgs_def min_ClearExecutedCommands_def NewMinBFT_def)
  then have "?S ?p ?q" by (rule peer_step.round [rotated 3]) (simp_all add: Peer_New_def)
  moreover have "?S ?q (sendMessages [?m] (?q\<lparr>pe_toSend := []\<rparr>))" by (rule peer_step.send) simp
  ultimately have *: "?S\<^sup>*\<^sup>* ?p (sendMessages [?m] (?q\<lparr>pe_toSend := []\<rparr>))" by simp
  have "pe_sent (sendMessages [?m] (?q\<lparr>pe_toSend := []\<rparr>)) = [?m]" by (simp add: sendMessages_def Peer_New_def)
  moreover have "mb_msgs (pe_n ?p) = [?m]" by (simp add: Peer_New_def)
  ultimately show ?thesis using * minbft_peer_streams_grow [OF *] by blast
qed

end
