(* ===== verification/HotStuff.thy ===== *)
theory HotStuff
  imports Peer
begin

text \<open>
  The chained HotStuff replica of \<open>protocols/chainhotstuff\<close>: its messages (\<open>chainhotstuffpb\<close>), the signer
  (\<open>signer.go\<close>), the pacemaker (\<open>pacemaker.go\<close>), the handlers (\<open>block.go\<close>, \<open>newview.go\<close>, \<open>request.go\<close>) and the
  entry points (\<open>chainhotstuff.go\<close>).

  A \<open>block\<close> is its \<open>BlockState\<close>: the other field caches the hash. The generated encoders, which do not fail,
  SHA-512 and the ed25519 library are parameters. Certificates and votes are verified in the worker pool: a job names
  the call of \<open>Exec\<close> with what its closures capture, and its result is the value of \<open>execFunc\<close>. When
  \<open>execFunc\<close> panics the process ends; here it ends when the callback would run.
\<close>

subsection \<open>Messages (\<open>chainhotstuffpb\<close>)\<close>

record Signature =
  sg_Sig :: slice
  sg_Signer :: PeerID

text \<open>A signature of the map is nil when its entry on the wire has no value.\<close>

record QuorumCert =
  qc_Sigs :: "(PeerID, Signature option) fmap"
  qc_BlockHash :: slice

record BlockState =
  bs_Parent :: slice
  bs_Command :: "Command option"
  bs_Height :: u64
  bs_QC :: "QuorumCert option"
  bs_Proposer :: PeerID

record ProposeMessage =
  pp_BlockState :: BlockState

record VoteMessage =
  vt_BlockHash :: slice
  vt_Signature :: "Signature option"

record HSNewViewMessage =
  hv_Height :: u64
  hv_QC :: "QuorumCert option"
  hv_Hash512 :: slice

datatype ChainHotstuffMessage =
    CHM_Propose ProposeMessage | CHM_Vote VoteMessage | CHM_NewView HSNewViewMessage | CHM_Unset

record hs_env = go_env +
  env_sha512 :: "bytes \<Rightarrow> bytes"
  env_marshalBlock :: "BlockState \<Rightarrow> bytes"
  env_marshalHS :: "ChainHotstuffMessage \<Rightarrow> bytes"
  env_unmarshalHS :: "bytes \<Rightarrow> ChainHotstuffMessage option"
  env_edSign :: "bytes \<Rightarrow> bytes option"
  env_edVerify :: "bytes \<Rightarrow> slice \<Rightarrow> bool"
  env_edVerifyBatch :: "slice list \<Rightarrow> slice list \<Rightarrow> (bool \<times> bool list) option"

text \<open>\<open>BlockHashSlice.Array\<close>: copied into 64 bytes.\<close>

definition hash_Array :: "slice \<Rightarrow> bytes" where
  "hash_Array bhs = take 64 (sbytes bhs @ replicate 64 0)"

subsection \<open>Blocks (\<open>block.go\<close>)\<close>

definition genesis :: BlockState where
  "genesis = \<lparr>bs_Parent = None, bs_Command = None, bs_Height = 0, bs_QC = None, bs_Proposer = 0\<rparr>"

definition newBlock :: "bytes \<Rightarrow> Command option \<Rightarrow> QuorumCert option \<Rightarrow> u64 \<Rightarrow> PeerID \<Rightarrow> BlockState" where
  "newBlock parent cmd qc height proposer =
     \<lparr>bs_Parent = Some parent, bs_Command = cmd, bs_Height = height, bs_QC = qc, bs_Proposer = proposer\<rparr>"

definition block_hash :: "hs_env \<Rightarrow> BlockState \<Rightarrow> bytes" where
  "block_hash E b = env_sha512 E (env_marshalBlock E b)"

subsection \<open>The signer (\<open>signer.go\<close>)\<close>

datatype qc_error = ErrHashMismatch | ErrPartialDuplicate

definition signer_sign :: "hs_env \<Rightarrow> bytes \<Rightarrow> bytes option" where
  "signer_sign E h = env_edSign E h"

definition signer_verify :: "hs_env \<Rightarrow> bytes \<Rightarrow> slice \<Rightarrow> bool" where
  "signer_verify E msg sig = env_edVerify E msg sig"

fun addSignatures :: "bytes \<Rightarrow> VoteMessage list \<Rightarrow> QuorumCert \<Rightarrow> (qc_error + QuorumCert) go" where
  "addSignatures h [] qc = Inr (Inr qc)"
| "addSignatures h (s # ss) qc =
     (if \<not> bytes_Equal (Some h) (vt_BlockHash s) then Inr (Inl ErrHashMismatch)
      else case vt_Signature s of
          None \<Rightarrow> Inl NilDeref
        | Some sig \<Rightarrow>
            if fmlookup (qc_Sigs qc) (sg_Signer sig) \<noteq> None then Inr (Inl ErrPartialDuplicate)
            else addSignatures h ss (qc\<lparr>qc_Sigs := fmupd (sg_Signer sig) (Some sig) (qc_Sigs qc)\<rparr>))"

definition createQuorumCert :: "hs_env \<Rightarrow> BlockState \<Rightarrow> VoteMessage list \<Rightarrow> (qc_error + QuorumCert) go" where
  "createQuorumCert E blk signatures =
     addSignatures (block_hash E blk) signatures \<lparr>qc_Sigs = fmempty, qc_BlockHash = Some (block_hash E blk)\<rparr>"

definition qc_values :: "hs_env \<Rightarrow> QuorumCert \<Rightarrow> slice list go" where
  "qc_values E qc = go_fold (\<lambda>so acc. case so of None \<Rightarrow> Inl NilDeref | Some sig \<Rightarrow> Inr (acc @ [sg_Sig sig]))
     (fmvals (env_rangeOrder E) (qc_Sigs qc)) []"

definition verifyQuorumCert :: "hs_env \<Rightarrow> int \<Rightarrow> QuorumCert option \<Rightarrow> bool go" where
  "verifyQuorumCert E quorumSize qco =
     (case qco of
        None \<Rightarrow> Inl NilDeref
      | Some qc \<Rightarrow>
          if hash_Array (qc_BlockHash qc) = block_hash E genesis then Inr True
          else if int (fmlen (qc_Sigs qc)) < quorumSize then Inr False
          else go_bind (qc_values E qc) (\<lambda>sigs.
            case env_edVerifyBatch E (map (\<lambda>_. qc_BlockHash qc) sigs) sigs of
              None \<Rightarrow> Inl PanicCall
            | Some (allOk, oks) \<Rightarrow>
                if allOk then Inr True
                else Inr (int (length (filter (\<lambda>b. b) oks)) \<ge> quorumSize)))"

subsection \<open>The replica (\<open>chainhotstuff.go\<close>)\<close>

record pacemaker =
  pk_lastBeat :: u64
  pk_started :: bool
  pk_timer :: "unit tickingTimer"

definition paceMakerTimeout :: int where
  "paceMakerTimeout = 18000"

definition newPacemaker :: pacemaker where
  "newPacemaker = \<lparr>pk_lastBeat = 0, pk_started = False, pk_timer = MakeTickingTimer paceMakerTimeout ()\<rparr>"

datatype hs_job =
    VerifyPropose ProposeMessage BlockState
  | VerifyVote VoteMessage BlockState
  | VerifyNewView PeerID HSNewViewMessage

text \<open>\<open>hs_timers\<close> says whether the pacemaker's timer, the only one, is in the map \<open>timers\<close>.\<close>

record chainhotstuff =
  hs_id :: PeerID
  hs_peers :: "PeerID list"
  hs_msgs :: "Message list"
  hs_committedCmds :: "ExecPacket list"
  hs_timers :: bool
  hs_f :: int
  hs_cmdQueue :: "Command list"
  hs_pacemaker :: pacemaker
  hs_quorumSize :: int
  hs_blocks :: "(bytes, BlockState) fmap"
  hs_lastVote :: u64
  hs_bLock :: BlockState
  hs_bExec :: BlockState
  hs_bLeaf :: BlockState
  hs_highQC :: QuorumCert
  hs_verifiedVotes :: "(bytes, VoteMessage list) fmap"
  hs_pendingVotes :: "(bytes, VoteMessage list) fmap"
  hs_pendingProposals :: "(bytes, ProposeMessage) fmap"
  hs_newView :: "(u64, PeerID fset) fmap"
  hs_verifyDispatcher :: "(hs_job, bool go) Dispatcher"

text \<open>What \<open>execFunc\<close> of a job returns.\<close>

definition hs_exec :: "hs_env \<Rightarrow> int \<Rightarrow> hs_job \<Rightarrow> bool go" where
  "hs_exec E quorumSize j =
     (case j of
        VerifyPropose m blk \<Rightarrow> verifyQuorumCert E quorumSize (bs_QC blk)
      | VerifyVote m blk \<Rightarrow>
          (case vt_Signature m of None \<Rightarrow> Inl NilDeref | Some sig \<Rightarrow> Inr (signer_verify E (block_hash E blk) (sg_Sig sig)))
      | VerifyNewView from msg \<Rightarrow> verifyQuorumCert E quorumSize (hv_QC msg))"

definition getLeader :: "chainhotstuff \<Rightarrow> u64 \<Rightarrow> PeerID go" where
  "getLeader hs view = go_umod view (length (hs_peers hs))"

definition hs_Exec :: "hs_job \<Rightarrow> chainhotstuff \<Rightarrow> chainhotstuff" where
  "hs_Exec j hs = hs\<lparr>hs_verifyDispatcher := Dispatcher_Exec j (hs_verifyDispatcher hs)\<rparr>"

definition put_block :: "hs_env \<Rightarrow> BlockState \<Rightarrow> chainhotstuff \<Rightarrow> chainhotstuff" where
  "put_block E blk hs = hs\<lparr>hs_blocks := fmupd (block_hash E blk) blk (hs_blocks hs)\<rparr>"

subsection \<open>Sending (\<open>messaging.go\<close>)\<close>

definition hs_enqueueForSending :: "PeerID \<Rightarrow> bytes \<Rightarrow> bytes \<Rightarrow> chainhotstuff \<Rightarrow> chainhotstuff" where
  "hs_enqueueForSending to mm certificate hs =
     hs\<lparr>hs_msgs := hs_msgs hs @ [\<lparr>msg_From = hs_id hs, msg_To = to, msg_Content = mm, msg_Certificate = certificate\<rparr>]\<rparr>"

definition hs_sendTo :: "PeerID \<Rightarrow> bytes \<Rightarrow> bytes \<Rightarrow> chainhotstuff \<Rightarrow> chainhotstuff" where
  "hs_sendTo to mBytes sign hs = hs_enqueueForSending to mBytes sign hs"

definition hs_broadcast :: "bytes \<Rightarrow> bool \<Rightarrow> bytes \<Rightarrow> chainhotstuff \<Rightarrow> chainhotstuff" where
  "hs_broadcast mBytes sendToSelf sign hs =
     fold (\<lambda>peer hs'. if sendToSelf \<or> peer \<noteq> hs_id hs' then hs_enqueueForSending peer mBytes sign hs' else hs')
       (hs_peers hs) hs"

definition hs_ClearMsgs :: "chainhotstuff \<Rightarrow> chainhotstuff" where
  "hs_ClearMsgs hs = hs\<lparr>hs_msgs := []\<rparr>"

subsection \<open>Proposing\<close>

definition hs_onPropose :: "ProposeMessage \<Rightarrow> chainhotstuff \<Rightarrow> chainhotstuff go" where
  "hs_onPropose m hs =
     (let blk = pp_BlockState m in
      go_bind (getLeader hs (bs_Height blk)) (\<lambda>leader.
        if bs_Proposer blk \<noteq> leader then Inl PanicCall
        else if bs_Height blk \<le> hs_lastVote hs then Inr hs
        else Inr (hs_Exec (VerifyPropose m blk) hs)))"

definition hs_propose :: "hs_env \<Rightarrow> chainhotstuff \<Rightarrow> chainhotstuff go" where
  "hs_propose E hs =
     (let cmd = (case hs_cmdQueue hs of [] \<Rightarrow> None | c # _ \<Rightarrow> Some c);
          hs1 = hs\<lparr>hs_cmdQueue := tl (hs_cmdQueue hs)\<rparr>;
          blk = newBlock (block_hash E (hs_bLeaf hs1)) cmd (Some (hs_highQC hs1)) (bs_Height (hs_bLeaf hs1) + 1) (hs_id hs1);
          hs2 = put_block E blk hs1;
          m = \<lparr>pp_BlockState = blk\<rparr>
      in hs_onPropose m (hs_broadcast (env_marshalHS E (CHM_Propose m)) False [] hs2))"

definition pm_beat :: "hs_env \<Rightarrow> chainhotstuff \<Rightarrow> chainhotstuff go" where
  "pm_beat E hs =
     (let view = bs_Height (hs_bLeaf hs) in
      if view \<le> pk_lastBeat (hs_pacemaker hs) then Inr hs
      else go_bind (getLeader hs (view + 1)) (\<lambda>leader.
        if hs_id hs \<noteq> leader then Inr hs
        else hs_propose E (hs\<lparr>hs_pacemaker := (hs_pacemaker hs)\<lparr>pk_lastBeat := view\<rparr>\<rparr>)))"

definition pm_onPropose :: "chainhotstuff \<Rightarrow> chainhotstuff" where
  "pm_onPropose hs = hs\<lparr>hs_pacemaker := (hs_pacemaker hs)\<lparr>pk_timer := Timer_Reset (pk_timer (hs_pacemaker hs))\<rparr>\<rparr>"

definition pm_onFinishQC :: "hs_env \<Rightarrow> chainhotstuff \<Rightarrow> chainhotstuff go" where
  "pm_onFinishQC E hs = pm_beat E hs"

definition pm_onNewView :: "hs_env \<Rightarrow> chainhotstuff \<Rightarrow> chainhotstuff go" where
  "pm_onNewView E hs = pm_beat E hs"

subsection \<open>Votes\<close>

definition updateHighQC :: "QuorumCert option \<Rightarrow> chainhotstuff \<Rightarrow> chainhotstuff go" where
  "updateHighQC qco hs =
     (case qco of
        None \<Rightarrow> Inl NilDeref
      | Some qc \<Rightarrow>
          (case fmlookup (hs_blocks hs) (hash_Array (qc_BlockHash qc)) of
             None \<Rightarrow> Inr hs
           | Some nb \<Rightarrow>
               (case fmlookup (hs_blocks hs) (hash_Array (qc_BlockHash (hs_highQC hs))) of
                  None \<Rightarrow> Inl PanicCall
                | Some oldBlock \<Rightarrow>
                    if bs_Height nb > bs_Height oldBlock
                    then Inr (hs\<lparr>hs_highQC := qc, hs_bLeaf := nb\<rparr>) else Inr hs)))"

definition queueBlockVote :: "VoteMessage \<Rightarrow> chainhotstuff \<Rightarrow> chainhotstuff" where
  "queueBlockVote vote hs =
     (let h = hash_Array (vt_BlockHash vote);
          votes = (case fmlookup (hs_pendingVotes hs) h of None \<Rightarrow> [] | Some vs \<Rightarrow> vs)
      in hs\<lparr>hs_pendingVotes := fmupd h (votes @ [vote]) (hs_pendingVotes hs)\<rparr>)"

text \<open>The deferred function of \<open>onVote\<close>.\<close>

definition cleanVotes :: "chainhotstuff \<Rightarrow> chainhotstuff" where
  "cleanVotes hs =
     hs\<lparr>hs_verifiedVotes := fmfilter (\<lambda>k. case fmlookup (hs_blocks hs) k of
          None \<Rightarrow> False | Some b \<Rightarrow> \<not> bs_Height b \<le> bs_Height (hs_bLeaf hs)) (hs_verifiedVotes hs)\<rparr>"

definition hs_onVote :: "VoteMessage \<Rightarrow> chainhotstuff \<Rightarrow> chainhotstuff go" where
  "hs_onVote m hs =
     (if vt_Signature m = None then Inl NilDeref
      else Inr (cleanVotes (
        case fmlookup (hs_blocks hs) (hash_Array (vt_BlockHash m)) of
          None \<Rightarrow> queueBlockVote m hs
        | Some blk \<Rightarrow>
            if bs_Height blk \<le> bs_Height (hs_bLeaf hs) then hs
            else hs_Exec (VerifyVote m blk) hs)))"

definition onVoteContinue :: "hs_env \<Rightarrow> VoteMessage \<Rightarrow> BlockState \<Rightarrow> chainhotstuff \<Rightarrow> chainhotstuff go" where
  "onVoteContinue E m blk hs =
     (let h = block_hash E blk;
          votes = (case fmlookup (hs_verifiedVotes hs) h of None \<Rightarrow> [] | Some vs \<Rightarrow> vs) @ [m];
          hs1 = hs\<lparr>hs_verifiedVotes := fmupd h votes (hs_verifiedVotes hs)\<rparr>
      in if int (length votes) < 2 * hs_f hs + 1 then Inr hs1
         else go_bind (createQuorumCert E blk votes) (\<lambda>r.
           case r of
             Inl err \<Rightarrow> Inl FatalExit
           | Inr qc \<Rightarrow> go_bind (updateHighQC (Some qc) (hs1\<lparr>hs_verifiedVotes := fmdrop h (hs_verifiedVotes hs1)\<rparr>))
               (pm_onFinishQC E)))"

subsection \<open>Committing\<close>

definition qcRef :: "QuorumCert option \<Rightarrow> chainhotstuff \<Rightarrow> BlockState option" where
  "qcRef qco hs = (case qco of None \<Rightarrow> None | Some qc \<Rightarrow> fmlookup (hs_blocks hs) (hash_Array (qc_BlockHash qc)))"

definition hs_execute :: "Command \<Rightarrow> chainhotstuff \<Rightarrow> chainhotstuff" where
  "hs_execute cmd hs = hs\<lparr>hs_committedCmds := hs_committedCmds hs @ [mkExecPacket cmd]\<rparr>"

text \<open>\<open>commit\<close> calls itself on the parent first; it does not return when the parents form a cycle.\<close>

partial_function (option) hs_commit :: "BlockState \<Rightarrow> chainhotstuff \<Rightarrow> chainhotstuff option" where
  "hs_commit blk hs =
     (if bs_Height (hs_bExec hs) < bs_Height blk
      then Option.bind (case fmlookup (hs_blocks hs) (hash_Array (bs_Parent blk)) of
               Some parent \<Rightarrow> hs_commit parent hs | None \<Rightarrow> Some hs) (\<lambda>hs1.
             Some (case bs_Command blk of
                 None \<Rightarrow> hs1
               | Some cmd \<Rightarrow> if bs_QC blk = None then hs1 else hs_execute cmd hs1))
      else Some hs)"

declare hs_commit.simps [code]

definition hs_update :: "hs_env \<Rightarrow> BlockState \<Rightarrow> chainhotstuff \<Rightarrow> chainhotstuff go" where
  "hs_update E blk hs =
     (case qcRef (bs_QC blk) hs of
        None \<Rightarrow> Inr hs
      | Some block1 \<Rightarrow> go_bind (updateHighQC (bs_QC blk) hs) (\<lambda>hs1.
          case qcRef (bs_QC block1) hs1 of
            None \<Rightarrow> Inr hs1
          | Some block2 \<Rightarrow>
              let hs2 = (if bs_Height block2 > bs_Height (hs_bLock hs1) then hs1\<lparr>hs_bLock := block2\<rparr> else hs1) in
              (case qcRef (bs_QC block2) hs2 of
                 None \<Rightarrow> Inr hs2
               | Some block3 \<Rightarrow>
                   if hash_Array (bs_Parent block1) = block_hash E block2
                      \<and> hash_Array (bs_Parent block2) = block_hash E block3
                   then (case hs_commit block3 hs2 of
                           None \<Rightarrow> Inl Hang
                         | Some hs3 \<Rightarrow> Inr (hs3\<lparr>hs_bExec := block3\<rparr>))
                   else Inr hs2)))"

definition hs_deliver :: "hs_env \<Rightarrow> BlockState \<Rightarrow> chainhotstuff \<Rightarrow> chainhotstuff go" where
  "hs_deliver E blk hs =
     (let h = block_hash E blk in
      go_bind (case fmlookup (hs_pendingVotes hs) h of
          None \<Rightarrow> Inr hs
        | Some votes \<Rightarrow> go_fold hs_onVote votes (put_block E blk (hs\<lparr>hs_pendingVotes := fmdrop h (hs_pendingVotes hs)\<rparr>)))
      (\<lambda>hs1. case fmlookup (hs_pendingProposals hs1) h of
          None \<Rightarrow> Inr hs1
        | Some nextProposal \<Rightarrow>
            hs_onPropose nextProposal (hs1\<lparr>hs_pendingProposals := fmdrop h (hs_pendingProposals hs1)\<rparr>)))"

subsection \<open>Voting\<close>

text \<open>
  The loop that looks for the locked block among the ancestors: the last value of \<open>b\<close>, or \<open>Some None\<close> when a parent is not
  known.
\<close>

partial_function (option) ancestor_at :: "(bytes, BlockState) fmap \<Rightarrow> u64 \<Rightarrow> BlockState \<Rightarrow> BlockState option option" where
  "ancestor_at blocks height b =
     (if bs_Height b > height
      then (case fmlookup blocks (hash_Array (bs_Parent b)) of None \<Rightarrow> Some None | Some b' \<Rightarrow> ancestor_at blocks height b')
      else Some (Some b))"

declare ancestor_at.simps [code]

definition is_safe :: "hs_env \<Rightarrow> QuorumCert \<Rightarrow> BlockState \<Rightarrow> chainhotstuff \<Rightarrow> bool go" where
  "is_safe E qc blk hs =
     (if (case fmlookup (hs_blocks hs) (hash_Array (qc_BlockHash qc)) of
            None \<Rightarrow> False | Some qcBlock \<Rightarrow> bs_Height qcBlock > bs_Height (hs_bLock hs))
      then Inr True
      else case ancestor_at (hs_blocks hs) (bs_Height (hs_bLock hs)) blk of
          None \<Rightarrow> Inl Hang
        | Some None \<Rightarrow> Inr False
        | Some (Some b) \<Rightarrow> Inr (block_hash E b = block_hash E (hs_bLock hs)))"

definition queueBlockPropose :: "ProposeMessage \<Rightarrow> chainhotstuff \<Rightarrow> chainhotstuff go" where
  "queueBlockPropose m hs =
     (case bs_QC (pp_BlockState m) of
        None \<Rightarrow> Inl NilDeref
      | Some qc \<Rightarrow> Inr (hs\<lparr>hs_pendingProposals := fmupd (hash_Array (qc_BlockHash qc)) m (hs_pendingProposals hs)\<rparr>))"

definition hs_finish :: "hs_env \<Rightarrow> BlockState \<Rightarrow> chainhotstuff \<Rightarrow> chainhotstuff go" where
  "hs_finish E blk hs = go_bind (hs_update E blk hs) (hs_deliver E blk)"

definition onProposeContinue :: "hs_env \<Rightarrow> ProposeMessage \<Rightarrow> BlockState \<Rightarrow> chainhotstuff \<Rightarrow> chainhotstuff go" where
  "onProposeContinue E m blk hs =
     (case bs_QC blk of
        None \<Rightarrow> Inl NilDeref
      | Some qc \<Rightarrow> go_bind (is_safe E qc blk hs) (\<lambda>safe.
          if \<not> safe then queueBlockPropose m hs
          else let hs1 = pm_onPropose hs in
            case signer_sign E (block_hash E blk) of
              None \<Rightarrow> Inr hs1
            | Some sig \<Rightarrow>
                let hs2 = (put_block E blk hs1)\<lparr>hs_lastVote := bs_Height blk\<rparr>;
                    vm = \<lparr>vt_BlockHash = Some (block_hash E blk),
                          vt_Signature = Some \<lparr>sg_Sig = Some sig, sg_Signer = hs_id hs2\<rparr>\<rparr>
                in go_bind (getLeader hs2 (hs_lastVote hs2 + 1)) (\<lambda>leaderID.
                  if leaderID = hs_id hs2 then go_bind (hs_finish E blk hs2) (hs_onVote vm)
                  else hs_finish E blk (hs_sendTo leaderID (env_marshalHS E (CHM_Vote vm)) [] hs2))))"

subsection \<open>New views (\<open>newview.go\<close>, \<open>pacemaker.go\<close>)\<close>

text \<open>The deferred function of \<open>onNewView\<close>.\<close>

definition cleanNewView :: "chainhotstuff \<Rightarrow> chainhotstuff" where
  "cleanNewView hs = hs\<lparr>hs_newView := fmfilter (\<lambda>view. \<not> view < bs_Height (hs_bLeaf hs)) (hs_newView hs)\<rparr>"

definition hs_onNewView :: "PeerID \<Rightarrow> HSNewViewMessage \<Rightarrow> chainhotstuff \<Rightarrow> chainhotstuff" where
  "hs_onNewView from msg hs = cleanNewView (hs_Exec (VerifyNewView from msg) hs)"

definition onNewViewContinue :: "hs_env \<Rightarrow> bool \<Rightarrow> PeerID \<Rightarrow> HSNewViewMessage \<Rightarrow> chainhotstuff \<Rightarrow> chainhotstuff go" where
  "onNewViewContinue E ok from msg hs =
     go_bind (if ok then updateHighQC (hv_QC msg) hs else Inr hs) (\<lambda>hs1.
       let v = finsert from (case fmlookup (hs_newView hs1) (hv_Height msg) of None \<Rightarrow> {||} | Some v \<Rightarrow> v);
           hs2 = hs1\<lparr>hs_newView := fmupd (hv_Height msg) v (hs_newView hs1)\<rparr>
       in if int (fcard v) < hs_quorumSize hs2 then Inr hs2 else pm_onNewView E hs2)"

definition createDummy :: "hs_env \<Rightarrow> chainhotstuff \<Rightarrow> chainhotstuff" where
  "createDummy E hs =
     (let dummy = newBlock (block_hash E (hs_bLeaf hs)) None None (bs_Height (hs_bLeaf hs) + 1) (hs_id hs)
      in (put_block E dummy hs)\<lparr>hs_bLeaf := dummy\<rparr>)"

definition startNewView :: "hs_env \<Rightarrow> chainhotstuff \<Rightarrow> chainhotstuff go" where
  "startNewView E hs =
     (let msg = \<lparr>hv_Height = bs_Height (hs_bLeaf hs), hv_QC = Some (hs_highQC hs),
                 hv_Hash512 = Some (block_hash E (hs_bLeaf hs))\<rparr>
      in go_bind (getLeader hs (bs_Height (hs_bLeaf hs) + 1)) (\<lambda>leaderID.
        if leaderID = hs_id hs then Inr (hs_onNewView (hs_id hs) msg hs)
        else Inr (hs_sendTo leaderID (env_marshalHS E (CHM_NewView msg)) [] hs)))"

definition pm_onTimeout :: "hs_env \<Rightarrow> chainhotstuff \<Rightarrow> chainhotstuff go" where
  "pm_onTimeout E hs =
     go_bind (startNewView E (createDummy E hs)) (\<lambda>hs1.
       Inr (hs1\<lparr>hs_pacemaker := (hs_pacemaker hs1)\<lparr>pk_timer := Timer_Reset (pk_timer (hs_pacemaker hs1))\<rparr>\<rparr>))"

subsection \<open>Entry points\<close>

definition NewChainHotstuff :: "hs_env \<Rightarrow> LocalConfig \<Rightarrow> chainhotstuff go" where
  "NewChainHotstuff E cfg =
     go_bind (createQuorumCert E genesis []) (\<lambda>r.
     case r of
       Inl err \<Rightarrow> Inl PanicCall
     | Inr qc \<Rightarrow>
     go_bind (startDispatcher cfg ''edd_verify'') (\<lambda>d.
       let hs = \<lparr>hs_id = cfg_ID cfg, hs_peers = cfg_Peers cfg, hs_msgs = [], hs_committedCmds = [], hs_timers = False,
             hs_f = cfg_MaxFailures cfg, hs_cmdQueue = [], hs_pacemaker = newPacemaker,
             hs_quorumSize = 2 * cfg_MaxFailures cfg + 1,
             hs_blocks = fmupd (block_hash E genesis) genesis fmempty, hs_lastVote = 0,
             hs_bLock = genesis, hs_bExec = genesis, hs_bLeaf = genesis, hs_highQC = qc,
             hs_verifiedVotes = fmempty, hs_pendingVotes = fmempty, hs_pendingProposals = fmempty, hs_newView = fmempty,
             hs_verifyDispatcher = d\<rparr>
       in go_bind (getLeader hs (bs_Height (hs_bLeaf hs) + 1)) (\<lambda>leader.
            if hs_id hs = leader then hs_propose E hs else Inr hs)))"

definition hs_Tick :: "hs_env \<Rightarrow> chainhotstuff \<Rightarrow> chainhotstuff go" where
  "hs_Tick E hs =
     (if hs_timers hs
      then (case Timer_Tick (pk_timer (hs_pacemaker hs)) of (t, fired) \<Rightarrow>
             go_fold (\<lambda>_. pm_onTimeout E) fired (hs\<lparr>hs_pacemaker := (hs_pacemaker hs)\<lparr>pk_timer := t\<rparr>\<rparr>))
      else Inr hs)"

definition hs_registerInfiniteTimer :: "chainhotstuff \<Rightarrow> chainhotstuff" where
  "hs_registerInfiniteTimer hs =
     hs\<lparr>hs_timers := True,
        hs_pacemaker := (hs_pacemaker hs)\<lparr>pk_timer := registerInfiniteTimer (pk_timer (hs_pacemaker hs))\<rparr>\<rparr>"

definition hs_onRequest :: "hs_env \<Rightarrow> Command \<Rightarrow> chainhotstuff \<Rightarrow> chainhotstuff go" where
  "hs_onRequest E cmd hs = pm_beat E (hs\<lparr>hs_cmdQueue := hs_cmdQueue hs @ [cmd]\<rparr>)"

definition hs_Request :: "hs_env \<Rightarrow> Command \<Rightarrow> chainhotstuff \<Rightarrow> chainhotstuff go" where
  "hs_Request E cmd hs = hs_onRequest E cmd hs"

definition hs_Step :: "hs_env \<Rightarrow> Message \<Rightarrow> chainhotstuff \<Rightarrow> chainhotstuff go" where
  "hs_Step E message hs =
     (case env_unmarshalHS E (msg_Content message) of
        None \<Rightarrow> Inl PanicCall
      | Some (CHM_Propose m) \<Rightarrow> hs_onPropose m hs
      | Some (CHM_Vote m) \<Rightarrow> hs_onVote m hs
      | Some (CHM_NewView m) \<Rightarrow> Inr (hs_onNewView (msg_From message) m hs)
      | Some CHM_Unset \<Rightarrow> Inl PanicCall)"

definition hs_MakeReady :: "chainhotstuff \<Rightarrow> Ready" where
  "hs_MakeReady hs = \<lparr>rd_Messages = hs_msgs hs, rd_OrderedCommands = hs_committedCmds hs\<rparr>"

definition hs_ClearExecutedCommands :: "chainhotstuff \<Rightarrow> chainhotstuff" where
  "hs_ClearExecutedCommands hs = hs\<lparr>hs_committedCmds := []\<rparr>"

definition hs_Callback :: "ExecCallback \<Rightarrow> chainhotstuff \<Rightarrow> chainhotstuff go" where
  "hs_Callback cb hs = Inr hs"

text \<open>The callback of a job, given the result of \<open>execFunc\<close>.\<close>

definition hs_callback :: "hs_env \<Rightarrow> hs_job \<Rightarrow> bool go \<Rightarrow> chainhotstuff \<Rightarrow> chainhotstuff go" where
  "hs_callback E j res hs =
     go_bind res (\<lambda>ok.
       case j of
         VerifyPropose m blk \<Rightarrow> if \<not> ok then Inl FatalExit else onProposeContinue E m blk hs
       | VerifyVote m blk \<Rightarrow> if \<not> ok then Inl FatalExit else onVoteContinue E m blk hs
       | VerifyNewView from msg \<Rightarrow> onNewViewContinue E ok from msg hs)"

definition hs_AsyncCallback :: "hs_env \<Rightarrow> chainhotstuff \<Rightarrow> chainhotstuff go" where
  "hs_AsyncCallback E hs =
     (case drain_callbacks (hs_verifyDispatcher hs) of (cbs, d) \<Rightarrow>
        go_fold (\<lambda>(j, res). hs_callback E j res) cbs (hs\<lparr>hs_verifyDispatcher := d\<rparr>))"

definition hs_hasExecuted :: "Command option \<Rightarrow> chainhotstuff \<Rightarrow> bool go" where
  "hs_hasExecuted cmd hs =
     go_fold (\<lambda>e found. if found then Inr True else Command_Equal (Some (ep_Cmd e)) cmd) (hs_committedCmds hs) False"

definition hs_hasSlowExecuted :: "Command option \<Rightarrow> chainhotstuff \<Rightarrow> bool go" where
  "hs_hasSlowExecuted cmd hs =
     go_fold (\<lambda>e found. if found then Inr True else Command_Equal (Some (ep_Cmd e)) cmd) (hs_committedCmds hs) False"

definition hs_Protocol :: "hs_env \<Rightarrow> chainhotstuff Protocol" where
  "hs_Protocol E =
     \<lparr>pr_Step = hs_Step E, pr_Tick = hs_Tick E, pr_Request = hs_Request E, pr_Callback = hs_Callback,
      pr_MakeReady = (\<lambda>s. Inr (hs_MakeReady s, s)), pr_ClearMsgs = hs_ClearMsgs,
      pr_ClearExecutedCommands = hs_ClearExecutedCommands, pr_AsyncCallback = hs_AsyncCallback E\<rparr>"

end
