(* ===== verification/HotStuff_Certs.thy ===== *)
theory HotStuff_Certs
  imports HotStuff
begin

text \<open>
  Quorum certificates: a certificate made of verified votes passes the check of every other replica. The converse
  fails: the check does not tie the signatures to the signers. And a replica that receives the same vote
  twice may end its process.
\<close>

subsection \<open>The libraries\<close>

text \<open>
  SHA-512 gives 64 bytes; on a message of 64 bytes the batch verification says of each signature what the single
  verification says; a loop over a map visits every key once.
\<close>

definition hs_env_ok :: "hs_env \<Rightarrow> bool" where
  "hs_env_ok E \<longleftrightarrow> range_order (env_rangeOrder E) \<and> (\<forall>b. length (env_sha512 E b) = 64)
     \<and> (\<forall>h sigs. length h = 64 \<longrightarrow> env_edVerifyBatch E (map (\<lambda>_. Some h) sigs) sigs =
          Some (list_all (env_edVerify E h) sigs, map (env_edVerify E h) sigs))"

lemma hash_Array_64 [simp]: "length h = 64 \<Longrightarrow> hash_Array (Some h) = h"
  by (simp add: hash_Array_def)

lemma length_block_hash: "hs_env_ok E \<Longrightarrow> length (block_hash E b) = 64"
  by (simp add: hs_env_ok_def block_hash_def)

subsection \<open>Creating a certificate\<close>

definition vote_signer :: "VoteMessage \<Rightarrow> PeerID option" where
  "vote_signer v = map_option sg_Signer (vt_Signature v)"

lemma addSignatures_ok:
  assumes "addSignatures h vs qc = Inr (Inr qc')"
  shows "qc_BlockHash qc' = qc_BlockHash qc \<and> fmlen (qc_Sigs qc') = fmlen (qc_Sigs qc) + length vs
    \<and> (\<forall>k s. fmlookup (qc_Sigs qc') k = Some s \<longrightarrow> fmlookup (qc_Sigs qc) k = Some s \<or> s \<noteq> None \<and> s \<in> vt_Signature ` set vs)"
  using assms
proof (induction vs arbitrary: qc)
  case (Cons v vs)
  from Cons.prems obtain sig where sig: "vt_Signature v = Some sig" "fmlookup (qc_Sigs qc) (sg_Signer sig) = None"
    and rest: "addSignatures h vs (qc\<lparr>qc_Sigs := fmupd (sg_Signer sig) (Some sig) (qc_Sigs qc)\<rparr>) = Inr (Inr qc')"
    by (auto split: if_splits option.splits)
  have fresh: "sg_Signer sig |\<notin>| fmdom (qc_Sigs qc)" using sig(2) by (simp add: fmdom_notI)
  then have "fmlen (fmupd (sg_Signer sig) (Some sig) (qc_Sigs qc)) = Suc (fmlen (qc_Sigs qc))"
    by (simp add: fmlen_def fcard_finsert_disjoint)
  with Cons.IH [OF rest] sig show ?case by (fastforce split: if_splits)
qed simp

lemma addSignatures_dup:
  assumes "\<forall>v \<in> set vs. bytes_Equal (Some h) (vt_BlockHash v) \<and> vt_Signature v \<noteq> None"
    and "\<not> distinct (map vote_signer vs) \<or> (\<exists>v \<in> set vs. \<exists>sig. vt_Signature v = Some sig \<and> fmlookup (qc_Sigs qc) (sg_Signer sig) \<noteq> None)"
  shows "addSignatures h vs qc = Inr (Inl ErrPartialDuplicate)"
  using assms
proof (induction vs arbitrary: qc)
  case (Cons v vs)
  then obtain sig where sig: "vt_Signature v = Some sig" "bytes_Equal (Some h) (vt_BlockHash v)" by auto
  show ?case
  proof (cases "fmlookup (qc_Sigs qc) (sg_Signer sig) = None")
    case True
    have "addSignatures h vs (qc\<lparr>qc_Sigs := fmupd (sg_Signer sig) (Some sig) (qc_Sigs qc)\<rparr>) = Inr (Inl ErrPartialDuplicate)"
    proof (rule Cons.IH)
      have "\<exists>x \<in> set vs. \<exists>sig'. vt_Signature x = Some sig' \<and> sg_Signer sig' = sg_Signer sig" if "vote_signer v \<in> vote_signer ` set vs"
        using that sig Cons.prems(1) by (fastforce simp: vote_signer_def)
      then show "\<not> distinct (map vote_signer vs) \<or> (\<exists>v \<in> set vs. \<exists>sg. vt_Signature v = Some sg
          \<and> fmlookup (qc_Sigs (qc\<lparr>qc_Sigs := fmupd (sg_Signer sig) (Some sig) (qc_Sigs qc)\<rparr>)) (sg_Signer sg) \<noteq> None)"
        using Cons.prems(2) sig(1) True by (cases "vote_signer v \<in> vote_signer ` set vs") (force split: if_splits)+
    qed (use Cons.prems(1) in simp)
    with sig True show ?thesis by simp
  qed (simp add: sig)
qed simp

subsection \<open>Verifying a certificate\<close>

lemma qc_values_ok:
  assumes "range_order (env_rangeOrder E)" "\<And>k s. fmlookup (qc_Sigs qc) k = Some s \<Longrightarrow> s \<noteq> None"
  shows "qc_values E qc = Inr (map (\<lambda>s. sg_Sig (the s)) (fmvals (env_rangeOrder E) (qc_Sigs qc)))"
proof -
  have *: "go_fold (\<lambda>so acc. case so of None \<Rightarrow> Inl NilDeref | Some sig \<Rightarrow> Inr (acc @ [sg_Sig sig])) ss acc
      = Inr (acc @ map (\<lambda>s. sg_Sig (the s)) ss)" if "\<forall>s \<in> set ss. s \<noteq> None" for ss acc
    using that by (induction ss arbitrary: acc) auto
  have "\<forall>s \<in> set (fmvals (env_rangeOrder E) (qc_Sigs qc)). s \<noteq> None"
    unfolding set_fmvals [OF assms(1)] Ball_def using assms(2) by auto
  from * [OF this, of "[]"] show ?thesis unfolding qc_values_def append_Nil .
qed

lemma verifyQuorumCert_ok:
  assumes E: "hs_env_ok E" and h: "qc_BlockHash qc = Some h" "length h = 64"
    and sigs: "\<And>k s. fmlookup (qc_Sigs qc) k = Some s \<Longrightarrow> \<exists>sig. s = Some sig \<and> env_edVerify E h (sg_Sig sig)"
    and q: "q \<le> int (fmlen (qc_Sigs qc))"
  shows "verifyQuorumCert E q (Some qc) = Inr True"
proof -
  let ?ss = "map (\<lambda>s. sg_Sig (the s)) (fmvals (env_rangeOrder E) (qc_Sigs qc))"
  have ord: "range_order (env_rangeOrder E)" using E by (simp add: hs_env_ok_def)
  have vals: "qc_values E qc = Inr ?ss" by (rule qc_values_ok [OF ord]) (use sigs in blast)
  have "env_edVerify E h (sg_Sig (the s))" if "s \<in> set (fmvals (env_rangeOrder E) (qc_Sigs qc))" for s
    using that sigs unfolding set_fmvals [OF ord] by force
  then have "list_all (env_edVerify E h) ?ss" by (simp add: list_all_iff)
  moreover have "env_edVerifyBatch E (map (\<lambda>_. Some h) ?ss) ?ss = Some (list_all (env_edVerify E h) ?ss, map (env_edVerify E h) ?ss)"
    using E h(2) unfolding hs_env_ok_def by blast
  ultimately show ?thesis using q h(1) by (simp add: verifyQuorumCert_def vals)
qed


text \<open>
  A certificate does not show that a quorum signed: one signature of one replica, put under enough different keys
  of the map, passes \<open>verifyQuorumCert\<close>, because the keys and the field \<open>Signer\<close> are not compared and
  the signatures not distinguished.
\<close>

theorem hs_qc_one_signature:
  assumes "hs_env_ok E" "length h = 64" "signer_verify E h (Some s)" "n < 2 ^ 64"
  shows "\<exists>qc. verifyQuorumCert E (int n) (Some qc) = Inr True \<and> qc_BlockHash qc = Some h
    \<and> (\<forall>k so. fmlookup (qc_Sigs qc) k = Some so \<longrightarrow> so = Some \<lparr>sg_Sig = Some s, sg_Signer = i\<rparr>)"
proof -
  let ?sig = "\<lparr>sg_Sig = Some s, sg_Signer = i\<rparr>"
  let ?qc = "\<lparr>qc_Sigs = fmap_of_list (map (\<lambda>k. (of_nat k, Some ?sig)) [0..<n]), qc_BlockHash = Some h\<rparr>"
  have look: "fmlookup (qc_Sigs ?qc) k = Some so \<Longrightarrow> so = Some ?sig" for k so
    by (auto simp: fmlookup_of_list dest!: map_of_SomeD)
  have "inj_on (of_nat :: nat \<Rightarrow> u64) {0..<n}"
    by (rule inj_onI, drule arg_cong [where f = unat]) (use assms(4) in \<open>simp add: unat_of_nat\<close>)
  then have "card ((of_nat :: nat \<Rightarrow> u64) ` {0..<n}) = n" by (simp add: card_image)
  moreover have "fset (fmdom (qc_Sigs ?qc)) = (of_nat :: nat \<Rightarrow> u64) ` {0..<n}"
    by (simp add: fmdom.rep_eq fmap_of_list.rep_eq dom_map_of_conv_image_fst image_image fset_of_list.rep_eq)
  ultimately have "fmlen (qc_Sigs ?qc) = n" by (simp add: fmlen_def fcard.rep_eq)
  moreover have "verifyQuorumCert E (int n) (Some ?qc) = Inr True" if "fmlen (qc_Sigs ?qc) = n"
    by (rule verifyQuorumCert_ok [OF assms(1), of _ h]) (use assms(2,3) that in \<open>auto simp: signer_verify_def dest!: look [simplified]\<close>)
  ultimately show ?thesis using look by (intro exI [of _ ?qc]) simp
qed

text \<open>
  A repeated vote ends the process of the replica that collects the votes: when the votes for a block reach
  \<open>2f + 1\<close> and two of them come from one replica, \<open>createQuorumCert\<close> fails and
  \<open>onVoteContinue\<close> calls \<open>Fatalf\<close>. No handler removes repeated votes.
\<close>

theorem hs_duplicate_vote_fatal:
  assumes "fmlookup (hs_verifiedVotes hs) (block_hash E blk) = Some votes" "2 * hs_f hs \<le> int (length votes)"
    and "\<forall>v \<in> set (m # votes). bytes_Equal (Some (block_hash E blk)) (vt_BlockHash v) \<and> vt_Signature v \<noteq> None"
    and "vote_signer m \<in> vote_signer ` set votes"
  shows "onVoteContinue E m blk hs = Inl FatalExit"
proof -
  have "createQuorumCert E blk (votes @ [m]) = Inr (Inl ErrPartialDuplicate)"
    unfolding createQuorumCert_def by (rule addSignatures_dup) (use assms(3,4) in auto)
  with assms(1,2) show ?thesis by (simp add: onVoteContinue_def Let_def)
qed


subsection \<open>A concrete environment\<close>

text \<open>
  An encoding of blocks that tells the blocks of the examples apart, a hash that pads to 64 bytes, and signatures that repeat the message.
\<close>

definition ex_ts :: "Command option \<Rightarrow> byte" where
  "ex_ts co = (case co of None \<Rightarrow> 0 | Some c \<Rightarrow> ucast (cmd_Timestamp c))"

definition ex_hs_marshal :: "ChainHotstuffMessage \<Rightarrow> bytes" where
  "ex_hs_marshal m = (case m of
       CHM_Propose p \<Rightarrow> [1, ucast (bs_Height (pp_BlockState p)), ex_ts (bs_Command (pp_BlockState p))]
     | CHM_Vote v \<Rightarrow> 2 # take 3 (sbytes (vt_BlockHash v))
     | _ \<Rightarrow> [])"

definition ex_hs_env :: "(bytes \<Rightarrow> ChainHotstuffMessage option) \<Rightarrow> hs_env" where
  "ex_hs_env un = \<lparr>env_sha256 = (\<lambda>b. 1 # b), env_marshalCommand = (\<lambda>c. Some [ucast (cmd_Timestamp c)]),
     env_createSignedCertificate = (\<lambda>_. []), env_verifyCertificate = (\<lambda>_ _. True), env_rangeOrder = (\<lambda>ks. ks),
     env_sha512 = (\<lambda>b. take 64 (b @ replicate 64 1)),
     env_marshalBlock = (\<lambda>b. [ucast (bs_Height b), ex_ts (bs_Command b), ucast (bs_Proposer b)]),
     env_marshalHS = ex_hs_marshal, env_unmarshalHS = un,
     env_edSign = (\<lambda>h. Some (7 # h)), env_edVerify = (\<lambda>h s. s = Some (7 # h)),
     env_edVerifyBatch = (\<lambda>ms ss. let oks = map2 (\<lambda>m s. s = Some (7 # sbytes m)) ms ss in Some (list_all (\<lambda>b. b) oks, oks))\<rparr>"

lemma ex_hs_env_ok: "hs_env_ok (ex_hs_env un)"
proof -
  have *: "map2 (\<lambda>m s. s = Some (7 # sbytes m)) (map (\<lambda>_. Some h) sigs) sigs = map (\<lambda>s. s = Some (7 # h)) sigs" for h sigs
    by (induction sigs) auto
  have "list_all (\<lambda>b. b) (map2 (\<lambda>m s. s = Some (7 # sbytes m)) (map (\<lambda>_. Some h) sigs) sigs) =
      list_all (\<lambda>s. s = Some (7 # h)) sigs" for h sigs
    unfolding * by (simp add: list_all_iff)
  moreover have "length (take 64 (b @ replicate 64 1) :: bytes) = 64" for b by (simp add: min_def)
  ultimately show ?thesis using * by (simp add: hs_env_ok_def ex_hs_env_def Let_def)
qed

definition ex_vote :: "PeerID \<Rightarrow> VoteMessage" where
  "ex_vote i = \<lparr>vt_BlockHash = Some (block_hash (ex_hs_env (\<lambda>_. None)) genesis),
     vt_Signature = Some \<lparr>sg_Sig = Some (7 # block_hash (ex_hs_env (\<lambda>_. None)) genesis), sg_Signer = i\<rparr>\<rparr>"


theorem hs_qc_one_signature_witness:
  "\<exists>qc. verifyQuorumCert (ex_hs_env (\<lambda>_. None)) (int 3) (Some qc) = Inr True \<and> qc_BlockHash qc = Some (replicate 64 5)
     \<and> (\<forall>k so. fmlookup (qc_Sigs qc) k = Some so \<longrightarrow> so = Some \<lparr>sg_Sig = Some (7 # replicate 64 5), sg_Signer = 3\<rparr>)"
  by (rule hs_qc_one_signature [OF ex_hs_env_ok]) (simp_all add: signer_verify_def ex_hs_env_def)

definition ex_hotstuff :: chainhotstuff where
  "ex_hotstuff = \<lparr>hs_id = 2, hs_peers = [0, 1, 2, 3], hs_msgs = [], hs_committedCmds = [], hs_timers = False, hs_f = 1,
     hs_cmdQueue = [], hs_pacemaker = newPacemaker, hs_quorumSize = 3, hs_blocks = fmempty, hs_lastVote = 0, hs_bLock = genesis,
     hs_bExec = genesis, hs_bLeaf = genesis, hs_highQC = \<lparr>qc_Sigs = fmempty, qc_BlockHash = None\<rparr>,
     hs_verifiedVotes = fmap_of_list [(block_hash (ex_hs_env (\<lambda>_. None)) genesis, [ex_vote 0, ex_vote 1])],
     hs_pendingVotes = fmempty, hs_pendingProposals = fmempty, hs_newView = fmempty,
     hs_verifyDispatcher = Dispatcher_Run (NewDispatcher 1 8)\<rparr>"

theorem hs_duplicate_vote_fatal_witness:
  "onVoteContinue (ex_hs_env (\<lambda>_. None)) (ex_vote 0) genesis ex_hotstuff = Inl FatalExit"
  by (rule hs_duplicate_vote_fatal [where votes = "[ex_vote 0, ex_vote 1]"])
    (simp_all add: ex_hotstuff_def ex_vote_def fmlookup_of_list)

end
