(* ===== verification/HotStuff_Local.thy ===== *)
theory HotStuff_Local
  imports HotStuff_Certs
begin

text \<open>
  What one HotStuff replica guarantees whatever messages it receives: its output queues only grow at the end, its lock
  never moves to a lower block, and \<open>commit\<close> executes the blocks between the last executed block and the
  decided one, oldest first. Then what it does not guarantee.
\<close>

subsection \<open>What every handler keeps\<close>

definition hs_ext :: "chainhotstuff \<Rightarrow> chainhotstuff \<Rightarrow> bool" where
  "hs_ext hs hs' \<longleftrightarrow> prefix (hs_msgs hs) (hs_msgs hs') \<and> prefix (hs_committedCmds hs) (hs_committedCmds hs')
     \<and> bs_Height (hs_bLock hs) \<le> bs_Height (hs_bLock hs') \<and> hs_id hs' = hs_id hs \<and> hs_peers hs' = hs_peers hs
     \<and> hs_f hs' = hs_f hs \<and> hs_quorumSize hs' = hs_quorumSize hs \<and> hs_timers hs' = hs_timers hs"

lemma hs_ext_refl [simp]: "hs_ext hs hs"
  by (simp add: hs_ext_def)

lemma hs_ext_trans: "hs_ext hs hs1 \<Longrightarrow> hs_ext hs1 hs2 \<Longrightarrow> hs_ext hs hs2"
  by (auto simp: hs_ext_def intro: prefix_order.trans order.trans)

lemma hs_ext_bind: "go_bind x f = Inr hs' \<Longrightarrow> (\<And>hs1. x = Inr hs1 \<Longrightarrow> hs_ext hs hs1) \<Longrightarrow>
    (\<And>hs1. x = Inr hs1 \<Longrightarrow> f hs1 = Inr hs' \<Longrightarrow> hs_ext hs1 hs') \<Longrightarrow> hs_ext hs hs'"
  by (auto simp: go_simps intro: hs_ext_trans)

text \<open>What a broadcast adds to the queue.\<close>

lemma hs_broadcast_eq:
  "hs_broadcast b self c hs = hs\<lparr>hs_msgs := hs_msgs hs @ map (\<lambda>q. \<lparr>msg_From = hs_id hs, msg_To = q, msg_Content = b, msg_Certificate = c\<rparr>)
     (filter (\<lambda>q. self \<or> q \<noteq> hs_id hs) (hs_peers hs))\<rparr>"
proof -
  have "fold (\<lambda>q hs'. if self \<or> q \<noteq> hs_id hs' then hs_enqueueForSending q b c hs' else hs') qs h =
      h\<lparr>hs_msgs := hs_msgs h @ map (\<lambda>q. \<lparr>msg_From = hs_id h, msg_To = q, msg_Content = b, msg_Certificate = c\<rparr>)
        (filter (\<lambda>q. self \<or> q \<noteq> hs_id h) qs)\<rparr>" for qs h
    by (induction qs arbitrary: h) (simp_all add: hs_enqueueForSending_def)
  then show ?thesis by (simp add: hs_broadcast_def)
qed

named_theorems hs_exts "one rule per operation: the state afterwards extends the state before"

lemma hs_ext_onPropose [hs_exts]: "hs_onPropose m hs = Inr hs' \<Longrightarrow> hs_ext hs hs'"
  by (auto simp: hs_onPropose_def Let_def go_simps hs_Exec_def hs_ext_def split: if_splits)

lemma hs_ext_propose [hs_exts]: "hs_propose E hs = Inr hs' \<Longrightarrow> hs_ext hs hs'"
  unfolding hs_propose_def Let_def
  by (drule hs_ext_onPropose) (auto simp: hs_ext_def hs_broadcast_eq put_block_def dest: append_prefixD)

lemma hs_ext_beat [hs_exts]: "pm_beat E hs = Inr hs' \<Longrightarrow> hs_ext hs hs'"
  by (auto simp: pm_beat_def Let_def go_simps dest!: hs_ext_propose split: if_splits) (simp add: hs_ext_def)

lemma hs_ext_updateHighQC [hs_exts]: "updateHighQC qc hs = Inr hs' \<Longrightarrow> hs_ext hs hs'"
  by (auto simp: updateHighQC_def hs_ext_def split: option.splits if_splits)

lemma hs_ext_onVote [hs_exts]: "hs_onVote m hs = Inr hs' \<Longrightarrow> hs_ext hs hs'"
  by (auto simp: hs_onVote_def cleanVotes_def queueBlockVote_def hs_Exec_def hs_ext_def Let_def
      split: option.splits if_splits)

lemma hs_commit_invariant:
  assumes "hs_commit blk hs = Some hs'" "I hs" "\<And>cmd hs. I hs \<Longrightarrow> I (hs_execute cmd hs)"
  shows "I hs'"
proof -
  have "I hs \<longrightarrow> I hs'" if "hs_commit blk hs = Some hs'" for blk hs hs'
    by (rule hs_commit.raw_induct [OF _ that, where P = "\<lambda>_ hs hs'. I hs \<longrightarrow> I hs'"])
      (auto simp: assms(3) split: if_splits option.splits bind_splits)
  with assms show ?thesis by blast
qed

lemma hs_ext_commit: "hs_commit blk hs = Some hs' \<Longrightarrow> hs_ext hs hs' \<and> hs_bLock hs' = hs_bLock hs \<and> hs_bExec hs' = hs_bExec hs"
  by (erule hs_commit_invariant) (auto simp: hs_ext_def hs_execute_def intro: prefix_order.trans)

lemma hs_ext_update [hs_exts]:
  assumes "hs_update E blk hs = Inr hs'"
  shows "hs_ext hs hs'"
proof (cases "qcRef (bs_QC blk) hs")
  case None
  with assms show ?thesis by (simp add: hs_update_def)
next
  case (Some block1)
  with assms obtain hs1 where hs1: "updateHighQC (bs_QC blk) hs = Inr hs1" and
    rest: "(case qcRef (bs_QC block1) hs1 of None \<Rightarrow> Inr hs1 | Some block2 \<Rightarrow>
        let hs2 = (if bs_Height block2 > bs_Height (hs_bLock hs1) then hs1\<lparr>hs_bLock := block2\<rparr> else hs1) in
        (case qcRef (bs_QC block2) hs2 of None \<Rightarrow> Inr hs2 | Some block3 \<Rightarrow>
           if hash_Array (bs_Parent block1) = block_hash E block2 \<and> hash_Array (bs_Parent block2) = block_hash E block3
           then (case hs_commit block3 hs2 of None \<Rightarrow> Inl Hang | Some hs3 \<Rightarrow> Inr (hs3\<lparr>hs_bExec := block3\<rparr>))
           else Inr hs2)) = Inr hs'"
    by (auto simp: hs_update_def go_simps)
  have lock: "hs_ext hs1 (if bs_Height block2 > bs_Height (hs_bLock hs1) then hs1\<lparr>hs_bLock := block2\<rparr> else hs1)" for block2
    by (simp add: hs_ext_def order.strict_implies_order)
  have exec: "hs_ext h (h'\<lparr>hs_bExec := b\<rparr>) = hs_ext h h'" for h h' b by (simp add: hs_ext_def)
  from rest have "hs_ext hs1 hs'"
    by (auto simp: Let_def exec split: option.splits if_splits dest!: hs_ext_commit intro: hs_ext_trans [OF lock])
      (auto simp: hs_ext_def)
  with hs_ext_updateHighQC [OF hs1] show ?thesis by (rule hs_ext_trans)
qed

lemma hs_ext_fold:
  "go_fold f xs hs = Inr hs' \<Longrightarrow> (\<And>x hs hs'. f x hs = Inr hs' \<Longrightarrow> hs_ext hs hs') \<Longrightarrow> hs_ext hs hs'"
  by (erule go_fold_invariant [where I = "hs_ext hs"]) (auto intro: hs_ext_trans)

lemma hs_ext_deliver [hs_exts]: "hs_deliver E blk hs = Inr hs' \<Longrightarrow> hs_ext hs hs'"
proof -
  assume res: "hs_deliver E blk hs = Inr hs'"
  have drop: "hs_ext (put_block E blk (hs\<lparr>hs_pendingVotes := x\<rparr>)) h = hs_ext hs h"
    "hs_ext (hs1\<lparr>hs_pendingProposals := y\<rparr>) h = hs_ext hs1 h" for h hs1 x y
    by (simp_all add: hs_ext_def put_block_def)
  from res show ?thesis unfolding hs_deliver_def Let_def
    by (elim hs_ext_bind) (auto simp: drop dest!: hs_ext_fold [OF _ hs_ext_onVote] hs_ext_onPropose split: option.splits)
qed

lemma hs_ext_finish [hs_exts]: "hs_finish E blk hs = Inr hs' \<Longrightarrow> hs_ext hs hs'"
  unfolding hs_finish_def by (elim hs_ext_bind) (auto intro: hs_exts)

text \<open>The state in which a replica votes for \<open>blk\<close>, and its vote.\<close>

definition voted :: "hs_env \<Rightarrow> BlockState \<Rightarrow> chainhotstuff \<Rightarrow> chainhotstuff" where
  "voted E blk hs = (put_block E blk (pm_onPropose hs))\<lparr>hs_lastVote := bs_Height blk\<rparr>"

definition the_vote :: "hs_env \<Rightarrow> BlockState \<Rightarrow> bytes \<Rightarrow> PeerID \<Rightarrow> VoteMessage" where
  "the_vote E blk sig i = \<lparr>vt_BlockHash = Some (block_hash E blk), vt_Signature = Some \<lparr>sg_Sig = Some sig, sg_Signer = i\<rparr>\<rparr>"

lemma onProposeContinue_cases:
  assumes "onProposeContinue E m blk hs = Inr hs'"
  obtains (queued) "queueBlockPropose m hs = Inr hs'"
  | (unsigned) "hs' = pm_onPropose hs"
  | (self) qc sig hs1 where "bs_QC blk = Some qc" "is_safe E qc blk hs = Inr True"
      "hs_finish E blk (voted E blk hs) = Inr hs1" "hs_onVote (the_vote E blk sig (hs_id hs)) hs1 = Inr hs'"
  | (sent) qc sig l where "bs_QC blk = Some qc" "is_safe E qc blk hs = Inr True"
      "hs_finish E blk (hs_sendTo l (env_marshalHS E (CHM_Vote (the_vote E blk sig (hs_id hs)))) [] (voted E blk hs)) = Inr hs'"
proof -
  from assms obtain qc safe where qc: "bs_QC blk = Some qc" "is_safe E qc blk hs = Inr safe"
    by (auto simp: onProposeContinue_def go_simps split: option.splits)
  have hid: "hs_id (voted E blk hs) = hs_id hs" by (simp add: voted_def put_block_def pm_onPropose_def)
  show thesis
  proof (cases "\<not> safe \<or> signer_sign E (block_hash E blk) = None")
    case True
    with assms qc queued unsigned show thesis by (auto simp: onProposeContinue_def Let_def split: option.splits if_splits)
  next
    case False
    then obtain sig where sig: "signer_sign E (block_hash E blk) = Some sig" and safe: "safe" by auto
    let ?v = "voted E blk hs"
    have "go_bind (getLeader ?v (bs_Height blk + 1)) (\<lambda>l.
        if l = hs_id ?v then go_bind (hs_finish E blk ?v) (hs_onVote (the_vote E blk sig (hs_id ?v)))
        else hs_finish E blk (hs_sendTo l (env_marshalHS E (CHM_Vote (the_vote E blk sig (hs_id ?v)))) [] ?v)) = Inr hs'"
      using assms qc sig safe unfolding onProposeContinue_def Let_def voted_def the_vote_def by simp
    with qc safe hid self sent show thesis by (auto simp: go_simps split: if_splits)
  qed
qed

lemma hs_ext_onProposeContinue [hs_exts]:
  assumes "onProposeContinue E m blk hs = Inr hs'"
  shows "hs_ext hs hs'"
proof -
  have snd: "hs_ext hs (hs_sendTo l b c (voted E blk hs))" "hs_ext hs (voted E blk hs)" for l b c
    by (simp_all add: hs_ext_def voted_def hs_sendTo_def hs_enqueueForSending_def put_block_def pm_onPropose_def)
  from assms show ?thesis
  proof (cases rule: onProposeContinue_cases)
    case queued
    then show ?thesis by (auto simp: queueBlockPropose_def hs_ext_def split: option.splits)
  next
    case unsigned
    then show ?thesis by (simp add: hs_ext_def pm_onPropose_def)
  next
    case (self qc sig hs1)
    then show ?thesis using snd by (blast intro: hs_ext_trans hs_exts)
  next
    case (sent qc sig l)
    then show ?thesis using snd by (blast intro: hs_ext_trans hs_exts)
  qed
qed

lemma hs_ext_onVoteContinue [hs_exts]:
  assumes "onVoteContinue E m blk hs = Inr hs'"
  shows "hs_ext hs hs'"
proof -
  have upd: "hs_ext (hs\<lparr>hs_verifiedVotes := x\<rparr>) h = hs_ext hs h" "hs_ext hs (h\<lparr>hs_verifiedVotes := x\<rparr>) = hs_ext hs h" for x h
    by (simp_all add: hs_ext_def)
  have cert: "(case r of Inl err \<Rightarrow> Inl FatalExit | Inr qc \<Rightarrow> go_bind (updateHighQC (Some qc) h) (pm_onFinishQC E)) = Inr h' \<Longrightarrow> hs_ext h h'" for r h h'
    by (cases r) (auto simp: go_simps pm_onFinishQC_def dest!: hs_ext_updateHighQC hs_ext_beat intro: hs_ext_trans)
  from assms show ?thesis
    by (auto simp: onVoteContinue_def Let_def go_simps upd split: if_splits dest!: cert)
qed

lemma hs_ext_onNewViewContinue [hs_exts]:
  assumes "onNewViewContinue E ok from m hs = Inr hs'"
  shows "hs_ext hs hs'"
proof -
  have upd: "hs_ext (h1\<lparr>hs_newView := x\<rparr>) h = hs_ext h1 h" "hs_ext h1 (h\<lparr>hs_newView := x\<rparr>) = hs_ext h1 h" for x h1 h
    by (simp_all add: hs_ext_def)
  from assms show ?thesis unfolding onNewViewContinue_def
    by (elim hs_ext_bind) (auto simp: Let_def pm_onNewView_def upd split: if_splits dest!: hs_exts)
qed

lemma hs_ext_AsyncCallback [hs_exts]: "hs_AsyncCallback E hs = Inr hs' \<Longrightarrow> hs_ext hs hs'"
proof -
  have upd: "hs_ext (hs\<lparr>hs_verifyDispatcher := x\<rparr>) h = hs_ext hs h" for x h by (simp add: hs_ext_def)
  have cb: "hs_callback E j r h = Inr h' \<Longrightarrow> hs_ext h h'" for j r h h'
    by (cases j) (auto simp: hs_callback_def go_simps split: if_splits intro: hs_exts)
  show "hs_AsyncCallback E hs = Inr hs' \<Longrightarrow> hs_ext hs hs'" unfolding hs_AsyncCallback_def drain_callbacks_def
    by (auto dest!: hs_ext_fold simp: upd) (auto dest: cb)
qed

lemma hs_ext_onNewView: "hs_ext hs (hs_onNewView from m hs)"
  by (simp add: hs_ext_def hs_onNewView_def cleanNewView_def hs_Exec_def)

lemma hs_ext_Step [hs_exts]: "hs_Step E m hs = Inr hs' \<Longrightarrow> hs_ext hs hs'"
  by (auto simp: hs_Step_def hs_ext_onNewView split: option.splits ChainHotstuffMessage.splits intro: hs_exts)

lemma hs_ext_Request [hs_exts]: "hs_Request E cmd hs = Inr hs' \<Longrightarrow> hs_ext hs hs'"
  unfolding hs_Request_def hs_onRequest_def by (drule hs_ext_beat) (simp add: hs_ext_def)

lemma hs_ext_onTimeout [hs_exts]: "pm_onTimeout E hs = Inr hs' \<Longrightarrow> hs_ext hs hs'"
  by (auto simp: pm_onTimeout_def startNewView_def Let_def go_simps createDummy_def put_block_def hs_onNewView_def
      cleanNewView_def hs_Exec_def hs_sendTo_def hs_enqueueForSending_def hs_ext_def split: if_splits)

lemma hs_ext_Tick [hs_exts]: "hs_Tick E hs = Inr hs' \<Longrightarrow> hs_ext hs hs'"
proof -
  have upd: "hs_ext (hs\<lparr>hs_pacemaker := x\<rparr>) h = hs_ext hs h" for x h by (simp add: hs_ext_def)
  show "hs_Tick E hs = Inr hs' \<Longrightarrow> hs_ext hs hs'"
    by (auto simp: hs_Tick_def upd split: if_splits prod.splits dest!: hs_ext_fold) (auto intro: hs_exts)
qed

interpretation hs_out: protocol_output "hs_Protocol E" hs_msgs hs_committedCmds
  by unfold_locales
    (auto simp: hs_Protocol_def hs_MakeReady_def hs_ClearMsgs_def hs_ClearExecutedCommands_def hs_Callback_def
      dest!: hs_exts simp: hs_ext_def)


subsection \<open>A replica between two points of its run\<close>

text \<open>
  What can happen to a replica: a message, a request, a tick, a step of one thread of its worker pool, the callbacks, and the
  two operations by which the peer empties the queues. \<open>None\<close> means that the thread cannot proceed.
\<close>

datatype hs_act = HStep Message | HRequest Command | HTick | HTake | HAssign | HFinish nat | HAsync | HClearMsgs | HClearCmds

definition hs_pool :: "((hs_job, bool go) Dispatcher \<Rightarrow> (hs_job, bool go) Dispatcher option) \<Rightarrow> chainhotstuff \<Rightarrow> chainhotstuff go option" where
  "hs_pool g hs = map_option (\<lambda>d. Inr (hs\<lparr>hs_verifyDispatcher := d\<rparr>)) (g (hs_verifyDispatcher hs))"

fun hs_do :: "hs_env \<Rightarrow> hs_act \<Rightarrow> chainhotstuff \<Rightarrow> chainhotstuff go option" where
  "hs_do E (HStep m) hs = Some (hs_Step E m hs)"
| "hs_do E (HRequest c) hs = Some (hs_Request E c hs)"
| "hs_do E HTick hs = Some (hs_Tick E hs)"
| "hs_do E HTake hs = hs_pool dispatch_take hs"
| "hs_do E HAssign hs = hs_pool dispatch_assign hs"
| "hs_do E (HFinish i) hs = hs_pool (worker_finish (hs_exec E (hs_quorumSize hs)) i) hs"
| "hs_do E HAsync hs = Some (hs_AsyncCallback E hs)"
| "hs_do E HClearMsgs hs = Some (Inr (hs_ClearMsgs hs))"
| "hs_do E HClearCmds hs = Some (Inr (hs_ClearExecutedCommands hs))"

inductive hs_move :: "hs_env \<Rightarrow> chainhotstuff \<Rightarrow> chainhotstuff \<Rightarrow> bool" for E where
  hs_moved: "hs_do E a hs = Some (Inr hs') \<Longrightarrow> hs_move E hs hs'"

fun hs_run :: "hs_env \<Rightarrow> hs_act list \<Rightarrow> chainhotstuff \<Rightarrow> chainhotstuff go option" where
  "hs_run E [] hs = Some (Inr hs)"
| "hs_run E (a # as) hs = (case hs_do E a hs of Some (Inr hs') \<Rightarrow> hs_run E as hs' | r \<Rightarrow> r)"

lemma hs_run_moves: "hs_run E as hs = Some (Inr hs') \<Longrightarrow> (hs_move E)\<^sup>*\<^sup>* hs hs'"
  by (induction as arbitrary: hs)
    (auto split: option.splits sum.splits intro: converse_rtranclp_into_rtranclp hs_moved)

lemma hs_move_lock:
  assumes "hs_move E hs hs'"
  shows "bs_Height (hs_bLock hs) \<le> bs_Height (hs_bLock hs')"
proof -
  from assms obtain a where "hs_do E a hs = Some (Inr hs')" by (auto elim: hs_move.cases)
  then have "hs_ext hs hs' \<or> hs_bLock hs' = hs_bLock hs"
    by (cases a) (auto simp: hs_pool_def hs_ClearMsgs_def hs_ClearExecutedCommands_def dest: hs_exts)
  then show ?thesis by (auto simp: hs_ext_def)
qed

text \<open>
  Claim C14. The lock of a HotStuff replica never moves to a lower block, whatever messages it receives, from correct or
  from Byzantine replicas, and however its threads interleave.
\<close>

theorem hs_lock_monotone:
  assumes "(hs_move E)\<^sup>*\<^sup>* hs hs'"
  shows "bs_Height (hs_bLock hs) \<le> bs_Height (hs_bLock hs')"
  using assms by induction (auto dest: hs_move_lock)

text \<open>
  A peer that runs HotStuff loses, duplicates and reorders no message and no command, under every
  interleaving of its threads.
\<close>

theorem hs_peer_streams_grow:
  assumes "(peer_step V (hs_Protocol E))\<^sup>*\<^sup>* p p'"
  shows "prefix (pe_sent p @ concat (pe_toSend p) @ hs_msgs (pe_n p))
      (pe_sent p' @ concat (pe_toSend p') @ hs_msgs (pe_n p'))
    \<and> prefix (pe_applied p @ pe_applying p @ concat (pe_toApply p) @ pe_handoff p @ hs_committedCmds (pe_n p))
      (pe_applied p' @ pe_applying p' @ concat (pe_toApply p') @ pe_handoff p' @ hs_committedCmds (pe_n p'))"
  using hs_out.peer_steps_stream [OF assms] unfolding hs_out.messages.msg_stream_def hs_out.commands.cmd_stream_def .

subsection \<open>Execution\<close>

text \<open>The blocks above height \<open>h\<close> from which \<open>b\<close> descends, and \<open>b\<close>, oldest first, as far as the parents are known.\<close>

inductive lineage :: "(bytes, BlockState) fmap \<Rightarrow> u64 \<Rightarrow> BlockState \<Rightarrow> BlockState list \<Rightarrow> bool" for blocks h where
  below: "bs_Height b \<le> h \<Longrightarrow> lineage blocks h b []"
| orphan: "h < bs_Height b \<Longrightarrow> fmlookup blocks (hash_Array (bs_Parent b)) = None \<Longrightarrow> lineage blocks h b [b]"
| child: "h < bs_Height b \<Longrightarrow> fmlookup blocks (hash_Array (bs_Parent b)) = Some p \<Longrightarrow> lineage blocks h p bs \<Longrightarrow>
    lineage blocks h b (bs @ [b])"

definition block_cmds :: "BlockState list \<Rightarrow> Command list" where
  "block_cmds bs = List.map_filter (\<lambda>b. if bs_QC b = None then None else bs_Command b) bs"

lemma block_cmds_simps [simp]:
  "block_cmds [] = []"
  "block_cmds (bs @ [b]) = block_cmds bs @ (case bs_Command b of None \<Rightarrow> [] | Some c \<Rightarrow> if bs_QC b = None then [] else [c])"
  by (simp_all add: block_cmds_def List.map_filter_def split: option.split)

lemma block_cmds_single [simp]:
  "block_cmds [b] = (case bs_Command b of None \<Rightarrow> [] | Some c \<Rightarrow> if bs_QC b = None then [] else [c])"
  using block_cmds_simps(2) [of "[]" b] by simp

lemma hs_commit_lineage:
  assumes "lineage (hs_blocks hs) (bs_Height (hs_bExec hs)) b bs"
  shows "hs_commit b hs = Some (hs\<lparr>hs_committedCmds := hs_committedCmds hs @ map mkExecPacket (block_cmds bs)\<rparr>)"
  using assms
proof induction
  case (below b)
  then show ?case by (subst hs_commit.simps) (simp add: leD)
next
  case (orphan b)
  then show ?case by (subst hs_commit.simps) (simp add: hs_execute_def split: option.split)
next
  case (child b p bs)
  then show ?case by (subst hs_commit.simps) (simp add: hs_execute_def split: option.split)
qed

lemma lineage_exists:
  assumes "\<And>h b p. fmlookup blocks h = Some b \<Longrightarrow> fmlookup blocks (hash_Array (bs_Parent b)) = Some p \<Longrightarrow>
      bs_Height b = 0 \<or> bs_Height p < bs_Height b"
  shows "fmlookup blocks k = Some b \<Longrightarrow> \<exists>bs. lineage blocks h b bs"
proof (induction "unat (bs_Height b)" arbitrary: b k rule: less_induct)
  case less
  show ?case
  proof (cases "h < bs_Height b")
    case True
    show ?thesis
    proof (cases "fmlookup blocks (hash_Array (bs_Parent b))")
      case None
      with True show ?thesis by (blast intro: orphan)
    next
      case (Some p)
      with assms [OF less.prems] True have "bs_Height p < bs_Height b" by auto
      with less.hyps [of p, OF _ Some] obtain bs where "lineage blocks h p bs" by (auto simp: word_less_nat_alt)
      with True Some show ?thesis by (blast intro: child)
    qed
  next
    case False
    then show ?thesis by (meson below not_less)
  qed
qed



subsection \<open>Runs of one replica\<close>

text \<open>
  The chain of the examples: the block of height \<open>k\<close> carries command \<open>k\<close>, its parent is the block below, and it holds
  the certificate of its parent, signed by seven of ten replicas.
\<close>

definition hs_cmd :: "nat \<Rightarrow> Command" where
  "hs_cmd k = \<lparr>cmd_Timestamp = of_nat k, cmd_Ops = [], cmd_Target = 0, cmd_Meta = [], cmd_ConflictKey = [], cmd_TraceInfo = fmempty\<rparr>"

definition ex_qc :: "BlockState \<Rightarrow> QuorumCert" where
  "ex_qc b = (let h = block_hash (ex_hs_env (\<lambda>_. None)) b in
     \<lparr>qc_Sigs = fmap_of_list (map (\<lambda>i. (i, Some \<lparr>sg_Sig = Some (7 # h), sg_Signer = i\<rparr>)) [0, 1, 2, 3, 4, 5, 6]), qc_BlockHash = Some h\<rparr>)"

definition ex_child :: "BlockState \<Rightarrow> BlockState \<Rightarrow> nat \<Rightarrow> BlockState" where
  "ex_child parent certified k = newBlock (block_hash (ex_hs_env (\<lambda>_. None)) parent) (Some (hs_cmd k)) (Some (ex_qc certified))
     (bs_Height parent + 1) ((bs_Height parent + 1) mod 10)"

fun ex_chain :: "nat \<Rightarrow> BlockState" where
  "ex_chain 0 = genesis"
| "ex_chain (Suc k) = ex_child (ex_chain k) (ex_chain k) (Suc k)"

text \<open>A message whose only byte is the number of a proposal: 1 to 6 are the chain, 7 a block on top of it that carries an old certificate, 8 the next block, 9 another block of height 1.\<close>

definition ex_proposals :: "bytes \<Rightarrow> ChainHotstuffMessage option" where
  "ex_proposals b = (if length b = 1 then Some (CHM_Propose \<lparr>pp_BlockState =
       (if b = [7] then ex_child (ex_chain 6) (ex_chain 3) 7
        else if b = [8] then (ex_child (ex_chain 6) (ex_chain 6) 8)\<lparr>bs_Height := 8, bs_Proposer := 8\<rparr>
        else if b = [9] then ex_child genesis genesis 9
        else ex_chain (unat (hd b)))\<rparr>) else None)"

abbreviation ex_E :: hs_env where
  "ex_E \<equiv> ex_hs_env ex_proposals"

definition ex_hs_config :: LocalConfig where
  "ex_hs_config = \<lparr>cfg_ID = 0, cfg_Peers = [0, 1, 2, 3, 4, 5, 6, 7, 8, 9], cfg_LeaderID = 0, cfg_MaxFailures = 3,
     cfg_Workers = fmap_of_list [(''edd_verify'', 1)], cfg_WorkersQueueSizes = fmap_of_list [(''edd_verify'', 8)]\<rparr>"

definition ex_recv :: "byte \<Rightarrow> hs_act" where
  "ex_recv k = HStep \<lparr>msg_From = 1, msg_To = 0, msg_Content = [k], msg_Certificate = []\<rparr>"

definition ex_work :: "hs_act list" where
  "ex_work = [HTake, HAssign, HFinish 0]"

definition ex_start :: "hs_act list \<Rightarrow> chainhotstuff go option" where
  "ex_start as = (case NewChainHotstuff ex_E ex_hs_config of Inl e \<Rightarrow> Some (Inl e) | Inr hs \<Rightarrow> hs_run ex_E as hs)"

definition ex_out :: "(chainhotstuff \<Rightarrow> 'a) \<Rightarrow> chainhotstuff go option \<Rightarrow> 'a option" where
  "ex_out f r = (case r of Some (Inr hs) \<Rightarrow> Some (f hs) | _ \<Rightarrow> None)"

lemma ex_out_moves:
  assumes "ex_out f (ex_start as) = Some x"
  obtains hs0 hs where "NewChainHotstuff ex_E ex_hs_config = Inr hs0" "(hs_move ex_E)\<^sup>*\<^sup>* hs0 hs" "f hs = x"
  using assms by (auto simp: ex_out_def ex_start_def split: sum.splits option.splits dest: hs_run_moves)

lemma ex_double_vote:
  "ex_out (\<lambda>hs. map (\<lambda>m. (msg_To m, msg_Content m)) (hs_msgs hs))
     (ex_start ([ex_recv 1, ex_recv 9] @ ex_work @ ex_work @ [HAsync]))
   = Some (map (\<lambda>b. (2, env_marshalHS ex_E (CHM_Vote (the_vote ex_E b (7 # block_hash ex_E b) 0)))) [ex_chain 1, ex_child genesis genesis 9])"
  by code_simp

lemma ex_reexecution:
  "ex_out (\<lambda>hs. map (cmd_Timestamp \<circ> ep_Cmd) (hs_committedCmds hs))
     (ex_start (concat (map (\<lambda>k. ex_recv k # ex_work @ [HAsync]) [1, 2, 3, 4, 5, 6, 7, 8])))
   = Some [1, 2, 3, 2, 3, 4]"
  by code_simp

text \<open>
  A replica can vote for two blocks of the same height: \<open>onPropose\<close> compares the height with \<open>lastVote\<close> before the certificate is
  verified in the pool, and \<open>onProposeContinue\<close> does not compare again. A replica that starts and receives two
  proposals of height 1 before its callbacks run sends the next leader a vote for each.
\<close>

theorem hs_votes_twice:
  "\<exists>hs0 hs a b. NewChainHotstuff ex_E ex_hs_config = Inr hs0 \<and> (hs_move ex_E)\<^sup>*\<^sup>* hs0 hs
     \<and> bs_Height a = 1 \<and> bs_Height b = 1 \<and> block_hash ex_E a \<noteq> block_hash ex_E b
     \<and> map (\<lambda>m. (msg_To m, msg_Content m)) (hs_msgs hs)
       = map (\<lambda>x. (2, env_marshalHS ex_E (CHM_Vote (the_vote ex_E x (7 # block_hash ex_E x) 0)))) [a, b]"
proof -
  obtain hs0 hs where *: "NewChainHotstuff ex_E ex_hs_config = Inr hs0" "(hs_move ex_E)\<^sup>*\<^sup>* hs0 hs"
    "map (\<lambda>m. (msg_To m, msg_Content m)) (hs_msgs hs)
       = map (\<lambda>x. (2, env_marshalHS ex_E (CHM_Vote (the_vote ex_E x (7 # block_hash ex_E x) 0)))) [ex_chain 1, ex_child genesis genesis 9]"
    by (rule ex_out_moves [OF ex_double_vote])
  have "bs_Height (ex_chain 1) = 1" "bs_Height (ex_child genesis genesis 9) = 1"
    "block_hash ex_E (ex_chain 1) \<noteq> block_hash ex_E (ex_child genesis genesis 9)" by code_simp+
  with * show ?thesis by blast
qed

text \<open>
  Claim C40. A Byzantine leader can make a correct replica execute commands twice, with nothing but genuine certificates: \<open>update\<close> sets
  \<open>bExec\<close> to the decided block even when \<open>commit\<close> found it below \<open>bExec\<close>. A proposal that extends the chain and carries the
  certificate of an old block moves \<open>bExec\<close> back, and the next decision executes the blocks in between again.
\<close>

theorem hs_executes_twice:
  "\<exists>hs0 hs. NewChainHotstuff ex_E ex_hs_config = Inr hs0 \<and> (hs_move ex_E)\<^sup>*\<^sup>* hs0 hs
     \<and> map (cmd_Timestamp \<circ> ep_Cmd) (hs_committedCmds hs) = [1, 2, 3, 2, 3, 4]"
proof -
  obtain hs0 hs where "NewChainHotstuff ex_E ex_hs_config = Inr hs0" "(hs_move ex_E)\<^sup>*\<^sup>* hs0 hs"
    "map (cmd_Timestamp \<circ> ep_Cmd) (hs_committedCmds hs) = [1, 2, 3, 2, 3, 4]" by (rule ex_out_moves [OF ex_reexecution])
  then show ?thesis by (intro exI conjI)
qed

subsection \<open>Witnesses\<close>

theorem hs_lock_monotone_witness:
  "\<exists>hs0 hs. NewChainHotstuff ex_E ex_hs_config = Inr hs0 \<and> (hs_move ex_E)\<^sup>*\<^sup>* hs0 hs \<and> bs_Height (hs_bLock hs) = 4
     \<and> bs_Height (hs_bLock hs0) \<le> bs_Height (hs_bLock hs)"
proof -
  have "ex_out (\<lambda>hs. bs_Height (hs_bLock hs)) (ex_start (concat (map (\<lambda>k. ex_recv k # ex_work @ [HAsync]) [1, 2, 3, 4, 5, 6]))) = Some 4"
    by code_simp
  then obtain hs0 hs where *: "NewChainHotstuff ex_E ex_hs_config = Inr hs0" "(hs_move ex_E)\<^sup>*\<^sup>* hs0 hs"
    "bs_Height (hs_bLock hs) = 4" by (rule ex_out_moves)
  from * hs_lock_monotone [OF *(2)] show ?thesis by blast
qed

definition ex_two_blocks :: chainhotstuff where
  "ex_two_blocks = ex_hotstuff\<lparr>hs_blocks := fmap_of_list [(block_hash ex_E genesis, genesis), (block_hash ex_E (ex_chain 1), ex_chain 1)]\<rparr>"

lemma ex_two_blocks_look:
  "fmlookup (hs_blocks ex_two_blocks) h =
     (if h = block_hash ex_E genesis then Some genesis else if h = block_hash ex_E (ex_chain 1) then Some (ex_chain 1) else None)"
  by (simp add: ex_two_blocks_def fmlookup_of_list del: ex_chain.simps)


theorem hs_peer_streams_grow_witness:
  "\<exists>p p' m. (peer_step ex_peer_env (hs_Protocol ex_E))\<^sup>*\<^sup>* p p' \<and> hs_msgs (pe_n p) = [m] \<and> pe_sent p' = [m]
     \<and> prefix (pe_sent p @ concat (pe_toSend p) @ hs_msgs (pe_n p)) (pe_sent p' @ concat (pe_toSend p') @ hs_msgs (pe_n p'))"
proof -
  let ?S = "peer_step ex_peer_env (hs_Protocol ex_E)"
  let ?m = "\<lparr>msg_From = 2, msg_To = 0, msg_Content = [1], msg_Certificate = []\<rparr>"
  let ?r = "ex_hotstuff\<lparr>hs_msgs := [?m]\<rparr>"
  let ?p = "(Peer_New 2 [0, 1, 2, 3] 1 ?r)\<lparr>pe_sig := True\<rparr>"
  let ?q = "?p\<lparr>pe_sig := False, pe_toSend := [[?m]], pe_n := ?r\<lparr>hs_msgs := []\<rparr>\<rparr>"
  have "Peer_round (hs_Protocol ex_E) ?p = Inr ?q"
    by (simp add: Peer_round_def Let_def Peer_New_def flushMsgs_def hs_Protocol_def hs_AsyncCallback_def drain_callbacks_def
        Peer_rb_flush_def reqBuf_flush_def reqBuf_init_def flushCmds_def RunOnce_def trySendMessages_def hs_MakeReady_def
        hs_ClearMsgs_def hs_ClearExecutedCommands_def ex_hotstuff_def Dispatcher_Run_def NewDispatcher_def)
  then have "?S ?p ?q" by (rule peer_step.round [rotated 3]) (simp_all add: Peer_New_def)
  moreover have "?S ?q (sendMessages [?m] (?q\<lparr>pe_toSend := []\<rparr>))" by (rule peer_step.send) simp
  ultimately have *: "?S\<^sup>*\<^sup>* ?p (sendMessages [?m] (?q\<lparr>pe_toSend := []\<rparr>))" by simp
  have "pe_sent (sendMessages [?m] (?q\<lparr>pe_toSend := []\<rparr>)) = [?m]" by (simp add: sendMessages_def Peer_New_def)
  moreover have "hs_msgs (pe_n ?p) = [?m]" by (simp add: Peer_New_def)
  ultimately show ?thesis using * hs_peer_streams_grow [OF *] by blast
qed

end
