(* ===== verification/HotStuff_Cluster.thy ===== *)
theory HotStuff_Cluster
  imports HotStuff_Local
begin

text \<open>
  A cluster of HotStuff replicas whose leaders run the code or crash, while votes and new-view messages may come from
  anyone: all replicas build one chain. A leader proposes at most once per height (\<open>lastBeat\<close>), always
  on top of a block it knows.
\<close>

subsection \<open>The blocks proposed\<close>

text \<open>The height of a block, its hash and the hash of its parent.\<close>

type_synonym link = "u64 \<times> bytes \<times> bytes"

definition block_link :: "hs_env \<Rightarrow> BlockState \<Rightarrow> link" where
  "block_link E b = (bs_Height b, block_hash E b, hash_Array (bs_Parent b))"

text \<open>
  \<open>IS\<close> is a chain: one link per height, from the genesis block up. Height 0 is left out: it is the height of the genesis block,
  and of a block proposed after \<open>2 ^ 64\<close> rounds, which every replica ignores.
\<close>

definition chain_ok :: "hs_env \<Rightarrow> link set \<Rightarrow> bool" where
  "chain_ok E IS \<longleftrightarrow> (\<forall>(k, h, p) \<in> IS. k \<noteq> 0)
     \<and> (\<forall>k h p h' p'. (k, h, p) \<in> IS \<longrightarrow> (k, h', p') \<in> IS \<longrightarrow> h' = h \<and> p' = p)
     \<and> (\<forall>(k, h, p) \<in> IS. if k = 1 then p = block_hash E genesis else \<exists>p'. (k - 1, p, p') \<in> IS)"

definition linked :: "hs_env \<Rightarrow> link set \<Rightarrow> BlockState \<Rightarrow> bool" where
  "linked E IS b \<longleftrightarrow> (bs_Height b \<noteq> 0 \<longrightarrow> block_link E b \<in> IS)"

fun job_linked :: "hs_env \<Rightarrow> link set \<Rightarrow> hs_job \<Rightarrow> bool" where
  "job_linked E IS (VerifyPropose m blk) \<longleftrightarrow> pp_BlockState m = blk \<and> linked E IS blk"
| "job_linked E IS _ \<longleftrightarrow> True"

definition content_linked :: "hs_env \<Rightarrow> link set \<Rightarrow> bytes \<Rightarrow> bool" where
  "content_linked E IS c \<longleftrightarrow> (\<forall>m. env_unmarshalHS E c = Some (CHM_Propose m) \<longrightarrow> linked E IS (pp_BlockState m))"

text \<open>A replica has beaten for every link of its own.\<close>

definition beaten :: "nat \<Rightarrow> link set \<Rightarrow> PeerID \<Rightarrow> u64 \<Rightarrow> bool" where
  "beaten n IS i l \<longleftrightarrow> (\<forall>k h p. (k, h, p) \<in> IS \<longrightarrow> go_umod k n = Inr i \<longrightarrow> k - 1 \<le> l)"

definition hs_inv :: "hs_env \<Rightarrow> nat \<Rightarrow> link set \<Rightarrow> chainhotstuff \<Rightarrow> bool" where
  "hs_inv E n IS hs \<longleftrightarrow> length (hs_peers hs) = n \<and> \<not> hs_timers hs
     \<and> (\<forall>h b. fmlookup (hs_blocks hs) h = Some b \<longrightarrow> linked E IS b)
     \<and> linked E IS (hs_bLock hs) \<and> linked E IS (hs_bExec hs)
     \<and> (hs_bLeaf hs = genesis \<or> bs_Height (hs_bLeaf hs) \<noteq> 0 \<and> linked E IS (hs_bLeaf hs))
     \<and> (\<forall>j \<in># pool_jobs (hs_verifyDispatcher hs). job_linked E IS j)
     \<and> (\<forall>h m. fmlookup (hs_pendingProposals hs) h = Some m \<longrightarrow> linked E IS (pp_BlockState m))
     \<and> (\<forall>m \<in> set (hs_msgs hs). content_linked E IS (msg_Content m))
     \<and> beaten n IS (hs_id hs) (pk_lastBeat (hs_pacemaker hs))"

lemma hs_invD:
  assumes "hs_inv E n IS hs"
  shows "length (hs_peers hs) = n" "\<not> hs_timers hs" "\<And>h b. fmlookup (hs_blocks hs) h = Some b \<Longrightarrow> linked E IS b"
    "linked E IS (hs_bLock hs)" "linked E IS (hs_bExec hs)"
    "hs_bLeaf hs = genesis \<or> bs_Height (hs_bLeaf hs) \<noteq> 0 \<and> linked E IS (hs_bLeaf hs)"
    "\<And>j. j \<in># pool_jobs (hs_verifyDispatcher hs) \<Longrightarrow> job_linked E IS j"
    "\<And>h m. fmlookup (hs_pendingProposals hs) h = Some m \<Longrightarrow> linked E IS (pp_BlockState m)"
    "\<And>m. m \<in> set (hs_msgs hs) \<Longrightarrow> content_linked E IS (msg_Content m)"
    "beaten n IS (hs_id hs) (pk_lastBeat (hs_pacemaker hs))"
  using assms unfolding hs_inv_def by blast+

lemma linked_mono: "linked E IS b \<Longrightarrow> IS \<subseteq> IS' \<Longrightarrow> linked E IS' b"
  by (auto simp: linked_def)

lemma job_linked_mono: "job_linked E IS j \<Longrightarrow> IS \<subseteq> IS' \<Longrightarrow> job_linked E IS' j"
  by (cases j) (auto intro: linked_mono)

lemma content_linked_mono: "content_linked E IS c \<Longrightarrow> IS \<subseteq> IS' \<Longrightarrow> content_linked E IS' c"
  unfolding content_linked_def by (blast intro: linked_mono)

lemma hs_inv_mono:
  assumes "hs_inv E n IS hs" "IS \<subseteq> IS'"
    and "beaten n IS' (hs_id hs) (pk_lastBeat (hs_pacemaker hs))"
  shows "hs_inv E n IS' hs"
proof -
  note d = hs_invD [OF assms(1)] and l = linked_mono [OF _ assms(2)]
  show ?thesis unfolding hs_inv_def
    by (intro conjI allI impI ballI)
      (use d l job_linked_mono [OF _ assms(2)] content_linked_mono [OF _ assms(2)] assms(3) in blast)+
qed

subsection \<open>Operations that propose nothing\<close>

text \<open>Each keeps the invariant, the identity and the last beat.\<close>

definition hs_keeps :: "hs_env \<Rightarrow> nat \<Rightarrow> link set \<Rightarrow> chainhotstuff \<Rightarrow> chainhotstuff \<Rightarrow> bool" where
  "hs_keeps E n IS hs hs' \<longleftrightarrow> (hs_inv E n IS hs \<longrightarrow> hs_inv E n IS hs') \<and> hs_id hs' = hs_id hs"

lemma hs_keeps_refl [simp]: "hs_keeps E n IS hs hs"
  by (simp add: hs_keeps_def)

lemma hs_keeps_trans: "hs_keeps E n IS hs hs1 \<Longrightarrow> hs_keeps E n IS hs1 hs2 \<Longrightarrow> hs_keeps E n IS hs hs2"
  by (auto simp: hs_keeps_def)

lemma hs_keeps_frame:
  assumes "hs_peers hs' = hs_peers hs" "hs_timers hs' = hs_timers hs" "hs_blocks hs' = hs_blocks hs"
    "hs_bLock hs' = hs_bLock hs" "hs_bExec hs' = hs_bExec hs" "hs_bLeaf hs' = hs_bLeaf hs"
    "hs_verifyDispatcher hs' = hs_verifyDispatcher hs" "hs_pendingProposals hs' = hs_pendingProposals hs"
    "hs_msgs hs' = hs_msgs hs" "hs_id hs' = hs_id hs" "pk_lastBeat (hs_pacemaker hs') = pk_lastBeat (hs_pacemaker hs)"
  shows "hs_keeps E n IS hs hs'"
  using assms by (simp add: hs_keeps_def hs_inv_def)

named_theorems hs_keep "operations that keep the invariant"

lemma keeps_Exec: "job_linked E IS j \<Longrightarrow> hs_keeps E n IS hs (hs_Exec j hs)"
  by (auto simp: hs_keeps_def hs_inv_def hs_Exec_def)

lemma keeps_onPropose:
  "hs_onPropose m hs = Inr hs' \<Longrightarrow> linked E IS (pp_BlockState m) \<Longrightarrow> hs_keeps E n IS hs hs'"
  by (auto simp: hs_onPropose_def Let_def go_simps intro!: keeps_Exec split: if_splits)

lemma keeps_updateHighQC [hs_keep]: "updateHighQC qc hs = Inr hs' \<Longrightarrow> hs_keeps E n IS hs hs'"
  by (auto simp: updateHighQC_def hs_keeps_def hs_inv_def split: option.splits if_splits)

lemma keeps_onVote [hs_keep]: "hs_onVote m hs = Inr hs' \<Longrightarrow> hs_keeps E n IS hs hs'"
proof -
  have clean: "hs_keeps E n IS h (cleanVotes h)" "hs_keeps E n IS h (queueBlockVote m h)" for h
    by (rule hs_keeps_frame; simp add: cleanVotes_def queueBlockVote_def Let_def)+
  show "hs_onVote m hs = Inr hs' \<Longrightarrow> hs_keeps E n IS hs hs'"
    by (auto simp: hs_onVote_def intro: clean hs_keeps_trans [OF clean(2) clean(1)]
        hs_keeps_trans [OF keeps_Exec clean(1)] split: option.splits if_splits)
qed

lemma keeps_put_block: "linked E IS b \<Longrightarrow> hs_keeps E n IS hs (put_block E b hs)"
  by (auto simp: hs_keeps_def hs_inv_def put_block_def)

lemma keeps_broadcast: "content_linked E IS c \<Longrightarrow> hs_keeps E n IS hs (hs_broadcast c self x hs)"
  by (auto simp: hs_keeps_def hs_inv_def hs_broadcast_eq)

lemma keeps_qcRef: "hs_inv E n IS hs \<Longrightarrow> qcRef qc hs = Some b \<Longrightarrow> linked E IS b"
  by (auto simp: qcRef_def split: option.splits dest: hs_invD)

lemma keeps_lock_exec:
  "hs_inv E n IS hs \<Longrightarrow> linked E IS b \<Longrightarrow> hs_inv E n IS (hs\<lparr>hs_bLock := b\<rparr>)"
  "hs_inv E n IS hs \<Longrightarrow> linked E IS b \<Longrightarrow> hs_inv E n IS (hs\<lparr>hs_bExec := b\<rparr>)"
  by (auto simp: hs_inv_def)

lemma keeps_commit: "hs_commit b hs = Some hs' \<Longrightarrow> hs_keeps E n IS hs hs'"
proof (erule hs_commit_invariant [where I = "hs_keeps E n IS hs"])
  fix cmd h assume "hs_keeps E n IS hs h"
  moreover have "hs_keeps E n IS h (hs_execute cmd h)" by (rule hs_keeps_frame) (simp_all add: hs_execute_def)
  ultimately show "hs_keeps E n IS hs (hs_execute cmd h)" by (rule hs_keeps_trans)
qed simp

lemma keeps_update [hs_keep]:
  assumes "hs_update E blk hs = Inr hs'"
  shows "hs_keeps E n IS hs hs'"
proof (cases "qcRef (bs_QC blk) hs")
  case (Some block1)
  with assms obtain hs1 where hs1: "updateHighQC (bs_QC blk) hs = Inr hs1" and
    rest: "(case qcRef (bs_QC block1) hs1 of None \<Rightarrow> Inr hs1 | Some block2 \<Rightarrow>
        let hs2 = (if bs_Height block2 > bs_Height (hs_bLock hs1) then hs1\<lparr>hs_bLock := block2\<rparr> else hs1) in
        (case qcRef (bs_QC block2) hs2 of None \<Rightarrow> Inr hs2 | Some block3 \<Rightarrow>
           if hash_Array (bs_Parent block1) = block_hash E block2 \<and> hash_Array (bs_Parent block2) = block_hash E block3
           then (case hs_commit block3 hs2 of None \<Rightarrow> Inl Hang | Some hs3 \<Rightarrow> Inr (hs3\<lparr>hs_bExec := block3\<rparr>))
           else Inr hs2)) = Inr hs'"
    by (auto simp: hs_update_def go_simps)
  have lock: "hs_keeps E n IS hs1 (if bs_Height block2 > bs_Height (hs_bLock hs1) then hs1\<lparr>hs_bLock := block2\<rparr> else hs1)"
    if "qcRef (bs_QC block1) hs1 = Some block2" for block2
    using keeps_qcRef [OF _ that] by (auto simp: hs_keeps_def intro: keeps_lock_exec)
  have exec: "hs_keeps E n IS h2 (h3\<lparr>hs_bExec := b\<rparr>)" if "hs_commit b h2 = Some h3" "qcRef q h2 = Some b" for h2 h3 b q
    using keeps_commit [OF that(1), of E n IS] keeps_qcRef [OF _ that(2)] by (auto simp: hs_keeps_def intro: keeps_lock_exec)
  have "hs_keeps E n IS hs1 hs'"
  proof (cases "qcRef (bs_QC block1) hs1")
    case (Some block2)
    note lk = lock [OF Some]
    from rest Some lk show ?thesis
      by (auto simp: Let_def split: option.splits if_splits dest: exec intro: hs_keeps_trans)
  qed (use rest in simp)
  with keeps_updateHighQC [OF hs1] show ?thesis by (rule hs_keeps_trans)
qed (use assms in \<open>simp add: hs_update_def\<close>)

lemma keeps_fold:
  assumes "go_fold f xs hs = Inr hs'" "\<And>x hs hs'. f x hs = Inr hs' \<Longrightarrow> hs_keeps E n IS hs hs'"
  shows "hs_keeps E n IS hs hs'"
  by (rule go_fold_invariant [OF assms(1), where I = "hs_keeps E n IS hs"]) (auto intro: assms(2) hs_keeps_trans)

lemma hs_inv_bind:
  assumes "go_bind x f = Inr hs'" "\<And>hs1. x = Inr hs1 \<Longrightarrow> hs_keeps E n IS hs hs1"
    and "\<And>hs1. x = Inr hs1 \<Longrightarrow> f hs1 = Inr hs' \<Longrightarrow> hs_keeps E n IS hs1 hs'"
  shows "hs_keeps E n IS hs hs'"
  using assms by (auto simp: go_simps intro: hs_keeps_trans)


lemma keeps_deliver [hs_keep]:
  assumes "hs_deliver E blk hs = Inr hs'" "linked E IS blk"
  shows "hs_keeps E n IS hs hs'"
  using assms(1) unfolding hs_deliver_def Let_def
proof (rule hs_inv_bind)
  fix hs1
  assume r: "(case fmlookup (hs_pendingVotes hs) (block_hash E blk) of None \<Rightarrow> Inr hs
      | Some votes \<Rightarrow> go_fold hs_onVote votes (put_block E blk (hs\<lparr>hs_pendingVotes := fmdrop (block_hash E blk) (hs_pendingVotes hs)\<rparr>))) = Inr hs1"
  have "hs_keeps E n IS hs (hs\<lparr>hs_pendingVotes := x\<rparr>)" for x by (rule hs_keeps_frame) simp_all
  then have put: "hs_keeps E n IS hs (put_block E blk (hs\<lparr>hs_pendingVotes := x\<rparr>))" for x
    using keeps_put_block [OF assms(2)] by (blast intro: hs_keeps_trans)
  from r show "hs_keeps E n IS hs hs1"
    by (auto split: option.splits intro: hs_keeps_trans [OF put] keeps_fold keeps_onVote)
  assume "(case fmlookup (hs_pendingProposals hs1) (block_hash E blk) of None \<Rightarrow> Inr hs1
      | Some nextProposal \<Rightarrow> hs_onPropose nextProposal (hs1\<lparr>hs_pendingProposals := fmdrop (block_hash E blk) (hs_pendingProposals hs1)\<rparr>)) = Inr hs'"
  moreover have "hs_keeps E n IS hs1 (hs1\<lparr>hs_pendingProposals := fmdrop (block_hash E blk) (hs_pendingProposals hs1)\<rparr>)"
    by (auto simp: hs_keeps_def hs_inv_def)
  moreover have "hs_keeps E n IS hs1 hs'"
    if "hs_onPropose m h = Inr hs'" "hs_keeps E n IS hs1 h" "fmlookup (hs_pendingProposals hs1) x = Some m" for m h x
  proof (cases "hs_inv E n IS hs1")
    case True
    with that keeps_onPropose [OF that(1)] show ?thesis by (blast intro: hs_keeps_trans dest: hs_invD)
  next
    case False
    have "hs_id hs' = hs_id h" using that(1) by (auto simp: hs_onPropose_def Let_def go_simps hs_Exec_def split: if_splits)
    with False that(2) show ?thesis by (simp add: hs_keeps_def)
  qed
  ultimately show "hs_keeps E n IS hs1 hs'" by (auto split: option.splits)
qed

lemma keeps_finish: "hs_finish E blk hs = Inr hs' \<Longrightarrow> linked E IS blk \<Longrightarrow> hs_keeps E n IS hs hs'"
  unfolding hs_finish_def by (erule hs_inv_bind) (auto intro: hs_keep)

text \<open>What is needed of the wire format: a decoded proposal has the link of the proposal encoded.\<close>

definition hs_wire :: "hs_env \<Rightarrow> bool" where
  "hs_wire E \<longleftrightarrow> (\<forall>x m'. env_unmarshalHS E (env_marshalHS E x) = Some (CHM_Propose m') \<longrightarrow>
     (\<exists>m. x = CHM_Propose m \<and> block_link E (pp_BlockState m') = block_link E (pp_BlockState m)))"

lemma keeps_onProposeContinue:
  assumes "onProposeContinue E m blk hs = Inr hs'" "hs_wire E" "linked E IS blk" "pp_BlockState m = blk"
  shows "hs_keeps E n IS hs hs'"
proof -
  have pm: "hs_keeps E n IS hs (pm_onPropose hs)" by (rule hs_keeps_frame) (simp_all add: pm_onPropose_def)
  have "hs_keeps E n IS h (h\<lparr>hs_lastVote := x\<rparr>)" for h x by (rule hs_keeps_frame) simp_all
  then have v: "hs_keeps E n IS hs (voted E blk hs)"
    unfolding voted_def using pm keeps_put_block [OF assms(3)] by (blast intro: hs_keeps_trans)
  have snd: "hs_keeps E n IS h (hs_sendTo l (env_marshalHS E (CHM_Vote x)) [] h)" for h l x
    using assms(2) by (auto simp: hs_keeps_def hs_inv_def hs_sendTo_def hs_enqueueForSending_def content_linked_def hs_wire_def)
  from assms(1) show ?thesis
  proof (cases rule: onProposeContinue_cases)
    case queued
    with assms(3,4) show ?thesis by (auto simp: queueBlockPropose_def hs_keeps_def hs_inv_def split: option.splits if_splits)
  next
    case unsigned
    with pm show ?thesis by simp
  next
    case (self qc sig hs1)
    with v keeps_finish [OF self(3) assms(3)] keeps_onVote show ?thesis by (blast intro: hs_keeps_trans)
  next
    case (sent qc sig l)
    from keeps_finish [OF sent(3) assms(3)] v snd show ?thesis by (blast intro: hs_keeps_trans)
  qed
qed

subsection \<open>Proposing\<close>

text \<open>A replica moves from \<open>IS\<close> to \<open>IS'\<close>: what it adds to the chain is its own.\<close>

definition hs_adds :: "hs_env \<Rightarrow> nat \<Rightarrow> link set \<Rightarrow> chainhotstuff \<Rightarrow> link set \<Rightarrow> chainhotstuff \<Rightarrow> bool" where
  "hs_adds E n IS hs IS' hs' \<longleftrightarrow> chain_ok E IS' \<and> IS \<subseteq> IS' \<and> hs_inv E n IS' hs' \<and> hs_id hs' = hs_id hs
     \<and> (\<forall>(k, h, p) \<in> IS' - IS. go_umod k n = Inr (hs_id hs))"

lemma hs_adds_refl: "chain_ok E IS \<Longrightarrow> hs_inv E n IS hs \<Longrightarrow> hs_keeps E n IS hs hs' \<Longrightarrow> hs_adds E n IS hs IS hs'"
  by (auto simp: hs_adds_def hs_keeps_def)

lemma hs_adds_trans: "hs_adds E n IS hs IS1 hs1 \<Longrightarrow> hs_adds E n IS1 hs1 IS2 hs2 \<Longrightarrow> hs_adds E n IS hs IS2 hs2"
  by (fastforce simp: hs_adds_def)

lemma chain_ok_insert:
  assumes c: "chain_ok E IS" and k: "k \<noteq> 0" and fresh: "\<And>h p. (k, h, p) \<notin> IS"
    and root: "if k = 1 then p = block_hash E genesis else \<exists>p'. (k - 1, p, p') \<in> IS"
  shows "chain_ok E (insert (k, h, p) IS)"
  unfolding chain_ok_def
proof (intro conjI)
  show "\<forall>(k, h, p) \<in> insert (k, h, p) IS. k \<noteq> 0" using c k by (auto simp: chain_ok_def)
  show "\<forall>k1 h1 p1 h' p'. (k1, h1, p1) \<in> insert (k, h, p) IS \<longrightarrow> (k1, h', p') \<in> insert (k, h, p) IS \<longrightarrow> h' = h1 \<and> p' = p1"
    using c fresh unfolding chain_ok_def by blast
  have "if k1 = 1 then p1 = block_hash E genesis else \<exists>p'. (k1 - 1, p1, p') \<in> insert (k, h, p) IS"
    if "(k1, h1, p1) \<in> insert (k, h, p) IS" for k1 h1 p1
  proof (cases "(k1, h1, p1) \<in> IS")
    case True
    with c have "if k1 = 1 then p1 = block_hash E genesis else \<exists>p'. (k1 - 1, p1, p') \<in> IS" unfolding chain_ok_def by blast
    then show ?thesis by (auto split: if_splits)
  next
    case False
    with that have "k1 = k" "p1 = p" by auto
    with root show ?thesis by (auto split: if_splits)
  qed
  then show "\<forall>(k1, h1, p1) \<in> insert (k, h, p) IS. if k1 = 1 then p1 = block_hash E genesis else \<exists>p'. (k1 - 1, p1, p') \<in> insert (k, h, p) IS"
    by blast
qed

lemma linked_link: "block_link E b = block_link E b' \<Longrightarrow> linked E IS b = linked E IS b'"
  by (auto simp: linked_def block_link_def)

lemma propose_adds:
  assumes inv: "hs_inv E n IS hs" and ch: "chain_ok E IS" and E: "hs_env_ok E" "hs_wire E"
    and leader: "go_umod (bs_Height (hs_bLeaf hs) + 1) n = Inr (hs_id hs)"
    and fresh: "\<And>h p. (bs_Height (hs_bLeaf hs) + 1, h, p) \<notin> IS" and beat: "bs_Height (hs_bLeaf hs) \<le> pk_lastBeat (hs_pacemaker hs)"
    and res: "hs_propose E hs = Inr hs'"
  shows "\<exists>IS'. hs_adds E n IS hs IS' hs'"
proof -
  let ?c = "case hs_cmdQueue hs of [] \<Rightarrow> None | c # _ \<Rightarrow> Some c"
  let ?b = "newBlock (block_hash E (hs_bLeaf hs)) ?c (Some (hs_highQC hs)) (bs_Height (hs_bLeaf hs) + 1) (hs_id hs)"
  let ?h2 = "hs_broadcast (env_marshalHS E (CHM_Propose \<lparr>pp_BlockState = ?b\<rparr>)) False [] (put_block E ?b (hs\<lparr>hs_cmdQueue := tl (hs_cmdQueue hs)\<rparr>))"
  let ?IS = "if bs_Height ?b = 0 then IS else insert (block_link E ?b) IS"
  have on: "hs_onPropose \<lparr>pp_BlockState = ?b\<rparr> ?h2 = Inr hs'" using res by (simp add: hs_propose_def Let_def)
  have b: "bs_Height ?b = bs_Height (hs_bLeaf hs) + 1" "hash_Array (bs_Parent ?b) = block_hash E (hs_bLeaf hs)"
    using length_block_hash [OF E(1)] by (simp_all add: newBlock_def)
  have lb: "linked E ?IS ?b" by (simp add: linked_def)
  have "chain_ok E ?IS"
  proof (cases "bs_Height ?b = 0")
    case False
    have "if bs_Height (hs_bLeaf hs) + 1 = 1 then block_hash E (hs_bLeaf hs) = block_hash E genesis
        else \<exists>p'. (bs_Height (hs_bLeaf hs) + 1 - 1, block_hash E (hs_bLeaf hs), p') \<in> IS"
      using hs_invD(6) [OF inv] by (auto simp: linked_def block_link_def genesis_def)
    with chain_ok_insert [OF ch _ fresh] False b show ?thesis by (auto simp: block_link_def)
  qed (use ch in simp)
  note chain = this
  have "beaten n ?IS (hs_id hs) (pk_lastBeat (hs_pacemaker hs))"
    using hs_invD(10) [OF inv] beat b by (auto simp: beaten_def block_link_def)
  then have "hs_inv E n ?IS hs" by (rule hs_inv_mono [OF inv, rotated]) auto
  moreover have cont: "content_linked E ?IS (env_marshalHS E (CHM_Propose \<lparr>pp_BlockState = ?b\<rparr>))"
    unfolding content_linked_def
  proof (intro allI impI)
    fix m assume "env_unmarshalHS E (env_marshalHS E (CHM_Propose \<lparr>pp_BlockState = ?b\<rparr>)) = Some (CHM_Propose m)"
    with E(2) have "block_link E (pp_BlockState m) = block_link E ?b" unfolding hs_wire_def by fastforce
    with lb linked_link show "linked E ?IS (pp_BlockState m)" by blast
  qed
  moreover have "hs_keeps E n ?IS hs (hs\<lparr>hs_cmdQueue := tl (hs_cmdQueue hs)\<rparr>)" by (rule hs_keeps_frame) simp_all
  ultimately have "hs_inv E n ?IS ?h2"
    using keeps_put_block [OF lb, of n] keeps_broadcast [OF cont, of n] unfolding hs_keeps_def by blast
  then have "hs_inv E n ?IS hs'" using keeps_onPropose [OF on, of E ?IS n] lb by (simp add: hs_keeps_def)
  moreover note chain
  moreover have "hs_id hs' = hs_id hs"
    using on by (auto simp: hs_onPropose_def Let_def go_simps hs_Exec_def hs_broadcast_eq put_block_def split: if_splits)
  ultimately have "hs_adds E n IS hs ?IS hs'" using leader b by (auto simp: hs_adds_def block_link_def)
  then show ?thesis by blast
qed

lemma beat_adds:
  assumes inv: "hs_inv E n IS hs" and ch: "chain_ok E IS" and E: "hs_env_ok E" "hs_wire E" and res: "pm_beat E hs = Inr hs'"
  shows "\<exists>IS'. hs_adds E n IS hs IS' hs'"
proof (cases "hs' = hs")
  case True
  with hs_adds_refl [OF ch inv, of hs] show ?thesis by auto
next
  case False
  let ?v = "bs_Height (hs_bLeaf hs)" and ?h = "hs\<lparr>hs_pacemaker := (hs_pacemaker hs)\<lparr>pk_lastBeat := bs_Height (hs_bLeaf hs)\<rparr>\<rparr>"
  from False res have v: "\<not> ?v \<le> pk_lastBeat (hs_pacemaker hs)" and l: "getLeader hs (?v + 1) = Inr (hs_id hs)"
    and p: "hs_propose E ?h = Inr hs'" by (auto simp: pm_beat_def Let_def go_simps split: if_splits)
  have leader: "go_umod (?v + 1) n = Inr (hs_id hs)" using l hs_invD(1) [OF inv] by (simp add: getLeader_def)
  have fresh: "(?v + 1, h, p) \<notin> IS" for h p using hs_invD(10) [OF inv] v leader unfolding beaten_def by force
  have "beaten n IS (hs_id hs) ?v" using hs_invD(10) [OF inv] v unfolding beaten_def by (meson le_cases order.trans)
  with inv have h: "hs_inv E n IS ?h" by (simp add: hs_inv_def)
  have "\<exists>IS'. hs_adds E n IS ?h IS' hs'"
    by (rule propose_adds [OF h ch E]) (use leader fresh p in simp_all)
  then show ?thesis by (simp add: hs_adds_def)
qed

text \<open>A part that keeps the invariant, then a beat.\<close>

lemma keeps_beat_adds:
  assumes "hs_inv E n IS hs" "chain_ok E IS" "hs_env_ok E" "hs_wire E" "hs_keeps E n IS hs hs1" "pm_beat E hs1 = Inr hs'"
  shows "\<exists>IS'. hs_adds E n IS hs IS' hs'"
proof -
  have "hs_inv E n IS hs1" "hs_id hs1 = hs_id hs" using assms(1,5) by (auto simp: hs_keeps_def)
  with beat_adds [OF _ assms(2-4,6)] show ?thesis by (auto simp: hs_adds_def)
qed

lemma case_sum_Inr: "(case r of Inl e \<Rightarrow> Inl c | Inr x \<Rightarrow> f x) = Inr y \<longleftrightarrow> (\<exists>x. r = Inr x \<and> f x = Inr y)"
  by (cases r) auto

lemma onVoteContinue_adds:
  assumes "hs_inv E n IS hs" "chain_ok E IS" "hs_env_ok E" "hs_wire E" "onVoteContinue E m blk hs = Inr hs'"
  shows "\<exists>IS'. hs_adds E n IS hs IS' hs'"
proof -
  have vv: "hs_keeps E n IS hs (hs\<lparr>hs_verifiedVotes := x\<rparr>)" for x by (rule hs_keeps_frame) simp_all
  from assms(5) consider x where "hs' = hs\<lparr>hs_verifiedVotes := x\<rparr>"
    | qc x hs1 where "updateHighQC (Some qc) (hs\<lparr>hs_verifiedVotes := x\<rparr>) = Inr hs1" "pm_beat E hs1 = Inr hs'"
    by (auto simp: onVoteContinue_def Let_def go_simps case_sum_Inr pm_onFinishQC_def split: if_splits)
  then show ?thesis
  proof cases
    case (1 x)
    with vv hs_adds_refl [OF assms(2,1)] show ?thesis by blast
  next
    case (2 qc x hs1)
    with keeps_beat_adds [OF assms(1-4)] vv keeps_updateHighQC show ?thesis by (blast intro: hs_keeps_trans)
  qed
qed

lemma onNewViewContinue_adds:
  assumes "hs_inv E n IS hs" "chain_ok E IS" "hs_env_ok E" "hs_wire E" "onNewViewContinue E ok from m hs = Inr hs'"
  shows "\<exists>IS'. hs_adds E n IS hs IS' hs'"
proof -
  from assms(5) obtain hs1 where 1: "(if ok then updateHighQC (hv_QC m) hs else Inr hs) = Inr hs1"
    by (auto simp: onNewViewContinue_def go_simps)
  then have k1: "hs_keeps E n IS hs hs1" by (auto split: if_splits intro: hs_keep)
  have "hs_keeps E n IS hs1 (hs1\<lparr>hs_newView := x\<rparr>)" for x by (rule hs_keeps_frame) simp_all
  with k1 have k2: "hs_keeps E n IS hs (hs1\<lparr>hs_newView := x\<rparr>)" for x by (blast intro: hs_keeps_trans)
  from assms(5) 1 obtain x where "hs' = hs1\<lparr>hs_newView := x\<rparr> \<or> pm_beat E (hs1\<lparr>hs_newView := x\<rparr>) = Inr hs'"
    by (auto simp: onNewViewContinue_def go_simps Let_def pm_onNewView_def split: if_splits)
  with k2 keeps_beat_adds [OF assms(1-4)] hs_adds_refl [OF assms(2,1)] show ?thesis by blast
qed


lemma callback_adds:
  assumes "hs_inv E n IS hs" "chain_ok E IS" "hs_env_ok E" "hs_wire E" "job_linked E IS j" "hs_callback E j r hs = Inr hs'"
  shows "\<exists>IS'. hs_adds E n IS hs IS' hs'"
proof (cases j)
  case (VerifyPropose m blk)
  with assms(5,6) keeps_onProposeContinue [OF _ assms(4)] have "hs_keeps E n IS hs hs'"
    by (auto simp: hs_callback_def go_simps split: if_splits)
  with hs_adds_refl [OF assms(2,1)] show ?thesis by blast
next
  case (VerifyVote m blk)
  with assms(6) onVoteContinue_adds [OF assms(1-4)] show ?thesis by (auto simp: hs_callback_def go_simps split: if_splits)
next
  case (VerifyNewView i m)
  with assms(6) onNewViewContinue_adds [OF assms(1-4)] show ?thesis by (auto simp: hs_callback_def go_simps)
qed

lemma callbacks_adds:
  assumes "hs_env_ok E" "hs_wire E"
  shows "go_fold (\<lambda>(j, r). hs_callback E j r) cbs hs = Inr hs' \<Longrightarrow> hs_inv E n IS hs \<Longrightarrow> chain_ok E IS \<Longrightarrow>
    \<forall>(j, r) \<in> set cbs. job_linked E IS j \<Longrightarrow> \<exists>IS'. hs_adds E n IS hs IS' hs'"
proof (induction cbs arbitrary: hs IS)
  case Nil
  then show ?case using hs_adds_refl [of E IS n hs hs] by auto
next
  case (Cons c cbs)
  obtain j r where c: "c = (j, r)" by (cases c)
  from Cons.prems(1) c obtain hs1 where 1: "hs_callback E j r hs = Inr hs1"
    and 2: "go_fold (\<lambda>(j, r). hs_callback E j r) cbs hs1 = Inr hs'" by (auto simp: go_simps)
  have "job_linked E IS j" using Cons.prems(4) c by simp
  from callback_adds [OF Cons.prems(2,3) assms this 1] obtain IS1 where a1: "hs_adds E n IS hs IS1 hs1" by blast
  then have "\<forall>(j, r) \<in> set cbs. job_linked E IS1 j"
    using Cons.prems(4) by (auto simp: hs_adds_def intro: job_linked_mono)
  with Cons.IH [OF 2] a1 obtain IS2 where "hs_adds E n IS1 hs1 IS2 hs'" unfolding hs_adds_def by blast
  with a1 show ?case by (blast intro: hs_adds_trans)
qed

lemma AsyncCallback_adds:
  assumes inv: "hs_inv E n IS hs" and ch: "chain_ok E IS" and E: "hs_env_ok E" "hs_wire E" and res: "hs_AsyncCallback E hs = Inr hs'"
  shows "\<exists>IS'. hs_adds E n IS hs IS' hs'"
proof -
  let ?d = "hs_verifyDispatcher hs"
  let ?h = "hs\<lparr>hs_verifyDispatcher := ?d\<lparr>d_callbackC := []\<rparr>\<rparr>"
  have jobs: "pool_jobs ?d = mset (map fst (d_callbackC ?d)) + pool_jobs (?d\<lparr>d_callbackC := []\<rparr>)"
    by (simp add: pool_jobs_def unfinished_def)
  with inv have "hs_inv E n IS ?h" by (auto simp: hs_inv_def)
  moreover have "\<forall>(j, r) \<in> set (d_callbackC ?d). job_linked E IS j"
    using hs_invD(7) [OF inv] jobs by (force simp: set_mset_mset)
  moreover have "go_fold (\<lambda>(j, r). hs_callback E j r) (d_callbackC ?d) ?h = Inr hs'"
    using res by (simp add: hs_AsyncCallback_def drain_callbacks_def)
  ultimately have "\<exists>IS'. hs_adds E n IS ?h IS' hs'" using callbacks_adds [OF E] ch by blast
  then show ?thesis by (simp add: hs_adds_def)
qed

lemma Step_keeps:
  assumes "hs_Step E m hs = Inr hs'" "content_linked E IS (msg_Content m)"
  shows "hs_keeps E n IS hs hs'"
proof -
  have cl: "hs_keeps E n IS h (cleanNewView h)" for h by (rule hs_keeps_frame) (simp_all add: cleanNewView_def)
  have nv: "hs_keeps E n IS hs (hs_onNewView i x hs)" for i x
    unfolding hs_onNewView_def by (rule hs_keeps_trans [OF keeps_Exec cl]) simp
  from assms show ?thesis
    by (auto simp: hs_Step_def content_linked_def intro: nv keeps_onVote keeps_onPropose
        split: option.splits ChainHotstuffMessage.splits)
qed

text \<open>What a replica can do, apart from sending what it has queued.\<close>

lemma hs_do_adds:
  assumes inv: "hs_inv E n IS hs" and ch: "chain_ok E IS" and E: "hs_env_ok E" "hs_wire E" and res: "hs_do E a hs = Some (Inr hs')"
    and msg: "\<And>m. a = HStep m \<Longrightarrow> content_linked E IS (msg_Content m)"
  shows "\<exists>IS'. hs_adds E n IS hs IS' hs'"
proof -
  note refl = hs_adds_refl [OF ch inv]
  have pool: "hs_keeps E n IS hs hs'" if "hs_pool g hs = Some (Inr hs')" "\<And>d d'. g d = Some d' \<Longrightarrow> pool_step ex d d'" for g ex
    using that pool_step_jobs [of ex "hs_verifyDispatcher hs"] by (auto simp: hs_pool_def hs_keeps_def hs_inv_def)
  show ?thesis
  proof (cases a)
    case (HStep m)
    with res have "hs_keeps E n IS hs hs'" using Step_keeps [OF _ msg [OF HStep]] by simp
    with refl show ?thesis by blast
  next
    case (HRequest c)
    have "hs_keeps E n IS hs (hs\<lparr>hs_cmdQueue := x\<rparr>)" for x by (rule hs_keeps_frame) simp_all
    from keeps_beat_adds [OF inv ch E this] HRequest res show ?thesis by (auto simp: hs_Request_def hs_onRequest_def)
  next
    case HTick
    with res hs_invD(2) [OF inv] refl [of hs] show ?thesis by (auto simp: hs_Tick_def)
  next
    case HTake
    with res refl pool [of dispatch_take] take_step show ?thesis by fastforce
  next
    case HAssign
    with res refl pool [of dispatch_assign] assign_step show ?thesis by fastforce
  next
    case (HFinish i)
    with res refl pool [of "worker_finish (hs_exec E (hs_quorumSize hs)) i"] finish_step show ?thesis by fastforce
  next
    case HAsync
    with res AsyncCallback_adds [OF inv ch E] show ?thesis by simp
  next
    case HClearMsgs
    with res inv have "hs_keeps E n IS hs hs'" by (auto simp: hs_keeps_def hs_inv_def hs_ClearMsgs_def)
    with refl show ?thesis by blast
  next
    case HClearCmds
    with res inv have "hs_keeps E n IS hs hs'" by (auto simp: hs_keeps_def hs_inv_def hs_ClearExecutedCommands_def)
    with refl show ?thesis by blast
  qed
qed


subsection \<open>The cluster\<close>

text \<open>
  The replicas that run the code, those that have stopped, and the messages sent so far; the network may lose, repeat, reorder and
  delay them. \<open>HC_Byz\<close> adds any message that is not a proposal.
\<close>

record hs_cfg =
  hc_env :: hs_env
  hc_peers :: "PeerID list"
  hc_f :: int
  hc_workers :: "(string, nat) fmap"
  hc_queues :: "(string, nat) fmap"

record hs_sys =
  hy_reps :: "(PeerID, chainhotstuff) fmap"
  hy_halted :: "PeerID list"
  hy_net :: "Message list"

datatype hc_act = HC_Deliver Message | HC_Do PeerID hs_act | HC_Send PeerID | HC_Crash PeerID | HC_Byz Message

definition hc_config :: "hs_cfg \<Rightarrow> PeerID \<Rightarrow> LocalConfig" where
  "hc_config C r = \<lparr>cfg_ID = r, cfg_Peers = hc_peers C, cfg_LeaderID = 0, cfg_MaxFailures = hc_f C,
     cfg_Workers = hc_workers C, cfg_WorkersQueueSizes = hc_queues C\<rparr>"

definition hc_init :: "hs_cfg \<Rightarrow> hs_sys" where
  "hc_init C = \<lparr>hy_reps = fmap_of_list (List.map_filter (\<lambda>r. case NewChainHotstuff (hc_env C) (hc_config C r) of
       Inl _ \<Rightarrow> None | Inr hs \<Rightarrow> Some (r, hs)) (hc_peers C)), hy_halted = [], hy_net = []\<rparr>"

definition hc_on :: "hs_env \<Rightarrow> PeerID \<Rightarrow> hs_act \<Rightarrow> hs_sys \<Rightarrow> hs_sys option" where
  "hc_on E r a s =
     (case fmlookup (hy_reps s) r of
        None \<Rightarrow> None
      | Some hs \<Rightarrow> if r \<in> set (hy_halted s) then None
          else (case hs_do E a hs of
              None \<Rightarrow> None
            | Some (Inl _) \<Rightarrow> Some (s\<lparr>hy_halted := r # hy_halted s\<rparr>)
            | Some (Inr hs') \<Rightarrow> Some (s\<lparr>hy_reps := fmupd r hs' (hy_reps s)\<rparr>)))"

definition not_proposal :: "hs_env \<Rightarrow> bytes \<Rightarrow> bool" where
  "not_proposal E c = (case env_unmarshalHS E c of Some (CHM_Propose m) \<Rightarrow> False | _ \<Rightarrow> True)"

fun hc_do :: "hs_cfg \<Rightarrow> hc_act \<Rightarrow> hs_sys \<Rightarrow> hs_sys option" where
  "hc_do C (HC_Deliver m) s = (if m \<in> set (hy_net s) then hc_on (hc_env C) (msg_To m) (HStep m) s else None)"
| "hc_do C (HC_Do r a) s =
     (case a of HStep _ \<Rightarrow> None | HClearMsgs \<Rightarrow> None | _ \<Rightarrow> hc_on (hc_env C) r a s)"
| "hc_do C (HC_Send r) s =
     (case fmlookup (hy_reps s) r of
        None \<Rightarrow> None
      | Some hs \<Rightarrow> if r \<in> set (hy_halted s) then None
          else Some (s\<lparr>hy_reps := fmupd r (hs_ClearMsgs hs) (hy_reps s), hy_net := hy_net s @ rd_Messages (hs_MakeReady hs)\<rparr>))"
| "hc_do C (HC_Crash r) s = Some (s\<lparr>hy_halted := r # hy_halted s\<rparr>)"
| "hc_do C (HC_Byz m) s = (if not_proposal (hc_env C) (msg_Content m) then Some (s\<lparr>hy_net := hy_net s @ [m]\<rparr>) else None)"

fun hc_run :: "hs_cfg \<Rightarrow> hc_act list \<Rightarrow> hs_sys \<Rightarrow> hs_sys option" where
  "hc_run C [] s = Some s"
| "hc_run C (a # as) s = (case hc_do C a s of None \<Rightarrow> None | Some s' \<Rightarrow> hc_run C as s')"

inductive hc_reachable :: "hs_cfg \<Rightarrow> hs_sys \<Rightarrow> bool" for C where
  hc_start: "hc_reachable C (hc_init C)"
| hc_action: "hc_reachable C s \<Longrightarrow> hc_do C a s = Some s' \<Longrightarrow> hc_reachable C s'"

lemma hc_run_reachable: "hc_run C as s = Some s' \<Longrightarrow> hc_reachable C s \<Longrightarrow> hc_reachable C s'"
  by (induction as arbitrary: s) (auto split: option.splits intro: hc_action)

definition hc_ok :: "hs_cfg \<Rightarrow> bool" where
  "hc_ok C \<longleftrightarrow> hs_env_ok (hc_env C) \<and> hs_wire (hc_env C)"

subsection \<open>One chain\<close>

definition hc_inv :: "hs_cfg \<Rightarrow> link set \<Rightarrow> hs_sys \<Rightarrow> bool" where
  "hc_inv C IS s \<longleftrightarrow> chain_ok (hc_env C) IS
     \<and> (\<forall>r hs. fmlookup (hy_reps s) r = Some hs \<longrightarrow> hs_id hs = r \<and> hs_inv (hc_env C) (length (hc_peers C)) IS hs)
     \<and> (\<forall>m \<in> set (hy_net s). content_linked (hc_env C) IS (msg_Content m))"

lemma hc_inv_step:
  assumes s: "hc_inv C IS s" and look: "fmlookup (hy_reps s) r = Some hs"
    and adds: "hs_adds (hc_env C) (length (hc_peers C)) IS hs IS' hs'"
    and s': "hy_reps s' = fmupd r hs' (hy_reps s)" "\<And>m. m \<in> set (hy_net s') \<Longrightarrow> m \<in> set (hy_net s) \<or> m \<in> set (hs_msgs hs)"
  shows "hc_inv C IS' s'"
proof -
  let ?E = "hc_env C" and ?n = "length (hc_peers C)"
  have hs: "hs_id hs = r" "hs_inv ?E ?n IS hs" using s look by (auto simp: hc_inv_def)
  have a: "chain_ok ?E IS'" "IS \<subseteq> IS'" "hs_inv ?E ?n IS' hs'" "hs_id hs' = r"
    "\<And>k h p. (k, h, p) \<in> IS' - IS \<Longrightarrow> go_umod k ?n = Inr r" using adds hs(1) by (auto simp: hs_adds_def)
  have "hs_id q = r' \<and> hs_inv ?E ?n IS' q" if q: "fmlookup (hy_reps s') r' = Some q" for r' q
  proof (cases "r' = r")
    case False
    with q s s'(1) have i: "hs_id q = r'" "hs_inv ?E ?n IS q" by (auto simp: hc_inv_def)
    with hs_invD(10) [OF i(2)] a(5) False have "beaten ?n IS' (hs_id q) (pk_lastBeat (hs_pacemaker q))"
      unfolding beaten_def by (metis DiffI sum.inject(2))
    with hs_inv_mono [OF i(2) a(2)] i(1) show ?thesis by blast
  qed (use q s'(1) a in auto)
  moreover have "content_linked ?E IS' (msg_Content m)" if "m \<in> set (hy_net s')" for m
    using s'(2) [OF that] s hs_invD(9) [OF hs(2)] content_linked_mono [OF _ a(2)] by (auto simp: hc_inv_def)
  ultimately show ?thesis using a(1) by (simp add: hc_inv_def)
qed

lemma hc_on_inv:
  assumes C: "hc_ok C" and s: "hc_inv C IS s" and res: "hc_on (hc_env C) r a s = Some s'"
    and msg: "\<And>m. a = HStep m \<Longrightarrow> m \<in> set (hy_net s)"
  shows "\<exists>IS'. hc_inv C IS' s'"
proof -
  from res obtain hs x where look: "fmlookup (hy_reps s) r = Some hs" and x: "hs_do (hc_env C) a hs = Some x"
    by (auto simp: hc_on_def split: option.splits if_splits)
  show ?thesis
  proof (cases x)
    case (Inl e)
    with res look x have "s' = s\<lparr>hy_halted := r # hy_halted s\<rparr>" by (auto simp: hc_on_def split: if_splits)
    with s show ?thesis by (auto simp: hc_inv_def)
  next
    case (Inr hs')
    with res look x have s': "s' = s\<lparr>hy_reps := fmupd r hs' (hy_reps s)\<rparr>" by (auto simp: hc_on_def split: if_splits)
    have "hs_inv (hc_env C) (length (hc_peers C)) IS hs" "chain_ok (hc_env C) IS" using s look by (auto simp: hc_inv_def)
    moreover have "content_linked (hc_env C) IS (msg_Content m)" if "a = HStep m" for m using msg [OF that] s by (auto simp: hc_inv_def)
    ultimately obtain IS' where "hs_adds (hc_env C) (length (hc_peers C)) IS hs IS' hs'"
      using hs_do_adds [of "hc_env C" _ IS hs a hs'] C x Inr by (auto simp: hc_ok_def)
    from hc_inv_step [OF s look this, of s'] s' show ?thesis by auto
  qed
qed

lemma hc_do_inv:
  assumes C: "hc_ok C" and s: "hc_inv C IS s" and res: "hc_do C a s = Some s'"
  shows "\<exists>IS'. hc_inv C IS' s'"
proof (cases a)
  case (HC_Deliver m)
  with res have "m \<in> set (hy_net s)" "hc_on (hc_env C) (msg_To m) (HStep m) s = Some s'" by (auto split: if_splits)
  with hc_on_inv [OF C s] show ?thesis by blast
next
  case (HC_Do r b)
  with res have "hc_on (hc_env C) r b s = Some s'" "\<And>m. b \<noteq> HStep m" by (auto split: hs_act.splits)
  with hc_on_inv [OF C s] show ?thesis by blast
next
  case (HC_Send r)
  with res obtain hs where look: "fmlookup (hy_reps s) r = Some hs"
    and s': "s' = s\<lparr>hy_reps := fmupd r (hs_ClearMsgs hs) (hy_reps s), hy_net := hy_net s @ hs_msgs hs\<rparr>"
    by (auto simp: hs_MakeReady_def split: option.splits if_splits)
  have inv: "hs_inv (hc_env C) (length (hc_peers C)) IS hs" "chain_ok (hc_env C) IS" using s look by (auto simp: hc_inv_def)
  then have "hs_keeps (hc_env C) (length (hc_peers C)) IS hs (hs_ClearMsgs hs)" by (auto simp: hs_keeps_def hs_inv_def hs_ClearMsgs_def)
  from hc_inv_step [OF s look hs_adds_refl [OF inv(2,1) this], of s'] s' show ?thesis by auto
next
  case (HC_Crash r)
  with res s show ?thesis by (auto simp: hc_inv_def)
next
  case (HC_Byz m)
  with res have "s' = s\<lparr>hy_net := hy_net s @ [m]\<rparr>" "content_linked (hc_env C) IS (msg_Content m)"
    by (auto simp: not_proposal_def content_linked_def split: if_splits)
  with s show ?thesis by (auto simp: hc_inv_def)
qed


lemma NewChainHotstuff_base:
  assumes "NewChainHotstuff E cfg = Inr hs" "n = length (cfg_Peers cfg)"
  obtains hs0 where "hs_inv E n {} hs0" "hs_id hs0 = cfg_ID cfg" "hs_bLeaf hs0 = genesis" "pk_lastBeat (hs_pacemaker hs0) = 0"
    "if go_umod 1 n = Inr (cfg_ID cfg) then hs_propose E hs0 = Inr hs else hs = hs0"
proof -
  let ?qc = "\<lparr>qc_Sigs = fmempty, qc_BlockHash = Some (block_hash E genesis)\<rparr>"
  have qc: "createQuorumCert E genesis [] = Inr (Inr ?qc)" by (simp add: createQuorumCert_def)
  with assms(1) obtain d :: "(hs_job, bool go) Dispatcher" where d: "startDispatcher cfg ''edd_verify'' = Inr d"
    by (auto simp: NewChainHotstuff_def go_simps)
  from d have jobs: "pool_jobs d = {#}"
    by (auto simp: startDispatcher_def Dispatcher_Run_def NewDispatcher_def pool_jobs_def unfinished_def split: option.splits)
  let ?h = "\<lparr>hs_id = cfg_ID cfg, hs_peers = cfg_Peers cfg, hs_msgs = [], hs_committedCmds = [], hs_timers = False,
             hs_f = cfg_MaxFailures cfg, hs_cmdQueue = [], hs_pacemaker = newPacemaker,
             hs_quorumSize = 2 * cfg_MaxFailures cfg + 1,
             hs_blocks = fmupd (block_hash E genesis) genesis fmempty, hs_lastVote = 0,
             hs_bLock = genesis, hs_bExec = genesis, hs_bLeaf = genesis, hs_highQC = ?qc,
             hs_verifiedVotes = fmempty, hs_pendingVotes = fmempty, hs_pendingProposals = fmempty, hs_newView = fmempty,
             hs_verifyDispatcher = d\<rparr>"
  have "linked E {} genesis" by (simp add: linked_def genesis_def)
  then have "hs_inv E n {} ?h" using jobs assms(2) by (auto simp: hs_inv_def beaten_def split: if_splits)
  moreover have "if go_umod 1 n = Inr (cfg_ID cfg) then hs_propose E ?h = Inr hs else hs = ?h"
    using assms qc d by (auto simp: NewChainHotstuff_def go_simps getLeader_def genesis_def Let_def split: if_splits)
  ultimately show thesis using that [of ?h] by (simp add: newPacemaker_def)
qed

lemma hc_init_inv:
  assumes C: "hc_ok C"
  shows "\<exists>IS. hc_inv C IS (hc_init C)"
proof -
  let ?E = "hc_env C" and ?n = "length (hc_peers C)"
  have new: "NewChainHotstuff ?E (hc_config C r) = Inr hs" if "fmlookup (hy_reps (hc_init C)) r = Some hs" for r hs
    using that by (auto simp: hc_init_def fmlookup_of_list List.map_filter_def dest!: map_of_SomeD split: sum.splits)
  have cfg: "cfg_ID (hc_config C r) = r" "length (cfg_Peers (hc_config C r)) = ?n" for r by (simp_all add: hc_config_def)
  have other: "hs_id hs = r \<and> hs_inv ?E ?n {} hs" if look: "fmlookup (hy_reps (hc_init C)) r = Some hs" and ne: "go_umod 1 ?n \<noteq> Inr r" for r hs
  proof -
    obtain hs0 where "hs_inv ?E ?n {} hs0" "hs_id hs0 = cfg_ID (hc_config C r)"
      "if go_umod 1 ?n = Inr (cfg_ID (hc_config C r)) then hs_propose ?E hs0 = Inr hs else hs = hs0"
      using NewChainHotstuff_base [OF new [OF look] cfg(2) [symmetric]] by blast
    with ne cfg(1) show ?thesis by auto
  qed
  have "\<exists>IS. chain_ok ?E IS \<and> (\<forall>(k, h, p) \<in> IS. go_umod k ?n = go_umod 1 ?n)
    \<and> (\<forall>r hs. go_umod 1 ?n = Inr r \<longrightarrow> fmlookup (hy_reps (hc_init C)) r = Some hs \<longrightarrow> hs_id hs = r \<and> hs_inv ?E ?n IS hs)"
  proof (cases "\<exists>r hs. go_umod 1 ?n = Inr r \<and> fmlookup (hy_reps (hc_init C)) r = Some hs")
    case True
    then obtain r hs where r: "go_umod 1 ?n = Inr r" and look: "fmlookup (hy_reps (hc_init C)) r = Some hs" by blast
    obtain hs0 where h0: "hs_inv ?E ?n {} hs0" "hs_id hs0 = r" "hs_bLeaf hs0 = genesis" "pk_lastBeat (hs_pacemaker hs0) = 0"
      and p: "hs_propose ?E hs0 = Inr hs"
      using NewChainHotstuff_base [OF new [OF look] cfg(2) [symmetric]] r cfg(1) by (metis (full_types))
    have "\<exists>IS'. hs_adds ?E ?n {} hs0 IS' hs"
      by (rule propose_adds [OF h0(1)]) (use C p r h0 in \<open>simp_all add: chain_ok_def hc_ok_def genesis_def\<close>)
    then obtain IS where "hs_adds ?E ?n {} hs0 IS hs" by blast
    then show ?thesis using r look h0(2) by (intro exI [of _ IS]) (auto simp: hs_adds_def)
  qed (auto intro: exI [of _ "{}"] simp: chain_ok_def)
  then obtain IS where IS: "chain_ok ?E IS" "\<forall>(k, h, p) \<in> IS. go_umod k ?n = go_umod 1 ?n"
    and own: "\<And>r hs. go_umod 1 ?n = Inr r \<Longrightarrow> fmlookup (hy_reps (hc_init C)) r = Some hs \<Longrightarrow> hs_id hs = r \<and> hs_inv ?E ?n IS hs" by blast
  have "hs_id hs = r \<and> hs_inv ?E ?n IS hs" if look: "fmlookup (hy_reps (hc_init C)) r = Some hs" for r hs
  proof (cases "go_umod 1 ?n = Inr r")
    case False
    from other [OF look False] have i: "hs_id hs = r" "hs_inv ?E ?n {} hs" by auto
    with IS(2) False have "beaten ?n IS (hs_id hs) (pk_lastBeat (hs_pacemaker hs))" by (auto simp: beaten_def)
    with hs_inv_mono [OF i(2)] i(1) show ?thesis by blast
  qed (use own look in blast)
  moreover have "hy_net (hc_init C) = []" by (simp add: hc_init_def)
  ultimately show ?thesis using IS(1) by (intro exI [of _ IS]) (simp add: hc_inv_def)
qed

lemma hc_reachable_inv:
  assumes "hc_ok C" "hc_reachable C s"
  shows "\<exists>IS. hc_inv C IS s"
  using assms(2) by induction (use hc_init_inv hc_do_inv assms(1) in blast)+

text \<open>The blocks a replica holds.\<close>

definition hs_holds :: "chainhotstuff \<Rightarrow> BlockState \<Rightarrow> bool" where
  "hs_holds hs b \<longleftrightarrow> b \<in> {hs_bLock hs, hs_bExec hs, hs_bLeaf hs} \<or> (\<exists>h. fmlookup (hs_blocks hs) h = Some b)"

lemma hs_holds_linked: "hs_inv E n IS hs \<Longrightarrow> hs_holds hs b \<Longrightarrow> bs_Height b \<noteq> 0 \<Longrightarrow> block_link E b \<in> IS"
  using hs_invD [of E n IS hs] by (auto simp: hs_holds_def linked_def genesis_def)

text \<open>
  Claim C3. One chain. In every reachable state of a HotStuff cluster whose proposals come from replicas that run the code
  or have crashed, whoever sends the votes and new-view messages: any two replicas hold, lock and execute blocks with the same
  hash at the same height, and the block one above names that hash as its parent.
\<close>

theorem hs_single_chain:
  assumes "hc_ok C" "hc_reachable C s" "fmlookup (hy_reps s) r1 = Some hs1" "fmlookup (hy_reps s) r2 = Some hs2"
    and "hs_holds hs1 b1" "hs_holds hs2 b2" "bs_Height b1 \<noteq> 0" "bs_Height b2 \<noteq> 0"
  shows "(bs_Height b2 = bs_Height b1 \<longrightarrow> block_hash (hc_env C) b2 = block_hash (hc_env C) b1)
    \<and> (bs_Height b2 = bs_Height b1 + 1 \<longrightarrow> hash_Array (bs_Parent b2) = block_hash (hc_env C) b1)
    \<and> (bs_Height b2 = 1 \<longrightarrow> hash_Array (bs_Parent b2) = block_hash (hc_env C) genesis)"
proof -
  let ?E = "hc_env C"
  from hc_reachable_inv [OF assms(1,2)] obtain IS where inv: "hc_inv C IS s" by blast
  then have ch: "chain_ok ?E IS" and l: "block_link ?E b1 \<in> IS" "block_link ?E b2 \<in> IS"
    using assms(3-8) hs_holds_linked unfolding hc_inv_def by blast+
  have uniq: "h' = h" if "(k, h, p) \<in> IS" "(k, h', p') \<in> IS" for k h p h' p'
    using ch that unfolding chain_ok_def by blast
  have root: "if bs_Height b2 = 1 then hash_Array (bs_Parent b2) = block_hash ?E genesis
      else \<exists>p'. (bs_Height b2 - 1, hash_Array (bs_Parent b2), p') \<in> IS"
    using ch l(2) unfolding chain_ok_def block_link_def by blast
  show ?thesis
  proof (intro conjI impI)
    assume "bs_Height b2 = bs_Height b1"
    with uniq l show "block_hash ?E b2 = block_hash ?E b1" unfolding block_link_def by metis
  next
    assume h: "bs_Height b2 = bs_Height b1 + 1"
    with assms(7) root obtain p' where "(bs_Height b1, hash_Array (bs_Parent b2), p') \<in> IS" by (auto split: if_splits)
    with uniq l(1) show "hash_Array (bs_Parent b2) = block_hash ?E b1" unfolding block_link_def by blast
  next
    assume "bs_Height b2 = 1"
    with root show "hash_Array (bs_Parent b2) = block_hash ?E genesis" by simp
  qed
qed


subsection \<open>A concrete cluster\<close>

text \<open>Replica 1 leads the first round and proposes when it starts; the wire format knows this proposal only.\<close>

definition first_proposal :: ProposeMessage where
  "first_proposal = \<lparr>pp_BlockState = newBlock (block_hash (ex_hs_env (\<lambda>_. None)) genesis) None
     (Some \<lparr>qc_Sigs = fmempty, qc_BlockHash = Some (block_hash (ex_hs_env (\<lambda>_. None)) genesis)\<rparr>) 1 1\<rparr>"

definition ex_hc_env :: hs_env where
  "ex_hc_env = (ex_hs_env (\<lambda>b. if b = [1] then Some (CHM_Propose first_proposal) else None))
     \<lparr>env_marshalHS := \<lambda>x. if x = CHM_Propose first_proposal then [1] else []\<rparr>"

definition ex_hc_cfg :: hs_cfg where
  "ex_hc_cfg = \<lparr>hc_env = ex_hc_env, hc_peers = [0, 1, 2, 3], hc_f = 1,
     hc_workers = fmap_of_list [(''edd_verify'', 1)], hc_queues = fmap_of_list [(''edd_verify'', 8)]\<rparr>"

lemma ex_hc_ok: "hc_ok ex_hc_cfg"
proof -
  have "hs_env_ok (E\<lparr>env_marshalHS := f\<rparr>) = hs_env_ok E" for E f by (simp add: hs_env_ok_def)
  then have "hs_env_ok ex_hc_env" by (simp add: ex_hc_env_def ex_hs_env_ok)
  moreover have "hs_wire ex_hc_env" by (auto simp: hs_wire_def ex_hc_env_def ex_hs_env_def split: if_splits)
  ultimately show ?thesis by (simp add: hc_ok_def ex_hc_cfg_def)
qed

definition ex_hc_acts :: "hc_act list" where
  "ex_hc_acts = [HC_Send 1, HC_Deliver \<lparr>msg_From = 1, msg_To = 0, msg_Content = [1], msg_Certificate = []\<rparr>,
     HC_Do 0 HTake, HC_Do 0 HAssign, HC_Do 0 (HFinish 0), HC_Do 0 HAsync]"

lemma ex_hc_run:
  "map_option (\<lambda>s. map (\<lambda>r. map_option (\<lambda>hs. fmlookup (hs_blocks hs) (block_hash ex_hc_env (pp_BlockState first_proposal)))
     (fmlookup (hy_reps s) r)) [0, 1]) (hc_run ex_hc_cfg ex_hc_acts (hc_init ex_hc_cfg))
   = Some [Some (Some (pp_BlockState first_proposal)), Some (Some (pp_BlockState first_proposal))]"
  by code_simp

theorem hs_single_chain_witness:
  "\<exists>s hs0 hs1 b. hc_reachable ex_hc_cfg s \<and> fmlookup (hy_reps s) 0 = Some hs0 \<and> fmlookup (hy_reps s) 1 = Some hs1
     \<and> hs_holds hs0 b \<and> hs_holds hs1 b \<and> bs_Height b = 1 \<and> hash_Array (bs_Parent b) = block_hash ex_hc_env genesis"
proof -
  let ?b = "pp_BlockState first_proposal"
  from ex_hc_run obtain s where run: "hc_run ex_hc_cfg ex_hc_acts (hc_init ex_hc_cfg) = Some s"
    and l: "map_option (\<lambda>hs. fmlookup (hs_blocks hs) (block_hash ex_hc_env ?b)) (fmlookup (hy_reps s) 0) = Some (Some ?b)"
      "map_option (\<lambda>hs. fmlookup (hs_blocks hs) (block_hash ex_hc_env ?b)) (fmlookup (hy_reps s) 1) = Some (Some ?b)" by auto
  from l obtain hs0 hs1 where h: "fmlookup (hy_reps s) 0 = Some hs0" "fmlookup (hy_reps s) 1 = Some hs1"
    "hs_holds hs0 ?b" "hs_holds hs1 ?b" unfolding hs_holds_def by auto
  have b: "bs_Height ?b = 1" by (simp add: first_proposal_def newBlock_def)
  note s = hc_run_reachable [OF run hc_start]
  from hs_single_chain [OF ex_hc_ok s h] b have "hash_Array (bs_Parent ?b) = block_hash ex_hc_env genesis"
    by (simp add: ex_hc_cfg_def)
  with s h b show ?thesis by blast
qed

end
