(* ===== verification/Dispel.thy ===== *)
theory Dispel
  imports Peer Vote_Quorum
begin

text \<open>
  The Dispel replica of \<open>protocols/dispel\<close>: in every epoch each replica broadcasts a command reliably (\<open>rb.go\<close>, \<open>quorum.go\<close>,
  \<open>request.go\<close>), a binary consensus per replica decides whether its command is delivered (\<open>dbft.go\<close>), and the
  epochs are delivered in order (\<open>exec.go\<close>).

  The structures \<open>epoch\<close>, \<open>rbroadcast\<close>, \<open>dbft\<close> and \<open>dbftRound\<close> are reached by pointers; here they are parts of the state, named by the epoch,
  the replica and the round, and a function that changes one through its pointer gets these numbers. Sets of \<open>golang-set\<close> are finite sets of \<open>int32\<close>.
\<close>

type_synonym i32 = "32 word"

subsection \<open>Messages (\<open>dispelpb\<close>)\<close>

datatype RBState_Status = RB_None | RB_Received | RB_Echoed | RB_Readied | RB_Executed

datatype RBMessage_Type = RB_Send | RB_Echo | RB_Ready | RB_Unknown nat

record RBMessage =
  rm_EpochNum :: u64
  rm_PeerID :: PeerID
  rm_Type :: RBMessage_Type
  rm_Command :: "Command option"
  rm_CommandHash :: slice

datatype ConsensusMessage_Type = CM_Estimate | CM_CoordValue | CM_Aux | CM_Unknown nat

record ConsensusMessage =
  cm_EpochNum :: u64
  cm_PeerID :: PeerID
  cm_RoundNum :: u64
  cm_Type :: ConsensusMessage_Type
  cm_Estimate :: i32
  cm_Aux :: "i32 list"

datatype DispelMessage = DispelMessage_Broadcast RBMessage | DispelMessage_Consensus ConsensusMessage | DispelMessage_Unset

record dispel_env = go_env +
  env_marshalDispel :: "DispelMessage \<Rightarrow> bytes"
  env_unmarshalDispel :: "bytes \<Rightarrow> DispelMessage option"
  env_setOrder :: "i32 list \<Rightarrow> i32 list"
  env_timerOrder :: "(u64 \<times> PeerID \<times> u64) tickingTimer list \<Rightarrow> (u64 \<times> PeerID \<times> u64) tickingTimer list"

definition RBMessage_Equals :: "RBMessage \<Rightarrow> RBMessage \<Rightarrow> bool" where
  "RBMessage_Equals m other =
     (if rm_EpochNum m \<noteq> rm_EpochNum other then False
      else if rm_PeerID m \<noteq> rm_PeerID other then False
      else bytes_Equal (rm_CommandHash m) (rm_CommandHash other))"

subsection \<open>Vote tables (\<open>quorum.go\<close>)\<close>

type_synonym rb_quorum = "(PeerID, RBMessage) fmap"

definition rbq_new :: rb_quorum where
  "rbq_new = fmempty"

definition rbq_log :: "PeerID \<Rightarrow> RBMessage \<Rightarrow> rb_quorum \<Rightarrow> rb_quorum go" where
  "rbq_log i m q = (case fmlookup q i of None \<Rightarrow> Inr (fmupd i m q) | Some _ \<Rightarrow> Inl FatalExit)"

definition rbq_Majority :: "int \<Rightarrow> RBMessage \<Rightarrow> rb_quorum \<Rightarrow> bool" where
  "rbq_Majority f m q =
     (if int (fmlen q) \<le> 2 * f then False else int (fmcount (RBMessage_Equals m) q) > 2 * f)"

subsection \<open>The state\<close>

record rbroadcast =
  rb_PeerID :: PeerID
  rb_Status :: RBState_Status
  rb_Command :: "Command option"
  rb_CommandHash :: slice
  rb_pCert :: rb_quorum
  rb_cCert :: rb_quorum
  rb_reproposed :: bool

record dbftRound =
  dr_roundNum :: u64
  dr_est :: i32
  dr_binValues :: "i32 fset"
  dr_bvbSent :: "(i32, bool) fmap"
  dr_bvbEstimates :: "(i32, int) fmap"
  dr_coordStepDone :: bool
  dr_coordTimerExpired :: bool
  dr_coordMessage :: "ConsensusMessage option"
  dr_auxEstimates :: "i32 fset list"
  dr_auxSent :: bool

record dbft =
  db_peerID :: PeerID
  db_rs :: "(u64, dbftRound) fmap"
  db_decided :: bool
  db_decidedValue :: i32
  db_decidedRound :: u64
  db_halt :: bool
  db_restartOnBinValues :: bool
  db_timeout :: int

record epoch =
  ep_epochNum :: u64
  ep_rbDoneCount :: int
  ep_consDoneCount :: int
  ep_rbs :: "(PeerID, rbroadcast) fmap"
  ep_cons :: "(PeerID, dbft) fmap"

text \<open>A round is named by its epoch, the replica whose command is voted on, and its number.\<close>

type_synonym round_key = "u64 \<times> PeerID \<times> u64"

record Dispel =
  di_id :: PeerID
  di_peers :: "PeerID list"
  di_maxFailures :: int
  di_nextEpochNumber :: u64
  di_epochs :: "(u64, epoch) fmap"
  di_nextDeliverEpoch :: u64
  di_msgs :: "Message list"
  di_toDeliver :: "ExecPacket list"
  di_timers :: "round_key tickingTimer list"
  di_rbThreshold :: int
  di_signDispatcher :: "(bytes \<times> PeerID, bytes) Dispatcher"

record dispel_config = LocalConfig +
  cfg_DispelWaitForAllRb :: bool

definition NewDispel :: "dispel_config \<Rightarrow> Dispel go" where
  "NewDispel cfg = go_bind (startDispatcher (LocalConfig.truncate cfg) ''mac_sign'') (\<lambda>disp.
     Inr \<lparr>di_id = cfg_ID cfg, di_peers = cfg_Peers cfg, di_maxFailures = cfg_MaxFailures cfg, di_nextEpochNumber = 0,
          di_epochs = fmempty, di_nextDeliverEpoch = 0, di_msgs = [], di_toDeliver = [], di_timers = [],
          di_rbThreshold = (if cfg_DispelWaitForAllRb cfg then int (length (cfg_Peers cfg))
             else int (length (cfg_Peers cfg)) - cfg_MaxFailures cfg),
          di_signDispatcher = disp\<rparr>)"

definition emptyEpoch :: "u64 \<Rightarrow> epoch" where
  "emptyEpoch e = \<lparr>ep_epochNum = e, ep_rbDoneCount = 0, ep_consDoneCount = 0, ep_rbs = fmempty, ep_cons = fmempty\<rparr>"

definition makeEpoch :: "RBMessage \<Rightarrow> epoch" where
  "makeEpoch m = emptyEpoch (rm_EpochNum m)"

definition makeRB :: "RBMessage \<Rightarrow> rbroadcast" where
  "makeRB m = \<lparr>rb_PeerID = rm_PeerID m, rb_Status = RB_None, rb_Command = rm_Command m, rb_CommandHash = rm_CommandHash m,
     rb_pCert = rbq_new, rb_cCert = rbq_new, rb_reproposed = False\<rparr>"

definition makeCons :: "PeerID \<Rightarrow> dbft" where
  "makeCons p = \<lparr>db_peerID = p, db_rs = fmempty, db_decided = False, db_decidedValue = 0, db_decidedRound = 0, db_halt = False,
     db_restartOnBinValues = False, db_timeout = 0\<rparr>"

definition makeRound :: "u64 \<Rightarrow> dbftRound" where
  "makeRound r = \<lparr>dr_roundNum = r, dr_est = 0, dr_binValues = {||}, dr_bvbSent = fmempty, dr_bvbEstimates = fmempty,
     dr_coordStepDone = False, dr_coordTimerExpired = False, dr_coordMessage = None, dr_auxEstimates = [], dr_auxSent = False\<rparr>"

subsection \<open>Access through pointers\<close>

definition get_epoch :: "u64 \<Rightarrow> Dispel \<Rightarrow> epoch go" where
  "get_epoch e d = (case fmlookup (di_epochs d) e of None \<Rightarrow> Inl NilDeref | Some ep \<Rightarrow> Inr ep)"

definition put_epoch :: "u64 \<Rightarrow> epoch \<Rightarrow> Dispel \<Rightarrow> Dispel" where
  "put_epoch e ep d = d\<lparr>di_epochs := fmupd e ep (di_epochs d)\<rparr>"

definition get_rb :: "u64 \<Rightarrow> PeerID \<Rightarrow> Dispel \<Rightarrow> rbroadcast go" where
  "get_rb e p d = go_bind (get_epoch e d) (\<lambda>ep. case fmlookup (ep_rbs ep) p of None \<Rightarrow> Inl NilDeref | Some rb \<Rightarrow> Inr rb)"

definition put_rb :: "u64 \<Rightarrow> PeerID \<Rightarrow> rbroadcast \<Rightarrow> Dispel \<Rightarrow> Dispel go" where
  "put_rb e p rb d = go_bind (get_epoch e d) (\<lambda>ep. Inr (put_epoch e (ep\<lparr>ep_rbs := fmupd p rb (ep_rbs ep)\<rparr>) d))"

definition get_cons :: "u64 \<Rightarrow> PeerID \<Rightarrow> Dispel \<Rightarrow> dbft go" where
  "get_cons e p d = go_bind (get_epoch e d) (\<lambda>ep. case fmlookup (ep_cons ep) p of None \<Rightarrow> Inl NilDeref | Some c \<Rightarrow> Inr c)"

definition put_cons :: "u64 \<Rightarrow> PeerID \<Rightarrow> dbft \<Rightarrow> Dispel \<Rightarrow> Dispel go" where
  "put_cons e p c d = go_bind (get_epoch e d) (\<lambda>ep. Inr (put_epoch e (ep\<lparr>ep_cons := fmupd p c (ep_cons ep)\<rparr>) d))"

definition get_round :: "round_key \<Rightarrow> Dispel \<Rightarrow> dbftRound go" where
  "get_round k d = (case k of (e, p, r) \<Rightarrow> go_bind (get_cons e p d) (\<lambda>c.
     case fmlookup (db_rs c) r of None \<Rightarrow> Inl NilDeref | Some rs \<Rightarrow> Inr rs))"

definition put_round :: "round_key \<Rightarrow> dbftRound \<Rightarrow> Dispel \<Rightarrow> Dispel go" where
  "put_round k rs d = (case k of (e, p, r) \<Rightarrow> go_bind (get_cons e p d) (\<lambda>c. put_cons e p (c\<lparr>db_rs := fmupd r rs (db_rs c)\<rparr>) d))"

text \<open>\<open>cons, ok := ep.cons[id]; if !ok \<dots>\<close> and the same for a round.\<close>

definition ensure_cons :: "u64 \<Rightarrow> PeerID \<Rightarrow> Dispel \<Rightarrow> Dispel go" where
  "ensure_cons e p d = go_bind (get_epoch e d) (\<lambda>ep.
     case fmlookup (ep_cons ep) p of None \<Rightarrow> put_cons e p (makeCons p) d | Some _ \<Rightarrow> Inr d)"

definition ensure_round :: "round_key \<Rightarrow> Dispel \<Rightarrow> Dispel go" where
  "ensure_round k d = (case k of (e, p, r) \<Rightarrow> go_bind (get_cons e p d) (\<lambda>c.
     case fmlookup (db_rs c) r of None \<Rightarrow> put_round k (makeRound r) d | Some _ \<Rightarrow> Inr d))"

definition map_int :: "('k, int) fmap \<Rightarrow> 'k \<Rightarrow> int" where
  "map_int m k = (case fmlookup m k of None \<Rightarrow> 0 | Some n \<Rightarrow> n)"

definition map_bool :: "('k, bool) fmap \<Rightarrow> 'k \<Rightarrow> bool" where
  "map_bool m k = (case fmlookup m k of None \<Rightarrow> False | Some b \<Rightarrow> b)"

subsection \<open>Sending (\<open>messaging.go\<close>)\<close>

definition di_enqueueForSending :: "PeerID \<Rightarrow> bytes \<Rightarrow> bytes \<Rightarrow> Dispel \<Rightarrow> Dispel" where
  "di_enqueueForSending to mm certificate d =
     d\<lparr>di_msgs := di_msgs d @ [\<lparr>msg_From = di_id d, msg_To = to, msg_Content = mm, msg_Certificate = certificate\<rparr>]\<rparr>"

definition di_sendTo :: "dispel_env \<Rightarrow> PeerID \<Rightarrow> DispelMessage \<Rightarrow> Dispel \<Rightarrow> Dispel" where
  "di_sendTo E to m d =
     (let mBytes = env_marshalDispel E m in di_enqueueForSending to mBytes (env_createSignedCertificate E mBytes) d)"

definition di_broadcast :: "dispel_env \<Rightarrow> DispelMessage \<Rightarrow> bool \<Rightarrow> Dispel \<Rightarrow> Dispel" where
  "di_broadcast E m sendToSelf d =
     (let mBytes = env_marshalDispel E m in
      fold (\<lambda>node d'. if sendToSelf \<or> node \<noteq> di_id d'
          then d'\<lparr>di_signDispatcher := Dispatcher_Exec (mBytes, node) (di_signDispatcher d')\<rparr> else d') (di_peers d) d)"

definition di_ClearMsgs :: "Dispel \<Rightarrow> Dispel" where
  "di_ClearMsgs d = d\<lparr>di_msgs := []\<rparr>"

definition di_enqueueForExecution :: "Command option \<Rightarrow> Dispel \<Rightarrow> Dispel go" where
  "di_enqueueForExecution cmd d =
     (case cmd of None \<Rightarrow> Inl NilDeref | Some c \<Rightarrow> Inr (d\<lparr>di_toDeliver := di_toDeliver d @ [mkExecPacket c]\<rparr>))"

subsection \<open>Requests (\<open>request.go\<close>)\<close>

definition di_onRequest :: "dispel_env \<Rightarrow> Command option \<Rightarrow> Dispel \<Rightarrow> Dispel go" where
  "di_onRequest E cmd d =
     (let e = di_nextEpochNumber d;
          d1 = d\<lparr>di_nextEpochNumber := e + 1\<rparr>;
          d2 = (case fmlookup (di_epochs d1) e of None \<Rightarrow> put_epoch e (emptyEpoch e) d1 | Some _ \<Rightarrow> d1)
      in go_bind (get_epoch e d2) (\<lambda>ep. go_bind (Hash_ptr E cmd) (\<lambda>h.
         let rb = (case fmlookup (ep_rbs ep) (di_id d) of
                Some rb \<Rightarrow> rb
              | None \<Rightarrow> \<lparr>rb_PeerID = di_id d, rb_Status = RB_None, rb_Command = cmd, rb_CommandHash = h, rb_pCert = rbq_new,
                          rb_cCert = rbq_new, rb_reproposed = False\<rparr>);
             pm = \<lparr>rm_EpochNum = ep_epochNum ep, rm_PeerID = rb_PeerID rb, rm_Type = RB_Send, rm_Command = cmd, rm_CommandHash = None\<rparr>;
             logpm = pm\<lparr>rm_Command := None, rm_CommandHash := h\<rparr>
         in go_bind (rbq_log (di_id d) logpm (rb_pCert rb)) (\<lambda>q.
            go_bind (put_rb e (di_id d) (rb\<lparr>rb_Status := RB_Received, rb_pCert := q\<rparr>) d2) (\<lambda>d3.
            Inr (di_broadcast E (DispelMessage_Broadcast pm) False d3))))))"

subsection \<open>Delivery (\<open>exec.go\<close>)\<close>

definition decided_one :: "dbft \<Rightarrow> bool" where
  "decided_one c \<longleftrightarrow> db_decided c \<and> db_decidedValue c = 1"

text \<open>The first loop: some decided command has not been delivered by the reliable broadcast yet.\<close>

fun exec_waits :: "epoch \<Rightarrow> PeerID list \<Rightarrow> bool go" where
  "exec_waits ep [] = Inr False"
| "exec_waits ep (p # ps) =
     (case fmlookup (ep_cons ep) p of
        None \<Rightarrow> exec_waits ep ps
      | Some c \<Rightarrow>
          if decided_one c
          then (case fmlookup (ep_rbs ep) p of
                  None \<Rightarrow> Inl NilDeref
                | Some rb \<Rightarrow> if rb_Status rb \<noteq> RB_Readied then Inr True else exec_waits ep ps)
          else exec_waits ep ps)"

text \<open>The body of the second loop, for the consensus of replica \<open>p\<close>.\<close>

definition exec_one :: "dispel_env \<Rightarrow> u64 \<Rightarrow> PeerID \<Rightarrow> Dispel \<Rightarrow> Dispel go" where
  "exec_one E e p d =
     go_bind (get_epoch e d) (\<lambda>ep.
       case fmlookup (ep_cons ep) p of
         None \<Rightarrow> Inr d
       | Some c \<Rightarrow>
           if decided_one c
           then go_bind (get_rb e p d) (\<lambda>rb. go_bind (di_enqueueForExecution (rb_Command rb) d) (put_rb e p (rb\<lparr>rb_Command := None\<rparr>)))
           else (case fmlookup (ep_rbs ep) p of
                   None \<Rightarrow> Inr d
                 | Some rb \<Rightarrow>
                     if p = di_id d \<and> db_decided c
                     then (case rb_Command rb of
                             None \<Rightarrow> Inl NilDeref
                           | Some cmd \<Rightarrow> go_bind (put_rb e p (rb\<lparr>rb_reproposed := True\<rparr>) d) (di_onRequest E (Some cmd)))
                     else Inr d))"

partial_function (option) di_exec_loop :: "dispel_env \<Rightarrow> Dispel \<Rightarrow> Dispel go option" where
  "di_exec_loop E d =
     (case fmlookup (di_epochs d) (di_nextDeliverEpoch d) of
        None \<Rightarrow> Some (Inr d)
      | Some ep \<Rightarrow>
          if ep_rbDoneCount ep < di_rbThreshold d \<or> ep_consDoneCount ep \<noteq> int (length (di_peers d)) then Some (Inr d)
          else (case exec_waits ep (fmkeys (env_rangeOrder E) (ep_cons ep)) of
              Inl err \<Rightarrow> Some (Inl err)
            | Inr w \<Rightarrow>
                if w then Some (Inr d)
                else (case go_fold (exec_one E (di_nextDeliverEpoch d)) (fmkeys (env_rangeOrder E) (ep_cons ep)) d of
                   Inl err \<Rightarrow> Some (Inl err)
                 | Inr d' \<Rightarrow> di_exec_loop E (d'\<lparr>di_nextDeliverEpoch := di_nextDeliverEpoch d + 1\<rparr>))))"

declare di_exec_loop.simps [code]

definition di_exec :: "dispel_env \<Rightarrow> Dispel \<Rightarrow> Dispel go" where
  "di_exec E d = (case di_exec_loop E d of None \<Rightarrow> Inl Hang | Some r \<Rightarrow> r)"


subsection \<open>Binary consensus (\<open>dbft.go\<close>)\<close>

definition toInt32Slice :: "dispel_env \<Rightarrow> i32 fset \<Rightarrow> i32 list" where
  "toInt32Slice E s = env_setOrder E (sorted_list_of_fset s)"

definition fset_pop :: "i32 fset \<Rightarrow> i32" where
  "fset_pop s = hd (sorted_list_of_fset s)"

definition round_msg :: "round_key \<Rightarrow> ConsensusMessage_Type \<Rightarrow> i32 \<Rightarrow> i32 list \<Rightarrow> DispelMessage" where
  "round_msg k t est aux = (case k of (e, p, r) \<Rightarrow>
     DispelMessage_Consensus \<lparr>cm_EpochNum = e, cm_PeerID = p, cm_RoundNum = r, cm_Type = t, cm_Estimate = est, cm_Aux = aux\<rparr>)"

text \<open>\<open>onAfterSendReceiveAux\<close> up to its last call of \<open>binaryPropose\<close>: the state, and the estimate with which it calls it.\<close>

definition aux_step :: "dispel_env \<Rightarrow> round_key \<Rightarrow> Dispel \<Rightarrow> (Dispel \<times> i32 option) go" where
  "aux_step E k d = (case k of (e, p, r) \<Rightarrow>
     go_bind (get_round k d) (\<lambda>rs.
     if \<not> dr_auxSent rs then Inr (d, None)
     else if int (length (dr_auxEstimates rs)) \<le> 2 * di_maxFailures d then Inr (d, None)
     else let values = fold (\<lambda>s acc. acc |\<union>| s) (dr_auxEstimates rs) {||} in
       if \<not> values |\<subseteq>| dr_binValues rs then Inr (d, None)
       else go_bind (get_cons e p d) (\<lambda>c. go_bind (get_epoch e d) (\<lambda>ep.
         let b = (ucast (r mod 2) :: i32);
             single = (fcard values = 1);
             est = (if single then fset_pop values else b);
             rs1 = (if single then rs\<lparr>dr_est := est, dr_binValues := finsert est (dr_binValues rs)\<rparr> else rs\<lparr>dr_est := est\<rparr>);
             now = (single \<and> est = b \<and> \<not> db_decided c);
             c1 = (if now then c\<lparr>db_decided := True, db_decidedValue := est, db_decidedRound := r\<rparr> else c);
             ep1 = (if now then ep\<lparr>ep_consDoneCount := ep_consDoneCount ep + 1\<rparr> else ep)
         in go_bind (put_cons e p c1 (put_epoch e ep1 d)) (\<lambda>d1. go_bind (put_round k rs1 d1) (\<lambda>d2.
            if db_decided c1 \<and> db_decidedRound c1 = r
            then go_bind (di_exec E d2) (\<lambda>d3.
              if 0 |\<in>| dr_binValues rs1 \<and> 1 |\<in>| dr_binValues rs1 then Inr (d3, Some est)
              else go_bind (get_cons e p d3) (\<lambda>c3. go_bind (put_cons e p (c3\<lparr>db_restartOnBinValues := True\<rparr>) d3) (\<lambda>d4. Inr (d4, None))))
            else if db_decided c1 \<and> db_decidedRound c1 = r - 2
            then go_bind (get_cons e p d2) (\<lambda>c2. go_bind (put_cons e p (c2\<lparr>db_halt := True\<rparr>) d2) (\<lambda>d3. Inr (d3, None)))
            else Inr (d2, Some est)))))))"

text \<open>The part of \<open>binaryPropose\<close> before \<open>onAfterSendReceiveAux\<close>; the second component says whether it is called.\<close>

definition propose_step :: "dispel_env \<Rightarrow> round_key \<Rightarrow> i32 \<Rightarrow> Dispel \<Rightarrow> (Dispel \<times> bool) go" where
  "propose_step E k est d = (case k of (e, p, r) \<Rightarrow>
     go_bind (get_cons e p d) (\<lambda>c.
     if db_halt c then Inr (d, False)
     else go_bind (ensure_round k d) (\<lambda>d1. go_bind (get_round k d1) (\<lambda>rs.
       if est = -1
       then let rs1 = rs\<lparr>dr_est := 1, dr_binValues := finsert 1 (dr_binValues rs), dr_coordStepDone := True\<rparr> in
         if dr_auxSent rs1 then go_bind (put_round k rs1 d1) (\<lambda>d2. Inr (d2, False))
         else go_bind (put_round k (rs1\<lparr>dr_auxSent := True\<rparr>) d1) (\<lambda>d2.
           Inr (di_broadcast E (round_msg k CM_Aux 0 (toInt32Slice E (dr_binValues rs1))) True d2, True))
       else let rs1 = rs\<lparr>dr_est := est\<rparr> in
         if map_bool (dr_bvbSent rs1) est then go_bind (put_round k rs1 d1) (\<lambda>d2. Inr (d2, False))
         else go_bind (put_round k (rs1\<lparr>dr_bvbSent := fmupd est True (dr_bvbSent rs1),
                          dr_bvbEstimates := fmupd est (map_int (dr_bvbEstimates rs1) est + 1) (dr_bvbEstimates rs1)\<rparr>) d1) (\<lambda>d2.
           Inr (di_broadcast E (round_msg k CM_Estimate est []) False d2, False))))))"

text \<open>
  \<open>binaryPropose\<close> and \<open>onAfterSendReceiveAux\<close> call each other; the latter only on the next round. The calls do not end
  when the numbers of the rounds wrap around and every round has enough messages.
\<close>

partial_function (option) binaryPropose_loop :: "dispel_env \<Rightarrow> round_key \<Rightarrow> i32 \<Rightarrow> Dispel \<Rightarrow> Dispel go option" where
  "binaryPropose_loop E k est d =
     (case propose_step E k est d of
        Inl err \<Rightarrow> Some (Inl err)
      | Inr (d1, aux) \<Rightarrow>
          if \<not> aux then Some (Inr d1)
          else (case aux_step E k d1 of
              Inl err \<Rightarrow> Some (Inl err)
            | Inr (d2, next) \<Rightarrow>
                (case next of
                   None \<Rightarrow> Some (Inr d2)
                 | Some est' \<Rightarrow> binaryPropose_loop E (fst k, fst (snd k), snd (snd k) + 1) est' d2)))"

declare binaryPropose_loop.simps [code]

definition binaryPropose :: "dispel_env \<Rightarrow> u64 \<Rightarrow> PeerID \<Rightarrow> u64 \<Rightarrow> i32 \<Rightarrow> Dispel \<Rightarrow> Dispel go" where
  "binaryPropose E e p r est d = (case binaryPropose_loop E (e, p, r) est d of None \<Rightarrow> Inl Hang | Some x \<Rightarrow> x)"

definition onAfterSendReceiveAux :: "dispel_env \<Rightarrow> round_key \<Rightarrow> Dispel \<Rightarrow> Dispel go" where
  "onAfterSendReceiveAux E k d =
     go_bind (aux_step E k d) (\<lambda>(d', next).
       case next of None \<Rightarrow> Inr d' | Some est \<Rightarrow> binaryPropose E (fst k) (fst (snd k)) (snd (snd k) + 1) est d')"

definition broadcastAux :: "dispel_env \<Rightarrow> round_key \<Rightarrow> i32 fset \<Rightarrow> Dispel \<Rightarrow> Dispel go" where
  "broadcastAux E k auxVal d =
     go_bind (get_round k d) (\<lambda>rs.
       if dr_auxSent rs then Inr d
       else go_bind (put_round k (rs\<lparr>dr_auxSent := True\<rparr>) d) (\<lambda>d1.
         onAfterSendReceiveAux E k (di_broadcast E (round_msg k CM_Aux 0 (toInt32Slice E auxVal)) True d1)))"

definition tryStartConsensus :: "dispel_env \<Rightarrow> u64 \<Rightarrow> Dispel \<Rightarrow> Dispel go" where
  "tryStartConsensus E e d =
     go_bind (get_epoch e d) (\<lambda>ep.
       if ep_rbDoneCount ep \<noteq> di_rbThreshold d then Inr d
       else go_fold (\<lambda>p d'. go_bind (ensure_cons e p d') (\<lambda>d1. go_bind (get_epoch e d1) (\<lambda>ep1.
           binaryPropose E e p 1
             (case fmlookup (ep_rbs ep1) p of
                Some rb \<Rightarrow> if rb_Status rb = RB_Readied then -1 else 0 | None \<Rightarrow> 0) d1))) (di_peers d) d)"

definition onRBDone :: "dispel_env \<Rightarrow> u64 \<Rightarrow> PeerID \<Rightarrow> Dispel \<Rightarrow> Dispel go" where
  "onRBDone E e p d =
     go_bind (get_epoch e d) (\<lambda>ep.
       if ep_rbDoneCount ep \<le> di_rbThreshold d then Inr d
       else (case fmlookup (ep_cons ep) p of None \<Rightarrow> Inl PanicCall | Some _ \<Rightarrow> binaryPropose E e p 1 (-1) d))"

text \<open>
  \<open>binValues.Contains(rs.coordMessage)\<close> asks for a pointer to a message in a set of numbers: it is false whatever the message is.
\<close>

definition contains_pointer :: "i32 fset \<Rightarrow> ConsensusMessage \<Rightarrow> bool" where
  "contains_pointer s m \<longleftrightarrow> False"

definition onAfterBinValuesNotNullAndCoordTimerExpires :: "dispel_env \<Rightarrow> round_key \<Rightarrow> Dispel \<Rightarrow> Dispel go" where
  "onAfterBinValuesNotNullAndCoordTimerExpires E k d =
     go_bind (get_round k d) (\<lambda>rs.
       let auxVal = (case dr_coordMessage rs of
            None \<Rightarrow> dr_binValues rs
          | Some m \<Rightarrow> if contains_pointer (dr_binValues rs) m then {|cm_Estimate m|} else dr_binValues rs)
       in broadcastAux E k auxVal d)"

definition onAfterCoordSentAndBinValuesNotNull :: "dispel_env \<Rightarrow> round_key \<Rightarrow> Dispel \<Rightarrow> Dispel go" where
  "onAfterCoordSentAndBinValuesNotNull E k d =
     go_bind (get_round k d) (\<lambda>rs.
       if \<not> dr_coordTimerExpired rs then Inr d else onAfterBinValuesNotNullAndCoordTimerExpires E k d)"

definition onCoordTimerExpired :: "dispel_env \<Rightarrow> round_key \<Rightarrow> Dispel \<Rightarrow> Dispel go" where
  "onCoordTimerExpired E k d =
     go_bind (get_round k d) (\<lambda>rs. go_bind (put_round k (rs\<lparr>dr_coordTimerExpired := True\<rparr>) d) (\<lambda>d1.
       if fcard (dr_binValues rs) < 1 then Inr d1 else onAfterBinValuesNotNullAndCoordTimerExpires E k d1))"

definition afterBVBroadcast :: "dispel_env \<Rightarrow> round_key \<Rightarrow> Dispel \<Rightarrow> Dispel go" where
  "afterBVBroadcast E k d = (case k of (e, p, r) \<Rightarrow>
     go_bind (get_cons e p d) (\<lambda>c. go_bind (put_cons e p (c\<lparr>db_timeout := db_timeout c + 1\<rparr>) d) (\<lambda>d1.
     go_bind (get_round k d1) (\<lambda>rs.
     go_bind (if dr_coordStepDone rs then Inr d1
       else go_bind (put_round k (rs\<lparr>dr_coordStepDone := True\<rparr>) d1) (\<lambda>d2.
         if length (di_peers d2) = 0 then Inl DivZero
         else go_bind (if sint (di_id d2) = sint (r - 1) smod int (length (di_peers d2))
             then if fcard (dr_binValues rs) \<noteq> 1 then Inl PanicCall
               else Inr (di_broadcast E (round_msg k CM_CoordValue (fset_pop (dr_binValues rs)) []) True d2)
             else Inr d2) (\<lambda>d3.
           onAfterCoordSentAndBinValuesNotNull E k
             (d3\<lparr>di_timers := di_timers d3 @ [registerOneTimeTimer (MakeTickingTimer (5 * (db_timeout c + 1)) k)]\<rparr>)))) (\<lambda>d4.
     go_bind (get_cons e p d4) (\<lambda>c4. go_bind (get_round k d4) (\<lambda>rs4.
       if db_restartOnBinValues c4 \<and> 0 |\<in>| dr_binValues rs4 \<and> 1 |\<in>| dr_binValues rs4
       then go_bind (put_cons e p (c4\<lparr>db_restartOnBinValues := False\<rparr>) d4) (binaryPropose E e p (r + 1) (dr_est rs4))
       else Inr d4)))))))"

text \<open>The beginning of the three handlers.\<close>

definition open_round :: "ConsensusMessage \<Rightarrow> Dispel \<Rightarrow> Dispel go" where
  "open_round m d =
     (case fmlookup (di_epochs d) (cm_EpochNum m) of
        None \<Rightarrow> Inl PanicCall
      | Some _ \<Rightarrow> go_bind (ensure_cons (cm_EpochNum m) (cm_PeerID m) d) (ensure_round (cm_EpochNum m, cm_PeerID m, cm_RoundNum m)))"

definition onBVBroadcast :: "dispel_env \<Rightarrow> ConsensusMessage \<Rightarrow> PeerID \<Rightarrow> Dispel \<Rightarrow> Dispel go" where
  "onBVBroadcast E m from d =
     (let k = (cm_EpochNum m, cm_PeerID m, cm_RoundNum m) in
      go_bind (open_round m d) (\<lambda>d1. go_bind (get_round k d1) (\<lambda>rs.
      let count = map_int (dr_bvbEstimates rs) (cm_Estimate m) + 1;
          rs1 = rs\<lparr>dr_bvbEstimates := fmupd (cm_Estimate m) count (dr_bvbEstimates rs)\<rparr>;
          relay = (count = di_maxFailures d1 + 1 \<and> \<not> map_bool (dr_bvbSent rs1) (cm_Estimate m));
          rs2 = (if relay then rs1\<lparr>dr_bvbSent := fmupd (cm_Estimate m) True (dr_bvbSent rs1)\<rparr> else rs1)
      in go_bind (put_round k rs2 d1) (\<lambda>d2.
         let d3 = (if relay then di_broadcast E (DispelMessage_Consensus m) False d2 else d2) in
         if count = 2 * di_maxFailures d3 + 1
         then go_bind (put_round k (rs2\<lparr>dr_binValues := finsert (cm_Estimate m) (dr_binValues rs2)\<rparr>) d3) (afterBVBroadcast E k)
         else Inr d3))))"

definition onCoordValue :: "ConsensusMessage \<Rightarrow> PeerID \<Rightarrow> Dispel \<Rightarrow> Dispel go" where
  "onCoordValue m from d =
     (let k = (cm_EpochNum m, cm_PeerID m, cm_RoundNum m) in
      go_bind (open_round m d) (\<lambda>d1. go_bind (get_round k d1) (\<lambda>rs. put_round k (rs\<lparr>dr_coordMessage := Some m\<rparr>) d1)))"

definition onAuxMessage :: "dispel_env \<Rightarrow> ConsensusMessage \<Rightarrow> PeerID \<Rightarrow> Dispel \<Rightarrow> Dispel go" where
  "onAuxMessage E m from d =
     (let k = (cm_EpochNum m, cm_PeerID m, cm_RoundNum m) in
      go_bind (open_round m d) (\<lambda>d1. go_bind (get_round k d1) (\<lambda>rs.
      go_bind (put_round k (rs\<lparr>dr_auxEstimates := dr_auxEstimates rs @ [fset_of_list (cm_Aux m)]\<rparr>) d1) (onAfterSendReceiveAux E k))))"


subsection \<open>Reliable broadcast (\<open>rb.go\<close>)\<close>

definition di_updateCommand :: "u64 \<Rightarrow> RBMessage \<Rightarrow> Dispel \<Rightarrow> Dispel go" where
  "di_updateCommand e m d =
     go_bind (get_epoch e d) (\<lambda>ep.
       case fmlookup (ep_rbs ep) (rm_PeerID m) of
         None \<Rightarrow> put_rb e (rm_PeerID m) (makeRB m) d
       | Some rb \<Rightarrow>
           if rb_Command rb \<noteq> None
           then go_bind (Command_Equal (rb_Command rb) (rm_Command m)) (\<lambda>b. if \<not> b then Inl PanicCall else Inr d)
           else put_rb e (rm_PeerID m) (rb\<lparr>rb_Command := rm_Command m\<rparr>) d)"

definition di_updateCommandHash :: "u64 \<Rightarrow> RBMessage \<Rightarrow> Dispel \<Rightarrow> Dispel go" where
  "di_updateCommandHash e m d =
     go_bind (get_epoch e d) (\<lambda>ep.
       case fmlookup (ep_rbs ep) (rm_PeerID m) of
         None \<Rightarrow> put_rb e (rm_PeerID m) (makeRB m) d
       | Some rb \<Rightarrow>
           if rb_CommandHash rb \<noteq> None
           then (if \<not> bytes_Equal (rb_CommandHash rb) (rm_CommandHash m) then Inl PanicCall else Inr d)
           else put_rb e (rm_PeerID m) (rb\<lparr>rb_CommandHash := rm_CommandHash m\<rparr>) d)"

text \<open>The beginning of the handlers: the epoch of the message and its broadcast exist afterwards.\<close>

definition new_epoch :: "RBMessage \<Rightarrow> Dispel \<Rightarrow> Dispel" where
  "new_epoch m d = put_epoch (rm_EpochNum m) ((makeEpoch m)\<lparr>ep_rbs := fmupd (rm_PeerID m) (makeRB m) fmempty\<rparr>) d"

definition open_rb :: "RBMessage \<Rightarrow> Dispel \<Rightarrow> Dispel go" where
  "open_rb m d =
     (case fmlookup (di_epochs d) (rm_EpochNum m) of
        None \<Rightarrow> Inr (new_epoch m d)
      | Some _ \<Rightarrow> di_updateCommandHash (rm_EpochNum m) m d)"

definition onAfterReady :: "dispel_env \<Rightarrow> u64 \<Rightarrow> PeerID \<Rightarrow> Dispel \<Rightarrow> Dispel go" where
  "onAfterReady E e p d =
     go_bind (get_epoch e d) (\<lambda>ep. go_bind (get_rb e p d) (\<lambda>rb.
       if di_id d = rb_PeerID rb
       then (case fmlookup (ep_cons ep) (rb_PeerID rb) of
               None \<Rightarrow> Inr d
             | Some c \<Rightarrow>
                 if db_decided c \<and> db_decidedValue c = 0 \<and> \<not> rb_reproposed rb then di_onRequest E (rb_Command rb) d else Inr d)
       else Inr d))"

text \<open>The end of the handlers, when the third phase is complete.\<close>

definition rb_ready :: "dispel_env \<Rightarrow> u64 \<Rightarrow> PeerID \<Rightarrow> Dispel \<Rightarrow> Dispel go" where
  "rb_ready E e p d =
     go_bind (get_rb e p d) (\<lambda>rb. go_bind (put_rb e p (rb\<lparr>rb_Status := RB_Readied\<rparr>) d) (\<lambda>d1.
     go_bind (get_epoch e d1) (\<lambda>ep.
     go_bind (tryStartConsensus E e (put_epoch e (ep\<lparr>ep_rbDoneCount := ep_rbDoneCount ep + 1\<rparr>) d1)) (\<lambda>d2.
     go_bind (onRBDone E e (rb_PeerID rb) d2) (\<lambda>d3. go_bind (di_exec E d3) (onAfterReady E e p))))))"

text \<open>The second phase is complete: the replica sends its own \<open>Ready\<close>.\<close>

definition rb_echoed :: "dispel_env \<Rightarrow> u64 \<Rightarrow> PeerID \<Rightarrow> Dispel \<Rightarrow> Dispel go" where
  "rb_echoed E e p d =
     go_bind (get_rb e p d) (\<lambda>rb.
     let cm = \<lparr>rm_EpochNum = e, rm_PeerID = p, rm_Type = RB_Ready, rm_Command = None, rm_CommandHash = rb_CommandHash rb\<rparr> in
     go_bind (rbq_log (di_id d) cm (rb_cCert rb)) (\<lambda>q.
     go_bind (put_rb e p (rb\<lparr>rb_Status := RB_Echoed, rb_cCert := q\<rparr>) (di_broadcast E (DispelMessage_Broadcast cm) False d)) (\<lambda>d1.
       if rbq_Majority (di_maxFailures d1) cm q then rb_ready E e p d1 else Inr d1)))"

definition onRBSend :: "dispel_env \<Rightarrow> RBMessage \<Rightarrow> PeerID \<Rightarrow> Dispel \<Rightarrow> Dispel go" where
  "onRBSend E m0 from d =
     go_bind (Hash_ptr E (rm_Command m0)) (\<lambda>h.
     let m = m0\<lparr>rm_CommandHash := h\<rparr>; e = rm_EpochNum m; p = rm_PeerID m in
     go_bind (case fmlookup (di_epochs d) e of
         None \<Rightarrow> Inr (new_epoch m d)
       | Some _ \<Rightarrow> go_bind (di_updateCommand e m d) (di_updateCommandHash e m)) (\<lambda>d1.
     go_bind (get_rb e p d1) (\<lambda>rb.
     go_bind (rbq_log from (m\<lparr>rm_Command := None\<rparr>) (rb_pCert rb)) (\<lambda>q.
     let pm = \<lparr>rm_EpochNum = e, rm_PeerID = p, rm_Type = RB_Echo, rm_Command = None, rm_CommandHash = rb_CommandHash rb\<rparr> in
     go_bind (rbq_log (di_id d1) pm q) (\<lambda>q'.
     go_bind (put_rb e p (rb\<lparr>rb_Status := RB_Received, rb_pCert := q'\<rparr>) d1) (\<lambda>d2.
     let d3 = di_broadcast E (DispelMessage_Broadcast pm) False d2 in
     if rbq_Majority (di_maxFailures d3) pm q' then rb_echoed E e p d3 else Inr d3))))))"

definition onRBEcho :: "dispel_env \<Rightarrow> RBMessage \<Rightarrow> PeerID \<Rightarrow> Dispel \<Rightarrow> Dispel go" where
  "onRBEcho E m from d =
     (let e = rm_EpochNum m; p = rm_PeerID m in
      go_bind (open_rb m d) (\<lambda>d1. go_bind (get_rb e p d1) (\<lambda>rb. go_bind (rbq_log from m (rb_pCert rb)) (\<lambda>q.
      go_bind (put_rb e p (rb\<lparr>rb_pCert := q\<rparr>) d1) (\<lambda>d2.
        if rbq_Majority (di_maxFailures d2) m q \<and> rb_Status rb = RB_Received then rb_echoed E e p d2 else Inr d2)))))"

definition onRBReady :: "dispel_env \<Rightarrow> RBMessage \<Rightarrow> PeerID \<Rightarrow> Dispel \<Rightarrow> Dispel go" where
  "onRBReady E m from d =
     (let e = rm_EpochNum m; p = rm_PeerID m in
      go_bind (open_rb m d) (\<lambda>d1. go_bind (get_rb e p d1) (\<lambda>rb. go_bind (rbq_log from m (rb_cCert rb)) (\<lambda>q.
      go_bind (put_rb e p (rb\<lparr>rb_cCert := q\<rparr>) d1) (\<lambda>d2.
        if rbq_Majority (di_maxFailures d2) m q \<and> rb_Status rb = RB_Echoed then rb_ready E e p d2 else Inr d2)))))"

subsection \<open>Entry points (\<open>dispel.go\<close>)\<close>

definition di_stepBroadcast :: "dispel_env \<Rightarrow> RBMessage \<Rightarrow> PeerID \<Rightarrow> Dispel \<Rightarrow> Dispel go" where
  "di_stepBroadcast E m from d =
     (case rm_Type m of
        RB_Send \<Rightarrow> onRBSend E m from d
      | RB_Echo \<Rightarrow> onRBEcho E m from d
      | RB_Ready \<Rightarrow> onRBReady E m from d
      | RB_Unknown _ \<Rightarrow> Inl PanicCall)"

definition di_stepConsensus :: "dispel_env \<Rightarrow> ConsensusMessage \<Rightarrow> PeerID \<Rightarrow> Dispel \<Rightarrow> Dispel go" where
  "di_stepConsensus E m from d =
     (case cm_Type m of
        CM_Estimate \<Rightarrow> onBVBroadcast E m from d
      | CM_CoordValue \<Rightarrow> onCoordValue m from d
      | CM_Aux \<Rightarrow> onAuxMessage E m from d
      | CM_Unknown _ \<Rightarrow> Inl PanicCall)"

definition di_Step :: "dispel_env \<Rightarrow> Message \<Rightarrow> Dispel \<Rightarrow> Dispel go" where
  "di_Step E mm d =
     (case env_unmarshalDispel E (msg_Content mm) of
        None \<Rightarrow> Inl PanicCall
      | Some t \<Rightarrow>
          if \<not> env_verifyCertificate E (msg_Content mm) (msg_Certificate mm) then Inl PanicCall
          else (case t of
              DispelMessage_Broadcast m \<Rightarrow> di_stepBroadcast E m (msg_From mm) d
            | DispelMessage_Consensus m \<Rightarrow> di_stepConsensus E m (msg_From mm) d
            | DispelMessage_Unset \<Rightarrow> Inl PanicCall))"

definition di_AsyncCallback :: "Dispel \<Rightarrow> Dispel go" where
  "di_AsyncCallback d =
     (case drain_callbacks (di_signDispatcher d) of (cbs, disp) \<Rightarrow>
        Inr (fold (\<lambda>((mBytes, node), cert). di_enqueueForSending node mBytes cert) cbs (d\<lparr>di_signDispatcher := disp\<rparr>)))"

definition di_Callback :: "ExecCallback \<Rightarrow> Dispel \<Rightarrow> Dispel go" where
  "di_Callback cb d = Inl PanicCall"

definition di_ClearExecutedCommands :: "Dispel \<Rightarrow> Dispel" where
  "di_ClearExecutedCommands d = d\<lparr>di_toDeliver := []\<rparr>"

definition di_MakeReady :: "Dispel \<Rightarrow> Ready" where
  "di_MakeReady d = \<lparr>rd_Messages = di_msgs d, rd_OrderedCommands = di_toDeliver d\<rparr>"

definition di_Request :: "dispel_env \<Rightarrow> Command \<Rightarrow> Dispel \<Rightarrow> Dispel go" where
  "di_Request E cmd d = di_onRequest E (Some cmd) d"

text \<open>
  \<open>Tick\<close> advances every registered timer, in the order in which Go visits the map of timers. A timer that fires stops itself, leaves the map and calls \<open>onCoordTimerExpired\<close> for
  its round; no timer is registered meanwhile.
\<close>

definition di_tickTimer :: "dispel_env \<Rightarrow> round_key tickingTimer \<Rightarrow> Dispel \<Rightarrow> Dispel go" where
  "di_tickTimer E t d =
     (case Timer_Tick t of (t', fired) \<Rightarrow>
        go_fold (onCoordTimerExpired E) fired (if fired = [] then d\<lparr>di_timers := di_timers d @ [t']\<rparr> else d))"

definition di_Tick :: "dispel_env \<Rightarrow> Dispel \<Rightarrow> Dispel go" where
  "di_Tick E d = go_fold (di_tickTimer E) (env_timerOrder E (di_timers d)) (d\<lparr>di_timers := []\<rparr>)"

definition di_hasExecuted :: "Command option \<Rightarrow> Dispel \<Rightarrow> bool go" where
  "di_hasExecuted cmd d =
     go_fold (\<lambda>e found. if found then Inr True else Command_Equal (Some (ep_Cmd e)) cmd) (di_toDeliver d) False"

definition di_hasBroadcast :: "Command \<Rightarrow> Dispel \<Rightarrow> bool" where
  "di_hasBroadcast cmd d \<longleftrightarrow> (\<exists>ep |\<in>| fmran (di_epochs d).
     case fmlookup (ep_rbs ep) (cmd_Target cmd) of None \<Rightarrow> False | Some rb \<Rightarrow> rb_Status rb = RB_Readied)"

definition di_Protocol :: "dispel_env \<Rightarrow> Dispel Protocol" where
  "di_Protocol E =
     \<lparr>pr_Step = di_Step E, pr_Tick = di_Tick E, pr_Request = di_Request E, pr_Callback = di_Callback,
      pr_MakeReady = (\<lambda>s. Inr (di_MakeReady s, s)), pr_ClearMsgs = di_ClearMsgs,
      pr_ClearExecutedCommands = di_ClearExecutedCommands, pr_AsyncCallback = di_AsyncCallback\<rparr>"

end
