(* ===== verification/Dispel_Local.thy ===== *)
theory Dispel_Local
  imports Dispel
begin

text \<open>
  Every operation of a Dispel replica leaves a later state (\<open>di_later\<close>): the output queues grow at the end, decisions stay, and the
  counters of the epochs stay right.
\<close>

subsection \<open>What every operation keeps\<close>

definition di_cons :: "u64 \<Rightarrow> PeerID \<Rightarrow> Dispel \<Rightarrow> dbft option" where
  "di_cons e p d = (case fmlookup (di_epochs d) e of None \<Rightarrow> None | Some ep \<Rightarrow> fmlookup (ep_cons ep) p)"

definition same_decision :: "dbft \<Rightarrow> dbft \<Rightarrow> bool" where
  "same_decision c c' \<longleftrightarrow> (db_decided c \<longrightarrow> db_decided c' \<and> db_decidedValue c' = db_decidedValue c \<and> db_decidedRound c' = db_decidedRound c)"

definition done_ok :: "epoch \<Rightarrow> bool" where
  "done_ok ep \<longleftrightarrow> ep_consDoneCount ep = int (fmcount db_decided (ep_cons ep))"

definition di_ok :: "Dispel \<Rightarrow> bool" where
  "di_ok d \<longleftrightarrow> (\<forall>e ep. fmlookup (di_epochs d) e = Some ep \<longrightarrow> done_ok ep)
     \<and> (\<forall>e < di_nextDeliverEpoch d. \<exists>ep. fmlookup (di_epochs d) e = Some ep \<and> int (length (di_peers d)) \<le> ep_consDoneCount ep)"

text \<open>From one state of a replica to a later one.\<close>

definition epoch_later :: "epoch \<Rightarrow> epoch \<Rightarrow> bool" where
  "epoch_later ep ep' \<longleftrightarrow> ep_consDoneCount ep \<le> ep_consDoneCount ep' \<and> (done_ok ep \<longrightarrow> done_ok ep')
     \<and> (\<forall>p c. fmlookup (ep_cons ep) p = Some c \<longrightarrow> (\<exists>c'. fmlookup (ep_cons ep') p = Some c' \<and> same_decision c c'))"

definition di_later :: "Dispel \<Rightarrow> Dispel \<Rightarrow> bool" where
  "di_later d d' \<longleftrightarrow> prefix (di_msgs d) (di_msgs d') \<and> prefix (di_toDeliver d) (di_toDeliver d') \<and> di_id d' = di_id d
     \<and> di_peers d' = di_peers d \<and> di_maxFailures d' = di_maxFailures d \<and> di_rbThreshold d' = di_rbThreshold d
     \<and> (\<forall>e ep. fmlookup (di_epochs d) e = Some ep \<longrightarrow> (\<exists>ep'. fmlookup (di_epochs d') e = Some ep' \<and> epoch_later ep ep'))
     \<and> (di_ok d \<longrightarrow> di_ok d')"

lemma same_decision_refl [simp]: "same_decision c c"
  by (simp add: same_decision_def)

lemma same_decision_trans: "same_decision c c1 \<Longrightarrow> same_decision c1 c2 \<Longrightarrow> same_decision c c2"
  by (auto simp: same_decision_def)

lemma epoch_later_refl [simp]: "epoch_later ep ep"
  by (auto simp: epoch_later_def)

lemma epoch_later_trans: "epoch_later ep ep1 \<Longrightarrow> epoch_later ep1 ep2 \<Longrightarrow> epoch_later ep ep2"
  unfolding epoch_later_def by (meson order.trans same_decision_trans)

lemma di_later_refl [simp]: "di_later d d"
  by (auto simp: di_later_def)

lemma di_later_trans: "di_later d d1 \<Longrightarrow> di_later d1 d2 \<Longrightarrow> di_later d d2"
proof -
  assume 1: "di_later d d1" and 2: "di_later d1 d2"
  have "\<exists>ep'. fmlookup (di_epochs d2) e = Some ep' \<and> epoch_later ep ep'" if "fmlookup (di_epochs d) e = Some ep" for e ep
    using 1 2 that unfolding di_later_def by (meson epoch_later_trans)
  with 1 2 show ?thesis unfolding di_later_def by (auto intro: prefix_order.trans)
qed

lemma later_bind:
  assumes "go_bind x f = Inr d'" "\<And>a. x = Inr a \<Longrightarrow> f a = Inr d' \<Longrightarrow> di_later d d'"
  shows "di_later d d'"
  using assms by (auto simp: go_simps)

lemma later_frame:
  assumes "di_epochs d' = di_epochs d" "di_nextDeliverEpoch d' = di_nextDeliverEpoch d" "di_id d' = di_id d" "di_peers d' = di_peers d"
    "di_maxFailures d' = di_maxFailures d" "di_rbThreshold d' = di_rbThreshold d" "prefix (di_msgs d) (di_msgs d')"
    "prefix (di_toDeliver d) (di_toDeliver d')"
  shows "di_later d d'"
  using assms by (auto simp: di_later_def di_ok_def)

lemma later_put_epoch:
  assumes "case fmlookup (di_epochs d) e of None \<Rightarrow> done_ok ep' | Some ep \<Rightarrow> epoch_later ep ep'"
  shows "di_later d (put_epoch e ep' d)"
proof -
  have "\<exists>x. fmlookup (di_epochs (put_epoch e ep' d)) e1 = Some x \<and> epoch_later ep1 x"
    if "fmlookup (di_epochs d) e1 = Some ep1" for e1 ep1
    using that assms by (cases "e1 = e") (auto simp: put_epoch_def)
  note l = this
  have "di_ok (put_epoch e ep' d)" if ok: "di_ok d"
    unfolding di_ok_def
  proof (intro conjI allI impI)
    fix e1 ep1 assume "fmlookup (di_epochs (put_epoch e ep' d)) e1 = Some ep1"
    with ok assms show "done_ok ep1"
      by (auto simp: put_epoch_def di_ok_def epoch_later_def split: if_splits option.splits)
  next
    fix e1 assume "e1 < di_nextDeliverEpoch (put_epoch e ep' d)"
    then obtain ep1 where "fmlookup (di_epochs d) e1 = Some ep1" "int (length (di_peers d)) \<le> ep_consDoneCount ep1"
      using ok by (auto simp: di_ok_def put_epoch_def)
    with l [of e1 ep1] show "\<exists>ep. fmlookup (di_epochs (put_epoch e ep' d)) e1 = Some ep
        \<and> int (length (di_peers (put_epoch e ep' d))) \<le> ep_consDoneCount ep"
      by (fastforce simp: epoch_later_def put_epoch_def)
  qed
  with l show ?thesis by (simp add: di_later_def) (simp add: put_epoch_def)
qed

named_theorems later "operations after which the state is later"

lemma get_epoch_Inr [go_simps]: "get_epoch e d = Inr ep \<longleftrightarrow> fmlookup (di_epochs d) e = Some ep"
  by (auto simp: get_epoch_def split: option.splits)

lemma get_cons_Inr [go_simps]: "get_cons e p d = Inr c \<longleftrightarrow> (\<exists>ep. fmlookup (di_epochs d) e = Some ep \<and> fmlookup (ep_cons ep) p = Some c)"
  by (auto simp: get_cons_def go_simps split: option.splits)

lemma epoch_later_rbs [simp]:
  "epoch_later ep (ep\<lparr>ep_rbs := x\<rparr>)" "epoch_later ep (ep\<lparr>ep_rbDoneCount := y\<rparr>)"
  by (auto simp: epoch_later_def done_ok_def)

lemma later_put_rb [later]: "put_rb e p rb d = Inr d' \<Longrightarrow> di_later d d'"
  by (auto simp: put_rb_def go_simps intro!: later_put_epoch)

text \<open>A consensus may be replaced by one with the same decision.\<close>

lemma fmcount_upd_same:
  assumes "P v' \<longleftrightarrow> (case fmlookup m k of None \<Rightarrow> False | Some v \<Rightarrow> P v)"
  shows "fmcount P (fmupd k v' m) = fmcount P m"
proof -
  have "voters P (fmupd k v' m) = voters P m"
    using assms by (auto simp: voters_def split: if_splits option.splits)
  then show ?thesis by (simp add: fmcount_card)
qed

lemma fmcount_upd_new:
  assumes "P v'" "case fmlookup m k of None \<Rightarrow> True | Some v \<Rightarrow> \<not> P v"
  shows "fmcount P (fmupd k v' m) = Suc (fmcount P m)"
proof -
  have "voters P (fmupd k v' m) = insert k (voters P m)" "k \<notin> voters P m"
    using assms by (auto simp: voters_def split: if_splits option.splits)
  then show ?thesis by (simp add: fmcount_card)
qed

lemma later_put_cons:
  assumes "put_cons e p c' d = Inr d'"
    and "\<And>c. get_cons e p d = Inr c \<Longrightarrow> same_decision c c' \<and> db_decided c' = db_decided c"
    and "(\<And>c. get_cons e p d \<noteq> Inr c) \<Longrightarrow> \<not> db_decided c'"
  shows "di_later d d'"
proof -
  from assms(1) obtain ep where ep: "fmlookup (di_epochs d) e = Some ep"
    and d': "d' = put_epoch e (ep\<lparr>ep_cons := fmupd p c' (ep_cons ep)\<rparr>) d" by (auto simp: put_cons_def go_simps)
  have same: "db_decided c' \<longleftrightarrow> (case fmlookup (ep_cons ep) p of None \<Rightarrow> False | Some c \<Rightarrow> db_decided c)"
    using assms(2,3) ep by (auto simp: go_simps split: option.splits)
  have "epoch_later ep (ep\<lparr>ep_cons := fmupd p c' (ep_cons ep)\<rparr>)"
    using fmcount_upd_same [of db_decided c', OF same] assms(2) ep by (auto simp: epoch_later_def done_ok_def go_simps)
  with ep show ?thesis unfolding d' by (intro later_put_epoch) simp
qed

lemma later_put_round [later]: "put_round k rs d = Inr d' \<Longrightarrow> di_later d d'"
  by (cases k) (auto simp: put_round_def go_simps same_decision_def elim!: later_put_cons)

lemma later_ensure_cons [later]: "ensure_cons e p d = Inr d' \<Longrightarrow> di_later d d'"
proof -
  assume en: "ensure_cons e p d = Inr d'"
  then obtain ep where ep: "fmlookup (di_epochs d) e = Some ep" by (auto simp: ensure_cons_def go_simps)
  show ?thesis
  proof (cases "fmlookup (ep_cons ep) p")
    case None
    with en ep have "put_cons e p (makeCons p) d = Inr d'" by (simp add: ensure_cons_def get_epoch_def)
    then show ?thesis by (rule later_put_cons) (use ep None in \<open>auto simp: go_simps makeCons_def\<close>)
  qed (use en ep in \<open>simp add: ensure_cons_def get_epoch_def\<close>)
qed

lemma later_ensure_round [later]: "ensure_round k d = Inr d' \<Longrightarrow> di_later d d'"
  by (auto simp: ensure_round_def go_simps split: option.splits prod.splits intro: later_put_round)

lemma di_broadcast_eq:
  "\<exists>disp. di_broadcast E m self d = d\<lparr>di_signDispatcher := disp\<rparr>"
proof -
  have "\<exists>disp. fold (\<lambda>node d'. if self \<or> node \<noteq> di_id d'
      then d'\<lparr>di_signDispatcher := Dispatcher_Exec (b, node) (di_signDispatcher d')\<rparr> else d') ns x = x\<lparr>di_signDispatcher := disp\<rparr>" for b ns x
  proof (induction ns arbitrary: x)
    case Nil
    have "x = x\<lparr>di_signDispatcher := di_signDispatcher x\<rparr>" by simp
    then show ?case by (metis fold_simps(1))
  next
    case (Cons n ns)
    show ?case using Cons [of "x\<lparr>di_signDispatcher := Dispatcher_Exec (b, n) (di_signDispatcher x)\<rparr>"] Cons [of x] by auto
  qed
  then show ?thesis by (simp add: di_broadcast_def Let_def)
qed

lemma later_broadcast: "di_later d (di_broadcast E m self d)"
  using di_broadcast_eq [of E m self d] by (auto intro!: later_frame)


text \<open>A computation that, if it returns, leaves a later state.\<close>

definition lat :: "Dispel \<Rightarrow> Dispel go \<Rightarrow> bool" where
  "lat d x \<longleftrightarrow> (\<forall>d'. x = Inr d' \<longrightarrow> di_later d d')"

lemma lat_simps [simp]: "lat d (Inr d') = di_later d d'" "lat d (Inl err)"
  by (auto simp: lat_def)

lemma lat_D: "lat d x \<Longrightarrow> x = Inr d' \<Longrightarrow> di_later d d'"
  by (simp add: lat_def)

lemma lat_get: "(\<And>a. x = Inr a \<Longrightarrow> lat d (f a)) \<Longrightarrow> lat d (go_bind x f)"
  by (auto simp: lat_def go_simps)

lemma lat_bind:
  assumes "lat d x" "\<And>d1. x = Inr d1 \<Longrightarrow> di_later d d1 \<Longrightarrow> lat d1 (f d1)"
  shows "lat d (go_bind x f)"
  using assms by (auto simp: lat_def go_simps intro: di_later_trans)

lemma lat_trans: "di_later d d1 \<Longrightarrow> lat d1 x \<Longrightarrow> lat d x"
  by (auto simp: lat_def intro: di_later_trans)

lemma lat_fold: "(\<And>a d. lat d (f a d)) \<Longrightarrow> lat d (go_fold f xs d)"
  by (induction xs arbitrary: d) (auto intro!: lat_bind)

lemma lat_put [later]: "lat d (put_rb e p rb d)" "lat d (put_round k rs d)" "lat d (ensure_cons e p d)" "lat d (ensure_round k d)"
  by (auto simp: lat_def intro: later_put_rb later_put_round later_ensure_cons later_ensure_round)

named_theorems lat_intro "rules that follow the code through its reads and its calls"

lemma lat_gets [lat_intro]:
  "(\<And>a. get_epoch e d0 = Inr a \<Longrightarrow> lat d (f a)) \<Longrightarrow> lat d (go_bind (get_epoch e d0) f)"
  "(\<And>a. get_rb e p d0 = Inr a \<Longrightarrow> lat d (g a)) \<Longrightarrow> lat d (go_bind (get_rb e p d0) g)"
  "(\<And>a. get_cons e p d0 = Inr a \<Longrightarrow> lat d (h a)) \<Longrightarrow> lat d (go_bind (get_cons e p d0) h)"
  "(\<And>a. get_round k d0 = Inr a \<Longrightarrow> lat d (j a)) \<Longrightarrow> lat d (go_bind (get_round k d0) j)"
  "(\<And>a. Hash_ptr E cmd = Inr a \<Longrightarrow> lat d (hh a)) \<Longrightarrow> lat d (go_bind (Hash_ptr E cmd) hh)"
  "(\<And>a. rbq_log i m q = Inr a \<Longrightarrow> lat d (q' a)) \<Longrightarrow> lat d (go_bind (rbq_log i m q) q')"
  by (rule lat_get, assumption)+

lemmas lat_puts [lat_intro] = lat_put lat_put [THEN lat_bind]

lemma lat_put_cons:
  "get_cons e p d = Inr c \<Longrightarrow> db_decided c' = db_decided c \<Longrightarrow> same_decision c c' \<Longrightarrow> lat d (put_cons e p c' d)"
  by (auto simp: lat_def elim!: later_put_cons)

lemma later_put_epoch_new:
  assumes "fmlookup (di_epochs d) e = None" "fmlookup (ep_cons ep) = Map.empty" "ep_consDoneCount ep = 0"
  shows "di_later d (put_epoch e ep d)"
proof -
  have "voters db_decided (ep_cons ep) = {}" using assms(2) by (simp add: voters_def)
  then show ?thesis using assms by (intro later_put_epoch) (simp add: done_ok_def fmcount_card)
qed

lemma lat_onRequest [later]: "lat d (di_onRequest E cmd d)"
proof -
  let ?e = "di_nextEpochNumber d"
  let ?d1 = "d\<lparr>di_nextEpochNumber := ?e + 1\<rparr>"
  define d2 where "d2 = (case fmlookup (di_epochs ?d1) ?e of None \<Rightarrow> put_epoch ?e (emptyEpoch ?e) ?d1 | Some _ \<Rightarrow> ?d1)"
  have "di_later d ?d1" by (rule later_frame) auto
  moreover have "di_later ?d1 d2"
    by (auto simp: d2_def emptyEpoch_def intro!: later_put_epoch_new split: option.split)
  ultimately have "di_later d d2" by (rule di_later_trans)
  then show ?thesis
    unfolding di_onRequest_def Let_def d2_def [symmetric]
    by (rule lat_trans) (intro lat_intro, simp add: later_broadcast)
qed

lemma lat_enqueue [later]: "lat d (di_enqueueForExecution cmd d)"
  by (auto simp: di_enqueueForExecution_def intro!: later_frame split: option.split)

lemma lat_exec_one [later]: "lat d (exec_one E e p d)"
  unfolding exec_one_def by (auto split: option.split intro!: lat_intro lat_onRequest lat_enqueue [THEN lat_bind])

lemma later_deliver_epoch:
  assumes "di_later d d'" "fmlookup (di_epochs d) (di_nextDeliverEpoch d) = Some ep"
    "ep_consDoneCount ep = int (length (di_peers d))" "di_nextDeliverEpoch d' = di_nextDeliverEpoch d"
  shows "di_later d (d'\<lparr>di_nextDeliverEpoch := di_nextDeliverEpoch d + 1\<rparr>)"
proof -
  have "di_ok (d'\<lparr>di_nextDeliverEpoch := di_nextDeliverEpoch d + 1\<rparr>)" if "di_ok d"
    unfolding di_ok_def
  proof (intro conjI allI impI)
    from that assms(1) have ok: "di_ok d'" by (simp add: di_later_def)
    fix e ep assume "fmlookup (di_epochs (d'\<lparr>di_nextDeliverEpoch := di_nextDeliverEpoch d + 1\<rparr>)) e = Some ep"
    with ok show "done_ok ep" by (simp add: di_ok_def)
  next
    from that assms(1) have ok: "di_ok d'" by (simp add: di_later_def)
    fix e assume "e < di_nextDeliverEpoch (d'\<lparr>di_nextDeliverEpoch := di_nextDeliverEpoch d + 1\<rparr>)"
    then consider "e < di_nextDeliverEpoch d" | "e = di_nextDeliverEpoch d"
      using inc_le [of "di_nextDeliverEpoch d" e] by fastforce
    then show "\<exists>ep. fmlookup (di_epochs (d'\<lparr>di_nextDeliverEpoch := di_nextDeliverEpoch d + 1\<rparr>)) e = Some ep
        \<and> int (length (di_peers (d'\<lparr>di_nextDeliverEpoch := di_nextDeliverEpoch d + 1\<rparr>))) \<le> ep_consDoneCount ep"
    proof cases
      case 1
      with ok assms(4) show ?thesis by (auto simp: di_ok_def)
    next
      case 2
      with assms(1-3) show ?thesis by (fastforce simp: di_later_def epoch_later_def)
    qed
  qed
  with assms(1) show ?thesis by (simp add: di_later_def)
qed

lemma onRequest_next: "di_onRequest E cmd d = Inr d' \<Longrightarrow> di_nextDeliverEpoch d' = di_nextDeliverEpoch d"
proof -
  let ?e = "di_nextEpochNumber d"
  let ?d1 = "d\<lparr>di_nextEpochNumber := ?e + 1\<rparr>"
  define d2 where "d2 = (case fmlookup (di_epochs ?d1) ?e of None \<Rightarrow> put_epoch ?e (emptyEpoch ?e) ?d1 | Some _ \<Rightarrow> ?d1)"
  assume "di_onRequest E cmd d = Inr d'"
  then obtain rb d3 m where "put_rb ?e (di_id d) rb d2 = Inr d3" and d': "d' = di_broadcast E m False d3"
    unfolding di_onRequest_def Let_def d2_def [symmetric] by (elim go_bindE) (metis sum.inject(2))
  then have "di_nextDeliverEpoch d3 = di_nextDeliverEpoch d2" by (auto simp: put_rb_def put_epoch_def go_simps)
  moreover have "di_nextDeliverEpoch d2 = di_nextDeliverEpoch d" by (simp add: d2_def put_epoch_def split: option.split)
  moreover have "di_nextDeliverEpoch d' = di_nextDeliverEpoch d3"
    using di_broadcast_eq [of E m False d3] by (auto simp: d')
  ultimately show ?thesis by simp
qed

lemma put_rb_next: "put_rb e p rb d = Inr d' \<Longrightarrow> di_nextDeliverEpoch d' = di_nextDeliverEpoch d"
  by (auto simp: put_rb_def put_epoch_def go_simps)

lemma enqueue_next: "di_enqueueForExecution cmd d = Inr d' \<Longrightarrow> di_nextDeliverEpoch d' = di_nextDeliverEpoch d"
  by (auto simp: di_enqueueForExecution_def split: option.splits)

lemma exec_one_next: "exec_one E e p d = Inr d' \<Longrightarrow> di_nextDeliverEpoch d' = di_nextDeliverEpoch d"
  unfolding exec_one_def
  by (elim go_bindE) (auto elim!: go_bindE dest!: onRequest_next put_rb_next enqueue_next split: option.splits if_splits)

lemma exec_round_later:
  assumes "fmlookup (di_epochs d) (di_nextDeliverEpoch d) = Some ep" "ep_consDoneCount ep = int (length (di_peers d))"
    "go_fold (exec_one E (di_nextDeliverEpoch d)) ps d = Inr d'"
  shows "di_later d (d'\<lparr>di_nextDeliverEpoch := di_nextDeliverEpoch d + 1\<rparr>)"
proof -
  have "di_nextDeliverEpoch d' = di_nextDeliverEpoch d"
    by (rule go_fold_invariant [where I = "\<lambda>x. di_nextDeliverEpoch x = di_nextDeliverEpoch d", OF assms(3)])
      (auto dest: exec_one_next)
  moreover have "di_later d d'" using lat_D [OF lat_fold [OF lat_exec_one] assms(3)] .
  ultimately show ?thesis using assms(1,2) by (intro later_deliver_epoch)
qed

lemma later_exec: "di_exec E d = Inr d' \<Longrightarrow> di_later d d'"
proof -
  have "lat d r" if "di_exec_loop E d = Some r" for d r
  proof (rule di_exec_loop.raw_induct [OF _ that, where P = "\<lambda>_ d r. lat d r"])
    fix f E d r
    assume ih: "\<And>E d r. f E d = Some r \<Longrightarrow> lat d r"
      and body: "(case fmlookup (di_epochs d) (di_nextDeliverEpoch d) of None \<Rightarrow> Some (Inr d)
        | Some ep \<Rightarrow> if ep_rbDoneCount ep < di_rbThreshold d \<or> ep_consDoneCount ep \<noteq> int (length (di_peers d)) then Some (Inr d)
          else case exec_waits ep (fmkeys (env_rangeOrder E) (ep_cons ep)) of Inl err \<Rightarrow> Some (Inl err)
            | Inr w \<Rightarrow> if w then Some (Inr d)
              else case go_fold (exec_one E (di_nextDeliverEpoch d)) (fmkeys (env_rangeOrder E) (ep_cons ep)) d of
                  Inl err \<Rightarrow> Some (Inl err) | Inr d' \<Rightarrow> f E (d'\<lparr>di_nextDeliverEpoch := di_nextDeliverEpoch d + 1\<rparr>)) = Some r"
    show "lat d r"
      using body
      by (auto split: option.splits if_splits sum.splits dest!: ih intro: lat_trans exec_round_later dest: sym [of "Inl _"])
  qed
  then show "di_exec E d = Inr d' \<Longrightarrow> di_later d d'" by (fastforce simp: di_exec_def split: option.splits)
qed

lemma lat_exec [later]: "lat d (di_exec E d)"
  by (simp add: lat_def later_exec)

subsection \<open>Binary consensus\<close>

lemma later_decide:
  assumes "fmlookup (di_epochs d) e = Some ep" "fmlookup (ep_cons ep) p = Some c" "\<not> db_decided c" "db_decided c'"
    "put_cons e p c' (put_epoch e (ep\<lparr>ep_consDoneCount := ep_consDoneCount ep + 1\<rparr>) d) = Inr d'"
  shows "di_later d d'"
proof -
  let ?ep = "ep\<lparr>ep_consDoneCount := ep_consDoneCount ep + 1, ep_cons := fmupd p c' (ep_cons ep)\<rparr>"
  have d': "d' = put_epoch e ?ep (put_epoch e (ep\<lparr>ep_consDoneCount := ep_consDoneCount ep + 1\<rparr>) d)"
    using assms(5) by (auto simp: put_cons_def get_epoch_def put_epoch_def)
  have "fmcount db_decided (fmupd p c' (ep_cons ep)) = Suc (fmcount db_decided (ep_cons ep))"
    using assms(2-4) by (intro fmcount_upd_new) auto
  then have "epoch_later ep ?ep" using assms(2,3) by (auto simp: epoch_later_def done_ok_def same_decision_def)
  then have "di_later d (put_epoch e ?ep d)" using assms(1) by (intro later_put_epoch) simp
  moreover have "d' = put_epoch e ?ep d" by (simp add: d' put_epoch_def)
  ultimately show ?thesis by simp
qed

definition lat2 :: "Dispel \<Rightarrow> (Dispel \<times> 'a) go \<Rightarrow> bool" where
  "lat2 d x \<longleftrightarrow> (\<forall>d' a. x = Inr (d', a) \<longrightarrow> di_later d d')"

lemma lat2_simps [simp]: "lat2 d (Inr (d', a)) = di_later d d'" "lat2 d (Inl err)"
  by (auto simp: lat2_def)

lemma lat2_get: "(\<And>a. x = Inr a \<Longrightarrow> lat2 d (f a)) \<Longrightarrow> lat2 d (go_bind x f)"
  by (auto simp: lat2_def go_simps)

lemma lat2_bind:
  assumes "lat d x" "\<And>d1. x = Inr d1 \<Longrightarrow> di_later d d1 \<Longrightarrow> lat2 d1 (f d1)"
  shows "lat2 d (go_bind x f)"
  using assms by (auto simp: lat_def lat2_def go_simps intro: di_later_trans)

lemma lat_if [lat_intro]:
  "(b \<Longrightarrow> lat d x) \<Longrightarrow> (\<not> b \<Longrightarrow> lat d y) \<Longrightarrow> lat d (if b then x else y)"
  by simp

lemma lat2_if: "(b \<Longrightarrow> lat2 d x) \<Longrightarrow> (\<not> b \<Longrightarrow> lat2 d y) \<Longrightarrow> lat2 d (if b then x else y)"
  by simp

lemma lat2_put_cons:
  assumes "\<And>c. get_cons e p d = Inr c \<Longrightarrow> db_decided (g c) = db_decided c \<and> same_decision c (g c)"
  shows "lat2 d (go_bind (get_cons e p d) (\<lambda>c. go_bind (put_cons e p (g c) d) (\<lambda>d1. Inr (d1, y))))"
  using assms by (intro lat2_get lat2_bind [OF lat_put_cons]) auto

lemma lat2_aux_step: "lat2 d (aux_step E k d)"
proof (cases k)
  case (fields e p r)
  have dec: "lat d (put_cons e p (if now then c\<lparr>db_decided := True, db_decidedValue := est, db_decidedRound := r\<rparr> else c)
      (put_epoch e (if now then ep\<lparr>ep_consDoneCount := ep_consDoneCount ep + 1\<rparr> else ep) d))"
    if "get_cons e p d = Inr c" "get_epoch e d = Inr ep" "now \<Longrightarrow> \<not> db_decided c" for c ep now est
  proof (cases now)
    case True
    with that show ?thesis by (auto simp: lat_def go_simps elim!: later_decide)
  next
    case False
    from that have "fmupd e ep (di_epochs d) = di_epochs d" by (auto simp: go_simps intro!: fmap_ext)
    then have "put_epoch e ep d = d" by (simp add: put_epoch_def)
    with False that show ?thesis by (auto intro!: lat_put_cons)
  qed
  have exec: "lat2 d (go_bind (di_exec E d) (\<lambda>d3. if b then Inr (d3, Some est)
      else go_bind (get_cons e p d3) (\<lambda>c3. go_bind (put_cons e p (c3\<lparr>db_restartOnBinValues := True\<rparr>) d3) (\<lambda>d4. Inr (d4, None)))))"
    for d b and est :: i32
    by (rule lat2_bind [OF lat_exec]) (auto intro!: lat2_put_cons simp: same_decision_def)
  have halt: "lat2 d (go_bind (get_cons e p d) (\<lambda>c. go_bind (put_cons e p (c\<lparr>db_halt := True\<rparr>) d) (\<lambda>d4. Inr (d4, None :: i32 option))))"
    for d by (auto intro!: lat2_put_cons simp: same_decision_def)
  show ?thesis
    unfolding aux_step_def fields prod.case Let_def
    apply (rule lat2_get)
    apply (rule lat2_if, simp)+
    apply (rule lat2_get)
    apply (rule lat2_get)
    apply (rule lat2_bind [OF dec])
       apply assumption
      apply assumption
     apply blast
    apply (rule lat2_bind [OF lat_put(2)])
    apply (intro lat2_if exec halt)
    apply simp
    done
qed

lemma lat2_propose_step: "lat2 d (propose_step E k est d)"
proof (cases k)
  case (fields e p r)
  have put: "lat2 d (go_bind (put_round (e, p, r) rs d) (\<lambda>d2. Inr (d2, b)))"
    "lat2 d (go_bind (put_round (e, p, r) rs d) (\<lambda>d2. Inr (di_broadcast E m self d2, b)))" for d rs m self and b :: bool
    by (auto intro!: lat2_bind [OF lat_put(2)] later_broadcast)
  show ?thesis
    unfolding propose_step_def fields prod.case Let_def
    apply (rule lat2_get)
    apply (rule lat2_if)
     apply simp
    apply (rule lat2_bind [OF lat_put(4)])
    apply (rule lat2_get)
    apply (intro lat2_if put)
    done
qed

lemma later_propose: "binaryPropose E e p r est d = Inr d' \<Longrightarrow> di_later d d'"
proof -
  have "lat d x" if "binaryPropose_loop E k est d = Some x" for k est d x
  proof (rule binaryPropose_loop.raw_induct [OF _ that, where P = "\<lambda>_ _ _ d x. lat d x"])
    fix f E k est d x
    assume ih: "\<And>E k est d x. f E k est d = Some x \<Longrightarrow> lat d x"
      and body: "(case propose_step E k est d of Inl err \<Rightarrow> Some (Inl err)
        | Inr (d1, aux) \<Rightarrow> if \<not> aux then Some (Inr d1)
          else case aux_step E k d1 of Inl err \<Rightarrow> Some (Inl err)
            | Inr (d2, next) \<Rightarrow> (case next of None \<Rightarrow> Some (Inr d2)
                | Some est' \<Rightarrow> f E (fst k, fst (snd k), snd (snd k) + 1) est' d2)) = Some x"
    have 1: "di_later d d1" if "propose_step E k est d = Inr (d1, b)" for d1 b
      using that lat2_propose_step [of d E k est] by (simp add: lat2_def)
    have 2: "di_later d1 d2" if "aux_step E k d1 = Inr (d2, b)" for d1 d2 b
      using that lat2_aux_step [of d1 E k] by (simp add: lat2_def)
    show "lat d x"
    proof (cases "propose_step E k est d")
      case (Inr a)
      then obtain d1 b where a: "propose_step E k est d = Inr (d1, b)" by (cases a) auto
      show ?thesis
      proof (cases "aux_step E k d1")
        case (Inr n)
        then have "di_later d (fst n)" using 1 [OF a] 2 [of d1 "fst n" "snd n"] by (auto intro: di_later_trans)
        with body a Inr 1 [OF a] show ?thesis
          by (auto split: if_splits option.splits prod.splits dest!: ih intro: lat_trans)
      qed (use body a 1 [OF a] in \<open>auto split: if_splits\<close>)
    qed (use body in auto)
  qed
  then show "binaryPropose E e p r est d = Inr d' \<Longrightarrow> di_later d d'" by (fastforce simp: binaryPropose_def split: option.splits)
qed

lemma lat_propose [later, lat_intro]: "lat d (binaryPropose E e p r est d)"
  by (simp add: lat_def later_propose)

lemma lat_afterAux [later, lat_intro]: "lat d (onAfterSendReceiveAux E k d)"
proof -
  have "lat d (case n of None \<Rightarrow> Inr d' | Some est \<Rightarrow> binaryPropose E (fst k) (fst (snd k)) (snd (snd k) + 1) est d')"
    if "aux_step E k d = Inr (d', n)" for d' n
    using that lat2_aux_step [of d E k] lat_trans [OF _ lat_propose] by (auto simp: lat2_def split: option.split)
  then show ?thesis unfolding onAfterSendReceiveAux_def by (auto intro: lat_get)
qed

lemma lat_broadcastAux [later, lat_intro]: "lat d (broadcastAux E k s d)"
  unfolding broadcastAux_def by (intro lat_gets lat_if lat_puts lat_trans [OF later_broadcast lat_afterAux]) simp

lemma lat_tryStart [later, lat_intro]: "lat d (tryStartConsensus E e d)"
  unfolding tryStartConsensus_def by (intro lat_intro lat_fold) simp

lemma lat_RBDone [later, lat_intro]: "lat d (onRBDone E e p d)"
  unfolding onRBDone_def by (auto intro!: lat_intro split: option.split)

lemma lat_timers [later, lat_intro]:
  "lat d (onAfterBinValuesNotNullAndCoordTimerExpires E k d)" "lat d (onAfterCoordSentAndBinValuesNotNull E k d)"
  "lat d (onCoordTimerExpired E k d)"
  unfolding onCoordTimerExpired_def onAfterCoordSentAndBinValuesNotNull_def onAfterBinValuesNotNullAndCoordTimerExpires_def Let_def
  by (intro lat_intro; simp)+

lemma lat_upd_cons:
  assumes "\<And>c. db_decided (g c) = db_decided c \<and> same_decision c (g c)"
    "\<And>c d1. get_cons e p d = Inr c \<Longrightarrow> put_cons e p (g c) d = Inr d1 \<Longrightarrow> lat d1 (f c d1)"
  shows "lat d (go_bind (get_cons e p d) (\<lambda>c. go_bind (put_cons e p (g c) d) (f c)))"
  using assms by (intro lat_get lat_bind [OF lat_put_cons]) auto

lemma lat_coordStep:
  "lat d (if fcard s \<noteq> 1 then Inl PanicCall else Inr (di_broadcast E m True d))"
  by (simp add: later_broadcast)

lemma lat_afterBV [later, lat_intro]: "lat d (afterBVBroadcast E k d)"
proof (cases k)
  case (fields e p r)
  have timer: "di_later d (d\<lparr>di_timers := x\<rparr>)" for d x by (rule later_frame) auto
  have restart: "lat d4 (go_bind (get_cons e p d4) (\<lambda>c4. go_bind (get_round (e, p, r) d4) (\<lambda>rs4.
       if db_restartOnBinValues c4 \<and> 0 |\<in>| dr_binValues rs4 \<and> 1 |\<in>| dr_binValues rs4
       then go_bind (put_cons e p (c4\<lparr>db_restartOnBinValues := False\<rparr>) d4) (binaryPropose E e p (r + 1) (dr_est rs4))
       else Inr d4)))" for d4
    by (auto intro!: lat_gets lat_if lat_bind [OF lat_put_cons] lat_propose simp: same_decision_def)
  show ?thesis
    unfolding afterBVBroadcast_def fields prod.case
    by (intro restart lat_upd_cons lat_gets lat_bind [OF lat_if] lat_puts lat_if lat_coordStep
        lat_trans [OF timer lat_timers(2)]) (simp_all add: same_decision_def later_broadcast)
qed

lemma lat_open_round [later, lat_intro]: "lat d (open_round m d)"
  by (auto simp: open_round_def split: option.split intro!: lat_puts)

lemma lat_stepConsensus [later, lat_intro]: "lat d (di_stepConsensus E m from d)"
proof -
  have b: "di_later d (if relay then di_broadcast E m' False d else d)" for d relay m' by (simp add: later_broadcast)
  have thresh: "lat d3 (if b then go_bind (put_round k rs d3) (afterBVBroadcast E k) else Inr d3)" for d3 b k rs
    by (auto intro!: lat_puts lat_afterBV)
  have "lat d (onBVBroadcast E m from d)"
    unfolding onBVBroadcast_def Let_def
    by (intro lat_open_round [THEN lat_bind] lat_gets lat_puts lat_trans [OF b thresh])
  moreover have "lat d (onCoordValue m from d)"
    unfolding onCoordValue_def Let_def by (intro lat_open_round [THEN lat_bind] lat_gets lat_put)
  moreover have "lat d (onAuxMessage E m from d)"
    unfolding onAuxMessage_def Let_def by (intro lat_open_round [THEN lat_bind] lat_gets lat_puts lat_afterAux)
  ultimately show ?thesis by (simp add: di_stepConsensus_def split: ConsensusMessage_Type.split)
qed

subsection \<open>Reliable broadcast\<close>

lemma later_new_epoch: "fmlookup (di_epochs d) (rm_EpochNum m) = None \<Longrightarrow> di_later d (new_epoch m d)"
  by (auto simp: new_epoch_def makeEpoch_def emptyEpoch_def intro!: later_put_epoch_new)

lemma lat_updateCommand [later, lat_intro]: "lat d (di_updateCommand e m d)" "lat d (di_updateCommandHash e m d)"
  unfolding di_updateCommand_def di_updateCommandHash_def
  by (auto split: option.split intro!: lat_gets lat_if lat_put lat_get)

lemma lat_open_rb [later, lat_intro]: "lat d (open_rb m d)"
  by (auto simp: open_rb_def split: option.split intro: later_new_epoch lat_updateCommand)

lemma lat_afterReady [later, lat_intro]: "lat d (onAfterReady E e p d)"
  unfolding onAfterReady_def by (auto split: option.split intro!: lat_gets lat_onRequest)

lemma lat_rb_ready [later, lat_intro]: "lat d (rb_ready E e p d)"
proof -
  have done_count: "di_later d (put_epoch e (ep\<lparr>ep_rbDoneCount := x\<rparr>) d)" if "get_epoch e d = Inr ep" for d ep x
    using that by (auto intro!: later_put_epoch simp: go_simps)
  have start: "lat d (go_bind (tryStartConsensus E e (put_epoch e (ep\<lparr>ep_rbDoneCount := x\<rparr>) d)) f)"
    if "get_epoch e d = Inr ep" "\<And>d2. lat d2 (f d2)" for d ep x f
    by (rule lat_trans [OF done_count [OF that(1)] lat_tryStart [THEN lat_bind]]) (rule that(2))
  show ?thesis
    unfolding rb_ready_def
    by (intro lat_gets lat_puts, rule start, assumption)
      (intro lat_RBDone [THEN lat_bind] lat_exec [THEN lat_bind] lat_afterReady)
qed

lemma lat_rb_echoed [later, lat_intro]: "lat d (rb_echoed E e p d)"
  unfolding rb_echoed_def Let_def
  by (intro lat_gets lat_trans [OF later_broadcast lat_put(1) [THEN lat_bind]] lat_if lat_rb_ready) simp

lemma lat_stepBroadcast [later, lat_intro]: "lat d (di_stepBroadcast E m from d)"
proof -
  have "lat d (onRBSend E m from d)"
  proof -
    have first: "lat d (case fmlookup (di_epochs d) (rm_EpochNum m') of None \<Rightarrow> Inr (new_epoch m' d)
        | Some _ \<Rightarrow> go_bind (di_updateCommand (rm_EpochNum m') m' d) (di_updateCommandHash (rm_EpochNum m') m'))" for m'
      by (auto split: option.split intro: later_new_epoch lat_updateCommand(2) lat_updateCommand(1) [THEN lat_bind])
    show ?thesis
      unfolding onRBSend_def Let_def
      by (intro lat_gets first [THEN lat_bind] lat_puts lat_if lat_trans [OF later_broadcast lat_rb_echoed])
        (simp add: later_broadcast)
  qed
  moreover have "lat d (onRBEcho E m from d)" "lat d (onRBReady E m from d)"
    unfolding onRBEcho_def onRBReady_def Let_def
    by (intro lat_open_rb [THEN lat_bind] lat_gets lat_puts lat_if lat_rb_echoed lat_rb_ready; simp)+
  ultimately show ?thesis by (simp add: di_stepBroadcast_def split: RBMessage_Type.split)
qed

subsection \<open>Entry points\<close>

lemma lat_Step [later]: "lat d (di_Step E mm d)"
  by (auto simp: di_Step_def split: option.split DispelMessage.split intro: lat_stepBroadcast lat_stepConsensus)

lemma lat_Tick [later]: "lat d (di_Tick E d)"
proof -
  have timer: "di_later d (d\<lparr>di_timers := x\<rparr>)" for d x by (rule later_frame) auto
  have "lat d (di_tickTimer E t d)" for t d
    unfolding di_tickTimer_def
    by (auto split: prod.split intro!: lat_fold lat_timers simp: timer intro: lat_trans [OF timer])
  then show ?thesis unfolding di_Tick_def by (intro lat_trans [OF timer lat_fold])
qed

lemma lat_Async [later]: "lat d (di_AsyncCallback d)"
proof -
  have "di_later d (fold (\<lambda>((b, n), c). di_enqueueForSending n b c) cbs d)" for cbs d
  proof (induction cbs arbitrary: d)
    case (Cons cb cbs)
    have "di_later d (di_enqueueForSending n b c d)" for n b c by (auto simp: di_enqueueForSending_def intro!: later_frame)
    then show ?case using di_later_trans [OF _ Cons] by (cases cb) (auto split: prod.split)
  qed simp
  moreover have "di_later d (d\<lparr>di_signDispatcher := x\<rparr>)" for x by (rule later_frame) auto
  ultimately show ?thesis by (auto simp: di_AsyncCallback_def split: prod.split intro: di_later_trans)
qed

lemma lat_Request [later]: "lat d (di_Request E c d)"
  by (simp add: di_Request_def lat_onRequest)

interpretation di_out: protocol_output "di_Protocol E" di_msgs di_toDeliver
  by unfold_locales
    (auto simp: di_Protocol_def di_MakeReady_def di_ClearMsgs_def di_ClearExecutedCommands_def di_Callback_def di_later_def
      dest!: lat_Step [THEN lat_D] lat_Tick [THEN lat_D] lat_Request [THEN lat_D] lat_Async [THEN lat_D])

end
