(* ===== verification/Dispel_Runs.thy ===== *)
theory Dispel_Runs
  imports Dispel_Local
begin

text \<open>
  What a Dispel replica guarantees whatever it receives: a decision of a binary consensus is final, the counter of an epoch is the
  number of its decided consensuses, the delivery loop ends, and the peer loses nothing of its output.
  What it does not guarantee, on concrete runs: one sender alone makes two correct replicas decide differently, and the order of
  delivery within an epoch is the order in which Go visits a map.
\<close>

subsection \<open>A replica between two points of its run\<close>

text \<open>
  What can happen to a replica: a message, a request, a tick, a step of one thread of its worker pool, the callbacks, and the two
  operations by which the peer empties the queues. \<open>None\<close> means that the thread cannot proceed.
\<close>

datatype di_act = DStep Message | DRequest Command | DTick | DTake | DAssign | DFinish nat | DAsync | DClearMsgs | DClearCmds

definition di_pool :: "((bytes \<times> PeerID, bytes) Dispatcher \<Rightarrow> (bytes \<times> PeerID, bytes) Dispatcher option) \<Rightarrow> Dispel \<Rightarrow> Dispel go option" where
  "di_pool g d = map_option (\<lambda>x. Inr (d\<lparr>di_signDispatcher := x\<rparr>)) (g (di_signDispatcher d))"

fun di_do :: "dispel_env \<Rightarrow> di_act \<Rightarrow> Dispel \<Rightarrow> Dispel go option" where
  "di_do E (DStep m) d = Some (di_Step E m d)"
| "di_do E (DRequest c) d = Some (di_Request E c d)"
| "di_do E DTick d = Some (di_Tick E d)"
| "di_do E DTake d = di_pool dispatch_take d"
| "di_do E DAssign d = di_pool dispatch_assign d"
| "di_do E (DFinish i) d = di_pool (worker_finish (\<lambda>(b, _). env_createSignedCertificate E b) i) d"
| "di_do E DAsync d = Some (di_AsyncCallback d)"
| "di_do E DClearMsgs d = Some (Inr (di_ClearMsgs d))"
| "di_do E DClearCmds d = Some (Inr (di_ClearExecutedCommands d))"

inductive di_move :: "dispel_env \<Rightarrow> Dispel \<Rightarrow> Dispel \<Rightarrow> bool" for E where
  di_moved: "di_do E a d = Some (Inr d') \<Longrightarrow> di_move E d d'"

fun di_run :: "dispel_env \<Rightarrow> di_act list \<Rightarrow> Dispel \<Rightarrow> Dispel go option" where
  "di_run E [] d = Some (Inr d)"
| "di_run E (a # as) d = (case di_do E a d of Some (Inr d') \<Rightarrow> di_run E as d' | r \<Rightarrow> r)"

lemma di_run_moves: "di_run E as d = Some (Inr d') \<Longrightarrow> (di_move E)\<^sup>*\<^sup>* d d'"
  by (induction as arbitrary: d)
    (auto split: option.splits sum.splits intro: converse_rtranclp_into_rtranclp di_moved)

text \<open>Emptying the queues is the only move after which the state is not later; it touches nothing else.\<close>

definition di_kept :: "Dispel \<Rightarrow> Dispel \<Rightarrow> bool" where
  "di_kept d d' \<longleftrightarrow> di_peers d' = di_peers d \<and> (di_ok d \<longrightarrow> di_ok d')
     \<and> (\<forall>e p c. di_cons e p d = Some c \<longrightarrow> (\<exists>c'. di_cons e p d' = Some c' \<and> same_decision c c'))"

lemma di_kept_refl [simp]: "di_kept d d"
  by (auto simp: di_kept_def)

lemma di_kept_trans: "di_kept d d1 \<Longrightarrow> di_kept d1 d2 \<Longrightarrow> di_kept d d2"
  unfolding di_kept_def by (metis same_decision_trans)

lemma later_kept: "di_later d d' \<Longrightarrow> di_kept d d'"
  unfolding di_later_def di_kept_def di_cons_def epoch_later_def by (fastforce split: option.splits)

lemma frame_kept:
  "di_epochs d' = di_epochs d \<Longrightarrow> di_peers d' = di_peers d \<Longrightarrow> di_nextDeliverEpoch d' = di_nextDeliverEpoch d \<Longrightarrow> di_kept d d'"
  by (auto simp: di_kept_def di_cons_def di_ok_def)

lemma di_move_kept: "di_move E d d' \<Longrightarrow> di_kept d d'"
proof (erule di_move.cases)
  fix a x x' assume "d = x" "d' = x'" "di_do E a x = Some (Inr x')"
  then show "di_kept d d'"
    by (cases a) (auto simp: di_pool_def di_ClearMsgs_def di_ClearExecutedCommands_def intro!: frame_kept
        dest!: lat_Step [THEN lat_D] lat_Tick [THEN lat_D] lat_Request [THEN lat_D] lat_Async [THEN lat_D] later_kept)
qed

lemma di_moves_kept: "(di_move E)\<^sup>*\<^sup>* d d' \<Longrightarrow> di_kept d d'"
  by (induction rule: rtranclp_induct) (auto dest: di_move_kept intro: di_kept_trans)

lemma NewDispel_ok: "NewDispel cfg = Inr d \<Longrightarrow> di_ok d"
  by (auto simp: NewDispel_def go_simps di_ok_def)

text \<open>
  Claim C8. A decision of a binary consensus is final: once a replica has decided one, its value and its round
  stay, whatever messages follow, from correct or Byzantine replicas, whatever timers fire and however the threads interleave.
\<close>

theorem dispel_decision_final:
  assumes "(di_move E)\<^sup>*\<^sup>* d d'" "di_cons e p d = Some c" "db_decided c"
  shows "\<exists>c'. di_cons e p d' = Some c' \<and> db_decided c' \<and> db_decidedValue c' = db_decidedValue c
    \<and> db_decidedRound c' = db_decidedRound c"
  using di_moves_kept [OF assms(1)] assms(2,3) by (fastforce simp: di_kept_def same_decision_def)

text \<open>
  Claim C22. In every state that a replica reaches, the counter of an epoch is the number of its decided consensuses, and in an epoch
  whose number the delivery has passed there are at least as many decided consensuses as replicas.
\<close>

theorem dispel_epoch_counters:
  assumes "NewDispel cfg = Inr d0" "(di_move E)\<^sup>*\<^sup>* d0 d"
  shows "(\<forall>e ep. fmlookup (di_epochs d) e = Some ep \<longrightarrow> ep_consDoneCount ep = int (fmcount db_decided (ep_cons ep)))
    \<and> (\<forall>e < di_nextDeliverEpoch d. \<exists>ep. fmlookup (di_epochs d) e = Some ep
          \<and> length (cfg_Peers cfg) \<le> fmcount db_decided (ep_cons ep))"
proof -
  from assms(1) have "di_ok d0" "di_peers d0 = cfg_Peers cfg" by (auto simp: NewDispel_ok NewDispel_def go_simps)
  with di_moves_kept [OF assms(2)] have "di_ok d" "di_peers d = cfg_Peers cfg" by (simp_all add: di_kept_def)
  then show ?thesis unfolding di_ok_def done_ok_def by fastforce
qed

text \<open>
  A peer that runs Dispel loses, duplicates and reorders no message and no command, under every
  interleaving of its threads.
\<close>

theorem dispel_peer_streams_grow:
  assumes "(peer_step V (di_Protocol E))\<^sup>*\<^sup>* p p'"
  shows "prefix (pe_sent p @ concat (pe_toSend p) @ di_msgs (pe_n p))
      (pe_sent p' @ concat (pe_toSend p') @ di_msgs (pe_n p'))
    \<and> prefix (pe_applied p @ pe_applying p @ concat (pe_toApply p) @ pe_handoff p @ di_toDeliver (pe_n p))
      (pe_applied p' @ pe_applying p' @ concat (pe_toApply p') @ pe_handoff p' @ di_toDeliver (pe_n p'))"
  using di_out.peer_steps_stream [OF assms] unfolding di_out.messages.msg_stream_def di_out.commands.cmd_stream_def .

subsection \<open>The delivery loop ends\<close>

definition epoch_complete :: "u64 \<Rightarrow> Dispel \<Rightarrow> bool" where
  "epoch_complete e d \<longleftrightarrow> (\<exists>ep. fmlookup (di_epochs d) e = Some ep \<and> ep_consDoneCount ep = int (length (di_peers d)))"

definition keeps_incomplete :: "u64 \<Rightarrow> Dispel \<Rightarrow> Dispel go \<Rightarrow> bool" where
  "keeps_incomplete e d x \<longleftrightarrow> (\<forall>d'. x = Inr d' \<longrightarrow> di_peers d \<noteq> [] \<longrightarrow> di_peers d' = di_peers d \<and> (\<not> epoch_complete e d \<longrightarrow> \<not> epoch_complete e d'))"

lemma ki_put_rb: "keeps_incomplete e d (put_rb e' p rb d)"
  by (auto simp: keeps_incomplete_def put_rb_def put_epoch_def epoch_complete_def go_simps split: if_splits)

lemma ki_bind:
  assumes "keeps_incomplete e d x" "\<And>d1. x = Inr d1 \<Longrightarrow> keeps_incomplete e d1 (f d1)"
  shows "keeps_incomplete e d (go_bind x f)"
proof -
  have "di_peers d' = di_peers d \<and> (\<not> epoch_complete e d \<longrightarrow> \<not> epoch_complete e d')"
    if r: "go_bind x f = Inr d'" and ne: "di_peers d \<noteq> []" for d'
  proof -
    from r obtain d1 where x: "x = Inr d1" and f: "f d1 = Inr d'" by (elim go_bindE)
    from assms(1) x ne have 1: "di_peers d1 = di_peers d" "\<not> epoch_complete e d \<longrightarrow> \<not> epoch_complete e d1"
      by (simp_all add: keeps_incomplete_def)
    with assms(2) [OF x] f ne show ?thesis by (simp add: keeps_incomplete_def)
  qed
  then show ?thesis by (simp add: keeps_incomplete_def)
qed

lemma ki_get: "(\<And>a. x = Inr a \<Longrightarrow> keeps_incomplete e d (f a)) \<Longrightarrow> keeps_incomplete e d (go_bind x f)"
  by (auto simp: keeps_incomplete_def go_simps)

lemma ki_onRequest: "keeps_incomplete e d (di_onRequest E cmd d)"
proof -
  let ?e = "di_nextEpochNumber d"
  let ?d1 = "d\<lparr>di_nextEpochNumber := ?e + 1\<rparr>"
  define d2 where "d2 = (case fmlookup (di_epochs ?d1) ?e of None \<Rightarrow> put_epoch ?e (emptyEpoch ?e) ?d1 | Some _ \<Rightarrow> ?d1)"
  have 1: "di_peers d2 = di_peers d" "di_peers d \<noteq> [] \<Longrightarrow> epoch_complete e d2 \<Longrightarrow> epoch_complete e d"
    by (auto simp: d2_def put_epoch_def epoch_complete_def emptyEpoch_def split: option.splits if_splits)
  have 2: "epoch_complete e (di_broadcast E m b x) = epoch_complete e x" "di_peers (di_broadcast E m b x) = di_peers x" for m b x
    using di_broadcast_eq [of E m b x] by (auto simp: epoch_complete_def)
  have st: "keeps_incomplete e d2 (go_bind (put_rb ?e (di_id d) rb d2) (\<lambda>d3. Inr (di_broadcast E m False d3)))" for rb m
    by (rule ki_bind [OF ki_put_rb]) (simp add: keeps_incomplete_def 2)
  have "keeps_incomplete e d2 (di_onRequest E cmd d)"
    unfolding di_onRequest_def Let_def d2_def [symmetric] by (rule ki_get, rule ki_get, rule ki_get, rule st)
  with 1 show ?thesis unfolding keeps_incomplete_def by metis
qed

lemma ki_exec_one: "keeps_incomplete e d (exec_one E e' p d)"
proof -
  have enq: "keeps_incomplete e d (di_enqueueForExecution cmd d)" for cmd
    by (auto simp: keeps_incomplete_def di_enqueueForExecution_def epoch_complete_def split: option.splits)
  have same: "keeps_incomplete e d (Inr d)" "keeps_incomplete e d (Inl err)" for err by (auto simp: keeps_incomplete_def)
  show ?thesis
    unfolding exec_one_def
    by (rule ki_get) (auto split: option.split intro: same ki_bind [OF ki_put_rb] ki_onRequest
        intro!: ki_get [of "get_rb e' _ d"] ki_bind [OF enq] ki_put_rb)
qed

lemma ki_fold: "keeps_incomplete e d (go_fold (exec_one E e') ps d)"
proof (induction ps arbitrary: d)
  case Nil
  show ?case by (simp add: keeps_incomplete_def)
qed (auto intro: ki_bind [OF ki_exec_one])

lemma exec_loop_stops:
  assumes "di_peers d \<noteq> []" "\<not> epoch_complete (di_nextDeliverEpoch d + of_nat k) d"
  shows "\<exists>r. di_exec_loop E d = Some r"
  using assms
proof (induction k arbitrary: d)
  case 0
  then show ?case by (subst di_exec_loop.simps) (auto simp: epoch_complete_def split: option.split)
next
  case (Suc k)
  let ?next = "\<lambda>d'. d'\<lparr>di_nextDeliverEpoch := di_nextDeliverEpoch d + 1\<rparr>"
  have "\<exists>r. di_exec_loop E (?next d') = Some r" if "go_fold (exec_one E (di_nextDeliverEpoch d)) ps d = Inr d'" for ps d'
  proof (rule Suc.IH)
    have eq: "di_nextDeliverEpoch d + 1 + of_nat k = di_nextDeliverEpoch d + of_nat (Suc k)" by simp
    show "di_peers (?next d') \<noteq> []" "\<not> epoch_complete (di_nextDeliverEpoch (?next d') + of_nat k) (?next d')"
      using ki_fold [of "di_nextDeliverEpoch d + of_nat (Suc k)" d E "di_nextDeliverEpoch d" ps] that Suc.prems
      unfolding keeps_incomplete_def epoch_complete_def eq [symmetric] by (auto simp add: add.assoc)
  qed
  then show ?case by (subst di_exec_loop.simps) (auto split: option.split sum.split)
qed

text \<open>The next epoch cannot be delivered (yet).\<close>

definition exec_blocked :: "dispel_env \<Rightarrow> Dispel \<Rightarrow> bool" where
  "exec_blocked E d \<longleftrightarrow>
     (case fmlookup (di_epochs d) (di_nextDeliverEpoch d) of
        None \<Rightarrow> True
      | Some ep \<Rightarrow> ep_rbDoneCount ep < di_rbThreshold d \<or> ep_consDoneCount ep \<noteq> int (length (di_peers d))
          \<or> exec_waits ep (fmkeys (env_rangeOrder E) (ep_cons ep)) = Inr True)"

lemma exec_loop_blocked: "di_exec_loop E d = Some (Inr d') \<Longrightarrow> exec_blocked E d'"
proof -
  have "\<forall>d'. r = Inr d' \<longrightarrow> exec_blocked E d'" if "di_exec_loop E d = Some r" for r
  proof (rule di_exec_loop.raw_induct [OF _ that, where P = "\<lambda>E d r. \<forall>d'. r = Inr d' \<longrightarrow> exec_blocked E d'"])
    fix f E d r
    assume ih: "\<And>E d r. f E d = Some r \<Longrightarrow> \<forall>d'. r = Inr d' \<longrightarrow> exec_blocked E d'"
      and body: "(case fmlookup (di_epochs d) (di_nextDeliverEpoch d) of None \<Rightarrow> Some (Inr d)
        | Some ep \<Rightarrow> if ep_rbDoneCount ep < di_rbThreshold d \<or> ep_consDoneCount ep \<noteq> int (length (di_peers d)) then Some (Inr d)
          else case exec_waits ep (fmkeys (env_rangeOrder E) (ep_cons ep)) of Inl err \<Rightarrow> Some (Inl err)
            | Inr w \<Rightarrow> if w then Some (Inr d)
              else case go_fold (exec_one E (di_nextDeliverEpoch d)) (fmkeys (env_rangeOrder E) (ep_cons ep)) d of
                  Inl err \<Rightarrow> Some (Inl err) | Inr d' \<Rightarrow> f E (d'\<lparr>di_nextDeliverEpoch := di_nextDeliverEpoch d + 1\<rparr>)) = Some r"
    show "\<forall>d'. r = Inr d' \<longrightarrow> exec_blocked E d'"
      using body by (auto simp: exec_blocked_def split: option.splits if_splits sum.splits dest: ih [rule_format])
  qed
  then show "di_exec_loop E d = Some (Inr d') \<Longrightarrow> exec_blocked E d'" by blast
qed

text \<open>
  Claim C23. The delivery loop ends, in a system with a replica, whenever some epoch is missing or has an undecided consensus, and when it has not ended
  the process it has delivered every epoch it can: the next one is missing, or short of broadcasts or of decisions, or waits for a command.
\<close>

theorem dispel_exec_terminates:
  assumes "di_peers d \<noteq> []" "\<not> epoch_complete e d"
  shows "\<exists>r. di_exec_loop E d = Some r \<and> di_exec E d = r \<and> (\<forall>d'. r = Inr d' \<longrightarrow> exec_blocked E d')"
proof -
  have "e = di_nextDeliverEpoch d + of_nat (unat (e - di_nextDeliverEpoch d))" by simp
  with assms(2) have "\<not> epoch_complete (di_nextDeliverEpoch d + of_nat (unat (e - di_nextDeliverEpoch d))) d" by metis
  from exec_loop_stops [OF assms(1) this, of E] obtain r where "di_exec_loop E d = Some r" by blast
  then show ?thesis by (auto simp: di_exec_def dest: exec_loop_blocked)
qed

subsection \<open>Concrete runs\<close>

definition ex_di_env :: "(bytes \<Rightarrow> DispelMessage option) \<Rightarrow> (u64 list \<Rightarrow> u64 list) \<Rightarrow> dispel_env" where
  "ex_di_env un ord = \<lparr>env_sha256 = (\<lambda>b. 1 # b), env_marshalCommand = (\<lambda>c. Some [ucast (cmd_Timestamp c)]),
     env_createSignedCertificate = (\<lambda>_. []), env_verifyCertificate = (\<lambda>_ _. True), env_rangeOrder = ord,
     env_marshalDispel = (\<lambda>_. []), env_unmarshalDispel = un, env_setOrder = (\<lambda>xs. xs), env_timerOrder = (\<lambda>ts. ts)\<rparr>"

definition ex_di_cmd :: "u64 \<Rightarrow> Command" where
  "ex_di_cmd t = \<lparr>cmd_Timestamp = t, cmd_Ops = [], cmd_Target = 0, cmd_Meta = [], cmd_ConflictKey = [], cmd_TraceInfo = fmempty\<rparr>"

definition ex_rb :: "PeerID \<Rightarrow> RBMessage_Type \<Rightarrow> Command option \<Rightarrow> slice \<Rightarrow> DispelMessage" where
  "ex_rb p t c h = DispelMessage_Broadcast \<lparr>rm_EpochNum = 0, rm_PeerID = p, rm_Type = t, rm_Command = c, rm_CommandHash = h\<rparr>"

text \<open>What the byte \<open>k\<close> on the wire stands for: a broadcast of replica 3, and messages of the consensus about replica 2.\<close>

definition ex_di_wire :: "bytes \<Rightarrow> DispelMessage option" where
  "ex_di_wire b =
     (if b = [1] then Some (ex_rb 3 RB_Send (Some (ex_di_cmd 1)) None)
      else if b = [2] then Some (round_msg (0, 2, 1) CM_Estimate 1 [])
      else if b = [3] then Some (round_msg (0, 2, 1) CM_Aux 0 [1])
      else if b = [4] then Some (round_msg (0, 2, 1) CM_Estimate 0 [])
      else if b = [5] then Some (round_msg (0, 2, 1) CM_Aux 0 [0])
      else if b = [6] then Some (round_msg (0, 2, 2) CM_Estimate 0 [])
      else if b = [7] then Some (round_msg (0, 2, 2) CM_Aux 0 [0])
      else None)"

definition ex_di_config :: "PeerID \<Rightarrow> PeerID list \<Rightarrow> int \<Rightarrow> dispel_config" where
  "ex_di_config i ps f = \<lparr>cfg_ID = i, cfg_Peers = ps, cfg_LeaderID = 0, cfg_MaxFailures = f,
     cfg_Workers = fmap_of_list [(''mac_sign'', 1)], cfg_WorkersQueueSizes = fmap_of_list [(''mac_sign'', 8)],
     cfg_DispelWaitForAllRb = False\<rparr>"

definition ex_di_recv :: "PeerID \<Rightarrow> byte \<Rightarrow> di_act" where
  "ex_di_recv i k = DStep \<lparr>msg_From = 3, msg_To = i, msg_Content = [k], msg_Certificate = []\<rparr>"

definition ex_di_start :: "dispel_env \<Rightarrow> dispel_config \<Rightarrow> di_act list \<Rightarrow> Dispel go option" where
  "ex_di_start E cfg as = (case NewDispel cfg of Inl e \<Rightarrow> Some (Inl e) | Inr d \<Rightarrow> di_run E as d)"

definition ex_di_out :: "(Dispel \<Rightarrow> 'a) \<Rightarrow> Dispel go option \<Rightarrow> 'a option" where
  "ex_di_out f r = (case r of Some (Inr d) \<Rightarrow> Some (f d) | _ \<Rightarrow> None)"

lemma ex_di_out_run:
  assumes "ex_di_out f (ex_di_start E cfg as) = Some x"
  obtains d0 d where "NewDispel cfg = Inr d0" "di_run E as d0 = Some (Inr d)" "f d = x"
  using assms by (auto simp: ex_di_out_def ex_di_start_def split: sum.splits option.splits)

definition ex_one :: "di_act list" where
  "ex_one = map (ex_di_recv 0) [1, 2, 2, 2] @ replicate 5 DTick @ map (ex_di_recv 0) [3, 3, 3]"

definition ex_zero :: "di_act list" where
  "ex_zero = map (ex_di_recv 1) [1, 4, 4, 4] @ replicate 5 DTick @ map (ex_di_recv 1) [5, 5, 5, 6, 6]
     @ replicate 10 DTick @ map (ex_di_recv 1) [7, 7, 7]"

lemma ex_one_decides:
  "ex_di_out (\<lambda>d. map_option (\<lambda>c. (db_decided c, db_decidedValue c)) (di_cons 0 2 d))
     (ex_di_start (ex_di_env ex_di_wire id) (ex_di_config 0 [0, 1, 2, 3] 1) ex_one) = Some (Some (True, 1))"
  by code_simp

lemma ex_zero_decides:
  "ex_di_out (\<lambda>d. map_option (\<lambda>c. (db_decided c, db_decidedValue c)) (di_cons 0 2 d))
     (ex_di_start (ex_di_env ex_di_wire id) (ex_di_config 1 [0, 1, 2, 3] 1) ex_zero) = Some (Some (True, 0))"
  by code_simp

text \<open>Every message is from replica 3, and nothing but messages and ticks happens.\<close>

definition only_from_3 :: "di_act list \<Rightarrow> bool" where
  "only_from_3 as \<longleftrightarrow> list_all (\<lambda>a. case a of DStep m \<Rightarrow> msg_From m = 3 | DTick \<Rightarrow> True | _ \<Rightarrow> False) as"

text \<open>
  Claim C39. One Byzantine replica out of four breaks agreement: \<open>onBVBroadcast\<close> and \<open>onAuxMessage\<close> count messages and not senders. Two correct replicas
  that start and receive messages of replica 3 alone decide 1 and 0 in the same consensus.
\<close>

theorem dispel_one_sender_no_agreement:
  "\<exists>E as bs d0 d d1 d' c c'. only_from_3 as \<and> only_from_3 bs
     \<and> NewDispel (ex_di_config 0 [0, 1, 2, 3] 1) = Inr d0 \<and> di_run E as d0 = Some (Inr d)
     \<and> NewDispel (ex_di_config 1 [0, 1, 2, 3] 1) = Inr d1 \<and> di_run E bs d1 = Some (Inr d')
     \<and> di_cons 0 2 d = Some c \<and> db_decided c \<and> db_decidedValue c = 1
     \<and> di_cons 0 2 d' = Some c' \<and> db_decided c' \<and> db_decidedValue c' = 0"
proof -
  have "only_from_3 ex_one" "only_from_3 ex_zero"
    by (simp_all add: only_from_3_def ex_one_def ex_zero_def ex_di_recv_def numeral_eq_Suc)
  moreover note ex_di_out_run [OF ex_one_decides] ex_di_out_run [OF ex_zero_decides]
  ultimately show ?thesis by (smt (verit) map_option_eq_Some Pair_inject)
qed

text \<open>Two replicas, none faulty: the bytes 1 to 4 are the echo for the command of replica 0, the broadcast of replica 1, and a vote for each.\<close>

definition ex_order_wire :: "bytes \<Rightarrow> DispelMessage option" where
  "ex_order_wire b =
     (if b = [1] then Some (ex_rb 0 RB_Echo None (Command_Hash (ex_di_env (\<lambda>_. None) id) (ex_di_cmd 10)))
      else if b = [2] then Some (ex_rb 1 RB_Send (Some (ex_di_cmd 11)) None)
      else if b = [3] then Some (round_msg (0, 0, 1) CM_Aux 0 [1])
      else if b = [4] then Some (round_msg (0, 1, 1) CM_Aux 0 [1])
      else None)"

definition ex_order_run :: "di_act list" where
  "ex_order_run = DRequest (ex_di_cmd 10) #
     map (\<lambda>k. DStep \<lparr>msg_From = 1, msg_To = 0, msg_Content = [k], msg_Certificate = []\<rparr>) [1, 2, 3, 4]"

lemma ex_order_delivers:
  "ex_di_out (\<lambda>d. map (cmd_Timestamp \<circ> ep_Cmd) (di_toDeliver d))
     (ex_di_start (ex_di_env ex_order_wire id) (ex_di_config 0 [0, 1] 0) ex_order_run) = Some [10, 11]"
  "ex_di_out (\<lambda>d. map (cmd_Timestamp \<circ> ep_Cmd) (di_toDeliver d))
     (ex_di_start (ex_di_env ex_order_wire rev) (ex_di_config 0 [0, 1] 0) ex_order_run) = Some [11, 10]"
  by code_simp+

text \<open>
  Without any faulty replica, the commands of an epoch are delivered in the order in which Go visits the map of
  its consensuses, which the language leaves open: the same replica with the same inputs delivers two commands in either order.
\<close>

theorem dispel_delivery_order:
  "\<exists>E E' as d0 d d'. E' = E\<lparr>env_rangeOrder := rev\<rparr> \<and> env_rangeOrder E = id
     \<and> NewDispel (ex_di_config 0 [0, 1] 0) = Inr d0 \<and> di_run E as d0 = Some (Inr d) \<and> di_run E' as d0 = Some (Inr d')
     \<and> map (cmd_Timestamp \<circ> ep_Cmd) (di_toDeliver d) = [10, 11] \<and> map (cmd_Timestamp \<circ> ep_Cmd) (di_toDeliver d') = [11, 10]"
proof -
  obtain d0 d where 1: "NewDispel (ex_di_config 0 [0, 1] 0) = Inr d0" "di_run (ex_di_env ex_order_wire id) ex_order_run d0 = Some (Inr d)"
    "map (cmd_Timestamp \<circ> ep_Cmd) (di_toDeliver d) = [10, 11]"
    by (rule ex_di_out_run [OF ex_order_delivers(1)])
  obtain d0' d' where 2: "NewDispel (ex_di_config 0 [0, 1] 0) = Inr d0'" "di_run (ex_di_env ex_order_wire rev) ex_order_run d0' = Some (Inr d')"
    "map (cmd_Timestamp \<circ> ep_Cmd) (di_toDeliver d') = [11, 10]"
    by (rule ex_di_out_run [OF ex_order_delivers(2)])
  have "ex_di_env ex_order_wire rev = (ex_di_env ex_order_wire id)\<lparr>env_rangeOrder := rev\<rparr>" "env_rangeOrder (ex_di_env ex_order_wire id) = id"
    by (simp_all add: ex_di_env_def)
  with 1 2 show ?thesis by (metis sum.inject(2))
qed

subsection \<open>Witnesses\<close>

theorem dispel_decision_final_witness:
  "\<exists>d d' c'. (di_move (ex_di_env ex_di_wire id))\<^sup>*\<^sup>* d d' \<and> di_cons 0 2 d' = Some c' \<and> db_decided c' \<and> db_decidedValue c' = 1"
proof -
  let ?E = "ex_di_env ex_di_wire id"
  obtain d0 d where d: "di_run ?E ex_one d0 = Some (Inr d)" "map_option (\<lambda>c. (db_decided c, db_decidedValue c)) (di_cons 0 2 d) = Some (True, 1)"
    by (rule ex_di_out_run [OF ex_one_decides])
  then obtain c where c: "di_cons 0 2 d = Some c" "db_decided c" "db_decidedValue c = 1" by auto
  have "di_move ?E d (di_ClearMsgs d)" by (rule di_moved [where a = DClearMsgs]) simp
  then have m: "(di_move ?E)\<^sup>*\<^sup>* d (di_ClearMsgs d)" by blast
  from dispel_decision_final [OF m c(1,2)] c(3) m show ?thesis by metis
qed

theorem dispel_epoch_counters_witness:
  "\<exists>d0 d ep. NewDispel (ex_di_config 0 [0, 1] 0) = Inr d0 \<and> (di_move (ex_di_env ex_order_wire id))\<^sup>*\<^sup>* d0 d
     \<and> di_nextDeliverEpoch d = 1 \<and> fmlookup (di_epochs d) 0 = Some ep \<and> 2 \<le> fmcount db_decided (ep_cons ep)"
proof -
  have "ex_di_out di_nextDeliverEpoch (ex_di_start (ex_di_env ex_order_wire id) (ex_di_config 0 [0, 1] 0) ex_order_run) = Some 1"
    by code_simp
  then obtain d0 d where d: "NewDispel (ex_di_config 0 [0, 1] 0) = Inr d0"
    "di_run (ex_di_env ex_order_wire id) ex_order_run d0 = Some (Inr d)" "di_nextDeliverEpoch d = 1"
    by (rule ex_di_out_run)
  from dispel_epoch_counters [OF d(1) di_run_moves [OF d(2)]] d(3)
  obtain ep where "fmlookup (di_epochs d) 0 = Some ep" "2 \<le> fmcount db_decided (ep_cons ep)"
    by (auto simp: ex_di_config_def dest!: spec [of _ 0])
  with d di_run_moves [OF d(2)] show ?thesis by blast
qed

definition ex_dispel :: Dispel where
  "ex_dispel = \<lparr>di_id = 2, di_peers = [0, 1, 2, 3], di_maxFailures = 1, di_nextEpochNumber = 0, di_epochs = fmempty,
     di_nextDeliverEpoch = 0, di_msgs = [], di_toDeliver = [], di_timers = [], di_rbThreshold = 3,
     di_signDispatcher = Dispatcher_Run (NewDispatcher 1 8)\<rparr>"

theorem dispel_exec_terminates_witness:
  "\<exists>r. di_exec_loop (ex_di_env ex_di_wire id) ex_dispel = Some r \<and> di_exec (ex_di_env ex_di_wire id) ex_dispel = r
     \<and> (\<forall>d'. r = Inr d' \<longrightarrow> exec_blocked (ex_di_env ex_di_wire id) d')"
  by (rule dispel_exec_terminates [where e = 0]) (simp_all add: ex_dispel_def epoch_complete_def)

theorem dispel_peer_streams_grow_witness:
  "\<exists>p p' m. (peer_step ex_peer_env (di_Protocol (ex_di_env ex_di_wire id)))\<^sup>*\<^sup>* p p' \<and> di_msgs (pe_n p) = [m] \<and> pe_sent p' = [m]
     \<and> prefix (pe_sent p @ concat (pe_toSend p) @ di_msgs (pe_n p)) (pe_sent p' @ concat (pe_toSend p') @ di_msgs (pe_n p'))"
proof -
  let ?P = "di_Protocol (ex_di_env ex_di_wire id)"
  let ?S = "peer_step ex_peer_env ?P"
  let ?m = "\<lparr>msg_From = 2, msg_To = 0, msg_Content = [1], msg_Certificate = []\<rparr>"
  let ?r = "ex_dispel\<lparr>di_msgs := [?m]\<rparr>"
  let ?p = "(Peer_New 2 [0, 1, 2, 3] 1 ?r)\<lparr>pe_sig := True\<rparr>"
  let ?q = "?p\<lparr>pe_sig := False, pe_toSend := [[?m]], pe_n := ?r\<lparr>di_msgs := []\<rparr>\<rparr>"
  have "Peer_round ?P ?p = Inr ?q"
    by (simp add: Peer_round_def Let_def Peer_New_def flushMsgs_def di_Protocol_def di_AsyncCallback_def drain_callbacks_def
        Peer_rb_flush_def reqBuf_flush_def reqBuf_init_def flushCmds_def RunOnce_def trySendMessages_def di_MakeReady_def
        di_ClearMsgs_def di_ClearExecutedCommands_def ex_dispel_def Dispatcher_Run_def NewDispatcher_def)
  then have "?S ?p ?q" by (rule peer_step.round [rotated 3]) (simp_all add: Peer_New_def)
  moreover have "?S ?q (sendMessages [?m] (?q\<lparr>pe_toSend := []\<rparr>))" by (rule peer_step.send) simp
  ultimately have *: "?S\<^sup>*\<^sup>* ?p (sendMessages [?m] (?q\<lparr>pe_toSend := []\<rparr>))" by simp
  have "pe_sent (sendMessages [?m] (?q\<lparr>pe_toSend := []\<rparr>)) = [?m]" by (simp add: sendMessages_def Peer_New_def)
  moreover have "di_msgs (pe_n ?p) = [?m]" by (simp add: Peer_New_def)
  ultimately show ?thesis using * dispel_peer_streams_grow [OF *] by blast
qed

end
