(* ===== verification/RCC.thy ===== *)
theory RCC
  imports Peer
begin

text \<open>
  RCC (\<open>protocols/rcc/rcc.go\<close>): one replicator per peer, each an instance of another protocol led by that peer. \<open>MakeReady\<close> collects the commands that the replicators
  have ordered in a queue each; when every queue has a command, it delivers one of each. The inner protocol \<open>P\<close>, its constructors and the encoder of the
  envelope are parameters, and so is the order in which a \<open>range\<close> visits a map, at every call anew.
\<close>

datatype Algorithm = Algorithm_PBFT | Algorithm_SBFT | Algorithm_Other nat

record 's RCC =
  rc_id :: PeerID
  rc_nodes :: "PeerID list"
  rc_replicators :: "(PeerID, 's) fmap"
  rc_execPkts :: "(PeerID, ExecPacket list) fmap"
  rc_execIdx :: int
  rc_globalOrderedCommands :: "ExecPacket list"

definition rcc_addReplicator :: "PeerID \<Rightarrow> 's \<Rightarrow> 's RCC \<Rightarrow> 's RCC" where
  "rcc_addReplicator i rp d =
     d\<lparr>rc_replicators := fmupd i rp (rc_replicators d), rc_execPkts := fmupd i [] (rc_execPkts d)\<rparr>"

definition NewRCC :: "(LocalConfig \<Rightarrow> 's go) \<Rightarrow> (LocalConfig \<Rightarrow> 's go) \<Rightarrow> Algorithm \<Rightarrow> LocalConfig \<Rightarrow> 's RCC go" where
  "NewRCC newPBFT newSBFT alg cfg =
     go_fold (\<lambda>i d. let rpCfg = cfg\<lparr>cfg_LeaderID := i\<rparr> in
         go_bind (case alg of
             Algorithm_PBFT \<Rightarrow> newPBFT rpCfg
           | Algorithm_SBFT \<Rightarrow> newSBFT rpCfg
           | Algorithm_Other _ \<Rightarrow> Inl PanicCall) (\<lambda>rp. Inr (rcc_addReplicator i rp d))) (cfg_Peers cfg)
       \<lparr>rc_id = cfg_ID cfg, rc_nodes = cfg_Peers cfg, rc_replicators = fmempty, rc_execPkts = fmempty, rc_execIdx = 0,
        rc_globalOrderedCommands = []\<rparr>"

text \<open>A call of a method of \<open>d.replicators[i]\<close>; a missing one is a nil interface.\<close>

definition on_replicator :: "PeerID \<Rightarrow> ('s \<Rightarrow> 's go) \<Rightarrow> 's RCC \<Rightarrow> 's RCC go" where
  "on_replicator i f d =
     (case fmlookup (rc_replicators d) i of
        None \<Rightarrow> Inl NilDeref
      | Some r \<Rightarrow> go_bind (f r) (\<lambda>r'. Inr (d\<lparr>rc_replicators := fmupd i r' (rc_replicators d)\<rparr>)))"

definition rcc_AsyncCallback :: "'s Protocol \<Rightarrow> (u64 list \<Rightarrow> u64 list) \<Rightarrow> 's RCC \<Rightarrow> 's RCC go" where
  "rcc_AsyncCallback P ord d = go_fold (\<lambda>i. on_replicator i (pr_AsyncCallback P)) (fmkeys ord (rc_replicators d)) d"

definition rcc_Callback :: "'s Protocol \<Rightarrow> ExecCallback \<Rightarrow> 's RCC \<Rightarrow> 's RCC go" where
  "rcc_Callback P cb d = on_replicator (cmd_Target (ec_Cmd cb)) (pr_Callback P cb) d"

definition rcc_ClearExecutedCommands :: "'s RCC \<Rightarrow> 's RCC" where
  "rcc_ClearExecutedCommands d = d\<lparr>rc_globalOrderedCommands := []\<rparr>"

definition rcc_ClearMsgs :: "'s Protocol \<Rightarrow> 's RCC \<Rightarrow> 's RCC" where
  "rcc_ClearMsgs P d = d\<lparr>rc_replicators := fmmap (pr_ClearMsgs P) (rc_replicators d)\<rparr>"

subsection \<open>\<open>MakeReady\<close>\<close>

definition rcc_wrap :: "(PeerID \<Rightarrow> Message \<Rightarrow> bytes) \<Rightarrow> PeerID \<Rightarrow> Message \<Rightarrow> Message" where
  "rcc_wrap mar i m = \<lparr>msg_From = msg_From m, msg_To = msg_To m, msg_Content = mar i m, msg_Certificate = []\<rparr>"

definition rcc_packet :: "PeerID \<Rightarrow> ExecPacket \<Rightarrow> 's RCC \<Rightarrow> 's RCC go" where
  "rcc_packet i pkt d =
     (if \<not> ep_NoExec pkt
      then (case fmlookup (rc_execPkts d) i of
              None \<Rightarrow> Inl NilDeref
            | Some l \<Rightarrow> Inr (d\<lparr>rc_execPkts := fmupd i (l @ [pkt]) (rc_execPkts d)\<rparr>))
      else Inr (d\<lparr>rc_globalOrderedCommands := rc_globalOrderedCommands d @ [pkt]\<rparr>))"

text \<open>The body of the first loop, for the replicator \<open>i\<close>.\<close>

definition rcc_collect :: "'s Protocol \<Rightarrow> (PeerID \<Rightarrow> Message \<Rightarrow> bytes) \<Rightarrow> PeerID \<Rightarrow> Message list \<times> 's RCC \<Rightarrow> (Message list \<times> 's RCC) go" where
  "rcc_collect P mar i st = (case st of (messages, d) \<Rightarrow>
     (case fmlookup (rc_replicators d) i of
        None \<Rightarrow> Inl NilDeref
      | Some r \<Rightarrow> go_bind (pr_MakeReady P r) (\<lambda>(rReady, r').
          go_bind (go_fold (rcc_packet i) (rd_OrderedCommands rReady) d) (\<lambda>d'.
            Inr (messages @ map (rcc_wrap mar i) (rd_Messages rReady),
                 d'\<lparr>rc_replicators := fmupd i (pr_ClearExecutedCommands P r') (rc_replicators d')\<rparr>)))))"

definition rcc_present :: "'s RCC \<Rightarrow> bool" where
  "rcc_present d \<longleftrightarrow> (\<forall>l |\<in>| fmran (rc_execPkts d). l \<noteq> [])"

definition rcc_take :: "PeerID \<Rightarrow> 's RCC \<Rightarrow> 's RCC" where
  "rcc_take i d =
     (case fmlookup (rc_execPkts d) i of
        None \<Rightarrow> d
      | Some [] \<Rightarrow> d
      | Some (x # xs) \<Rightarrow> d\<lparr>rc_execPkts := fmupd i xs (rc_execPkts d), rc_globalOrderedCommands := rc_globalOrderedCommands d @ [x]\<rparr>)"

definition rcc_MakeReady :: "'s Protocol \<Rightarrow> (PeerID \<Rightarrow> Message \<Rightarrow> bytes) \<Rightarrow> (u64 list \<Rightarrow> u64 list) \<Rightarrow> (u64 list \<Rightarrow> u64 list) \<Rightarrow>
     's RCC \<Rightarrow> (Ready \<times> 's RCC) go" where
  "rcc_MakeReady P mar ord ord' d =
     go_bind (go_fold (rcc_collect P mar) (fmkeys ord (rc_replicators d)) ([], d)) (\<lambda>(messages, d1).
       let d2 = (if rcc_present d1 then fold rcc_take (fmkeys ord' (rc_execPkts d1)) d1 else d1)
       in Inr (\<lparr>rd_Messages = messages, rd_OrderedCommands = rc_globalOrderedCommands d2\<rparr>, d2))"

subsection \<open>Other operations\<close>

definition rcc_Request :: "'s Protocol \<Rightarrow> Command \<Rightarrow> 's RCC \<Rightarrow> 's RCC go" where
  "rcc_Request P c d = on_replicator (cmd_Target c) (pr_Request P c) d"

definition rcc_Step :: "'s Protocol \<Rightarrow> (bytes \<Rightarrow> (PeerID \<times> Message) option) \<Rightarrow> Message \<Rightarrow> 's RCC \<Rightarrow> 's RCC go" where
  "rcc_Step P unm m d =
     (case unm (msg_Content m) of
        None \<Rightarrow> Inl PanicCall
      | Some (i, inner) \<Rightarrow> on_replicator i (pr_Step P inner) d)"

definition rcc_Tick :: "'s Protocol \<Rightarrow> (u64 list \<Rightarrow> u64 list) \<Rightarrow> 's RCC \<Rightarrow> 's RCC go" where
  "rcc_Tick P ord d = go_fold (\<lambda>i. on_replicator i (pr_Tick P)) (fmkeys ord (rc_replicators d)) d"

definition rcc_hasExecuted :: "Command option \<Rightarrow> 's RCC \<Rightarrow> bool go" where
  "rcc_hasExecuted cmd d =
     go_fold (\<lambda>e found. if found then Inr True else Command_Equal (Some (ep_Cmd e)) cmd) (rc_globalOrderedCommands d) False"

definition rcc_Protocol :: "'s Protocol \<Rightarrow> (PeerID \<Rightarrow> Message \<Rightarrow> bytes) \<Rightarrow> (bytes \<Rightarrow> (PeerID \<times> Message) option) \<Rightarrow>
     (u64 list \<Rightarrow> u64 list) \<Rightarrow> (u64 list \<Rightarrow> u64 list) \<Rightarrow> 's RCC Protocol" where
  "rcc_Protocol P mar unm ord ord' =
     \<lparr>pr_Step = rcc_Step P unm, pr_Tick = rcc_Tick P ord, pr_Request = rcc_Request P, pr_Callback = rcc_Callback P,
      pr_MakeReady = rcc_MakeReady P mar ord ord', pr_ClearMsgs = rcc_ClearMsgs P,
      pr_ClearExecutedCommands = rcc_ClearExecutedCommands, pr_AsyncCallback = rcc_AsyncCallback P ord\<rparr>"

subsection \<open>The queues\<close>

lemma on_replicator_sel:
  "on_replicator i f d = Inr d' \<Longrightarrow> rc_execPkts d' = rc_execPkts d \<and> rc_globalOrderedCommands d' = rc_globalOrderedCommands d
     \<and> fmdom (rc_replicators d') = fmdom (rc_replicators d)"
  by (auto simp: on_replicator_def go_simps fmdomI finsert_absorb split: option.splits)

lemma on_replicators_sel:
  "go_fold (\<lambda>i. on_replicator i f) is d = Inr d' \<Longrightarrow> rc_execPkts d' = rc_execPkts d
     \<and> rc_globalOrderedCommands d' = rc_globalOrderedCommands d \<and> fmdom (rc_replicators d') = fmdom (rc_replicators d)"
  by (induction "is" arbitrary: d) (auto simp: go_simps dest!: on_replicator_sel)

text \<open>What one replicator hands over goes to the end of its queue, the packets without execution to the output.\<close>

definition exec_part :: "ExecPacket list \<Rightarrow> ExecPacket list" where
  "exec_part = filter (\<lambda>p. \<not> ep_NoExec p)"

definition noexec_part :: "ExecPacket list \<Rightarrow> ExecPacket list" where
  "noexec_part = filter ep_NoExec"

lemma rcc_packets:
  assumes "go_fold (rcc_packet i) pkts d = Inr d'"
  shows "d' = d\<lparr>rc_execPkts := rc_execPkts d', rc_globalOrderedCommands := rc_globalOrderedCommands d @ noexec_part pkts\<rparr>
    \<and> fmlookup (rc_execPkts d') j = (if j = i then map_option (\<lambda>l. l @ exec_part pkts) (fmlookup (rc_execPkts d) i)
        else fmlookup (rc_execPkts d) j)"
  using assms
proof (induction pkts arbitrary: d)
  case (Cons p pkts)
  then obtain d1 where d1: "rcc_packet i p d = Inr d1" "go_fold (rcc_packet i) pkts d1 = Inr d'" by (auto simp: go_simps)
  from Cons.IH [OF d1(2)] d1(1) show ?case
    by (auto simp: rcc_packet_def exec_part_def noexec_part_def split: if_splits option.splits)
qed (auto simp: exec_part_def noexec_part_def option.map_ident)

text \<open>What the replicator \<open>i\<close> hands over for execution when \<open>MakeReady\<close> is called in the state \<open>d\<close>.\<close>

definition rcc_handed :: "'s Protocol \<Rightarrow> 's RCC \<Rightarrow> PeerID \<Rightarrow> ExecPacket list" where
  "rcc_handed P d i =
     (case fmlookup (rc_replicators d) i of
        None \<Rightarrow> []
      | Some r \<Rightarrow> (case pr_MakeReady P r of Inl _ \<Rightarrow> [] | Inr (rd, _) \<Rightarrow> exec_part (rd_OrderedCommands rd)))"

lemma rcc_collect_one:
  assumes "rcc_collect P mar i (ms, d) = Inr (ms', d')"
  shows "fmlookup (rc_execPkts d') j = (if j = i then map_option (\<lambda>l. l @ rcc_handed P d i) (fmlookup (rc_execPkts d) i)
        else fmlookup (rc_execPkts d) j)"
    and "fmdom (rc_replicators d') = fmdom (rc_replicators d)"
    and "j \<noteq> i \<Longrightarrow> rcc_handed P d' j = rcc_handed P d j"
    and "\<exists>nos. rc_globalOrderedCommands d' = rc_globalOrderedCommands d @ nos \<and> exec_part nos = []"
proof -
  from assms obtain r rd r' d1 where r: "fmlookup (rc_replicators d) i = Some r" "pr_MakeReady P r = Inr (rd, r')"
    and d1: "go_fold (rcc_packet i) (rd_OrderedCommands rd) d = Inr d1"
    and d': "d' = d1\<lparr>rc_replicators := fmupd i (pr_ClearExecutedCommands P r') (rc_replicators d1)\<rparr>"
    by (auto simp: rcc_collect_def go_simps split: option.splits)
  note p = rcc_packets [OF d1]
  have reps: "rc_replicators d1 = rc_replicators d" using p by (metis RCC.select_convs(3) RCC.surjective RCC.update_convs(4,6))
  have handed: "rcc_handed P d i = exec_part (rd_OrderedCommands rd)" using r by (simp add: rcc_handed_def)
  show "fmlookup (rc_execPkts d') j = (if j = i then map_option (\<lambda>l. l @ rcc_handed P d i) (fmlookup (rc_execPkts d) i)
        else fmlookup (rc_execPkts d) j)"
    using p [of j] by (simp add: d' handed)
  show "fmdom (rc_replicators d') = fmdom (rc_replicators d)" using r(1) by (auto simp: d' reps fmdomI)
  show "j \<noteq> i \<Longrightarrow> rcc_handed P d' j = rcc_handed P d j" by (simp add: rcc_handed_def d' reps)
  have "rc_globalOrderedCommands d1 = rc_globalOrderedCommands d @ noexec_part (rd_OrderedCommands rd)"
    using p by (metis RCC.select_convs(6) RCC.surjective RCC.update_convs(4,6))
  then show "\<exists>nos. rc_globalOrderedCommands d' = rc_globalOrderedCommands d @ nos \<and> exec_part nos = []"
    by (auto simp: d' exec_part_def noexec_part_def)
qed

lemma rcc_collect_all:
  assumes "go_fold (rcc_collect P mar) ks (ms, d) = Inr (ms', d')" "distinct ks"
  shows "(\<forall>j. fmlookup (rc_execPkts d') j = (if j \<in> set ks then map_option (\<lambda>l. l @ rcc_handed P d j) (fmlookup (rc_execPkts d) j)
        else fmlookup (rc_execPkts d) j))
    \<and> fmdom (rc_replicators d') = fmdom (rc_replicators d)
    \<and> (\<exists>nos. rc_globalOrderedCommands d' = rc_globalOrderedCommands d @ nos \<and> exec_part nos = [])"
  using assms
proof (induction ks arbitrary: ms d)
  case (Cons i ks)
  then obtain ms1 d1 where c: "rcc_collect P mar i (ms, d) = Inr (ms1, d1)" "go_fold (rcc_collect P mar) ks (ms1, d1) = Inr (ms', d')"
    by (auto simp: go_simps)
  note one = rcc_collect_one [OF c(1)] and all = Cons.IH [OF c(2)]
  have "fmlookup (rc_execPkts d') j = (if j \<in> set (i # ks) then map_option (\<lambda>l. l @ rcc_handed P d j) (fmlookup (rc_execPkts d) j)
        else fmlookup (rc_execPkts d) j)" for j
    using all Cons.prems(2) one(1) [of j] one(3) [of j] by auto
  moreover from all one(4) Cons.prems(2) have "\<exists>nos. rc_globalOrderedCommands d' = rc_globalOrderedCommands d @ nos \<and> exec_part nos = []"
    by (auto simp: exec_part_def)
  ultimately show ?case using all one(2) Cons.prems(2) by simp
qed (simp add: exec_part_def)

text \<open>A round of deliveries: the first packet of every queue.\<close>

lemma rcc_take_all:
  assumes "distinct ks" "\<And>i. i \<in> set ks \<Longrightarrow> \<exists>x xs. fmlookup (rc_execPkts d) i = Some (x # xs)"
  shows "rc_globalOrderedCommands (fold rcc_take ks d) = rc_globalOrderedCommands d @ map (\<lambda>i. hd (the (fmlookup (rc_execPkts d) i))) ks
    \<and> (\<forall>j. fmlookup (rc_execPkts (fold rcc_take ks d)) j =
        (if j \<in> set ks then Some (tl (the (fmlookup (rc_execPkts d) j))) else fmlookup (rc_execPkts d) j))
    \<and> rc_replicators (fold rcc_take ks d) = rc_replicators d"
  using assms
proof (induction ks arbitrary: d)
  case (Cons i ks)
  from Cons.prems(2) obtain x xs where x: "fmlookup (rc_execPkts d) i = Some (x # xs)" by fastforce
  let ?d = "rcc_take i d"
  have d: "fmlookup (rc_execPkts ?d) j = (if j = i then Some xs else fmlookup (rc_execPkts d) j)"
    "rc_globalOrderedCommands ?d = rc_globalOrderedCommands d @ [x]" "rc_replicators ?d = rc_replicators d" for j
    by (simp_all add: rcc_take_def x)
  have "\<exists>x xs. fmlookup (rc_execPkts ?d) k = Some (x # xs)" if "k \<in> set ks" for k
    using that Cons.prems by (auto simp: d)
  with Cons.IH [of ?d] Cons.prems(1) have ih: "rc_globalOrderedCommands (fold rcc_take ks ?d) = rc_globalOrderedCommands ?d
      @ map (\<lambda>i. hd (the (fmlookup (rc_execPkts ?d) i))) ks" "\<forall>j. fmlookup (rc_execPkts (fold rcc_take ks ?d)) j =
        (if j \<in> set ks then Some (tl (the (fmlookup (rc_execPkts ?d) j))) else fmlookup (rc_execPkts ?d) j)"
    "rc_replicators (fold rcc_take ks ?d) = rc_replicators ?d" by auto
  have "map (\<lambda>i. hd (the (fmlookup (rc_execPkts ?d) i))) ks = map (\<lambda>i. hd (the (fmlookup (rc_execPkts d) i))) ks"
    using Cons.prems(1) by (auto simp: d)
  with ih Cons.prems(1) show ?case by (auto simp: d x)
qed simp

lemma distinct_fmkeys: "range_order ord \<Longrightarrow> distinct (fmkeys ord m)"
  unfolding fmkeys_def range_order_def by (metis sorted_list_of_fset.rep_eq distinct_sorted_list_of_set mset_eq_imp_distinct_iff)

subsection \<open>Rounds\<close>

text \<open>
  The history of an RCC node: \<open>I i\<close> is everything that the replicator \<open>i\<close> has handed over for execution, \<open>out\<close> what the peer has taken.
  The orders of the visits may differ from call to call.
\<close>

inductive rcc_hist :: "'s Protocol \<Rightarrow> PeerID set \<Rightarrow> 's RCC \<Rightarrow> (PeerID \<Rightarrow> ExecPacket list) \<Rightarrow> ExecPacket list \<Rightarrow> bool" for P N where
  start: "NewRCC newPBFT newSBFT alg cfg = Inr d \<Longrightarrow> N = set (cfg_Peers cfg) \<Longrightarrow> rcc_hist P N d (\<lambda>_. []) []"
| ready: "rcc_hist P N d I out \<Longrightarrow> range_order ord \<Longrightarrow> range_order ord' \<Longrightarrow> rcc_MakeReady P mar ord ord' d = Inr (rd, d') \<Longrightarrow>
     rcc_hist P N d' (\<lambda>i. I i @ rcc_handed P d i) out"
| clear: "rcc_hist P N d I out \<Longrightarrow> rcc_hist P N (rcc_ClearExecutedCommands d) I (out @ rc_globalOrderedCommands d)"
| clear_msgs: "rcc_hist P N d I out \<Longrightarrow> rcc_hist P N (rcc_ClearMsgs P d) I out"
| step: "rcc_hist P N d I out \<Longrightarrow> rcc_Step P unm m d = Inr d' \<Longrightarrow> rcc_hist P N d' I out"
| request: "rcc_hist P N d I out \<Longrightarrow> rcc_Request P c d = Inr d' \<Longrightarrow> rcc_hist P N d' I out"
| callback: "rcc_hist P N d I out \<Longrightarrow> rcc_Callback P cb d = Inr d' \<Longrightarrow> rcc_hist P N d' I out"
| tick: "rcc_hist P N d I out \<Longrightarrow> rcc_Tick P ord d = Inr d' \<Longrightarrow> rcc_hist P N d' I out"
| async: "rcc_hist P N d I out \<Longrightarrow> rcc_AsyncCallback P ord d = Inr d' \<Longrightarrow> rcc_hist P N d' I out"

text \<open>A round has one packet of every replicator.\<close>

definition is_round :: "PeerID set \<Rightarrow> (PeerID \<times> ExecPacket) list \<Rightarrow> bool" where
  "is_round N r \<longleftrightarrow> distinct (map fst r) \<and> set (map fst r) = N"

definition rounds_ok :: "PeerID set \<Rightarrow> 's RCC \<Rightarrow> (PeerID \<Rightarrow> ExecPacket list) \<Rightarrow> ExecPacket list \<Rightarrow> (PeerID \<times> ExecPacket) list list \<Rightarrow> bool" where
  "rounds_ok N d I out R \<longleftrightarrow> (\<forall>r \<in> set R. is_round N r)
     \<and> exec_part (out @ rc_globalOrderedCommands d) = map snd (concat R)
     \<and> (\<forall>i \<in> N. \<exists>q. fmlookup (rc_execPkts d) i = Some q \<and> I i = map (\<lambda>r. the (map_of r i)) R @ q)"

definition queues_ok :: "PeerID set \<Rightarrow> 's RCC \<Rightarrow> bool" where
  "queues_ok N d \<longleftrightarrow> fset (fmdom (rc_execPkts d)) = N \<and> fset (fmdom (rc_replicators d)) = N
     \<and> (\<forall>i q. fmlookup (rc_execPkts d) i = Some q \<longrightarrow> exec_part q = q)"

lemma NewRCC_queues:
  assumes "NewRCC newPBFT newSBFT alg cfg = Inr d"
  shows "queues_ok (set (cfg_Peers cfg)) d \<and> rc_globalOrderedCommands d = [] \<and> (\<forall>i \<in> set (cfg_Peers cfg). fmlookup (rc_execPkts d) i = Some [])"
proof -
  let ?f = "\<lambda>i d. let rpCfg = cfg\<lparr>cfg_LeaderID := i\<rparr> in
         go_bind (case alg of Algorithm_PBFT \<Rightarrow> newPBFT rpCfg | Algorithm_SBFT \<Rightarrow> newSBFT rpCfg | Algorithm_Other _ \<Rightarrow> Inl PanicCall)
           (\<lambda>rp. Inr (rcc_addReplicator i rp d))"
  have "fset (fmdom (rc_execPkts d')) = fset (fmdom (rc_execPkts d)) \<union> set ps \<and> fset (fmdom (rc_replicators d')) = fset (fmdom (rc_replicators d)) \<union> set ps
      \<and> rc_globalOrderedCommands d' = rc_globalOrderedCommands d \<and> (\<forall>i q. fmlookup (rc_execPkts d') i = Some q \<longrightarrow> q = [])"
    if "go_fold ?f ps d = Inr d'" "\<forall>i q. fmlookup (rc_execPkts d) i = Some q \<longrightarrow> q = []" for ps d d'
    using that
  proof (induction ps arbitrary: d)
    case (Cons p ps)
    then obtain rp where rp: "go_fold ?f ps (rcc_addReplicator p rp d) = Inr d'" by (auto simp: go_simps Let_def)
    have "\<forall>i q. fmlookup (rc_execPkts (rcc_addReplicator p rp d)) i = Some q \<longrightarrow> q = []"
      using Cons.prems(2) by (simp add: rcc_addReplicator_def)
    from Cons.IH [OF rp this] show ?case by (simp add: rcc_addReplicator_def)
  qed simp
  from this [OF assms [unfolded NewRCC_def]]
  have d: "fset (fmdom (rc_execPkts d)) = set (cfg_Peers cfg)" "fset (fmdom (rc_replicators d)) = set (cfg_Peers cfg)"
    "rc_globalOrderedCommands d = []" and empty: "\<And>i q. fmlookup (rc_execPkts d) i = Some q \<Longrightarrow> q = []" by auto
  have "fmlookup (rc_execPkts d) i = Some []" if "i \<in> set (cfg_Peers cfg)" for i
  proof (cases "fmlookup (rc_execPkts d) i")
    case None
    then have "i |\<notin>| fmdom (rc_execPkts d)" by (rule fmdom_notI)
    with that d(1) show ?thesis by simp
  qed (use empty in auto)
  moreover have "queues_ok (set (cfg_Peers cfg)) d"
    unfolding queues_ok_def using d(1,2) empty by (metis exec_part_def filter.simps(1))
  ultimately show ?thesis using d(3) by blast
qed

lemma exec_part_append: "exec_part (xs @ ys) = exec_part xs @ exec_part ys"
  by (simp add: exec_part_def)

lemma exec_part_id: "exec_part xs = xs \<longleftrightarrow> (\<forall>x \<in> set xs. \<not> ep_NoExec x)"
  by (simp add: exec_part_def filter_id_conv)

lemma exec_part_handed: "exec_part (rcc_handed P d i) = rcc_handed P d i"
  by (auto simp: rcc_handed_def exec_part_def split: option.splits sum.splits)

lemma dom_lookup_eq:
  assumes "\<And>j. (fmlookup m' j = None) = (fmlookup m j = None)"
  shows "fmdom m' = fmdom m"
  using assms by (metis fset_eqI fmlookup_dom_iff not_None_eq)

text \<open>The queues after the first loop.\<close>

lemma rcc_collected:
  assumes "queues_ok N d" "rounds_ok N d I out R" "range_order ord"
    "go_fold (rcc_collect P mar) (fmkeys ord (rc_replicators d)) ([], d) = Inr (ms, d1)"
  shows "queues_ok N d1 \<and> rounds_ok N d1 (\<lambda>i. I i @ rcc_handed P d i) out R"
proof -
  have ks: "set (fmkeys ord (rc_replicators d)) = N" using assms(1,3) by (simp add: set_fmkeys queues_ok_def)
  note all = rcc_collect_all [OF assms(4) distinct_fmkeys [OF assms(3)], unfolded ks]
  then obtain nos where nos: "rc_globalOrderedCommands d1 = rc_globalOrderedCommands d @ nos" "exec_part nos = []" by blast
  from all have look: "fmlookup (rc_execPkts d1) j = (if j \<in> N then map_option (\<lambda>l. l @ rcc_handed P d j) (fmlookup (rc_execPkts d) j)
        else fmlookup (rc_execPkts d) j)" for j by blast
  have "fmdom (rc_execPkts d1) = fmdom (rc_execPkts d)" by (rule dom_lookup_eq) (simp add: look)
  moreover have "exec_part q = q" if "fmlookup (rc_execPkts d1) i = Some q" for i q
    using that assms(1) by (auto simp: look queues_ok_def exec_part_append exec_part_handed split: if_splits)
  ultimately have "queues_ok N d1" using all assms(1) by (auto simp: queues_ok_def)
  moreover have "rounds_ok N d1 (\<lambda>i. I i @ rcc_handed P d i) out R"
    using assms(2) nos by (fastforce simp: rounds_ok_def look exec_part_append)
  ultimately show ?thesis ..
qed

text \<open>A delivery adds a round.\<close>

lemma rcc_delivered:
  assumes "queues_ok N d" "rounds_ok N d I out R" "range_order ord" "rcc_present d"
  defines "d' \<equiv> fold rcc_take (fmkeys ord (rc_execPkts d)) d"
  shows "queues_ok N d' \<and> (\<exists>r. rounds_ok N d' I out (R @ [r]))"
proof -
  let ?ks = "fmkeys ord (rc_execPkts d)"
  let ?h = "\<lambda>i. hd (the (fmlookup (rc_execPkts d) i))"
  let ?r = "map (\<lambda>i. (i, ?h i)) ?ks"
  have ks: "set ?ks = N" using assms(1,3) by (simp add: set_fmkeys queues_ok_def)
  have full: "\<exists>x xs. fmlookup (rc_execPkts d) i = Some (x # xs)" if "i \<in> N" for i
  proof -
    from that assms(1) obtain q where q: "fmlookup (rc_execPkts d) i = Some q"
      by (auto simp: queues_ok_def fmlookup_dom_iff)
    then have "q |\<in>| fmran (rc_execPkts d)" by (rule fmranI)
    with assms(4) have "q \<noteq> []" by (auto simp: rcc_present_def)
    with q show ?thesis by (cases q) auto
  qed
  from rcc_take_all [OF distinct_fmkeys [OF assms(3)], of "rc_execPkts d" d] full
  have d': "rc_globalOrderedCommands d' = rc_globalOrderedCommands d @ map ?h ?ks" "rc_replicators d' = rc_replicators d"
    and look: "\<And>j. fmlookup (rc_execPkts d') j = (if j \<in> N then Some (tl (the (fmlookup (rc_execPkts d) j))) else fmlookup (rc_execPkts d) j)"
    by (auto simp: ks d'_def)
  have "fmdom (rc_execPkts d') = fmdom (rc_execPkts d)" by (rule dom_lookup_eq) (use full in \<open>auto simp: look\<close>)
  moreover have head: "exec_part [?h i] = [?h i] \<and> exec_part (tl (the (fmlookup (rc_execPkts d) i))) = tl (the (fmlookup (rc_execPkts d) i))"
    if "i \<in> N" for i
  proof -
    from full [OF that] obtain x xs where x: "fmlookup (rc_execPkts d) i = Some (x # xs)" by blast
    with assms(1) have "exec_part (x # xs) = x # xs" by (auto simp: queues_ok_def)
    with x show ?thesis by (simp add: exec_part_id)
  qed
  ultimately have "queues_ok N d'" using assms(1) by (auto simp: queues_ok_def d' look split: if_splits)
  moreover have "exec_part (map ?h ?ks) = map ?h ?ks"
    using head ks by (simp add: exec_part_id)
  moreover have "is_round N ?r" using ks distinct_fmkeys [OF assms(3)] by (simp add: is_round_def comp_def)
  moreover have "\<exists>q. fmlookup (rc_execPkts d') i = Some q \<and> I i = map (\<lambda>r. the (map_of r i)) (R @ [?r]) @ q" if "i \<in> N" for i
  proof -
    from full [OF that] obtain x xs where x: "fmlookup (rc_execPkts d) i = Some (x # xs)" by blast
    have "map_of ?r i = Some (?h i)" using that ks by (simp add: map_of_map_restrict)
    with x that assms(2) show ?thesis by (auto simp: rounds_ok_def look)
  qed
  ultimately have "rounds_ok N d' I out (R @ [?r])"
    using assms(2) by (auto simp: rounds_ok_def exec_part_append d' comp_def)
  with \<open>queues_ok N d'\<close> show ?thesis by blast
qed

lemma rcc_hist_ok:
  assumes "rcc_hist P N d I out"
  shows "queues_ok N d \<and> (\<exists>R. rounds_ok N d I out R)"
  using assms
proof induction
  case (start newPBFT newSBFT alg cfg d)
  from NewRCC_queues [OF start(1)] have "rounds_ok N d (\<lambda>_. []) [] []" by (auto simp: rounds_ok_def exec_part_def start(2))
  with NewRCC_queues [OF start(1)] show ?case by (auto simp: start(2))
next
  case (ready d I out ord ord' mar rd d')
  then obtain R ms d1 where R: "rounds_ok N d I out R"
    and d1: "go_fold (rcc_collect P mar) (fmkeys ord (rc_replicators d)) ([], d) = Inr (ms, d1)"
    and d': "d' = (if rcc_present d1 then fold rcc_take (fmkeys ord' (rc_execPkts d1)) d1 else d1)"
    by (auto simp: rcc_MakeReady_def go_simps Let_def)
  from ready.IH R have "queues_ok N d1 \<and> rounds_ok N d1 (\<lambda>i. I i @ rcc_handed P d i) out R"
    by (intro rcc_collected [OF _ _ ready.hyps(2) d1]) auto
  with rcc_delivered [of N d1 _ out R ord'] ready.hyps(3) show ?case by (auto simp: d')
next
  case (clear d I out)
  then show ?case by (auto simp: rcc_ClearExecutedCommands_def queues_ok_def rounds_ok_def)
next
  case (clear_msgs d I out)
  then show ?case by (auto simp: rcc_ClearMsgs_def queues_ok_def rounds_ok_def)
qed (auto simp: rcc_Step_def rcc_Request_def rcc_Callback_def rcc_Tick_def rcc_AsyncCallback_def queues_ok_def rounds_ok_def
    dest!: on_replicator_sel on_replicators_sel split: option.splits)

text \<open>
  Claim C25. RCC executes commands in rounds: what a node has delivered for execution is a sequence of rounds with one packet of every replicator each, and the
  \<open>k\<close>-th round has the \<open>k\<close>-th packet that the replicator has ordered. The rest waits in the queues, in order.
\<close>

theorem rcc_round_robin:
  assumes "rcc_hist P N d I out"
  shows "\<exists>R. (\<forall>r \<in> set R. is_round N r) \<and> exec_part (out @ rc_globalOrderedCommands d) = map snd (concat R)
    \<and> (\<forall>i \<in> N. \<exists>q. fmlookup (rc_execPkts d) i = Some q \<and> I i = map (\<lambda>r. the (map_of r i)) R @ q)"
  using rcc_hist_ok [OF assms] by (auto simp: rounds_ok_def)

lemma round_contents:
  assumes "rounds_ok N d I out R" "k < length R"
  shows "distinct (R ! k) \<and> set (R ! k) = {(i, I i ! k) | i. i \<in> N}"
proof -
  let ?r = "R ! k"
  from assms have r: "distinct (map fst ?r)" "set (map fst ?r) = N" by (auto simp: rounds_ok_def is_round_def)
  have "I i ! k = the (map_of ?r i)" if "i \<in> N" for i
    using assms that by (fastforce simp: rounds_ok_def nth_append)
  moreover have "(i, x) \<in> set ?r \<longleftrightarrow> i \<in> N \<and> x = the (map_of ?r i)" for i x
  proof
    assume "(i, x) \<in> set ?r"
    with r show "i \<in> N \<and> x = the (map_of ?r i)" by (force simp: map_of_is_SomeI)
  next
    assume a: "i \<in> N \<and> x = the (map_of ?r i)"
    with r(2) obtain y where "map_of ?r i = Some y" by (metis domD dom_map_of_conv_image_fst list.set_map)
    with a show "(i, x) \<in> set ?r" by (auto dest: map_of_SomeD)
  qed
  ultimately have "set ?r = {(i, I i ! k) | i. i \<in> N}" by auto
  with r(1) show ?thesis by (simp add: distinct_map)
qed

text \<open>
  Claim C24. Two RCC nodes whose replicators have ordered the same packets, one node perhaps further than the other, execute the same packets in every round that both
  have reached.
\<close>

theorem rcc_rounds_agree:
  assumes "rcc_hist P N d I out" "rcc_hist P' N d' I' out'"
    and "\<forall>i \<in> N. prefix (I i) (I' i) \<or> prefix (I' i) (I i)"
  shows "\<exists>R R'. exec_part (out @ rc_globalOrderedCommands d) = map snd (concat R)
    \<and> exec_part (out' @ rc_globalOrderedCommands d') = map snd (concat R')
    \<and> (\<forall>r \<in> set R \<union> set R'. is_round N r)
    \<and> (\<forall>k. k < length R \<and> k < length R' \<longrightarrow> mset (R ! k) = mset (R' ! k))"
proof -
  from rcc_hist_ok [OF assms(1)] rcc_hist_ok [OF assms(2)] obtain R R'
    where R: "rounds_ok N d I out R" and R': "rounds_ok N d' I' out' R'" by blast
  have "mset (R ! k) = mset (R' ! k)" if k: "k < length R" "k < length R'" for k
  proof -
    have "I i ! k = I' i ! k" if i: "i \<in> N" for i
    proof -
      have "k < length (I i)" "k < length (I' i)" using R R' i k by (fastforce simp: rounds_ok_def)+
      with assms(3) i show ?thesis by (auto simp: prefix_def nth_append)
    qed
    then have "set (R ! k) = set (R' ! k)" using round_contents [OF R k(1)] round_contents [OF R' k(2)] by auto
    with round_contents [OF R k(1)] round_contents [OF R' k(2)] show ?thesis by (metis set_eq_iff_mset_eq_distinct)
  qed
  with R R' show ?thesis unfolding rounds_ok_def by blast
qed

subsection \<open>RCC under the peer\<close>

lemma rcc_MakeReady_appends:
  assumes "rcc_MakeReady P mar ord ord' d = Inr (rd, d')"
  shows "rd_OrderedCommands rd = rc_globalOrderedCommands d' \<and> prefix (rc_globalOrderedCommands d) (rc_globalOrderedCommands d')"
proof -
  have c: "prefix (rc_globalOrderedCommands (snd st)) (rc_globalOrderedCommands (snd st'))"
    if "go_fold (rcc_collect P mar) ks st = Inr st'" for ks st st'
    using that
  proof (induction ks arbitrary: st)
    case (Cons k ks)
    then obtain st1 where "rcc_collect P mar k st = Inr st1" "go_fold (rcc_collect P mar) ks st1 = Inr st'" by (auto simp: go_simps)
    with Cons.IH [of st1] rcc_collect_one(4) [of P mar k "fst st" "snd st" "fst st1" "snd st1"] show ?case by (auto simp: prefix_def)
  qed simp
  have t: "prefix (rc_globalOrderedCommands d) (rc_globalOrderedCommands (fold rcc_take ks d))" for ks and d :: "'a RCC"
  proof (induction ks arbitrary: d)
    case (Cons k ks)
    have "prefix (rc_globalOrderedCommands d) (rc_globalOrderedCommands (rcc_take k d))"
      by (auto simp: rcc_take_def split: option.split list.split)
    with Cons [of "rcc_take k d"] show ?case by (auto intro: prefix_order.trans)
  qed simp
  from assms obtain ms d1 where "go_fold (rcc_collect P mar) (fmkeys ord (rc_replicators d)) ([], d) = Inr (ms, d1)"
    and "d' = (if rcc_present d1 then fold rcc_take (fmkeys ord' (rc_execPkts d1)) d1 else d1)"
    and "rd_OrderedCommands rd = rc_globalOrderedCommands d'"
    by (auto simp: rcc_MakeReady_def go_simps Let_def)
  with c [of _ "([], d)" "(ms, d1)"] t [of d1 "fmkeys ord' (rc_execPkts d1)"] show ?thesis
    by (auto intro: prefix_order.trans)
qed

interpretation rcc_out: protocol_commands "rcc_Protocol P mar unm ord ord'" rc_globalOrderedCommands
  by unfold_locales
    (auto simp: rcc_Protocol_def rcc_Step_def rcc_Tick_def rcc_Request_def rcc_Callback_def rcc_AsyncCallback_def rcc_ClearMsgs_def
      rcc_ClearExecutedCommands_def dest: rcc_MakeReady_appends dest!: on_replicator_sel on_replicators_sel split: option.splits)

text \<open>
  A peer that runs RCC, whatever the inner protocol, loses, duplicates and reorders no command between the node and the store, under every interleaving of
  its threads.
\<close>

theorem rcc_peer_commands_grow:
  assumes "(peer_step V (rcc_Protocol P mar unm ord ord'))\<^sup>*\<^sup>* p p'"
  shows "prefix (pe_applied p @ pe_applying p @ concat (pe_toApply p) @ pe_handoff p @ rc_globalOrderedCommands (pe_n p))
      (pe_applied p' @ pe_applying p' @ concat (pe_toApply p') @ pe_handoff p' @ rc_globalOrderedCommands (pe_n p'))"
  using rcc_out.peer_steps_cmd_stream [OF assms] unfolding rcc_out.cmd_stream_def .

subsection \<open>Errors\<close>

text \<open>
  A request for a target, or a message for a replicator, that is not one of the peers ends the process, in every state an RCC node reaches:
  the replicator is looked up without a check.
\<close>

theorem rcc_unknown_target_fatal:
  assumes "rcc_hist P N d I out"
  shows "(cmd_Target c \<notin> N \<longrightarrow> rcc_Request P c d = Inl NilDeref)
    \<and> (\<forall>i inner. unm (msg_Content m) = Some (i, inner) \<and> i \<notin> N \<longrightarrow> rcc_Step P unm m d = Inl NilDeref)"
proof -
  have "fmlookup (rc_replicators d) i = None" if "i \<notin> N" for i
    using that rcc_hist_ok [OF assms] by (metis fmdomI option.exhaust queues_ok_def)
  then show ?thesis by (auto simp: rcc_Request_def rcc_Step_def on_replicator_def)
qed

subsection \<open>Concrete runs\<close>

text \<open>An inner protocol that orders a request at once.\<close>

definition ex_inner :: "ExecPacket list Protocol" where
  "ex_inner = \<lparr>pr_Step = \<lambda>_ s. Inr s, pr_Tick = Inr, pr_Request = \<lambda>c s. Inr (s @ [mkExecPacket c]), pr_Callback = \<lambda>_ s. Inr s,
     pr_MakeReady = \<lambda>s. Inr (\<lparr>rd_Messages = [], rd_OrderedCommands = s\<rparr>, s), pr_ClearMsgs = id,
     pr_ClearExecutedCommands = \<lambda>_. [], pr_AsyncCallback = Inr\<rparr>"

definition ex_rcc_cmd :: "u64 \<Rightarrow> PeerID \<Rightarrow> Command" where
  "ex_rcc_cmd t i = \<lparr>cmd_Timestamp = t, cmd_Ops = [], cmd_Target = i, cmd_Meta = [], cmd_ConflictKey = [], cmd_TraceInfo = fmempty\<rparr>"

definition ex_rcc_config :: LocalConfig where
  "ex_rcc_config = \<lparr>cfg_ID = 0, cfg_Peers = [0, 1], cfg_LeaderID = 0, cfg_MaxFailures = 0, cfg_Workers = fmempty, cfg_WorkersQueueSizes = fmempty\<rparr>"

text \<open>The node of a system of two peers after a request for each.\<close>

definition ex_rcc :: "ExecPacket list RCC go" where
  "ex_rcc = go_bind (NewRCC (\<lambda>_. Inr []) (\<lambda>_. Inr []) Algorithm_PBFT ex_rcc_config) (\<lambda>d.
     go_bind (rcc_Request ex_inner (ex_rcc_cmd 10 0) d) (rcc_Request ex_inner (ex_rcc_cmd 11 1)))"

definition ex_rcc_delivers :: "(u64 list \<Rightarrow> u64 list) \<Rightarrow> u64 list" where
  "ex_rcc_delivers ord = (case go_bind ex_rcc (rcc_MakeReady ex_inner (\<lambda>_ _. []) id ord) of
     Inl _ \<Rightarrow> [] | Inr (rd, _) \<Rightarrow> map (cmd_Timestamp \<circ> ep_Cmd) (rd_OrderedCommands rd))"

lemma ex_rcc_ready: "ex_rcc_delivers id = [10, 11]" "ex_rcc_delivers rev = [11, 10]"
  by code_simp+

lemma ex_rcc_hist: "\<exists>d I. ex_rcc = Inr d \<and> rcc_hist ex_inner {0, 1} d I []"
proof -
  obtain d0 :: "ExecPacket list RCC" where d0: "NewRCC (\<lambda>_. Inr []) (\<lambda>_. Inr []) Algorithm_PBFT ex_rcc_config = Inr d0"
    by (simp add: NewRCC_def ex_rcc_config_def Let_def)
  have "{0, 1} = set (cfg_Peers ex_rcc_config)" by (simp add: ex_rcc_config_def)
  from rcc_hist.start [OF d0 this] have h0: "rcc_hist ex_inner {0, 1} d0 (\<lambda>_. []) []" .
  have "ex_rcc \<noteq> Inl e" for e by code_simp
  then obtain d where d: "ex_rcc = Inr d" by (cases ex_rcc) auto
  then obtain d1 where "rcc_Request ex_inner (ex_rcc_cmd 10 0) d0 = Inr d1" "rcc_Request ex_inner (ex_rcc_cmd 11 1) d1 = Inr d"
    by (auto simp: ex_rcc_def d0 go_simps)
  with h0 d show ?thesis by (blast intro: rcc_hist.request)
qed

text \<open>
  The order within a round is not fixed: \<open>MakeReady\<close> ranges over the map of the queues. In the same reachable state, with every
  replicator's commands ordered, two orders of the visit deliver the two commands of a round in different orders.
\<close>

theorem rcc_round_order:
  "\<exists>(P :: ExecPacket list Protocol) d I rd rd' d1 d2. rcc_hist P {0, 1} d I [] \<and> rcc_MakeReady P (\<lambda>_ _. []) id id d = Inr (rd, d1)
     \<and> rcc_MakeReady P (\<lambda>_ _. []) id rev d = Inr (rd', d2)
     \<and> map (cmd_Timestamp \<circ> ep_Cmd) (rd_OrderedCommands rd) = [10, 11] \<and> map (cmd_Timestamp \<circ> ep_Cmd) (rd_OrderedCommands rd') = [11, 10]"
proof -
  obtain d I where d: "ex_rcc = Inr d" and h: "rcc_hist ex_inner {0, 1} d I []" using ex_rcc_hist by blast
  have "\<exists>rd d'. rcc_MakeReady ex_inner (\<lambda>_ _. []) id ord d = Inr (rd, d') \<and> map (cmd_Timestamp \<circ> ep_Cmd) (rd_OrderedCommands rd) = xs"
    if "ex_rcc_delivers ord = xs" "xs \<noteq> []" for ord xs
    using that by (auto simp: ex_rcc_delivers_def d split: sum.splits)
  from this [OF ex_rcc_ready(1)] this [OF ex_rcc_ready(2)] obtain rd d1 rd' d2
    where "rcc_MakeReady ex_inner (\<lambda>_ _. []) id id d = Inr (rd, d1)" "map (cmd_Timestamp \<circ> ep_Cmd) (rd_OrderedCommands rd) = [10, 11]"
      "rcc_MakeReady ex_inner (\<lambda>_ _. []) id rev d = Inr (rd', d2)" "map (cmd_Timestamp \<circ> ep_Cmd) (rd_OrderedCommands rd') = [11, 10]"
    by (elim exE conjE meta_impE) simp_all
  with h show ?thesis by (intro exI conjI)
qed

text \<open>The history of a node that has delivered a round.\<close>

lemma ex_rcc_round:
  obtains d I where "rcc_hist ex_inner {0, 1} d I []" "map (cmd_Timestamp \<circ> ep_Cmd) (rc_globalOrderedCommands d) = [10, 11]"
proof -
  obtain d I where d: "ex_rcc = Inr d" and h: "rcc_hist ex_inner {0, 1} d I []" using ex_rcc_hist by blast
  obtain rd d' where "rcc_MakeReady ex_inner (\<lambda>_ _. []) id id d = Inr (rd, d')" "map (cmd_Timestamp \<circ> ep_Cmd) (rd_OrderedCommands rd) = [10, 11]"
    using ex_rcc_ready(1) by (auto simp: ex_rcc_delivers_def d split: sum.splits)
  with rcc_MakeReady_appends [OF this(1)] rcc_hist.ready [OF h _ _ this(1)] that show thesis by auto
qed

theorem rcc_round_robin_witness:
  "\<exists>d I R. rcc_hist ex_inner {0, 1} d I [] \<and> map (cmd_Timestamp \<circ> ep_Cmd) (rc_globalOrderedCommands d) = [10, 11]
     \<and> (\<forall>r \<in> set R. is_round {0, 1} r) \<and> exec_part (rc_globalOrderedCommands d) = map snd (concat R)"
proof -
  obtain d I where "rcc_hist ex_inner {0, 1} d I []" "map (cmd_Timestamp \<circ> ep_Cmd) (rc_globalOrderedCommands d) = [10, 11]"
    by (rule ex_rcc_round)
  with rcc_round_robin [OF this(1)] show ?thesis by fastforce
qed

theorem rcc_rounds_agree_witness:
  "\<exists>d I R R'. rcc_hist ex_inner {0, 1} d I [] \<and> map (cmd_Timestamp \<circ> ep_Cmd) (rc_globalOrderedCommands d) = [10, 11]
     \<and> exec_part (rc_globalOrderedCommands d) = map snd (concat R) \<and> exec_part (rc_globalOrderedCommands d) = map snd (concat R')
     \<and> (\<forall>r \<in> set R \<union> set R'. is_round {0, 1} r) \<and> (\<forall>k. k < length R \<and> k < length R' \<longrightarrow> mset (R ! k) = mset (R' ! k))"
proof -
  obtain d I where "rcc_hist ex_inner {0, 1} d I []" "map (cmd_Timestamp \<circ> ep_Cmd) (rc_globalOrderedCommands d) = [10, 11]"
    by (rule ex_rcc_round)
  moreover have "\<forall>i \<in> {0, 1}. prefix (I i) (I i) \<or> prefix (I i) (I i)" by simp
  from rcc_rounds_agree [OF \<open>rcc_hist ex_inner {0, 1} d I []\<close> \<open>rcc_hist ex_inner {0, 1} d I []\<close> this]
  obtain R R' where "exec_part (rc_globalOrderedCommands d) = map snd (concat R)"
    "exec_part (rc_globalOrderedCommands d) = map snd (concat R')" "\<forall>k. k < length R \<and> k < length R' \<longrightarrow> mset (R ! k) = mset (R' ! k)"
    and "\<forall>r \<in> set R \<union> set R'. is_round {0, 1} r"
    unfolding append_Nil by blast
  ultimately show ?thesis by (intro exI conjI)
qed

theorem rcc_unknown_target_fatal_witness:
  "\<exists>d I. rcc_hist ex_inner {0, 1} d I [] \<and> rcc_Request ex_inner (ex_rcc_cmd 12 7) d = Inl NilDeref"
proof -
  obtain d I where h: "rcc_hist ex_inner {0, 1} d I []" using ex_rcc_hist by blast
  from rcc_unknown_target_fatal [OF h, of "ex_rcc_cmd 12 7"] h show ?thesis by (auto simp: ex_rcc_cmd_def)
qed

definition ex_rcc_peer :: "ExecPacket list RCC \<Rightarrow> ExecPacket list RCC Peer" where
  "ex_rcc_peer d = (Peer_New 0 [0, 1] 1 d)\<lparr>pe_sig := True\<rparr>"

abbreviation ex_rcc_Protocol :: "ExecPacket list RCC Protocol" where
  "ex_rcc_Protocol \<equiv> rcc_Protocol ex_inner (\<lambda>_ _. []) (\<lambda>_. None) id id"

lemma ex_rcc_peer_round:
  "(case go_bind ex_rcc (\<lambda>d. Peer_round ex_rcc_Protocol (ex_rcc_peer d)) of
      Inl _ \<Rightarrow> [] | Inr p \<Rightarrow> map (cmd_Timestamp \<circ> ep_Cmd) (pe_handoff p)) = [10, 11]"
  by code_simp

theorem rcc_peer_commands_grow_witness:
  "\<exists>d p'. ex_rcc = Inr d \<and> (peer_step ex_peer_env ex_rcc_Protocol)\<^sup>*\<^sup>* (ex_rcc_peer d) p'
     \<and> map (cmd_Timestamp \<circ> ep_Cmd) (pe_handoff p') = [10, 11]
     \<and> prefix (rc_globalOrderedCommands d) (pe_applied p' @ pe_applying p' @ concat (pe_toApply p') @ pe_handoff p' @ rc_globalOrderedCommands (pe_n p'))"
proof -
  obtain d p' where d: "ex_rcc = Inr d" and r: "Peer_round ex_rcc_Protocol (ex_rcc_peer d) = Inr p'"
    and h: "map (cmd_Timestamp \<circ> ep_Cmd) (pe_handoff p') = [10, 11]"
    using ex_rcc_peer_round by (auto simp: go_bind_def split: sum.splits)
  have p: "pe_sig (ex_rcc_peer d)" "pe_handoff (ex_rcc_peer d) = []" "\<not> pe_exited (ex_rcc_peer d)" "pe_applied (ex_rcc_peer d) = []"
    "pe_applying (ex_rcc_peer d) = []" "pe_toApply (ex_rcc_peer d) = []" "pe_n (ex_rcc_peer d) = d" by (simp_all add: ex_rcc_peer_def Peer_New_def)
  have s: "(peer_step ex_peer_env ex_rcc_Protocol)\<^sup>*\<^sup>* (ex_rcc_peer d) p'" using peer_step.round [OF p(1-3) r] by blast
  from rcc_peer_commands_grow [OF s] have "prefix (rc_globalOrderedCommands d)
      (pe_applied p' @ pe_applying p' @ concat (pe_toApply p') @ pe_handoff p' @ rc_globalOrderedCommands (pe_n p'))" by (simp only: p append_Nil concat.simps)
  with d h s show ?thesis by (intro exI conjI)
qed

end
