(* ===== verification/MirBFT.thy ===== *)
theory MirBFT
  imports PBFT Peer
begin

text \<open>
  The MirBFT replica of \<open>protocols/mirbft\<close>: PBFT's three phases without a view change, with every replica of the epoch as the leader of the indices that are congruent to
  its number. The messages, instances and vote tables of \<open>mirbftpb\<close> and \<open>quorum.go\<close> are copies of PBFT's with \<open>Epoch\<close> in place of \<open>View\<close>, and the types of theory
  \<open>PBFT\<close> stand for them.
\<close>

subsection \<open>Messages and vote tables\<close>

text \<open>The last three kinds have no handler, and their contents play no role.\<close>

datatype MirBFTMessage =
    MirBFTMessage_Agreement AgreementMessage
  | MirBFTMessage_EpochChange
  | MirBFTMessage_EpochChangeAck
  | MirBFTMessage_NewEpoch
  | MirBFTMessage_Unset

record mir_env = go_env +
  env_marshalMir :: "MirBFTMessage \<Rightarrow> bytes"
  env_unmarshalMir :: "bytes \<Rightarrow> MirBFTMessage option"

definition mir_newQuorum :: Quorum where
  "mir_newQuorum = \<lparr>q_maxView = 0, q_msgs = fmempty\<rparr>"

definition mir_log :: "PeerID \<Rightarrow> AgreementMessage \<Rightarrow> Quorum \<Rightarrow> Quorum go" where
  "mir_log i m q =
     (if q_maxView q > am_View m then Inl PanicCall
      else let msgs = fmsub (q_msgs q) (am_View m) in
        (case fmlookup msgs i of
           None \<Rightarrow> Inr \<lparr>q_maxView = am_View m, q_msgs = fmupd (am_View m) (fmupd i m msgs) (q_msgs q)\<rparr>
         | Some _ \<Rightarrow> Inl PanicCall))"

definition mir_Equals :: "AgreementMessage \<Rightarrow> AgreementMessage \<Rightarrow> bool" where
  "mir_Equals m other =
     (if am_View m \<noteq> am_View other then False
      else if am_Index m \<noteq> am_Index other then False
      else bytes_Equal (am_CommandHash m) (am_CommandHash other))"

definition mir_Majority :: "int \<Rightarrow> AgreementMessage \<Rightarrow> Quorum \<Rightarrow> bool" where
  "mir_Majority f m q =
     (case fmlookup (q_msgs q) (am_View m) of
        None \<Rightarrow> False
      | Some msgPairs \<Rightarrow>
          (if int (fmlen msgPairs) \<le> 2 * f then False else int (fmcount (mir_Equals m) msgPairs) > 2 * f))"

subsection \<open>The replica\<close>

record MirBFT =
  mr_id :: PeerID
  mr_nodes :: "PeerID list"
  mr_log :: "(u64, pbft_instance) fmap"
  mr_nextDeliverIndex :: u64
  mr_nextLocalIndex :: u64
  mr_epoch :: u64
  mr_epochLeaders :: "(u64, PeerID fset) fmap"
  mr_msgs :: "Message list"
  mr_toDeliver :: "ExecPacket list"
  mr_timers :: "unit tickingTimer list"
  mr_viewChanging :: bool
  mr_f :: int
  mr_signDispatcher :: "(bytes \<times> bool, bytes) Dispatcher"

definition NewMirBFT :: "LocalConfig \<Rightarrow> MirBFT go" where
  "NewMirBFT c = go_bind (startDispatcher c ''mac_sign'') (\<lambda>d.
     Inr \<lparr>mr_id = cfg_ID c, mr_nodes = cfg_Peers c, mr_log = fmempty, mr_nextDeliverIndex = 0, mr_nextLocalIndex = cfg_ID c,
          mr_epoch = 0, mr_epochLeaders = fmupd 0 (fset_of_list (cfg_Peers c)) fmempty, mr_msgs = [], mr_toDeliver = [],
          mr_timers = [], mr_viewChanging = False, mr_f = cfg_MaxFailures c, mr_signDispatcher = d\<rparr>)"

text \<open>\<open>epochLeaders[e]\<close>; the map of a missing epoch is nil and reads as empty.\<close>

definition epoch_leaders :: "u64 \<Rightarrow> MirBFT \<Rightarrow> PeerID fset" where
  "epoch_leaders e p = (case fmlookup (mr_epochLeaders p) e of None \<Rightarrow> {||} | Some s \<Rightarrow> s)"

definition leaderOfSeq :: "u64 \<Rightarrow> u64 \<Rightarrow> MirBFT \<Rightarrow> PeerID go" where
  "leaderOfSeq e seq p = go_umod seq (fcard (epoch_leaders e p))"

subsection \<open>Sending (\<open>messaging.go\<close>)\<close>

definition mir_enqueueForSending :: "PeerID \<Rightarrow> bytes \<Rightarrow> bytes \<Rightarrow> MirBFT \<Rightarrow> MirBFT" where
  "mir_enqueueForSending to mm certificate p =
     p\<lparr>mr_msgs := mr_msgs p @ [\<lparr>msg_From = mr_id p, msg_To = to, msg_Content = mm, msg_Certificate = certificate\<rparr>]\<rparr>"

definition mir_sendTo :: "mir_env \<Rightarrow> PeerID \<Rightarrow> MirBFTMessage \<Rightarrow> MirBFT \<Rightarrow> MirBFT" where
  "mir_sendTo E to m p =
     (let mBytes = env_marshalMir E m in mir_enqueueForSending to mBytes (env_createSignedCertificate E mBytes) p)"

definition mir_broadcast :: "mir_env \<Rightarrow> MirBFTMessage \<Rightarrow> bool \<Rightarrow> MirBFT \<Rightarrow> MirBFT" where
  "mir_broadcast E m sendToSelf p =
     p\<lparr>mr_signDispatcher := Dispatcher_Exec (env_marshalMir E m, sendToSelf) (mr_signDispatcher p)\<rparr>"

text \<open>The two closures that \<open>broadcast\<close> gives to the pool: the worker's and the replica's.\<close>

definition mir_signVector :: "mir_env \<Rightarrow> PeerID list \<Rightarrow> bytes \<times> bool \<Rightarrow> bytes" where
  "mir_signVector E nodes job = concat (map (\<lambda>_. env_createSignedCertificate E (fst job)) nodes)"

definition mir_broadcastCallback :: "bytes \<times> bool \<Rightarrow> bytes \<Rightarrow> MirBFT \<Rightarrow> MirBFT go" where
  "mir_broadcastCallback job cert p =
     go_fold (\<lambda>node p'.
        if snd job \<or> node \<noteq> mr_id p'
        then go_bind (slice_range cert (unat (node * 32)) (unat (node * 32 + 32)))
               (\<lambda>c. Inr (mir_enqueueForSending node (fst job) c p'))
        else Inr p') (mr_nodes p) p"

definition mir_AsyncCallback :: "MirBFT \<Rightarrow> MirBFT go" where
  "mir_AsyncCallback p =
     (case drain_callbacks (mr_signDispatcher p) of (cbs, d) \<Rightarrow>
        go_fold (\<lambda>(job, cert). mir_broadcastCallback job cert) cbs (p\<lparr>mr_signDispatcher := d\<rparr>))"

definition mir_ClearMsgs :: "MirBFT \<Rightarrow> MirBFT" where
  "mir_ClearMsgs p = p\<lparr>mr_msgs := []\<rparr>"

subsection \<open>Agreement (\<open>instance.go\<close>)\<close>

definition mir_makeInstance :: "AgreementMessage \<Rightarrow> pbft_instance" where
  "mir_makeInstance m =
     \<lparr>inst_is = \<lparr>is_View = am_View m, is_Index = am_Index m, is_Status = St_None,
                 is_Command = am_Command m, is_CommandHash = am_CommandHash m\<rparr>,
      inst_pCert = mir_newQuorum, inst_cCert = mir_newQuorum\<rparr>"

definition mir_updateCommand :: "pbft_instance \<Rightarrow> AgreementMessage \<Rightarrow> pbft_instance go" where
  "mir_updateCommand inst m =
     (if is_Command (inst_is inst) \<noteq> None
      then go_bind (Command_Equal (is_Command (inst_is inst)) (am_Command m)) (\<lambda>b. if \<not> b then Inl FatalExit else Inr inst)
      else Inr (inst\<lparr>inst_is := (inst_is inst)\<lparr>is_Command := am_Command m\<rparr>\<rparr>))"

definition mir_updateCommandHash :: "pbft_instance \<Rightarrow> AgreementMessage \<Rightarrow> pbft_instance go" where
  "mir_updateCommandHash inst m =
     (if is_CommandHash (inst_is inst) \<noteq> None
      then (if \<not> bytes_Equal (is_CommandHash (inst_is inst)) (am_CommandHash m) then Inl PanicCall else Inr inst)
      else Inr (inst\<lparr>inst_is := (inst_is inst)\<lparr>is_CommandHash := am_CommandHash m\<rparr>\<rparr>))"

definition mir_put :: "u64 \<Rightarrow> pbft_instance \<Rightarrow> MirBFT \<Rightarrow> MirBFT" where
  "mir_put idx inst p = p\<lparr>mr_log := fmupd idx inst (mr_log p)\<rparr>"

definition mir_enqueueForExecution :: "Command \<Rightarrow> MirBFT \<Rightarrow> MirBFT" where
  "mir_enqueueForExecution cmd p = p\<lparr>mr_toDeliver := mr_toDeliver p @ [mkExecPacket cmd]\<rparr>"

text \<open>The indices with a command; each round of \<open>exec\<close> clears one, so the loop ends.\<close>

definition mir_pending :: "MirBFT \<Rightarrow> u64 set" where
  "mir_pending p = {i. \<exists>inst. fmlookup (mr_log p) i = Some inst \<and> is_Command (inst_is inst) \<noteq> None}"

function mir_exec :: "MirBFT \<Rightarrow> MirBFT" where
  "mir_exec p =
     (case fmlookup (mr_log p) (mr_nextDeliverIndex p) of
        None \<Rightarrow> p
      | Some inst \<Rightarrow>
          (if \<not> IsCommitted (inst_is inst) then p
           else case is_Command (inst_is inst) of
               None \<Rightarrow> p
             | Some cmd \<Rightarrow>
                 mir_exec (mir_put (mr_nextDeliverIndex p)
                   (inst\<lparr>inst_is := (inst_is inst)\<lparr>is_Command := None, is_Status := St_Executed\<rparr>\<rparr>)
                   ((mir_enqueueForExecution cmd p)\<lparr>mr_nextDeliverIndex := mr_nextDeliverIndex p + 1\<rparr>))))"
  by pat_completeness auto
termination
proof (relation "measure (\<lambda>p. card (mir_pending p))", simp, clarsimp)
  fix p :: MirBFT and inst cmd
  assume *: "fmlookup (mr_log p) (mr_nextDeliverIndex p) = Some inst" "is_Command (inst_is inst) = Some cmd"
  let ?p' = "mir_put (mr_nextDeliverIndex p) (inst\<lparr>inst_is := (inst_is inst)\<lparr>is_Command := None, is_Status := St_Executed\<rparr>\<rparr>)
    ((mir_enqueueForExecution cmd p)\<lparr>mr_nextDeliverIndex := mr_nextDeliverIndex p + 1\<rparr>)"
  have "mir_pending ?p' = mir_pending p - {mr_nextDeliverIndex p}"
    by (auto simp: mir_pending_def mir_put_def mir_enqueueForExecution_def split: if_splits)
  moreover have "mr_nextDeliverIndex p \<in> mir_pending p" using * by (simp add: mir_pending_def)
  ultimately show "card (mir_pending ?p') < card (mir_pending p)"
    by (metis card_Diff1_less finite)
qed

declare mir_exec.simps [simp del]

text \<open>The end of \<open>onPrePrepare\<close> and \<open>onPrepare\<close>: the instance is prepared, and committed if the votes are there.\<close>

definition mir_becomePrepared :: "mir_env \<Rightarrow> u64 \<Rightarrow> AgreementMessage \<Rightarrow> pbft_instance \<Rightarrow> MirBFT \<Rightarrow> MirBFT go" where
  "mir_becomePrepared E idx m inst p =
     (let inst1 = set_status St_Prepared inst;
          cm = \<lparr>am_View = am_View m, am_Index = am_Index m, am_Type = AMT_Commit, am_Command = None,
                am_CommandHash = is_CommandHash (inst_is inst1)\<rparr>;
          p1 = mir_broadcast E (MirBFTMessage_Agreement cm) False p
      in go_bind (mir_log (mr_id p) cm (inst_cCert inst1)) (\<lambda>cc.
           let inst2 = inst1\<lparr>inst_cCert := cc\<rparr> in
           if mir_Majority (mr_f p) cm cc \<and> IsPrepared (inst_is inst2)
           then Inr (mir_exec (mir_put idx (set_status St_Committed inst2) p1))
           else Inr (mir_put idx inst2 p1)))"

definition mir_onPrePrepare :: "mir_env \<Rightarrow> AgreementMessage \<Rightarrow> PeerID \<Rightarrow> MirBFT \<Rightarrow> MirBFT go" where
  "mir_onPrePrepare E m0 from p =
     (if from |\<notin>| epoch_leaders (am_View m0) p then Inr p
      else go_bind (leaderOfSeq (am_View m0) (am_Index m0) p) (\<lambda>leader.
      if leader \<noteq> from then Inr p
      else go_bind (Hash_ptr E (am_Command m0)) (\<lambda>hash.
      let m = m0\<lparr>am_CommandHash := hash\<rparr> in
      go_bind (case fmlookup (mr_log p) (am_Index m) of
             None \<Rightarrow> Inr (mir_makeInstance m)
           | Some inst \<Rightarrow> go_bind (mir_updateCommand inst m) (\<lambda>inst'. mir_updateCommandHash inst' m)) (\<lambda>inst.
      go_bind (mir_log from (m\<lparr>am_Command := None\<rparr>) (inst_pCert inst)) (\<lambda>pc1.
      let inst1 = set_status St_PrePrepared inst;
          pm = \<lparr>am_View = is_View (inst_is inst1), am_Index = is_Index (inst_is inst1), am_Type = AMT_Prepare,
                am_Command = None, am_CommandHash = is_CommandHash (inst_is inst1)\<rparr> in
      go_bind (mir_log (mr_id p) pm pc1) (\<lambda>pc2.
      let inst2 = inst1\<lparr>inst_pCert := pc2\<rparr>;
          p1 = mir_broadcast E (MirBFTMessage_Agreement pm) False (mir_put (am_Index m) inst2 p) in
      if mir_Majority (mr_f p) pm pc2 \<and> IsPrePrepared (inst_is inst2)
      then mir_becomePrepared E (am_Index m) pm inst2 p1
      else Inr p1))))))"

definition mir_onPrepare :: "mir_env \<Rightarrow> AgreementMessage \<Rightarrow> PeerID \<Rightarrow> MirBFT \<Rightarrow> MirBFT go" where
  "mir_onPrepare E m from p =
     go_bind (case fmlookup (mr_log p) (am_Index m) of
             None \<Rightarrow> Inr (mir_makeInstance m)
           | Some inst \<Rightarrow> mir_updateCommandHash inst m) (\<lambda>inst.
     go_bind (mir_log from m (inst_pCert inst)) (\<lambda>pc.
     let inst1 = inst\<lparr>inst_pCert := pc\<rparr>;
         p1 = mir_put (am_Index m) inst1 p in
     if mir_Majority (mr_f p) m pc \<and> IsPrePrepared (inst_is inst1)
     then mir_becomePrepared E (am_Index m) m inst1 p1
     else Inr p1))"

definition mir_onCommit :: "AgreementMessage \<Rightarrow> PeerID \<Rightarrow> MirBFT \<Rightarrow> MirBFT go" where
  "mir_onCommit m from p =
     go_bind (case fmlookup (mr_log p) (am_Index m) of
             None \<Rightarrow> Inr (mir_makeInstance m)
           | Some inst \<Rightarrow> mir_updateCommandHash inst m) (\<lambda>inst.
     go_bind (mir_log from m (inst_cCert inst)) (\<lambda>cc.
     let inst1 = inst\<lparr>inst_cCert := cc\<rparr> in
     if mir_Majority (mr_f p) m cc \<and> IsPrepared (inst_is inst1)
     then Inr (mir_exec (mir_put (am_Index m) (set_status St_Committed inst1) p))
     else Inr (mir_put (am_Index m) inst1 p)))"

subsection \<open>Requests (\<open>request.go\<close>)\<close>

definition mir_onRequest :: "mir_env \<Rightarrow> Command \<Rightarrow> MirBFT \<Rightarrow> MirBFT go" where
  "mir_onRequest E cmd p =
     (if mr_id p |\<notin>| epoch_leaders (mr_epoch p) p then Inr p
      else let idx = mr_nextLocalIndex p;
               p1 = p\<lparr>mr_nextLocalIndex := mr_nextLocalIndex p + of_nat (fcard (epoch_leaders (mr_epoch p) p))\<rparr>;
               is = \<lparr>is_View = mr_epoch p, is_Index = idx, is_Status = St_PrePrepared, is_Command = Some cmd, is_CommandHash = None\<rparr>;
               ppm = \<lparr>am_View = mr_epoch p, am_Index = idx, am_Type = AMT_PrePrepare, am_Command = Some cmd, am_CommandHash = None\<rparr>;
               logppm = ppm\<lparr>am_Command := None, am_CommandHash := Command_Hash E cmd\<rparr>
           in go_bind (mir_log (mr_id p) logppm mir_newQuorum) (\<lambda>pc.
             Inr (mir_broadcast E (MirBFTMessage_Agreement ppm) False
               (mir_put idx \<lparr>inst_is = is, inst_pCert = pc, inst_cCert = mir_newQuorum\<rparr> p1))))"

subsection \<open>Entry points (\<open>mirbft.go\<close>)\<close>

definition mir_stepAgreement :: "mir_env \<Rightarrow> AgreementMessage \<Rightarrow> PeerID \<Rightarrow> MirBFT \<Rightarrow> MirBFT go" where
  "mir_stepAgreement E m from p =
     (if mr_viewChanging p then Inr p
      else if am_View m \<noteq> mr_epoch p then Inr p
      else case am_Type m of
          AMT_PrePrepare \<Rightarrow> mir_onPrePrepare E m from p
        | AMT_Prepare \<Rightarrow> mir_onPrepare E m from p
        | AMT_Commit \<Rightarrow> mir_onCommit m from p
        | AMT_Unknown _ \<Rightarrow> Inl PanicCall)"

definition mir_Step :: "mir_env \<Rightarrow> Message \<Rightarrow> MirBFT \<Rightarrow> MirBFT go" where
  "mir_Step E mm p =
     (case env_unmarshalMir E (msg_Content mm) of
        None \<Rightarrow> Inl PanicCall
      | Some t \<Rightarrow>
          if \<not> env_verifyCertificate E (msg_Content mm) (msg_Certificate mm) then Inl PanicCall
          else (case t of
              MirBFTMessage_Agreement m \<Rightarrow> mir_stepAgreement E m (msg_From mm) p
            | _ \<Rightarrow> Inl PanicCall))"

definition mir_Callback :: "ExecCallback \<Rightarrow> MirBFT \<Rightarrow> MirBFT go" where
  "mir_Callback cb p = Inl PanicCall"

definition mir_ClearExecutedCommands :: "MirBFT \<Rightarrow> MirBFT" where
  "mir_ClearExecutedCommands p = p\<lparr>mr_toDeliver := []\<rparr>"

definition mir_MakeReady :: "MirBFT \<Rightarrow> Ready" where
  "mir_MakeReady p = \<lparr>rd_Messages = mr_msgs p, rd_OrderedCommands = mr_toDeliver p\<rparr>"

definition mir_Request :: "mir_env \<Rightarrow> Command \<Rightarrow> MirBFT \<Rightarrow> MirBFT go" where
  "mir_Request E c p = mir_onRequest E c p"

text \<open>No timer is ever registered.\<close>

definition mir_Tick :: "MirBFT \<Rightarrow> MirBFT go" where
  "mir_Tick p = Inr (p\<lparr>mr_timers := map (fst \<circ> Timer_Tick) (mr_timers p)\<rparr>)"

definition mir_hasStatus :: "u64 \<Rightarrow> InstanceState_Status \<Rightarrow> MirBFT \<Rightarrow> bool" where
  "mir_hasStatus i st p = (case fmlookup (mr_log p) i of None \<Rightarrow> False | Some inst \<Rightarrow> is_Status (inst_is inst) = st)"

definition mir_Protocol :: "mir_env \<Rightarrow> MirBFT Protocol" where
  "mir_Protocol E =
     \<lparr>pr_Step = mir_Step E, pr_Tick = mir_Tick, pr_Request = mir_Request E, pr_Callback = mir_Callback,
      pr_MakeReady = (\<lambda>s. Inr (mir_MakeReady s, s)), pr_ClearMsgs = mir_ClearMsgs,
      pr_ClearExecutedCommands = mir_ClearExecutedCommands, pr_AsyncCallback = mir_AsyncCallback\<rparr>"

end
