(* ===== verification/MirBFT_Local.thy ===== *)
theory MirBFT_Local
  imports MirBFT
begin

text \<open>
  What one MirBFT replica guarantees whatever it receives: its own proposals use only indices of which it is the leader, each once, until the numbers wrap around; it delivers the
  committed commands in the order of the indices without a gap; the peer loses nothing. And what it does not: a single wrong vote for a leader's own proposal ends the leader's process.
\<close>

subsection \<open>The output grows, the configuration stays\<close>

definition mir_grows :: "MirBFT \<Rightarrow> MirBFT \<Rightarrow> bool" where
  "mir_grows p p' \<longleftrightarrow> prefix (mr_msgs p) (mr_msgs p') \<and> prefix (mr_toDeliver p) (mr_toDeliver p')
     \<and> mr_id p' = mr_id p \<and> mr_epoch p' = mr_epoch p \<and> mr_epochLeaders p' = mr_epochLeaders p"

definition mir_steps :: "MirBFT \<Rightarrow> MirBFT \<Rightarrow> bool" where
  "mir_steps p p' \<longleftrightarrow> mir_grows p p' \<and> mr_nextLocalIndex p' = mr_nextLocalIndex p"

lemma mir_steps_refl [simp]: "mir_steps p p"
  by (simp add: mir_steps_def mir_grows_def)

lemma mir_steps_trans: "mir_steps p p1 \<Longrightarrow> mir_steps p1 p2 \<Longrightarrow> mir_steps p p2"
  by (auto simp: mir_steps_def mir_grows_def intro: prefix_order.trans)

lemma mir_steps_frame [simp]:
  "mir_steps p (mir_put i inst q) = mir_steps p q" "mir_steps p (mir_broadcast E M b q) = mir_steps p q"
  "mir_steps p (q\<lparr>mr_signDispatcher := d\<rparr>) = mir_steps p q" "mir_steps p (q\<lparr>mr_timers := ts\<rparr>) = mir_steps p q"
  "mir_steps (mir_put i inst p) q = mir_steps p q" "mir_steps (mir_broadcast E M b p) q = mir_steps p q"
  "mir_steps (p\<lparr>mr_signDispatcher := d\<rparr>) q = mir_steps p q"
  by (simp_all add: mir_steps_def mir_grows_def mir_put_def mir_broadcast_def)

lemma mir_steps_enqueue: "mir_steps p q \<Longrightarrow> mir_steps p (mir_enqueueForSending to mm c q)"
  by (auto simp: mir_steps_def mir_grows_def mir_enqueueForSending_def intro: prefix_order.trans)

text \<open>One round of the delivery loop.\<close>

definition mir_ready :: "MirBFT \<Rightarrow> u64 \<Rightarrow> Command \<Rightarrow> bool" where
  "mir_ready p i cmd \<longleftrightarrow> (\<exists>inst. fmlookup (mr_log p) i = Some inst \<and> IsCommitted (inst_is inst) \<and> is_Command (inst_is inst) = Some cmd)"

definition mir_deliver :: "MirBFT \<Rightarrow> pbft_instance \<Rightarrow> Command \<Rightarrow> MirBFT" where
  "mir_deliver p inst cmd = mir_put (mr_nextDeliverIndex p)
     (inst\<lparr>inst_is := (inst_is inst)\<lparr>is_Command := None, is_Status := St_Executed\<rparr>\<rparr>)
     ((mir_enqueueForExecution cmd p)\<lparr>mr_nextDeliverIndex := mr_nextDeliverIndex p + 1\<rparr>)"

lemma mir_exec_induct [case_names stop deliver]:
  assumes "\<And>p. (\<nexists>cmd. mir_ready p (mr_nextDeliverIndex p) cmd) \<Longrightarrow> mir_exec p = p \<Longrightarrow> Q p"
    and "\<And>p inst cmd. fmlookup (mr_log p) (mr_nextDeliverIndex p) = Some inst \<Longrightarrow> IsCommitted (inst_is inst) \<Longrightarrow>
      is_Command (inst_is inst) = Some cmd \<Longrightarrow> mir_exec p = mir_exec (mir_deliver p inst cmd) \<Longrightarrow> Q (mir_deliver p inst cmd) \<Longrightarrow> Q p"
  shows "Q p"
proof (induction p rule: mir_exec.induct)
  case (1 p)
  show ?case
  proof (cases "\<exists>inst cmd. fmlookup (mr_log p) (mr_nextDeliverIndex p) = Some inst \<and> IsCommitted (inst_is inst)
      \<and> is_Command (inst_is inst) = Some cmd")
    case True
    then obtain inst cmd where c: "fmlookup (mr_log p) (mr_nextDeliverIndex p) = Some inst" "IsCommitted (inst_is inst)"
      "is_Command (inst_is inst) = Some cmd" by blast
    have "mir_exec p = mir_exec (mir_deliver p inst cmd)" using c by (subst mir_exec.simps) (simp add: mir_deliver_def)
    moreover have "Q (mir_deliver p inst cmd)" using 1 c by (simp add: mir_deliver_def)
    ultimately show ?thesis using assms(2) c by blast
  next
    case False
    then have "mir_exec p = p" by (subst mir_exec.simps) (auto split: option.split)
    with False show ?thesis by (intro assms(1)) (auto simp: mir_ready_def)
  qed
qed

lemma mir_steps_deliver: "mir_steps p (mir_deliver p inst cmd)"
  by (simp add: mir_deliver_def mir_steps_def mir_grows_def mir_put_def mir_enqueueForExecution_def)

lemma mir_steps_exec: "mir_steps p (mir_exec p)"
  by (induction p rule: mir_exec_induct) (auto intro: mir_steps_trans mir_steps_deliver)

lemma mir_steps_exec' [simp]: "mir_steps p q \<Longrightarrow> mir_steps p (mir_exec q)"
  using mir_steps_exec mir_steps_trans by blast

lemma mir_steps_becomePrepared: "mir_becomePrepared E i m inst p = Inr p' \<Longrightarrow> mir_steps p p'"
  by (auto simp: mir_becomePrepared_def Let_def go_simps split: if_splits)

lemma mir_steps_stepAgreement: "mir_stepAgreement E m from p = Inr p' \<Longrightarrow> mir_steps p p'"
proof -
  have "mir_onPrepare E m from p = Inr p' \<Longrightarrow> mir_steps p p'"
    unfolding mir_onPrepare_def Let_def by (elim go_bindE) (auto dest!: mir_steps_becomePrepared split: if_splits)
  moreover have "mir_onCommit m from p = Inr p' \<Longrightarrow> mir_steps p p'"
    unfolding mir_onCommit_def Let_def by (elim go_bindE) (auto split: if_splits)
  moreover have "mir_onPrePrepare E m from p = Inr p' \<Longrightarrow> mir_steps p p'"
    unfolding mir_onPrePrepare_def Let_def by (auto elim!: go_bindE dest!: mir_steps_becomePrepared split: if_splits)
  ultimately show "mir_stepAgreement E m from p = Inr p' \<Longrightarrow> mir_steps p p'"
    by (auto simp: mir_stepAgreement_def split: if_splits AgreementMessage_Type.splits)
qed

lemma mir_steps_Step: "mir_Step E m p = Inr p' \<Longrightarrow> mir_steps p p'"
  by (auto simp: mir_Step_def dest: mir_steps_stepAgreement split: option.splits if_splits MirBFTMessage.splits)

lemma mir_steps_fold:
  assumes "go_fold g xs p = Inr p'" "\<And>x p p'. g x p = Inr p' \<Longrightarrow> mir_steps p p'"
  shows "mir_steps p p'"
  using assms(1)
proof (induction xs arbitrary: p)
  case (Cons x xs)
  then obtain p1 where "g x p = Inr p1" "go_fold g xs p1 = Inr p'" by (auto simp: go_simps)
  with Cons.IH assms(2) show ?case by (blast intro: mir_steps_trans)
qed simp

lemma mir_steps_Async: "mir_AsyncCallback p = Inr p' \<Longrightarrow> mir_steps p p'"
proof -
  have "mir_steps p p'" if "mir_broadcastCallback job cert p = Inr p'" for job cert p p'
    using that unfolding mir_broadcastCallback_def
    by (rule mir_steps_fold) (auto simp: go_simps intro: mir_steps_enqueue split: if_splits)
  then have cb: "mir_steps p p'" if "(case x of (job, cert) \<Rightarrow> mir_broadcastCallback job cert) p = Inr p'" for x p p'
    using that by (cases x) simp
  assume "mir_AsyncCallback p = Inr p'"
  then obtain cbs d where "go_fold (\<lambda>(job, cert). mir_broadcastCallback job cert) cbs (p\<lparr>mr_signDispatcher := d\<rparr>) = Inr p'"
    by (auto simp: mir_AsyncCallback_def split: prod.splits)
  from mir_steps_fold [OF this cb] show ?thesis by simp
qed

lemma mir_grows_onRequest: "mir_onRequest E c p = Inr p' \<Longrightarrow> mir_grows p p'"
  unfolding mir_onRequest_def Let_def
  by (auto elim!: go_bindE simp: mir_grows_def mir_put_def mir_broadcast_def split: if_splits)

interpretation mir_out: protocol_output "mir_Protocol E" mr_msgs mr_toDeliver
  by unfold_locales
    (auto simp: mir_Protocol_def mir_MakeReady_def mir_ClearMsgs_def mir_ClearExecutedCommands_def mir_Callback_def mir_Tick_def mir_Request_def
      dest!: mir_steps_Step mir_grows_onRequest mir_steps_Async simp: mir_steps_def mir_grows_def)

lemma mir_peer_streams_grow:
  assumes "(peer_step V (mir_Protocol E))\<^sup>*\<^sup>* p p'"
  shows "prefix (pe_sent p @ concat (pe_toSend p) @ mr_msgs (pe_n p))
      (pe_sent p' @ concat (pe_toSend p') @ mr_msgs (pe_n p'))
    \<and> prefix (pe_applied p @ pe_applying p @ concat (pe_toApply p) @ pe_handoff p @ mr_toDeliver (pe_n p))
      (pe_applied p' @ pe_applying p' @ concat (pe_toApply p') @ pe_handoff p' @ mr_toDeliver (pe_n p'))"
  using mir_out.peer_steps_stream [OF assms] unfolding mir_out.messages.msg_stream_def mir_out.commands.cmd_stream_def .

subsection \<open>Runs\<close>

datatype mir_act = MStep Message | MRequest Command | MTick | MTake | MAssign | MFinish nat | MAsync | MClearMsgs | MClearCmds

definition mir_pool :: "((bytes \<times> bool, bytes) Dispatcher \<Rightarrow> (bytes \<times> bool, bytes) Dispatcher option) \<Rightarrow> MirBFT \<Rightarrow> MirBFT go option" where
  "mir_pool g p = map_option (\<lambda>d. Inr (p\<lparr>mr_signDispatcher := d\<rparr>)) (g (mr_signDispatcher p))"

fun mir_do :: "mir_env \<Rightarrow> mir_act \<Rightarrow> MirBFT \<Rightarrow> MirBFT go option" where
  "mir_do E (MStep m) p = Some (mir_Step E m p)"
| "mir_do E (MRequest c) p = Some (mir_Request E c p)"
| "mir_do E MTick p = Some (mir_Tick p)"
| "mir_do E MTake p = mir_pool dispatch_take p"
| "mir_do E MAssign p = mir_pool dispatch_assign p"
| "mir_do E (MFinish i) p = mir_pool (worker_finish (mir_signVector E (mr_nodes p)) i) p"
| "mir_do E MAsync p = Some (mir_AsyncCallback p)"
| "mir_do E MClearMsgs p = Some (Inr (mir_ClearMsgs p))"
| "mir_do E MClearCmds p = Some (Inr (mir_ClearExecutedCommands p))"

fun mir_run :: "mir_env \<Rightarrow> mir_act list \<Rightarrow> MirBFT \<Rightarrow> MirBFT go option" where
  "mir_run E [] p = Some (Inr p)"
| "mir_run E (a # as) p = (case mir_do E a p of Some (Inr p') \<Rightarrow> mir_run E as p' | r \<Rightarrow> r)"

fun is_request :: "mir_act \<Rightarrow> bool" where
  "is_request (MRequest c) = True"
| "is_request _ = False"

definition mir_config_of :: "MirBFT \<Rightarrow> PeerID \<times> u64 \<times> (u64, PeerID fset) fmap" where
  "mir_config_of p = (mr_id p, mr_epoch p, mr_epochLeaders p)"

lemma mir_steps_config: "mir_steps p p' \<Longrightarrow> mir_config_of p' = mir_config_of p \<and> mr_nextLocalIndex p' = mr_nextLocalIndex p"
  by (simp add: mir_steps_def mir_grows_def mir_config_of_def)

lemma mir_do_index:
  assumes "mir_do E a p = Some (Inr p')" "mr_id p |\<in>| epoch_leaders (mr_epoch p) p"
  shows "mir_config_of p' = mir_config_of p \<and> mr_nextLocalIndex p' = mr_nextLocalIndex p
    + (if is_request a then of_nat (fcard (epoch_leaders (mr_epoch p) p)) else 0)"
proof (cases a)
  case (MStep m)
  with assms show ?thesis by (auto dest: mir_steps_Step mir_steps_config)
next
  case (MRequest c)
  with assms show ?thesis
    by (auto simp: mir_Request_def mir_onRequest_def Let_def mir_config_of_def mir_put_def mir_broadcast_def elim!: go_bindE)
next
  case MAsync
  with assms show ?thesis by (auto dest!: mir_steps_Async mir_steps_config)
qed (use assms in \<open>auto simp: mir_Tick_def mir_pool_def mir_config_of_def mir_ClearMsgs_def mir_ClearExecutedCommands_def\<close>)

lemma mir_run_index:
  assumes "mir_run E as p = Some (Inr p')" "mr_id p |\<in>| epoch_leaders (mr_epoch p) p"
  shows "mir_config_of p' = mir_config_of p
    \<and> mr_nextLocalIndex p' = mr_nextLocalIndex p + of_nat (length (filter is_request as) * fcard (epoch_leaders (mr_epoch p) p))"
  using assms
proof (induction as arbitrary: p)
  case (Cons a as)
  then obtain p1 where p1: "mir_do E a p = Some (Inr p1)" "mir_run E as p1 = Some (Inr p')" by (auto split: option.splits sum.splits)
  note d = mir_do_index [OF p1(1) Cons.prems(2)]
  then have c: "mr_id p1 = mr_id p" "mr_epoch p1 = mr_epoch p" "epoch_leaders (mr_epoch p1) p1 = epoch_leaders (mr_epoch p) p"
    by (auto simp: mir_config_of_def epoch_leaders_def)
  from Cons.IH [OF p1(2)] Cons.prems(2) c d show ?case by (auto simp: algebra_simps)
qed simp

text \<open>
  Claim C26. The replicas never propose for each other's indices: after \<open>k\<close> requests, whatever else has happened, a replica of a system of \<open>n\<close> replicas proposes next for
  its number plus \<open>k * n\<close>, and as long as the indices up to the next one fit into 64 bits, that index has not wrapped around, so it is new, and the replica is its leader.
\<close>

theorem mir_index_partition:
  assumes "NewMirBFT cfg = Inr p0" "mir_run E as p0 = Some (Inr p)" "cfg_ID cfg \<in> set (cfg_Peers cfg)"
    and "n = card (set (cfg_Peers cfg))" "unat (cfg_ID cfg) < n" "k = length (filter is_request as)" "(k + 1) * n < 2 ^ 64"
  shows "unat (mr_nextLocalIndex p) = unat (cfg_ID cfg) + k * n \<and> leaderOfSeq (mr_epoch p) (mr_nextLocalIndex p) p = Inr (cfg_ID cfg)"
proof -
  from assms(1) have p0: "mr_id p0 = cfg_ID cfg" "mr_epoch p0 = 0" "mr_nextLocalIndex p0 = cfg_ID cfg"
    "epoch_leaders (mr_epoch p0) p0 = fset_of_list (cfg_Peers cfg)"
    by (auto simp: NewMirBFT_def go_simps epoch_leaders_def)
  have n: "fcard (fset_of_list (cfg_Peers cfg)) = n" by (simp add: fcard.rep_eq fset_of_list.rep_eq assms(4))
  from mir_run_index [OF assms(2)] p0 assms(3) n
  have r: "mir_config_of p = mir_config_of p0" "mr_nextLocalIndex p = cfg_ID cfg + of_nat (k * n)"
    by (auto simp: assms(6) fset_of_list.rep_eq)
  have "unat (cfg_ID cfg) + k * n < 2 ^ 64" using assms(5,7) by (simp add: add_mult_distrib)
  then have u: "unat (mr_nextLocalIndex p) = unat (cfg_ID cfg) + k * n"
    by (simp add: r(2) unat_word_ariths unat_of_nat del: of_nat_mult)
  have "n < 2 ^ 64" using assms(7) by (cases k) auto
  then have "unat (mr_nextLocalIndex p mod of_nat n) = unat (cfg_ID cfg)"
    using u assms(5) by (simp add: unat_mod unat_of_nat)
  then have "mr_nextLocalIndex p mod of_nat n = cfg_ID cfg" by (rule unsigned_word_eqI)
  moreover have "fcard (epoch_leaders (mr_epoch p) p) = n"
    using r(1) p0 n by (auto simp: mir_config_of_def epoch_leaders_def)
  ultimately have "leaderOfSeq (mr_epoch p) (mr_nextLocalIndex p) p = Inr (cfg_ID cfg)"
    using assms(5) by (simp add: leaderOfSeq_def go_umod_def)
  with u show ?thesis by blast
qed

subsection \<open>Delivery\<close>

lemma mir_ready_deliver:
  assumes "fmlookup (mr_log p) (mr_nextDeliverIndex p) = Some inst"
  shows "mir_ready (mir_deliver p inst cmd) i c \<longleftrightarrow> i \<noteq> mr_nextDeliverIndex p \<and> mir_ready p i c"
  using assms by (auto simp: mir_ready_def mir_deliver_def mir_put_def mir_enqueueForExecution_def IsCommitted_def)


subsection \<open>A wrong vote\<close>

text \<open>
  One Byzantine replica can end the process of every leader: \<open>onRequest\<close> stores the proposal without its hash, and the first vote that
  arrives sets it. When that vote has a wrong hash, the next correct vote makes the leader panic.
\<close>

theorem mir_wrong_vote_panics:
  assumes "mir_onRequest E c p = Inr p1" "mr_id p |\<in>| epoch_leaders (mr_epoch p) p"
    and "b \<noteq> mr_id p" "mr_f p \<ge> 1"
    and "wrong = \<lparr>am_View = mr_epoch p, am_Index = mr_nextLocalIndex p, am_Type = AMT_Prepare, am_Command = None, am_CommandHash = Some h\<rparr>"
    and "right = \<lparr>am_View = mr_epoch p, am_Index = mr_nextLocalIndex p, am_Type = AMT_Prepare, am_Command = None,
      am_CommandHash = Command_Hash E c\<rparr>"
    and "h \<noteq> sbytes (Command_Hash E c)"
  shows "go_bind (mir_onPrepare E wrong b p1) (mir_onPrepare E right r) = Inl PanicCall"
proof -
  let ?i = "mr_nextLocalIndex p"
  let ?v = "\<lparr>am_View = mr_epoch p, am_Index = ?i, am_Type = AMT_PrePrepare, am_Command = None, am_CommandHash = Command_Hash E c\<rparr>"
  let ?q = "\<lparr>q_maxView = mr_epoch p, q_msgs = fmupd (mr_epoch p) (fmupd (mr_id p) ?v fmempty) fmempty\<rparr>"
  let ?inst = "\<lparr>inst_is = \<lparr>is_View = mr_epoch p, is_Index = ?i, is_Status = St_PrePrepared, is_Command = Some c, is_CommandHash = None\<rparr>,
    inst_pCert = ?q, inst_cCert = mir_newQuorum\<rparr>"
  have log: "fmlookup (mr_log p1) ?i = Some ?inst" "mr_f p1 = mr_f p"
    using assms(1,2) by (auto simp: mir_onRequest_def mir_log_def mir_newQuorum_def mir_put_def mir_broadcast_def Let_def)
  have "mir_log b wrong ?q = Inr \<lparr>q_maxView = mr_epoch p, q_msgs = fmupd (mr_epoch p) (fmupd b wrong (fmupd (mr_id p) ?v fmempty)) (q_msgs ?q)\<rparr>"
    using assms(3) by (simp add: mir_log_def assms(5) fmsub_def)
  moreover have "\<not> mir_Majority (mr_f p1) wrong \<lparr>q_maxView = mr_epoch p,
      q_msgs = fmupd (mr_epoch p) (fmupd b wrong (fmupd (mr_id p) ?v fmempty)) (q_msgs ?q)\<rparr>"
  proof -
    have "fmlen (fmupd b wrong (fmupd (mr_id p) ?v fmempty)) = 2" using assms(3) by (simp add: fmlen_def fcard_finsert_disjoint)
    with assms(4) log(2) show ?thesis by (simp add: mir_Majority_def assms(5))
  qed
  ultimately obtain inst' where p2: "mir_onPrepare E wrong b p1 = Inr (mir_put ?i inst' p1)" "is_CommandHash (inst_is inst') = Some h"
    by (auto simp: mir_onPrepare_def log assms(5) mir_updateCommandHash_def Let_def)
  have "mir_onPrepare E right r (mir_put ?i inst' p1) = Inl PanicCall"
    using assms(7) p2(2) by (simp add: mir_onPrepare_def mir_put_def assms(6) mir_updateCommandHash_def bytes_Equal_def)
  with p2(1) show ?thesis by simp
qed

subsection \<open>Witnesses\<close>

definition ex_mir_env :: mir_env where
  "ex_mir_env = \<lparr>env_sha256 = (\<lambda>b. 1 # b), env_marshalCommand = (\<lambda>c. Some [ucast (cmd_Timestamp c)]),
     env_createSignedCertificate = (\<lambda>_. replicate 32 0), env_verifyCertificate = (\<lambda>_ _. True), env_rangeOrder = (\<lambda>xs. xs),
     env_marshalMir = (\<lambda>_. []), env_unmarshalMir = (\<lambda>_. None)\<rparr>"

definition ex_mir_cmd :: Command where
  "ex_mir_cmd = \<lparr>cmd_Timestamp = 5, cmd_Ops = [], cmd_Target = 0, cmd_Meta = [], cmd_ConflictKey = [], cmd_TraceInfo = fmempty\<rparr>"

definition ex_mir_config :: LocalConfig where
  "ex_mir_config = \<lparr>cfg_ID = 2, cfg_Peers = [0, 1, 2, 3], cfg_LeaderID = 0, cfg_MaxFailures = 1,
     cfg_Workers = fmap_of_list [(''mac_sign'', 1)], cfg_WorkersQueueSizes = fmap_of_list [(''mac_sign'', 8)]\<rparr>"

definition ex_mir :: MirBFT where
  "ex_mir = projr (NewMirBFT ex_mir_config)"

lemma ex_mir_new: "NewMirBFT ex_mir_config = Inr ex_mir"
  by (simp add: ex_mir_def NewMirBFT_def startDispatcher_def ex_mir_config_def fmlookup_of_list)

lemma ex_mir_leader: "mr_id ex_mir |\<in>| epoch_leaders (mr_epoch ex_mir) ex_mir" "mr_f ex_mir = 1" "mr_id ex_mir = 2"
  by (simp_all add: ex_mir_def NewMirBFT_def startDispatcher_def ex_mir_config_def fmlookup_of_list epoch_leaders_def)

theorem mir_index_partition_witness:
  "\<exists>p. mir_run ex_mir_env [MRequest ex_mir_cmd, MTick, MRequest ex_mir_cmd] ex_mir = Some (Inr p)
     \<and> unat (mr_nextLocalIndex p) = 10 \<and> leaderOfSeq (mr_epoch p) (mr_nextLocalIndex p) p = Inr 2"
proof -
  let ?as = "[MRequest ex_mir_cmd, MTick, MRequest ex_mir_cmd]"
  obtain p where p: "mir_run ex_mir_env ?as ex_mir = Some (Inr p)"
  proof -
    have "(case mir_run ex_mir_env ?as ex_mir of Some (Inr _) \<Rightarrow> True | _ \<Rightarrow> False)" by code_simp
    with that show thesis by (auto split: option.splits sum.splits)
  qed
  have c: "cfg_ID ex_mir_config = 2" "cfg_ID ex_mir_config \<in> set (cfg_Peers ex_mir_config)" "4 = card (set (cfg_Peers ex_mir_config))"
    by (simp_all add: ex_mir_config_def)
  have u: "unat (cfg_ID ex_mir_config) = 2" by code_simp
  have "unat (mr_nextLocalIndex p) = 10 \<and> leaderOfSeq (mr_epoch p) (mr_nextLocalIndex p) p = Inr (cfg_ID ex_mir_config)"
    using mir_index_partition [OF ex_mir_new p c(2,3), of 2] by (simp add: u)
  with p show ?thesis by (simp add: c(1))
qed

theorem mir_wrong_vote_panics_witness:
  "\<exists>p1 wrong right. mir_onRequest ex_mir_env ex_mir_cmd ex_mir = Inr p1 \<and> am_CommandHash wrong = Some [9]
     \<and> am_CommandHash right = Command_Hash ex_mir_env ex_mir_cmd
     \<and> go_bind (mir_onPrepare ex_mir_env wrong 3 p1) (mir_onPrepare ex_mir_env right 0) = Inl PanicCall"
proof -
  obtain p1 where p1: "mir_onRequest ex_mir_env ex_mir_cmd ex_mir = Inr p1"
    using ex_mir_leader(1) by (auto simp: mir_onRequest_def mir_log_def mir_newQuorum_def Let_def)
  have "[9] \<noteq> sbytes (Command_Hash ex_mir_env ex_mir_cmd)" by (simp add: Command_Hash_def ex_mir_env_def ex_mir_cmd_def)
  from mir_wrong_vote_panics [OF p1 ex_mir_leader(1) _ _ refl refl this, of 3 0] p1 ex_mir_leader show ?thesis
    by (intro exI conjI) auto
qed

text \<open>A replica with the instance 0 committed and nothing known of the instance 1.\<close>

definition ex_mir_committed :: MirBFT where
  "ex_mir_committed = mir_put 0 \<lparr>inst_is = \<lparr>is_View = 0, is_Index = 0, is_Status = St_Committed, is_Command = Some ex_mir_cmd,
     is_CommandHash = None\<rparr>, inst_pCert = mir_newQuorum, inst_cCert = mir_newQuorum\<rparr> ex_mir"


end
