(* ===== verification/Worker_Pools.thy ===== *)
theory Worker_Pools
  imports Worker
begin

text \<open>
  Several dispatchers of \<open>pkg/worker/worker.go\<close> that share one callback channel, as the protocols with more than one kind of cryptographic work have
  them (\<open>NewSBFT\<close>, \<open>NewSBFTSlow\<close>, \<open>NewLinHybster\<close>, \<open>NewDuoBFT\<close>). The channel holds \<open>ps_cap\<close> callbacks; a worker that sends one more blocks until
  the protocol has received enough of the others, and only then registers again. The list \<open>ps_callbackC\<close> holds the buffered callbacks followed by
  those of the blocked senders, in the order of Go's channels: the worker of an entry is blocked when its position is not below the capacity. With
  capacity 0 every sender blocks.
\<close>

record ('w, 'j, 'r) pools =
  ps_pool :: "'w \<Rightarrow> ('j, 'r) Dispatcher"
  ps_callbackC :: "('w \<times> 'j \<times> 'r) list"
  ps_cap :: nat

definition pools_Exec :: "'w \<Rightarrow> 'j \<Rightarrow> ('w, 'j, 'r) pools \<Rightarrow> ('w, 'j, 'r) pools" where
  "pools_Exec w j ps = ps\<lparr>ps_pool := (ps_pool ps)(w := Dispatcher_Exec j (ps_pool ps w))\<rparr>"

text \<open>The threads: a dispatcher takes a job, gives it to an idle worker, and a worker runs its job and sends the callback.\<close>

definition pools_take :: "'w \<Rightarrow> ('w, 'j, 'r) pools \<Rightarrow> ('w, 'j, 'r) pools option" where
  "pools_take w ps = map_option (\<lambda>d. ps\<lparr>ps_pool := (ps_pool ps)(w := d)\<rparr>) (dispatch_take (ps_pool ps w))"

definition pools_assign :: "'w \<Rightarrow> ('w, 'j, 'r) pools \<Rightarrow> ('w, 'j, 'r) pools option" where
  "pools_assign w ps = map_option (\<lambda>d. ps\<lparr>ps_pool := (ps_pool ps)(w := d)\<rparr>) (dispatch_assign (ps_pool ps w))"

definition register_worker :: "('j, 'r) Dispatcher \<Rightarrow> ('j, 'r) Dispatcher" where
  "register_worker d = d\<lparr>d_workerPool := d_workerPool d + 1\<rparr>"

definition running_job :: "'w \<Rightarrow> nat \<Rightarrow> ('w, 'j, 'r) pools \<Rightarrow> 'j option" where
  "running_job w i ps = (if i < length (d_busy (ps_pool ps w)) then Some (d_busy (ps_pool ps w) ! i) else None)"

definition pools_finish :: "'w \<Rightarrow> nat \<Rightarrow> 'r \<Rightarrow> ('w, 'j, 'r) pools \<Rightarrow> ('w, 'j, 'r) pools option" where
  "pools_finish w i r ps =
     (let d = ps_pool ps w; d' = d\<lparr>d_busy := take i (d_busy d) @ drop (Suc i) (d_busy d)\<rparr> in
      case running_job w i ps of
        None \<Rightarrow> None
      | Some j \<Rightarrow> Some (ps\<lparr>ps_pool := (ps_pool ps)(w := if length (ps_callbackC ps) < ps_cap ps then register_worker d' else d'),
                           ps_callbackC := ps_callbackC ps @ [(w, j, r)]\<rparr>))"

text \<open>The protocol receives every callback that is there; the blocked workers register again.\<close>

definition pools_drain :: "('w, 'j, 'r) pools \<Rightarrow> ('j \<times> 'r) list \<times> ('w, 'j, 'r) pools" where
  "pools_drain ps =
     (map snd (ps_callbackC ps),
      ps\<lparr>ps_pool := fold (\<lambda>(w, _) f. f(w := register_worker (f w))) (drop (ps_cap ps) (ps_callbackC ps)) (ps_pool ps),
         ps_callbackC := []\<rparr>)"

subsection \<open>Conservation\<close>

text \<open>The jobs of a pool that have not been finished, and all whose callback has not been run.\<close>

definition pools_pending :: "('w, 'j, 'r) pools \<Rightarrow> 'j set" where
  "pools_pending ps = (\<Union>w. set (unfinished (ps_pool ps w))) \<union> (fst \<circ> snd) ` set (ps_callbackC ps)"

definition pools_results :: "('w, 'j, 'r) pools \<Rightarrow> ('j \<times> 'r) set" where
  "pools_results ps = snd ` set (ps_callbackC ps)"

lemma unfinished_Exec [simp]: "unfinished (Dispatcher_Exec j d) = unfinished d @ [j]"
  by (simp add: unfinished_def Dispatcher_Exec_def)

lemma unfinished_register [simp]: "unfinished (register_worker d) = unfinished d"
  by (simp add: unfinished_def register_worker_def)

lemma pools_pending_Exec [simp]: "pools_pending (pools_Exec w j ps) = insert j (pools_pending ps)"
  by (auto simp: pools_pending_def pools_Exec_def split: if_splits)

lemma pools_results_Exec [simp]: "pools_results (pools_Exec w j ps) = pools_results ps"
  by (simp add: pools_results_def pools_Exec_def)

lemma mset_unfinished_take: "dispatch_take d = Some d' \<Longrightarrow> mset (unfinished d') = mset (unfinished d)"
  by (auto simp: dispatch_take_def unfinished_def split: option.splits list.splits)

lemma mset_unfinished_assign: "dispatch_assign d = Some d' \<Longrightarrow> mset (unfinished d') = mset (unfinished d)"
  by (auto simp: dispatch_assign_def unfinished_def split: option.splits if_splits)

lemma pools_take_sets:
  assumes "pools_take w ps = Some ps'"
  shows "pools_pending ps' = pools_pending ps" "pools_results ps' = pools_results ps"
proof -
  obtain d where d: "dispatch_take (ps_pool ps w) = Some d" "ps' = ps\<lparr>ps_pool := (ps_pool ps)(w := d)\<rparr>"
    using assms by (auto simp: pools_take_def)
  have "set (unfinished d) = set (unfinished (ps_pool ps w))" using mset_unfinished_take [OF d(1)] by (rule mset_eq_setD)
  then have "set (unfinished (ps_pool ps' v)) = set (unfinished (ps_pool ps v))" for v by (simp add: d(2))
  then show "pools_pending ps' = pools_pending ps" by (simp add: pools_pending_def d(2))
  show "pools_results ps' = pools_results ps" by (simp add: pools_results_def d(2))
qed

lemma pools_assign_sets:
  assumes "pools_assign w ps = Some ps'"
  shows "pools_pending ps' = pools_pending ps" "pools_results ps' = pools_results ps"
proof -
  obtain d where d: "dispatch_assign (ps_pool ps w) = Some d" "ps' = ps\<lparr>ps_pool := (ps_pool ps)(w := d)\<rparr>"
    using assms by (auto simp: pools_assign_def)
  have "set (unfinished d) = set (unfinished (ps_pool ps w))" using mset_unfinished_assign [OF d(1)] by (rule mset_eq_setD)
  then have "set (unfinished (ps_pool ps' v)) = set (unfinished (ps_pool ps v))" for v by (simp add: d(2))
  then show "pools_pending ps' = pools_pending ps" by (simp add: pools_pending_def d(2))
  show "pools_results ps' = pools_results ps" by (simp add: pools_results_def d(2))
qed

lemma running_job_pending: "running_job w i ps = Some j \<Longrightarrow> j \<in> pools_pending ps"
proof -
  assume "running_job w i ps = Some j"
  then have "j \<in> set (d_busy (ps_pool ps w))" by (auto simp: running_job_def split: if_splits)
  then have "j \<in> set (unfinished (ps_pool ps w))" by (simp add: unfinished_def)
  then show ?thesis unfolding pools_pending_def by blast
qed

lemma set_busy_remove: "i < length xs \<Longrightarrow> insert (xs ! i) (set (take i xs @ drop (Suc i) xs)) = set xs"
  using arg_cong [OF mset_remove_nth [of i xs], of set_mset] by simp

lemma pools_finish_sets:
  assumes "pools_finish w i r ps = Some ps'"
  obtains j where "running_job w i ps = Some j" "j \<in> pools_pending ps" "pools_pending ps' = pools_pending ps"
    "pools_results ps' = insert (j, r) (pools_results ps)"
proof -
  let ?d = "ps_pool ps w"
  let ?b = "take i (d_busy ?d) @ drop (Suc i) (d_busy ?d)"
  obtain j where j: "running_job w i ps = Some j" using assms by (auto simp: pools_finish_def Let_def split: option.splits)
  then have i: "i < length (d_busy ?d)" "j = d_busy ?d ! i" by (auto simp: running_job_def split: if_splits)
  have b: "insert j (set ?b) = set (d_busy ?d)" using set_busy_remove [OF i(1)] i(2) by simp
  have ps': "ps_callbackC ps' = ps_callbackC ps @ [(w, j, r)]"
    "\<And>v. unfinished (ps_pool ps' v) = (if v = w then unfinished (?d\<lparr>d_busy := ?b\<rparr>) else unfinished (ps_pool ps v))"
    using assms j by (auto simp: pools_finish_def Let_def)
  have u: "insert j (set (unfinished (?d\<lparr>d_busy := ?b\<rparr>))) = set (unfinished ?d)"
    using b by (auto simp: unfinished_def)
  have split_Union: "(\<Union>v. A v) = A w \<union> (\<Union>v \<in> - {w}. A v)" for A :: "'a \<Rightarrow> 'b set" by auto
  have "insert j (\<Union>v. set (unfinished (ps_pool ps' v))) = (\<Union>v. set (unfinished (ps_pool ps v)))"
    unfolding split_Union [of "\<lambda>v. set (unfinished (ps_pool ps' v))"] split_Union [of "\<lambda>v. set (unfinished (ps_pool ps v))"]
    by (simp add: ps'(2) u [symmetric])
  then have "pools_pending ps' = pools_pending ps"
    unfolding pools_pending_def ps'(1) by auto
  moreover have "j \<in> pools_pending ps" using u by (auto simp: pools_pending_def)
  ultimately show thesis using that j ps'(1) by (auto simp: pools_results_def)
qed

lemma unfinished_released:
  "unfinished (fold (\<lambda>(w, _) f. f(w := register_worker (f w))) es f v) = unfinished (f v)"
  by (induction es arbitrary: f) (auto split: prod.splits)

lemma pools_drain_sets:
  assumes "pools_drain ps = (cbs, ps')"
  shows "set cbs = pools_results ps" "pools_pending ps' \<subseteq> pools_pending ps" "pools_results ps' = {}"
    "fst ` set cbs \<subseteq> pools_pending ps"
proof -
  have cbs: "cbs = map snd (ps_callbackC ps)" and ps': "ps_callbackC ps' = []"
    "\<And>w. unfinished (ps_pool ps' w) = unfinished (ps_pool ps w)"
    using assms by (auto simp: pools_drain_def unfinished_released)
  show "set cbs = pools_results ps" by (simp add: cbs pools_results_def)
  show "pools_pending ps' \<subseteq> pools_pending ps" "pools_results ps' = {}" using ps' by (auto simp: pools_pending_def pools_results_def)
  show "fst ` set cbs \<subseteq> pools_pending ps" by (simp add: cbs pools_pending_def image_comp)
qed

subsection \<open>The pools do not deadlock\<close>

text \<open>Every worker is idle, running a job or blocked on the channel.\<close>

definition pools_ok :: "('w, 'j, 'r) pools \<Rightarrow> bool" where
  "pools_ok ps \<longleftrightarrow> (\<forall>w. d_workerPool (ps_pool ps w) + length (d_busy (ps_pool ps w))
     + length (filter (\<lambda>e. fst e = w) (drop (ps_cap ps) (ps_callbackC ps))) = d_maxWorkers (ps_pool ps w))"

definition pools_init :: "('w \<Rightarrow> nat) \<Rightarrow> nat \<Rightarrow> ('w, 'j, 'r) pools" where
  "pools_init n cap = \<lparr>ps_pool = (\<lambda>w. Dispatcher_Run (NewDispatcher (n w) cap)), ps_callbackC = [], ps_cap = cap\<rparr>"

lemma pools_init_sel [simp]:
  "pools_ok (pools_init n cap)" "pools_pending (pools_init n cap) = {}" "pools_results (pools_init n cap) = {}"
  by (simp_all add: pools_init_def pools_ok_def pools_pending_def pools_results_def unfinished_def Dispatcher_Run_def NewDispatcher_def)

lemma pools_ok_Exec [simp]: "pools_ok (pools_Exec w j ps) = pools_ok ps"
  by (auto simp: pools_ok_def pools_Exec_def Dispatcher_Exec_def)

lemma pools_okD:
  "pools_ok ps \<Longrightarrow> d_workerPool (ps_pool ps w) + length (d_busy (ps_pool ps w))
     + length (filter (\<lambda>e. fst e = w) (drop (ps_cap ps) (ps_callbackC ps))) = d_maxWorkers (ps_pool ps w)"
  unfolding pools_ok_def by blast

lemma pools_ok_take: "pools_take w ps = Some ps' \<Longrightarrow> pools_ok ps \<Longrightarrow> pools_ok ps'"
  by (auto simp: pools_ok_def pools_take_def dispatch_take_def split: option.splits list.splits)

lemma pools_ok_assign: "pools_assign w ps = Some ps' \<Longrightarrow> pools_ok ps \<Longrightarrow> pools_ok ps'"
  by (auto simp: pools_ok_def pools_assign_def dispatch_assign_def split: option.splits if_splits)

lemma pools_ok_finish:
  assumes "pools_finish w i r ps = Some ps'" "pools_ok ps"
  shows "pools_ok ps'"
proof -
  let ?d = "ps_pool ps w"
  have i: "i < length (d_busy ?d)" using assms(1) by (auto simp: pools_finish_def running_job_def Let_def split: option.splits if_splits)
  let ?j = "d_busy ?d ! i"
  let ?d' = "?d\<lparr>d_busy := take i (d_busy ?d) @ drop (Suc i) (d_busy ?d)\<rparr>"
  have ps': "ps' = ps\<lparr>ps_pool := (ps_pool ps)(w := if length (ps_callbackC ps) < ps_cap ps then register_worker ?d' else ?d'),
      ps_callbackC := ps_callbackC ps @ [(w, ?j, r)]\<rparr>"
    using assms(1) i by (simp add: pools_finish_def running_job_def Let_def)
  have "d_workerPool (ps_pool ps' v) + length (d_busy (ps_pool ps' v))
     + length (filter (\<lambda>e. fst e = v) (drop (ps_cap ps') (ps_callbackC ps'))) = d_maxWorkers (ps_pool ps' v)" for v
    using pools_okD [OF assms(2), of v] i unfolding ps' by (auto simp: register_worker_def)
  then show ?thesis by (simp add: pools_ok_def)
qed

lemma release_counts:
  "d_workerPool (fold (\<lambda>(w, _) f. f(w := register_worker (f w))) es f v) = d_workerPool (f v) + length (filter (\<lambda>e. fst e = v) es)
   \<and> d_busy (fold (\<lambda>(w, _) f. f(w := register_worker (f w))) es f v) = d_busy (f v)
   \<and> d_maxWorkers (fold (\<lambda>(w, _) f. f(w := register_worker (f w))) es f v) = d_maxWorkers (f v)"
  by (induction es arbitrary: f) (auto simp: register_worker_def split: prod.splits)

lemma pools_ok_drain:
  assumes "pools_drain ps = (cbs, ps')" "pools_ok ps"
  shows "pools_ok ps'"
proof -
  have "d_workerPool (ps_pool ps' v) + length (d_busy (ps_pool ps' v)) = d_maxWorkers (ps_pool ps' v)" for v
    using pools_okD [OF assms(2), of v] assms(1) by (auto simp: pools_drain_def release_counts)
  then show ?thesis using assms(1) by (auto simp: pools_ok_def pools_drain_def)
qed

text \<open>
  While a job is left, some thread of the pools can proceed or the protocol has a callback to receive, whatever the capacity of the channel.
\<close>

lemma pools_progress:
  assumes "pools_ok ps" "0 < d_maxWorkers (ps_pool ps w)" "unfinished (ps_pool ps w) \<noteq> []"
  shows "pools_take w ps \<noteq> None \<or> pools_assign w ps \<noteq> None \<or> (\<exists>i. running_job w i ps \<noteq> None) \<or> ps_callbackC ps \<noteq> []"
proof (rule ccontr)
  assume *: "\<not> ?thesis"
  then have "d_busy (ps_pool ps w) = []" by (auto simp: running_job_def split: if_splits)
  moreover have "ps_callbackC ps = []" using * by blast
  ultimately have "0 < d_workerPool (ps_pool ps w)" using assms(2) pools_okD [OF assms(1), of w] by simp
  with * assms(3) \<open>d_busy (ps_pool ps w) = []\<close> show False
    by (auto simp: pools_take_def pools_assign_def dispatch_take_def dispatch_assign_def unfinished_def
        split: option.splits list.splits if_splits)
qed

text \<open>The states of pools of \<open>n w\<close> workers that share a channel for \<open>cap\<close> callbacks, under every interleaving of their threads with the protocol.\<close>

inductive pools_reachable :: "('w \<Rightarrow> nat) \<Rightarrow> nat \<Rightarrow> ('w, 'j, 'r) pools \<Rightarrow> bool" for n cap where
  pools_start: "pools_reachable n cap (pools_init n cap)"
| pools_submit: "pools_reachable n cap ps \<Longrightarrow> pools_reachable n cap (pools_Exec w j ps)"
| pools_taken: "pools_reachable n cap ps \<Longrightarrow> pools_take w ps = Some ps' \<Longrightarrow> pools_reachable n cap ps'"
| pools_assigned: "pools_reachable n cap ps \<Longrightarrow> pools_assign w ps = Some ps' \<Longrightarrow> pools_reachable n cap ps'"
| pools_finished: "pools_reachable n cap ps \<Longrightarrow> pools_finish w i r ps = Some ps' \<Longrightarrow> pools_reachable n cap ps'"
| pools_drained: "pools_reachable n cap ps \<Longrightarrow> pools_drain ps = (cbs, ps') \<Longrightarrow> pools_reachable n cap ps'"

definition pools_size :: "('w, 'j, 'r) pools \<Rightarrow> 'w \<Rightarrow> nat" where
  "pools_size ps = (\<lambda>w. d_maxWorkers (ps_pool ps w))"

lemma pools_size_step [simp]:
  "pools_size (pools_init n cap) = n" "pools_size (pools_Exec w j ps) = pools_size ps"
  by (auto simp: pools_size_def pools_init_def Dispatcher_Run_def NewDispatcher_def pools_Exec_def Dispatcher_Exec_def)

lemma pools_size_threads:
  "pools_take w ps = Some ps' \<Longrightarrow> pools_size ps' = pools_size ps"
  "pools_assign w ps = Some ps' \<Longrightarrow> pools_size ps' = pools_size ps"
  "pools_finish w i r ps = Some ps' \<Longrightarrow> pools_size ps' = pools_size ps"
  "pools_drain ps = (cbs, ps') \<Longrightarrow> pools_size ps' = pools_size ps"
  subgoal by (auto simp: pools_size_def pools_take_def dispatch_take_def split: option.splits list.splits)
  subgoal by (auto simp: pools_size_def pools_assign_def dispatch_assign_def split: option.splits if_splits)
  subgoal by (auto simp: pools_size_def pools_finish_def Let_def register_worker_def split: option.splits if_splits)
  subgoal by (auto simp: pools_size_def pools_drain_def release_counts)
  done

lemma pools_reachable_ok: "pools_reachable n cap ps \<Longrightarrow> pools_ok ps \<and> pools_size ps = n"
  by (induction rule: pools_reachable.induct)
    (auto simp: pools_size_threads intro: pools_ok_take pools_ok_assign pools_ok_finish pools_ok_drain)

text \<open>
  Claim C29. However the threads interleave, every worker of pools that share a callback channel is idle, running a job or blocked on the channel, no pool loses or gains a
  worker, and while a pool with workers has a job left one of its threads can proceed or the protocol has a callback to receive, even when the channel has no buffer.
\<close>

theorem shared_pools_ok:
  assumes "pools_reachable n cap ps"
  shows "d_workerPool (ps_pool ps w) + length (d_busy (ps_pool ps w)) + length (filter (\<lambda>e. fst e = w) (drop (ps_cap ps) (ps_callbackC ps))) = n w
    \<and> (0 < n w \<and> unfinished (ps_pool ps w) \<noteq> [] \<longrightarrow>
        pools_take w ps \<noteq> None \<or> pools_assign w ps \<noteq> None \<or> (\<exists>i. running_job w i ps \<noteq> None) \<or> ps_callbackC ps \<noteq> [])"
proof -
  have ok: "pools_ok ps" "d_maxWorkers (ps_pool ps w) = n w"
    using pools_reachable_ok [OF assms] by (auto simp: pools_size_def)
  show ?thesis by (intro conjI impI) (use pools_okD [OF ok(1), of w] pools_progress [OF ok(1), of w] ok(2) in simp_all)
qed

theorem shared_pools_ok_witness:
  "\<exists>ps :: (bool, nat, nat) pools. unfinished (ps_pool ps True) \<noteq> [] \<and>
     (pools_take True ps \<noteq> None \<or> pools_assign True ps \<noteq> None \<or> (\<exists>i. running_job True i ps \<noteq> None) \<or> ps_callbackC ps \<noteq> [])"
proof -
  let ?ps = "pools_Exec True 5 (pools_init (\<lambda>_. 1) 0) :: (bool, nat, nat) pools"
  have "unfinished (ps_pool ?ps True) \<noteq> []" by (simp add: pools_Exec_def pools_init_def Dispatcher_Exec_def unfinished_def Dispatcher_Run_def NewDispatcher_def)
  moreover have "pools_reachable (\<lambda>_. 1) 0 ?ps" by (intro pools_submit pools_start)
  ultimately show ?thesis using shared_pools_ok [of "\<lambda>_. 1" 0 ?ps True] by blast
qed

end
