(* ===== verification/Linear.thy ===== *)
theory Linear
  imports Peer Vote_Quorum Worker_Pools
begin

text \<open>
  What the protocols share in which replicas send shares of a threshold signature to a collector and the collector broadcasts the
  aggregated signature (\<open>protocols/sbft\<close>, \<open>protocols/sbftslow\<close>, \<open>protocols/linhybster\<close>): the messages, the table of shares (\<open>quorum.go\<close>), the
  table of results (\<open>rquorum.go\<close>), the fields and the message layer of the replica, and the Go side of the threshold signer
  (\<open>enclaves/threshsign2\<close>). The enumerations of message types and of statuses differ between the protocols and are type parameters.
\<close>

subsection \<open>Messages\<close>

record 't LinMessage =
  lm_View :: u64
  lm_Index :: u64
  lm_Type :: 't
  lm_Command :: "Command option"
  lm_CommandHash :: slice

record ResultMessage =
  rm_Result :: bytes
  rm_Id :: u64

datatype 't LinWire = LinWire_Normal "'t LinMessage" | LinWire_Result ResultMessage | LinWire_Unset

definition LinMessage_Equals :: "'t LinMessage \<Rightarrow> 't LinMessage \<Rightarrow> bool" where
  "LinMessage_Equals m other =
     (if lm_View m \<noteq> lm_View other then False
      else if lm_Index m \<noteq> lm_Index other then False
      else bytes_Equal (lm_CommandHash m) (lm_CommandHash other))"

definition ResultMessage_Equals :: "ResultMessage \<Rightarrow> ResultMessage \<Rightarrow> bool" where
  "ResultMessage_Equals m other = (if length (rm_Result m) \<noteq> length (rm_Result other) then False else rm_Result m = rm_Result other)"

text \<open>\<open>Index.GetAndIncrement\<close>: the old value and the new one.\<close>

definition GetAndIncrement :: "u64 \<Rightarrow> u64 \<times> u64" where
  "GetAndIncrement idx = (idx, idx + 1)"

subsection \<open>The threshold signer (\<open>threshsign.go\<close>)\<close>

text \<open>
  The C functions of the enclave get the digest of the message and a counter; \<open>None\<close> and \<open>False\<close> are the return codes other than 0. All three calls
  panic on such a code, and the last two on signatures without a byte, since they take the address of the first one.
\<close>

record 't lin_env = go_env +
  env_marshalLin :: "'t LinWire \<Rightarrow> bytes"
  env_unmarshalLin :: "bytes \<Rightarrow> 't LinWire option"
  env_threshsign2_sign :: "PeerID \<Rightarrow> bytes \<Rightarrow> u64 \<Rightarrow> bytes option"
  env_threshsign2_aggregate :: "bytes \<Rightarrow> u64 \<Rightarrow> (PeerID, bytes) fmap \<Rightarrow> bytes option"
  env_threshsign2_verify :: "bytes \<Rightarrow> u64 \<Rightarrow> bytes \<Rightarrow> bool"

definition th_Sign :: "'t lin_env \<Rightarrow> PeerID \<Rightarrow> bytes \<Rightarrow> u64 \<Rightarrow> bytes go" where
  "th_Sign E self message tc =
     (case env_threshsign2_sign E self (env_sha256 E message) tc of None \<Rightarrow> Inl PanicCall | Some sig \<Rightarrow> Inr sig)"

definition th_AggregateSigAndVerify :: "'t lin_env \<Rightarrow> bytes \<Rightarrow> u64 \<Rightarrow> (PeerID, bytes) fmap \<Rightarrow> bytes go" where
  "th_AggregateSigAndVerify E message tc sigs =
     (if fmfilter (\<lambda>k. fmlookup sigs k \<noteq> Some []) sigs = fmempty then Inl IndexRange
      else case env_threshsign2_aggregate E (env_sha256 E message) tc sigs of None \<Rightarrow> Inl PanicCall | Some sig \<Rightarrow> Inr sig)"

definition th_Verify :: "'t lin_env \<Rightarrow> bytes \<Rightarrow> u64 \<Rightarrow> bytes \<Rightarrow> bool go" where
  "th_Verify E message tc sig =
     (if sig = [] then Inl IndexRange
      else if env_threshsign2_verify E (env_sha256 E message) tc sig then Inr True else Inl PanicCall)"

subsection \<open>The table of shares (\<open>quorum.go\<close>)\<close>

type_synonym 't share_table = "(u64, (PeerID, 't LinMessage \<times> bytes) fmap) fmap"

definition lq_log :: "PeerID \<Rightarrow> 't LinMessage \<Rightarrow> bytes \<Rightarrow> 't share_table \<Rightarrow> 't share_table go" where
  "lq_log i m sign q =
     (let msgs = fmsub q (lm_View m) in
      case fmlookup msgs i of
        None \<Rightarrow> Inr (fmupd (lm_View m) (fmupd i (m, sign) msgs) q)
      | Some _ \<Rightarrow> Inl FatalExit)"

text \<open>\<open>Majority\<close> returns the shares of the messages that agree with \<open>m\<close> and whether they are more than the threshold.\<close>

definition lq_Majority :: "int \<Rightarrow> 't LinMessage \<Rightarrow> 't share_table \<Rightarrow> (PeerID, bytes) fmap \<times> bool" where
  "lq_Majority thr m q =
     (case fmlookup q (lm_View m) of
        None \<Rightarrow> (fmempty, False)
      | Some msgPairs \<Rightarrow>
          (if int (fmlen msgPairs) \<le> thr then (fmempty, False)
           else (fmmap snd (fmfilter (\<lambda>k. LinMessage_Equals m (fst (the (fmlookup msgPairs k)))) msgPairs),
                 int (fmcount (\<lambda>p. LinMessage_Equals m (fst p)) msgPairs) > thr)))"

subsection \<open>The table of results (\<open>rquorum.go\<close>)\<close>

type_synonym result_table = "(u64, (PeerID, ResultMessage) fmap) fmap"

definition rq_log :: "PeerID \<Rightarrow> ResultMessage \<Rightarrow> result_table \<Rightarrow> result_table go" where
  "rq_log i m q =
     (let msgs = fmsub q (rm_Id m) in
      case fmlookup msgs i of
        None \<Rightarrow> Inr (fmupd (rm_Id m) (fmupd i m msgs) q)
      | Some _ \<Rightarrow> Inl FatalExit)"

definition rq_Majority :: "int \<Rightarrow> ResultMessage \<Rightarrow> result_table \<Rightarrow> bool" where
  "rq_Majority f m q =
     (case fmlookup q (rm_Id m) of
        None \<Rightarrow> False
      | Some msgPairs \<Rightarrow>
          (if int (fmlen msgPairs) \<le> f then False else int (fmcount (ResultMessage_Equals m) msgPairs) > f))"

subsection \<open>The replica\<close>

datatype pool_id = SignPool | AggPool | VerifyPool

text \<open>
  The fields that the three protocols have in common; \<open>'i\<close> is the type of instances and \<open>'j\<close> of the jobs of the pools. A closure given to a pool
  keeps a pointer to an instance, which is not the one in the log any more when \<open>onRequest\<close> has replaced it: instances are numbered in the order
  of their allocation, and \<open>ln_alloc\<close> is the next number.
\<close>

record ('i, 'j) linear =
  ln_id :: PeerID
  ln_nodes :: "PeerID list"
  ln_log :: "(u64, 'i) fmap"
  ln_alloc :: nat
  ln_view :: u64
  ln_index :: u64
  ln_execIdx :: u64
  ln_msgs :: "Message list"
  ln_timers :: "unit tickingTimer list"
  ln_f :: int
  ln_executedCmds :: "ExecPacket list"
  ln_rQuorum :: result_table
  ln_pools :: "(pool_id, 'j, bytes go) pools"

record lin_config = LocalConfig +
  cfg_MaxFastFailures :: int

definition lin_put :: "u64 \<Rightarrow> 'i \<Rightarrow> ('i, 'j, 'z) linear_scheme \<Rightarrow> ('i, 'j, 'z) linear_scheme" where
  "lin_put idx inst s = s\<lparr>ln_log := fmupd idx inst (ln_log s)\<rparr>"

definition lin_Exec :: "pool_id \<Rightarrow> 'j \<Rightarrow> ('i, 'j, 'z) linear_scheme \<Rightarrow> ('i, 'j, 'z) linear_scheme" where
  "lin_Exec w j s = s\<lparr>ln_pools := pools_Exec w j (ln_pools s)\<rparr>"

text \<open>
  The constructors start the three pools. They panic when a number of workers or a queue size is missing; the capacity of \<open>callbackC\<close> stays 0, because
  \<open>totalWorkers\<close> is increased only in the branch in which a queue size is missing, after the panic.
\<close>

definition tss_keys :: "string list" where
  "tss_keys = [''tss_sign'', ''tss_agg'', ''tss_verify'']"

definition workers_of :: "('x) LocalConfig_scheme \<Rightarrow> string \<Rightarrow> nat" where
  "workers_of c k = (case fmlookup (cfg_Workers c) k of None \<Rightarrow> 0 | Some n \<Rightarrow> n)"

definition startPools :: "('x) LocalConfig_scheme \<Rightarrow> (pool_id \<Rightarrow> nat) \<Rightarrow> (pool_id, 'j, bytes go) pools go" where
  "startPools c n =
     (if list_all (\<lambda>k. fmlookup (cfg_Workers c) k \<noteq> None \<and> fmlookup (cfg_WorkersQueueSizes c) k \<noteq> None) tss_keys
      then Inr (pools_init n 0) else Inl PanicCall)"

subsection \<open>Sending (\<open>messaging.go\<close>)\<close>

definition lin_enqueueForSending :: "PeerID \<Rightarrow> bytes \<Rightarrow> bytes \<Rightarrow> ('i, 'j, 'z) linear_scheme \<Rightarrow> ('i, 'j, 'z) linear_scheme" where
  "lin_enqueueForSending to mm certificate s =
     s\<lparr>ln_msgs := ln_msgs s @ [\<lparr>msg_From = ln_id s, msg_To = to, msg_Content = mm, msg_Certificate = certificate\<rparr>]\<rparr>"

definition lin_sendTo :: "PeerID \<Rightarrow> bytes \<Rightarrow> bytes \<Rightarrow> ('i, 'j, 'z) linear_scheme \<Rightarrow> ('i, 'j, 'z) linear_scheme" where
  "lin_sendTo to mBytes sign s = lin_enqueueForSending to mBytes sign s"

definition lin_broadcast :: "bytes \<Rightarrow> bool \<Rightarrow> bytes \<Rightarrow> ('i, 'j, 'z) linear_scheme \<Rightarrow> ('i, 'j, 'z) linear_scheme" where
  "lin_broadcast mBytes sendToSelf sign s =
     fold (\<lambda>node s'. if sendToSelf \<or> node \<noteq> ln_id s' then lin_enqueueForSending node mBytes sign s' else s') (ln_nodes s) s"

definition lin_ClearMsgs :: "('i, 'j, 'z) linear_scheme \<Rightarrow> ('i, 'j, 'z) linear_scheme" where
  "lin_ClearMsgs s = s\<lparr>ln_msgs := []\<rparr>"

subsection \<open>Output\<close>

definition zero_Command :: Command where
  "zero_Command = \<lparr>cmd_Timestamp = 0, cmd_Ops = [], cmd_Target = 0, cmd_Meta = [], cmd_ConflictKey = [], cmd_TraceInfo = fmempty\<rparr>"

text \<open>The packets \<open>ExecPacket{Cmd: *cmd, Callback: true}\<close> and \<open>ExecPacket{Meta: m.Result, NoExec: true}\<close>.\<close>

definition callbackPacket :: "Command \<Rightarrow> ExecPacket" where
  "callbackPacket c = (mkExecPacket c)\<lparr>ep_Callback := True\<rparr>"

definition resultPacket :: "bytes \<Rightarrow> ExecPacket" where
  "resultPacket r = (mkExecPacket zero_Command)\<lparr>ep_Meta := r, ep_NoExec := True\<rparr>"

definition lin_deliver :: "ExecPacket \<Rightarrow> ('i, 'j, 'z) linear_scheme \<Rightarrow> ('i, 'j, 'z) linear_scheme" where
  "lin_deliver pkt s = s\<lparr>ln_executedCmds := ln_executedCmds s @ [pkt]\<rparr>"

definition lin_Execute :: "Command \<Rightarrow> ('i, 'j, 'z) linear_scheme \<Rightarrow> ('i, 'j, 'z) linear_scheme" where
  "lin_Execute cmd s = lin_deliver (callbackPacket cmd) s"

definition lin_ClearExecutedCommands :: "('i, 'j, 'z) linear_scheme \<Rightarrow> ('i, 'j, 'z) linear_scheme" where
  "lin_ClearExecutedCommands s = s\<lparr>ln_executedCmds := []\<rparr>"

definition lin_MakeReady :: "('i, 'j, 'z) linear_scheme \<Rightarrow> Ready" where
  "lin_MakeReady s = \<lparr>rd_Messages = ln_msgs s, rd_OrderedCommands = ln_executedCmds s\<rparr>"

definition lin_Tick :: "('i, 'j, 'z) linear_scheme \<Rightarrow> ('i, 'j, 'z) linear_scheme go" where
  "lin_Tick s = Inr (s\<lparr>ln_timers := map (fst \<circ> Timer_Tick) (ln_timers s)\<rparr>)"

definition lin_isPrimaryAtView :: "PeerID \<Rightarrow> u64 \<Rightarrow> ('i, 'j, 'z) linear_scheme \<Rightarrow> bool go" where
  "lin_isPrimaryAtView i view s = go_bind (go_imod view (length (ln_nodes s))) (\<lambda>l. Inr (i = l))"

text \<open>\<open>AsyncCallback\<close>: the callbacks in the order in which they arrived; \<open>cb\<close> is what the closure of a job does with the worker's result.\<close>

definition lin_AsyncCallback :: "('j \<Rightarrow> bytes \<Rightarrow> ('i, 'j, 'z) linear_scheme \<Rightarrow> ('i, 'j, 'z) linear_scheme go) \<Rightarrow>
    ('i, 'j, 'z) linear_scheme \<Rightarrow> ('i, 'j, 'z) linear_scheme go" where
  "lin_AsyncCallback cb s =
     (case pools_drain (ln_pools s) of (cbs, ps) \<Rightarrow>
        go_fold (\<lambda>(j, r) s'. go_bind r (\<lambda>b. cb j b s')) cbs (s\<lparr>ln_pools := ps\<rparr>))"

subsection \<open>The vote tables implement the interface\<close>

lemma LinMessage_Equals_iff:
  "LinMessage_Equals m m' \<longleftrightarrow> lm_View m = lm_View m' \<and> lm_Index m = lm_Index m' \<and> sbytes (lm_CommandHash m) = sbytes (lm_CommandHash m')"
  by (auto simp: LinMessage_Equals_def bytes_Equal_def)

lemma fmsub_fmlookup: "fmlookup q v = Some t \<Longrightarrow> fmsub q v = t"
  by (simp add: fmsub_def)

lemma fmsub_fmupd: "fmsub (fmupd k x m) k' = (if k' = k then x else fmsub m k')"
  by (simp add: fmsub_def)

lemma fmcount_cong: "(\<And>v. P v = Q v) \<Longrightarrow> fmcount P m = fmcount Q m"
  by (rule arg_cong [where f = "\<lambda>P. fmcount P m"]) auto

lemma fmcount_empty [simp]: "fmcount P fmempty = 0"
  by (simp add: fmcount_def)

interpretation shares: vote_quorum
  "\<lambda>i p. lq_log i (fst p) (snd p)" fmsub "\<lambda>thr p q. snd (lq_Majority thr (fst p) q)" "\<lambda>p. lm_View (fst p)"
  "\<lambda>p. (lm_View (fst p), lm_Index (fst p), sbytes (lm_CommandHash (fst p)))" "\<lambda>thr. thr"
proof
  show "fmsub q' v = (if v = lm_View (fst m) \<and> fmlookup (fmsub q v) i = None then fmupd i m (fmsub q v) else fmsub q v)"
    if "lq_log i (fst m) (snd m) q = Inr q'" for i and m :: "'t LinMessage \<times> bytes" and q q' v
    using that by (auto simp: lq_log_def Let_def fmsub_fmupd split: option.splits)
  fix f :: int and m :: "'t LinMessage \<times> bytes" and q :: "'t share_table"
  assume f: "0 \<le> f"
  let ?P = "\<lambda>p. LinMessage_Equals (fst m) (fst p)"
  have P: "fmcount ?P t = fmcount (\<lambda>m'. (lm_View (fst m'), lm_Index (fst m'), sbytes (lm_CommandHash (fst m'))) =
      (lm_View (fst m), lm_Index (fst m), sbytes (lm_CommandHash (fst m)))) t" for t :: "(PeerID, 't LinMessage \<times> bytes) fmap"
    by (rule fmcount_cong) (auto simp: LinMessage_Equals_iff)
  show "snd (lq_Majority f (fst m) q) \<longleftrightarrow> f < int (fmcount (\<lambda>m'. (lm_View (fst m'), lm_Index (fst m'), sbytes (lm_CommandHash (fst m'))) =
      (lm_View (fst m), lm_Index (fst m), sbytes (lm_CommandHash (fst m)))) (fmsub q (lm_View (fst m))))"
  proof (cases "fmlookup q (lm_View (fst m))")
    case None
    then show ?thesis using f by (simp add: lq_Majority_def fmsub_def)
  next
    case (Some t)
    have "int (fmcount ?P t) \<le> int (fmlen t)" using fmcount_le_fmlen by simp
    with Some show ?thesis by (auto simp: lq_Majority_def fmsub_fmlookup P)
  qed
qed

interpretation results: vote_quorum rq_log fmsub rq_Majority rm_Id rm_Result "\<lambda>f. f"
proof
  show "fmsub q' v = (if v = rm_Id m \<and> fmlookup (fmsub q v) i = None then fmupd i m (fmsub q v) else fmsub q v)"
    if "rq_log i m q = Inr q'" for i m q q' v
    using that by (auto simp: rq_log_def Let_def fmsub_fmupd split: option.splits)
  fix f :: int and m q
  assume f: "0 \<le> f"
  have P: "fmcount (ResultMessage_Equals m) t = fmcount (\<lambda>m'. rm_Result m' = rm_Result m) t" for t :: "(PeerID, ResultMessage) fmap"
    by (rule fmcount_cong) (auto simp: ResultMessage_Equals_def)
  show "rq_Majority f m q \<longleftrightarrow> f < int (fmcount (\<lambda>m'. rm_Result m' = rm_Result m) (fmsub q (rm_Id m)))"
  proof (cases "fmlookup q (rm_Id m)")
    case None
    then show ?thesis using f by (simp add: rq_Majority_def fmsub_def)
  next
    case (Some t)
    have "int (fmcount (ResultMessage_Equals m) t) \<le> int (fmlen t)" using fmcount_le_fmlen by simp
    with Some show ?thesis by (auto simp: rq_Majority_def fmsub_fmlookup P)
  qed
qed

subsection \<open>An encoder\<close>

text \<open>
  An encoder of messages for the examples: numbers in unary, the type as a byte, of a command the time stamp, and the bytes of the hash at the end. It shows that the
  hypotheses on the wire format can be satisfied.
\<close>

definition unary :: "u64 \<Rightarrow> bytes" where
  "unary w = replicate (unat w) 0 @ [1]"

definition read_unary :: "bytes \<Rightarrow> u64 \<times> bytes" where
  "read_unary b = (of_nat (length (takeWhile (\<lambda>x. x = 0) b)), tl (dropWhile (\<lambda>x. x = 0) b))"

lemma takeWhile_replicate_append: "P x \<Longrightarrow> \<not> P y \<Longrightarrow> takeWhile P (replicate n x @ y # ys) = replicate n x"
  by (induction n) simp_all

lemma dropWhile_replicate_append: "P x \<Longrightarrow> \<not> P y \<Longrightarrow> dropWhile P (replicate n x @ y # ys) = y # ys"
  by (induction n) simp_all

lemma read_unary [simp]: "read_unary (unary w @ b) = (w, b)"
  by (simp add: read_unary_def unary_def takeWhile_replicate_append dropWhile_replicate_append)

definition ex_command :: "u64 \<Rightarrow> Command" where
  "ex_command t = zero_Command\<lparr>cmd_Timestamp := t\<rparr>"

definition ex_lin_marshal :: "('t \<Rightarrow> byte) \<Rightarrow> 't LinWire \<Rightarrow> bytes" where
  "ex_lin_marshal num w =
     (case w of
        LinWire_Normal m \<Rightarrow> 0 # num (lm_Type m) # unary (lm_View m) @ unary (lm_Index m) @
          (case lm_Command m of None \<Rightarrow> [0] | Some c \<Rightarrow> 1 # unary (cmd_Timestamp c)) @ sbytes (lm_CommandHash m)
      | LinWire_Result m \<Rightarrow> 1 # unary (rm_Id m) @ rm_Result m
      | LinWire_Unset \<Rightarrow> [2])"

definition read_command :: "bytes \<Rightarrow> Command option \<times> bytes" where
  "read_command b = (case b of (x # xs) \<Rightarrow> if x = 1 then (case read_unary xs of (t, ys) \<Rightarrow> (Some (ex_command t), ys)) else (None, xs) | [] \<Rightarrow> (None, []))"

definition ex_lin_unmarshal :: "(byte \<Rightarrow> 't) \<Rightarrow> bytes \<Rightarrow> 't LinWire option" where
  "ex_lin_unmarshal typ b =
     (case b of
        (k # t # xs) \<Rightarrow>
          if k = 0 then (case read_unary xs of (v, ys) \<Rightarrow> case read_unary ys of (i, zs) \<Rightarrow> case read_command zs of (c, h) \<Rightarrow>
            Some (LinWire_Normal \<lparr>lm_View = v, lm_Index = i, lm_Type = typ t, lm_Command = c, lm_CommandHash = (if h = [] then None else Some h)\<rparr>))
          else if k = 1 then (case read_unary (t # xs) of (i, r) \<Rightarrow> Some (LinWire_Result \<lparr>rm_Result = r, rm_Id = i\<rparr>))
          else None
      | [k] \<Rightarrow> Some LinWire_Unset
      | [] \<Rightarrow> None)"

lemma ex_lin_roundtrip:
  "\<exists>m'. ex_lin_unmarshal typ (ex_lin_marshal num (LinWire_Normal m)) = Some (LinWire_Normal m') \<and> lm_View m' = lm_View m \<and> lm_Index m' = lm_Index m
     \<and> lm_Type m' = typ (num (lm_Type m)) \<and> (lm_Command m' = None \<longleftrightarrow> lm_Command m = None) \<and> sbytes (lm_CommandHash m') = sbytes (lm_CommandHash m)"
  by (auto simp: ex_lin_unmarshal_def ex_lin_marshal_def read_command_def split: option.splits)

definition ex_lin_env :: "('t \<Rightarrow> byte) \<Rightarrow> (byte \<Rightarrow> 't) \<Rightarrow> 't lin_env" where
  "ex_lin_env num typ =
     \<lparr>env_sha256 = (\<lambda>b. 7 # b), env_marshalCommand = (\<lambda>c. Some [ucast (cmd_Timestamp c)]), env_createSignedCertificate = (\<lambda>_. []),
      env_verifyCertificate = (\<lambda>_ _. True), env_rangeOrder = (\<lambda>ks. ks), env_marshalLin = ex_lin_marshal num, env_unmarshalLin = ex_lin_unmarshal typ,
      env_threshsign2_sign = (\<lambda>self d _. Some [ucast self + 1]), env_threshsign2_aggregate = (\<lambda>d _ sigs. Some [9]),
      env_threshsign2_verify = (\<lambda>d _ sig. True)\<rparr>"

end
