(* ===== verification/SBFT.thy ===== *)
theory SBFT
  imports Linear
begin

text \<open>
  The replicas of \<open>protocols/sbft\<close> and \<open>protocols/linhybster\<close>. The leader sends a command in a \<open>Prepare\<close>, every replica returns a share of a threshold
  signature of its hash (\<open>onPrepare\<close>), the leader aggregates enough of them and broadcasts the signature in a \<open>Commit\<close> (\<open>onSignShare\<close>), which the
  others verify (\<open>onCommit\<close>). After execution the results travel to one replica, which answers the client when enough of them agree.
  The two packages differ in the thresholds and in a few branches; where their code is the same, one definition (\<open>lin_\<dots>\<close>) serves both.
\<close>

subsection \<open>Messages and instances (\<open>sbftpb\<close>, \<open>linhybsterpb\<close>)\<close>

datatype LinMessage_Type = LMT_None | LMT_Prepare | LMT_SignShare | LMT_Commit | LMT_StateShare | LMT_ExecProof | LMT_Unknown nat

datatype LinStatus = LS_None | LS_Prepared | LS_SignShared | LS_Committed | LS_StateShared | LS_Executed

fun LinStatus_num :: "LinStatus \<Rightarrow> nat" where
  "LinStatus_num LS_None = 0"
| "LinStatus_num LS_Prepared = 1"
| "LinStatus_num LS_SignShared = 2"
| "LinStatus_num LS_Committed = 3"
| "LinStatus_num LS_StateShared = 4"
| "LinStatus_num LS_Executed = 5"

lemma LinStatus_num_inject: "LinStatus_num a = LinStatus_num b \<longleftrightarrow> a = b"
  by (cases a; cases b) simp_all

instantiation LinStatus :: linorder
begin

definition less_eq_LinStatus :: "LinStatus \<Rightarrow> LinStatus \<Rightarrow> bool" where
  "less_eq_LinStatus a b \<longleftrightarrow> LinStatus_num a \<le> LinStatus_num b"

definition less_LinStatus :: "LinStatus \<Rightarrow> LinStatus \<Rightarrow> bool" where
  "less_LinStatus a b \<longleftrightarrow> LinStatus_num a < LinStatus_num b"

instance
  by standard (auto simp: less_eq_LinStatus_def less_LinStatus_def LinStatus_num_inject)

end

record lin_instance =
  li_ptr :: nat
  li_View :: u64
  li_Index :: u64
  li_Status :: LinStatus
  li_Command :: "Command option"
  li_CommandHash :: slice
  li_cCert :: "LinMessage_Type share_table"

definition lin_IsPrepared :: "lin_instance \<Rightarrow> bool" where
  "lin_IsPrepared is \<longleftrightarrow> li_Status is = LS_Prepared"

definition lin_IsCommitted :: "lin_instance \<Rightarrow> bool" where
  "lin_IsCommitted is \<longleftrightarrow> li_Status is = LS_Committed"

text \<open>
  The closures given to the pools: sign a share and send it to \<open>from\<close>; aggregate the shares of \<open>content\<close> and commit the instance; verify the
  aggregated signature and commit the instance. The instance is the one with the given number at the given index.
\<close>

datatype lin_job =
    SignJob bytes PeerID
  | AggJob bytes "(PeerID, bytes) fmap" bytes u64 nat
  | VerifyJob bytes bytes u64 nat

type_synonym 'z lin_replica = "(lin_instance, lin_job, 'z) linear_scheme"

definition lin_makeInstance :: "nat \<Rightarrow> LinMessage_Type LinMessage \<Rightarrow> lin_instance" where
  "lin_makeInstance ptr m =
     \<lparr>li_ptr = ptr, li_View = lm_View m, li_Index = lm_Index m, li_Status = LS_None, li_Command = lm_Command m,
      li_CommandHash = lm_CommandHash m, li_cCert = fmempty\<rparr>"

definition lin_updateCommand :: "lin_instance \<Rightarrow> LinMessage_Type LinMessage \<Rightarrow> lin_instance go" where
  "lin_updateCommand inst m =
     (if li_Command inst \<noteq> None
      then go_bind (Command_Equal (li_Command inst) (lm_Command m)) (\<lambda>b. if \<not> b then Inl FatalExit else Inr inst)
      else Inr (inst\<lparr>li_Command := lm_Command m\<rparr>))"

definition lin_updateCommandHash :: "lin_instance \<Rightarrow> LinMessage_Type LinMessage \<Rightarrow> lin_instance go" where
  "lin_updateCommandHash inst m =
     (if li_CommandHash inst \<noteq> None
      then (if \<not> bytes_Equal (li_CommandHash inst) (lm_CommandHash m) then Inl PanicCall else Inr inst)
      else Inr (inst\<lparr>li_CommandHash := lm_CommandHash m\<rparr>))"

definition lin_checkCommandHash :: "'a go_env_scheme \<Rightarrow> Command option \<Rightarrow> slice \<Rightarrow> bool go" where
  "lin_checkCommandHash E cmd h = go_bind (Hash_ptr E cmd) (\<lambda>compHash. Inr (bytes_Equal h compHash))"

definition lin_marshall :: "LinMessage_Type lin_env \<Rightarrow> LinMessage_Type LinMessage \<Rightarrow> bytes" where
  "lin_marshall E m = env_marshalLin E (LinWire_Normal m)"

text \<open>
  The lookup at the head of every handler: a new instance for an unknown index, an update of the known one otherwise (\<open>upd\<close>, which ends the
  process when the message contradicts it).
\<close>

definition lin_getInstance :: "(lin_instance \<Rightarrow> lin_instance go) \<Rightarrow> LinMessage_Type LinMessage \<Rightarrow> 'z lin_replica \<Rightarrow> (lin_instance \<times> 'z lin_replica) go" where
  "lin_getInstance upd m s =
     (case fmlookup (ln_log s) (lm_Index m) of
        None \<Rightarrow> let inst = lin_makeInstance (ln_alloc s) m in
          Inr (inst, (lin_put (lm_Index m) inst s)\<lparr>ln_alloc := Suc (ln_alloc s)\<rparr>)
      | Some inst \<Rightarrow> go_bind (upd inst) (\<lambda>inst'. Inr (inst', lin_put (lm_Index m) inst' s)))"

definition lin_updateBoth :: "LinMessage_Type LinMessage \<Rightarrow> lin_instance \<Rightarrow> lin_instance go" where
  "lin_updateBoth m inst = go_bind (lin_updateCommand inst m) (\<lambda>inst'. lin_updateCommandHash inst' m)"

subsection \<open>Execution (\<open>exec.go\<close>)\<close>

text \<open>The indices with a command; each round of \<open>exec\<close> clears one, so the loop ends.\<close>

definition lin_pending :: "'z lin_replica \<Rightarrow> u64 set" where
  "lin_pending s = {i. \<exists>inst. fmlookup (ln_log s) i = Some inst \<and> li_Command inst \<noteq> None}"

definition lin_execute_one :: "lin_instance \<Rightarrow> Command \<Rightarrow> 'z lin_replica \<Rightarrow> 'z lin_replica" where
  "lin_execute_one inst cmd s =
     lin_put (ln_execIdx s) (inst\<lparr>li_Command := None, li_Status := LS_Executed\<rparr>)
       ((lin_Execute cmd s)\<lparr>ln_execIdx := ln_execIdx s + 1\<rparr>)"

lemma lin_pending_execute_one:
  assumes "fmlookup (ln_log s) (ln_execIdx s) = Some inst" "li_Command inst = Some cmd"
  shows "card (lin_pending (lin_execute_one inst cmd s)) < card (lin_pending s)"
proof -
  have "lin_pending (lin_execute_one inst cmd s) = lin_pending s - {ln_execIdx s}"
    by (auto simp: lin_pending_def lin_execute_one_def lin_put_def lin_Execute_def lin_deliver_def split: if_splits)
  moreover have "ln_execIdx s \<in> lin_pending s" using assms by (simp add: lin_pending_def)
  ultimately show ?thesis by (metis card_Diff1_less finite)
qed

function lin_exec :: "'z lin_replica \<Rightarrow> 'z lin_replica" where
  "lin_exec s =
     (case fmlookup (ln_log s) (ln_execIdx s) of
        None \<Rightarrow> s
      | Some inst \<Rightarrow>
          (if \<not> lin_IsCommitted inst then s
           else case li_Command inst of
               None \<Rightarrow> s
             | Some cmd \<Rightarrow> lin_exec (lin_execute_one inst cmd s)))"
  by pat_completeness auto
termination
  by (relation "measure (\<lambda>s. card (lin_pending s))") (simp_all add: lin_pending_execute_one)

declare lin_exec.simps [simp del]

subsection \<open>Agreement (\<open>instance.go\<close>)\<close>

text \<open>The share that a replica signs: hash, view and index of its instance.\<close>

definition lin_shareOf :: "lin_instance \<Rightarrow> LinMessage_Type LinMessage" where
  "lin_shareOf inst =
     \<lparr>lm_View = li_View inst, lm_Index = li_Index inst, lm_Type = LMT_SignShare, lm_Command = None, lm_CommandHash = li_CommandHash inst\<rparr>"

definition sbft_onPrepare :: "LinMessage_Type lin_env \<Rightarrow> LinMessage_Type LinMessage \<Rightarrow> PeerID \<Rightarrow> 'z lin_replica \<Rightarrow> 'z lin_replica go" where
  "sbft_onPrepare E m0 from s =
     go_bind (Hash_ptr E (lm_Command m0)) (\<lambda>cmdHash.
     let m = m0\<lparr>lm_CommandHash := cmdHash\<rparr> in
     go_bind (lin_getInstance (lin_updateBoth m) m s) (\<lambda>(inst, s1).
     if li_Status inst = LS_Committed then Inr (lin_exec s1)
     else let inst1 = inst\<lparr>li_Status := LS_Prepared\<rparr> in
       Inr (lin_Exec SignPool (SignJob (lin_marshall E (lin_shareOf inst1)) from) (lin_put (lm_Index m) inst1 s1))))"

text \<open>The package \<open>linhybster\<close> does not ask whether the instance is committed already.\<close>

definition lh_onPrepare :: "LinMessage_Type lin_env \<Rightarrow> LinMessage_Type LinMessage \<Rightarrow> PeerID \<Rightarrow> 'z lin_replica \<Rightarrow> 'z lin_replica go" where
  "lh_onPrepare E m0 from s =
     go_bind (Hash_ptr E (lm_Command m0)) (\<lambda>cmdHash.
     let m = m0\<lparr>lm_CommandHash := cmdHash\<rparr> in
     go_bind (lin_getInstance (lin_updateBoth m) m s) (\<lambda>(inst, s1).
     let inst1 = inst\<lparr>li_Status := LS_Prepared\<rparr> in
     Inr (lin_Exec SignPool (SignJob (lin_marshall E (lin_shareOf inst1)) from) (lin_put (lm_Index m) inst1 s1))))"

text \<open>The second half of \<open>onSignShare\<close>: with enough shares the instance waits for the aggregation.\<close>

definition lin_afterShare :: "LinMessage_Type lin_env \<Rightarrow> int \<Rightarrow> LinMessage_Type LinMessage \<Rightarrow> bytes \<Rightarrow> lin_instance \<Rightarrow> 'z lin_replica \<Rightarrow> 'z lin_replica" where
  "lin_afterShare E thr m content inst s =
     (case lq_Majority thr m (li_cCert inst) of (majSigs, majority) \<Rightarrow>
        if li_Status inst < LS_SignShared \<and> majority
        then let cm = \<lparr>lm_View = lm_View m, lm_Index = lm_Index m, lm_Type = LMT_Commit, lm_Command = None, lm_CommandHash = lm_CommandHash m\<rparr> in
          lin_Exec AggPool (AggJob content majSigs (lin_marshall E cm) (lm_Index m) (li_ptr inst))
            (lin_put (lm_Index m) (inst\<lparr>li_Status := LS_SignShared\<rparr>) s)
        else lin_put (lm_Index m) inst s)"

definition lin_onSignShare :: "LinMessage_Type lin_env \<Rightarrow> int \<Rightarrow> LinMessage_Type LinMessage \<Rightarrow> PeerID \<Rightarrow> bytes \<Rightarrow> bytes \<Rightarrow> 'z lin_replica \<Rightarrow> 'z lin_replica go" where
  "lin_onSignShare E thr m from sign content s =
     go_bind (lin_getInstance (\<lambda>inst. lin_updateCommandHash inst m) m s) (\<lambda>(inst, s1).
     go_bind (lq_log from m sign (li_cCert inst)) (\<lambda>cc.
     Inr (lin_afterShare E thr m content (inst\<lparr>li_cCert := cc\<rparr>) s1)))"

definition sbft_onCommit :: "LinMessage_Type lin_env \<Rightarrow> LinMessage_Type LinMessage \<Rightarrow> bytes \<Rightarrow> 'z lin_replica \<Rightarrow> 'z lin_replica go" where
  "sbft_onCommit E m sign s =
     go_bind (lin_getInstance (\<lambda>inst. lin_updateCommandHash inst m) m s) (\<lambda>(inst, s1).
     if li_Status inst \<ge> LS_Committed then Inr (lin_exec s1)
     else Inr (lin_Exec VerifyPool (VerifyJob (lin_marshall E (m\<lparr>lm_Type := LMT_SignShare\<rparr>)) sign (lm_Index m) (li_ptr inst)) s1))"

definition lh_onCommit :: "LinMessage_Type lin_env \<Rightarrow> LinMessage_Type LinMessage \<Rightarrow> bytes \<Rightarrow> 'z lin_replica \<Rightarrow> 'z lin_replica go" where
  "lh_onCommit E m sign s =
     go_bind (lin_getInstance (\<lambda>inst. lin_updateCommandHash inst m) m s) (\<lambda>(inst, s1).
     if li_Status inst \<ge> LS_Committed then Inr s1
     else Inr (lin_Exec VerifyPool (VerifyJob (lin_marshall E (m\<lparr>lm_Type := LMT_SignShare\<rparr>)) sign (lm_Index m) (li_ptr inst)) s1))"

text \<open>What the workers do with a job, and what the replica does with the result.\<close>

definition lin_work :: "LinMessage_Type lin_env \<Rightarrow> PeerID \<Rightarrow> lin_job \<Rightarrow> bytes go" where
  "lin_work E self j =
     (case j of
        SignJob mBytes _ \<Rightarrow> th_Sign E self mBytes 0
      | AggJob content majSigs _ _ _ \<Rightarrow> th_AggregateSigAndVerify E content 0 majSigs
      | VerifyJob mBytes sign _ _ \<Rightarrow> go_bind (th_Verify E mBytes 0 sign) (\<lambda>_. Inr []))"

text \<open>A write through the pointer to an instance; an instance that is not in the log any more is not read again.\<close>

definition lin_setCommitted :: "u64 \<Rightarrow> nat \<Rightarrow> 'z lin_replica \<Rightarrow> 'z lin_replica" where
  "lin_setCommitted idx ptr s =
     (case fmlookup (ln_log s) idx of
        None \<Rightarrow> s
      | Some inst \<Rightarrow> if li_ptr inst = ptr then lin_put idx (inst\<lparr>li_Status := LS_Committed\<rparr>) s else s)"

definition lin_callback :: "lin_job \<Rightarrow> bytes \<Rightarrow> 'z lin_replica \<Rightarrow> 'z lin_replica go" where
  "lin_callback j b s =
     (case j of
        SignJob mBytes from \<Rightarrow> Inr (lin_sendTo from mBytes b s)
      | AggJob _ _ mBytes idx ptr \<Rightarrow> Inr (lin_exec (lin_setCommitted idx ptr (lin_broadcast mBytes False b s)))
      | VerifyJob _ _ idx ptr \<Rightarrow> Inr (lin_exec (lin_setCommitted idx ptr s)))"

subsection \<open>Requests (\<open>request.go\<close>)\<close>

definition lin_propose :: "LinMessage_Type lin_env \<Rightarrow> Command \<Rightarrow> 'z lin_replica \<Rightarrow> 'z lin_replica" where
  "lin_propose E cmd s =
     (case GetAndIncrement (ln_index s) of (index, next) \<Rightarrow>
        let inst = \<lparr>li_ptr = ln_alloc s, li_View = ln_view s, li_Index = index, li_Status = LS_Prepared, li_Command = Some cmd,
                    li_CommandHash = None, li_cCert = fmempty\<rparr>;
            pm = \<lparr>lm_View = ln_view s, lm_Index = index, lm_Type = LMT_Prepare, lm_Command = Some cmd, lm_CommandHash = None\<rparr>
        in lin_broadcast (lin_marshall E pm) True [] ((lin_put index inst s)\<lparr>ln_index := next, ln_alloc := Suc (ln_alloc s)\<rparr>))"

definition sbft_onRequest :: "LinMessage_Type lin_env \<Rightarrow> Command \<Rightarrow> 'z lin_replica \<Rightarrow> 'z lin_replica go" where
  "sbft_onRequest E cmd s = Inr (lin_propose E cmd s)"

definition lh_onRequest :: "LinMessage_Type lin_env \<Rightarrow> Command \<Rightarrow> 'z lin_replica \<Rightarrow> 'z lin_replica go" where
  "lh_onRequest E cmd s =
     go_bind (lin_isPrimaryAtView (ln_id s) (ln_view s) s) (\<lambda>b. if \<not> b then Inl PanicCall else Inr (lin_propose E cmd s))"

subsection \<open>The SBFT replica (\<open>sbft.go\<close>)\<close>

record sbft = "(lin_instance, lin_job) linear" +
  sb_c :: int

definition NewSBFT :: "lin_config \<Rightarrow> sbft go" where
  "NewSBFT c =
     (let f = (int (length (cfg_Peers c)) - 2 * cfg_MaxFastFailures c - 1) sdiv 3 in
      if f < 1 then Inl PanicCall
      else if f \<noteq> cfg_MaxFailures c then Inl PanicCall
      else go_bind (startPools c (\<lambda>w. workers_of c (case w of SignPool \<Rightarrow> ''tss_sign'' | AggPool \<Rightarrow> ''tss_agg'' | VerifyPool \<Rightarrow> ''tss_verify''))) (\<lambda>ps.
        Inr \<lparr>ln_id = cfg_ID c, ln_nodes = cfg_Peers c, ln_log = fmempty, ln_alloc = 0, ln_view = cfg_LeaderID c, ln_index = 0, ln_execIdx = 0,
             ln_msgs = [], ln_timers = [], ln_f = f, ln_executedCmds = [], ln_rQuorum = fmempty, ln_pools = ps, sb_c = cfg_MaxFastFailures c\<rparr>))"

definition sbft_stepResult :: "ResultMessage \<Rightarrow> PeerID \<Rightarrow> 'z lin_replica \<Rightarrow> 'z lin_replica go" where
  "sbft_stepResult m from s =
     go_bind (rq_log from m (ln_rQuorum s)) (\<lambda>rq.
     let s1 = s\<lparr>ln_rQuorum := rq\<rparr> in
     Inr (if rq_Majority (ln_f s) m rq then lin_deliver (resultPacket (rm_Result m)) s1 else s1))"

definition sbft_Callback :: "LinMessage_Type lin_env \<Rightarrow> ExecCallback \<Rightarrow> 'z lin_replica \<Rightarrow> 'z lin_replica go" where
  "sbft_Callback E message s =
     (let msg = \<lparr>rm_Result = ec_Result message, rm_Id = cmd_Timestamp (ec_Cmd message)\<rparr> in
      go_bind (go_umod (ln_view s) (length (ln_nodes s))) (\<lambda>rid.
      if ln_id s \<noteq> rid then Inr (lin_sendTo rid (env_marshalLin E (LinWire_Result msg)) [] s)
      else sbft_stepResult msg rid s))"

definition sbft_stepNormal :: "LinMessage_Type lin_env \<Rightarrow> LinMessage_Type LinMessage \<Rightarrow> PeerID \<Rightarrow> bytes \<Rightarrow> bytes \<Rightarrow> sbft \<Rightarrow> sbft go" where
  "sbft_stepNormal E m from sign content s =
     (case lm_Type m of
        LMT_Prepare \<Rightarrow> sbft_onPrepare E m from s
      | LMT_SignShare \<Rightarrow> lin_onSignShare E (3 * ln_f s + sb_c s) m from sign content s
      | LMT_Commit \<Rightarrow> sbft_onCommit E m sign s
      | _ \<Rightarrow> Inr s)"

definition sbft_Step :: "LinMessage_Type lin_env \<Rightarrow> Message \<Rightarrow> sbft \<Rightarrow> sbft go" where
  "sbft_Step E mm s =
     (case env_unmarshalLin E (msg_Content mm) of
        None \<Rightarrow> Inl PanicCall
      | Some (LinWire_Normal m) \<Rightarrow> sbft_stepNormal E m (msg_From mm) (msg_Certificate mm) (msg_Content mm) s
      | Some (LinWire_Result m) \<Rightarrow> sbft_stepResult m (msg_From mm) s
      | Some LinWire_Unset \<Rightarrow> Inl PanicCall)"

text \<open>\<open>Request\<close> drops the trace of the command.\<close>

definition sbft_Request :: "LinMessage_Type lin_env \<Rightarrow> Command \<Rightarrow> sbft \<Rightarrow> sbft go" where
  "sbft_Request E cmd s = sbft_onRequest E (cmd\<lparr>cmd_TraceInfo := fmempty\<rparr>) s"

definition lin_hasStatus :: "u64 \<Rightarrow> LinStatus \<Rightarrow> 'z lin_replica \<Rightarrow> bool" where
  "lin_hasStatus idx st s = (case fmlookup (ln_log s) idx of None \<Rightarrow> False | Some inst \<Rightarrow> li_Status inst = st)"

definition sbft_Protocol :: "LinMessage_Type lin_env \<Rightarrow> sbft Protocol" where
  "sbft_Protocol E =
     \<lparr>pr_Step = sbft_Step E, pr_Tick = lin_Tick, pr_Request = sbft_Request E, pr_Callback = sbft_Callback E,
      pr_MakeReady = (\<lambda>s. Inr (lin_MakeReady s, s)), pr_ClearMsgs = lin_ClearMsgs,
      pr_ClearExecutedCommands = lin_ClearExecutedCommands, pr_AsyncCallback = lin_AsyncCallback lin_callback\<rparr>"

subsection \<open>The LinHybster replica (\<open>linhybster.go\<close>)\<close>

text \<open>The table of results also remembers the commands that have been answered.\<close>

record linhybster = "(lin_instance, lin_job) linear" +
  lh_exec :: "u64 fset"

definition NewLinHybster :: "lin_config \<Rightarrow> linhybster go" where
  "NewLinHybster c =
     go_bind (startPools c (\<lambda>w. case w of SignPool \<Rightarrow> 1 | AggPool \<Rightarrow> workers_of c ''tss_agg'' | VerifyPool \<Rightarrow> workers_of c ''tss_verify'')) (\<lambda>ps.
       Inr \<lparr>ln_id = cfg_ID c, ln_nodes = cfg_Peers c, ln_log = fmempty, ln_alloc = 0, ln_view = cfg_LeaderID c, ln_index = 0, ln_execIdx = 0,
            ln_msgs = [], ln_timers = [], ln_f = cfg_MaxFailures c, ln_executedCmds = [], ln_rQuorum = fmempty, ln_pools = ps, lh_exec = {||}\<rparr>)"

definition lh_GetAndSetExec :: "ResultMessage \<Rightarrow> linhybster \<Rightarrow> bool \<times> linhybster" where
  "lh_GetAndSetExec m s = (rm_Id m |\<in>| lh_exec s, s\<lparr>lh_exec := finsert (rm_Id m) (lh_exec s)\<rparr>)"

definition lh_stepResult :: "ResultMessage \<Rightarrow> PeerID \<Rightarrow> linhybster \<Rightarrow> linhybster go" where
  "lh_stepResult m from s =
     go_bind (rq_log from m (ln_rQuorum s)) (\<lambda>rq.
     let s1 = s\<lparr>ln_rQuorum := rq\<rparr> in
     Inr (if rq_Majority (ln_f s) m rq
          then (case lh_GetAndSetExec m s1 of (ok, s2) \<Rightarrow> if \<not> ok then lin_deliver (resultPacket (rm_Result m)) s2 else s2)
          else s1))"

definition lh_Callback :: "LinMessage_Type lin_env \<Rightarrow> ExecCallback \<Rightarrow> linhybster \<Rightarrow> linhybster go" where
  "lh_Callback E message s =
     (let rid = cmd_Target (ec_Cmd message);
          msg = \<lparr>rm_Result = ec_Result message, rm_Id = cmd_Timestamp (ec_Cmd message)\<rparr> in
      if ln_id s \<noteq> rid then Inr (lin_sendTo rid (env_marshalLin E (LinWire_Result msg)) [] s)
      else lh_stepResult msg rid s)"

definition lh_stepNormal :: "LinMessage_Type lin_env \<Rightarrow> LinMessage_Type LinMessage \<Rightarrow> PeerID \<Rightarrow> bytes \<Rightarrow> bytes \<Rightarrow> linhybster \<Rightarrow> linhybster go" where
  "lh_stepNormal E m from sign content s =
     (case lm_Type m of
        LMT_Prepare \<Rightarrow> lh_onPrepare E m from s
      | LMT_SignShare \<Rightarrow> lin_onSignShare E (ln_f s) m from sign content s
      | LMT_Commit \<Rightarrow> lh_onCommit E m sign s
      | _ \<Rightarrow> Inr s)"

definition lh_Step :: "LinMessage_Type lin_env \<Rightarrow> Message \<Rightarrow> linhybster \<Rightarrow> linhybster go" where
  "lh_Step E mm s =
     (case env_unmarshalLin E (msg_Content mm) of
        None \<Rightarrow> Inl PanicCall
      | Some (LinWire_Normal m) \<Rightarrow> lh_stepNormal E m (msg_From mm) (msg_Certificate mm) (msg_Content mm) s
      | Some (LinWire_Result m) \<Rightarrow> lh_stepResult m (msg_From mm) s
      | Some LinWire_Unset \<Rightarrow> Inl PanicCall)"

definition lh_Request :: "LinMessage_Type lin_env \<Rightarrow> Command \<Rightarrow> linhybster \<Rightarrow> linhybster go" where
  "lh_Request E cmd s = lh_onRequest E cmd s"

definition lh_Protocol :: "LinMessage_Type lin_env \<Rightarrow> linhybster Protocol" where
  "lh_Protocol E =
     \<lparr>pr_Step = lh_Step E, pr_Tick = lin_Tick, pr_Request = lh_Request E, pr_Callback = lh_Callback E,
      pr_MakeReady = (\<lambda>s. Inr (lin_MakeReady s, s)), pr_ClearMsgs = lin_ClearMsgs,
      pr_ClearExecutedCommands = lin_ClearExecutedCommands, pr_AsyncCallback = lin_AsyncCallback lin_callback\<rparr>"

end
