(* ===== verification/Threshold.thy ===== *)
theory Threshold
  imports Vote_Quorum
begin

text \<open>
  A cluster of replicas that decide by threshold signatures. The adversary controls the network completely: a replica may receive any message at any
  time, under any sender's name. What limits it is the signature scheme: a certificate of which a worker has found that it is valid was made from shares of at
  least the threshold's number of nodes, and a node that is not Byzantine has signed only what its workers have signed (\<open>ts_sigs\<close>).

  A kind of replica is given by the operations of \<open>tss_node\<close>; the locale \<open>threshold_replica\<close> states what is needed of one, and agreement is proved
  in it once.
\<close>

subsection \<open>The cluster\<close>

text \<open>
  \<open>tn_act a s\<close>: what action \<open>a\<close> does in state \<open>s\<close>, where \<open>None\<close> says that it is not possible. \<open>tn_signs\<close>: the digest that a worker signs in it. \<open>tn_checks\<close>: the
  digest for which a worker holds a valid certificate after it. \<open>tn_proposes\<close>: the action is a client's request.
\<close>

record ('a, 's) tss_node =
  tn_act :: "'a \<Rightarrow> 's \<Rightarrow> 's go option"
  tn_signs :: "'a \<Rightarrow> 's \<Rightarrow> bytes option"
  tn_checks :: "'a \<Rightarrow> 's \<Rightarrow> bytes option"
  tn_proposes :: "'a \<Rightarrow> bool"

record tss_cfg =
  tc_nodes :: "PeerID list"
  tc_byz :: "PeerID list"
  tc_proposers :: "PeerID list"
  tc_threshold :: nat

record 's tss_sys =
  ts_reps :: "(PeerID, 's) fmap"
  ts_halted :: "PeerID list"
  ts_sigs :: "(PeerID \<times> bytes) list"

definition tss_signers :: "tss_cfg \<Rightarrow> 's tss_sys \<Rightarrow> bytes \<Rightarrow> PeerID list" where
  "tss_signers C S d = filter (\<lambda>i. i \<in> set (tc_byz C) \<or> (i, d) \<in> set (ts_sigs S)) (remdups (tc_nodes C))"

definition tss_certified :: "tss_cfg \<Rightarrow> 's tss_sys \<Rightarrow> bytes \<Rightarrow> bool" where
  "tss_certified C S d \<longleftrightarrow> tc_threshold C \<le> length (tss_signers C S d)"

definition tss_do :: "('a, 's) tss_node \<Rightarrow> tss_cfg \<Rightarrow> PeerID \<Rightarrow> 'a \<Rightarrow> 's tss_sys \<Rightarrow> 's tss_sys option" where
  "tss_do N C r a S =
     (case fmlookup (ts_reps S) r of
        None \<Rightarrow> None
      | Some s \<Rightarrow>
          (if r \<in> set (ts_halted S) \<or> tn_proposes N a \<and> r \<notin> set (tc_proposers C)
              \<or> (case tn_checks N a s of None \<Rightarrow> False | Some d \<Rightarrow> \<not> tss_certified C S d) then None
           else case tn_act N a s of
               None \<Rightarrow> None
             | Some (Inl _) \<Rightarrow> Some (S\<lparr>ts_halted := r # ts_halted S\<rparr>)
             | Some (Inr s') \<Rightarrow> Some (S\<lparr>ts_reps := fmupd r s' (ts_reps S),
                 ts_sigs := (case tn_signs N a s of None \<Rightarrow> [] | Some d \<Rightarrow> [(r, d)]) @ ts_sigs S\<rparr>)))"

fun tss_run :: "('a, 's) tss_node \<Rightarrow> tss_cfg \<Rightarrow> (PeerID \<times> 'a) list \<Rightarrow> 's tss_sys \<Rightarrow> 's tss_sys option" where
  "tss_run N C [] S = Some S"
| "tss_run N C ((r, a) # as) S = (case tss_do N C r a S of None \<Rightarrow> None | Some S' \<Rightarrow> tss_run N C as S')"

definition tss_init :: "(PeerID, 's) fmap \<Rightarrow> 's tss_sys" where
  "tss_init R = \<lparr>ts_reps = R, ts_halted = [], ts_sigs = []\<rparr>"

inductive tss_reachable :: "('a, 's) tss_node \<Rightarrow> tss_cfg \<Rightarrow> (PeerID, 's) fmap \<Rightarrow> 's tss_sys \<Rightarrow> bool" for N C R where
  tss_start: "tss_reachable N C R (tss_init R)"
| tss_step: "tss_reachable N C R S \<Longrightarrow> tss_do N C r a S = Some S' \<Longrightarrow> tss_reachable N C R S'"

lemma tss_run_reachable: "tss_run N C as S = Some S' \<Longrightarrow> tss_reachable N C R S \<Longrightarrow> tss_reachable N C R S'"
  by (induction N C as S rule: tss_run.induct) (auto split: option.splits intro: tss_step)

lemma tss_do_cases [consumes 1, case_names halt move]:
  assumes "tss_do N C r a S = Some S'"
  obtains (halt) "ts_reps S' = ts_reps S" "ts_sigs S' = ts_sigs S"
  | (move) s s' where "fmlookup (ts_reps S) r = Some s" "tn_act N a s = Some (Inr s')" "ts_reps S' = fmupd r s' (ts_reps S)"
      "set (ts_sigs S') = set (ts_sigs S) \<union> {(r, d) | d. tn_signs N a s = Some d}"
      "tn_proposes N a \<Longrightarrow> r \<in> set (tc_proposers C)" "\<And>d. tn_checks N a s = Some d \<Longrightarrow> tss_certified C S d"
proof -
  obtain s where s: "fmlookup (ts_reps S) r = Some s" using assms by (auto simp: tss_do_def split: option.splits)
  let ?bad = "r \<in> set (ts_halted S) \<or> tn_proposes N a \<and> r \<notin> set (tc_proposers C)
    \<or> (case tn_checks N a s of None \<Rightarrow> False | Some d \<Rightarrow> \<not> tss_certified C S d)"
  have ok: "\<not> ?bad" using assms s by (auto simp: tss_do_def split: if_splits)
  then have act: "(case tn_act N a s of None \<Rightarrow> None | Some (Inl _) \<Rightarrow> Some (S\<lparr>ts_halted := r # ts_halted S\<rparr>)
      | Some (Inr s') \<Rightarrow> Some (S\<lparr>ts_reps := fmupd r s' (ts_reps S),
          ts_sigs := (case tn_signs N a s of None \<Rightarrow> [] | Some d \<Rightarrow> [(r, d)]) @ ts_sigs S\<rparr>)) = Some S'"
    using assms s unfolding tss_do_def by (simp only: option.case if_False)
  show thesis
  proof (cases "tn_act N a s")
    case (Some x)
    show ?thesis
    proof (cases x)
      case (Inl e)
      with Some act show ?thesis by (intro halt) auto
    next
      case (Inr s')
      with Some act have S': "S' = S\<lparr>ts_reps := fmupd r s' (ts_reps S),
          ts_sigs := (case tn_signs N a s of None \<Rightarrow> [] | Some d \<Rightarrow> [(r, d)]) @ ts_sigs S\<rparr>" by simp
      show ?thesis
      proof (rule move [OF s])
        show "tn_act N a s = Some (Inr s')" using Some Inr by simp
        show "set (ts_sigs S') = set (ts_sigs S) \<union> {(r, d) |d. tn_signs N a s = Some d}" by (auto simp: S' split: option.splits)
      qed (use ok S' in \<open>auto split: option.splits\<close>)
    qed
  qed (use act in simp)
qed

definition tss_signer_set :: "tss_cfg \<Rightarrow> 's tss_sys \<Rightarrow> bytes \<Rightarrow> PeerID set" where
  "tss_signer_set C S d = {i \<in> set (tc_nodes C). i \<in> set (tc_byz C) \<or> (i, d) \<in> set (ts_sigs S)}"

lemma tss_certified_card: "tss_certified C S d \<longleftrightarrow> tc_threshold C \<le> card (tss_signer_set C S d)"
proof -
  have "length (tss_signers C S d) = card (set (tss_signers C S d))" by (rule distinct_card [symmetric]) (simp add: tss_signers_def)
  also have "set (tss_signers C S d) = tss_signer_set C S d" by (auto simp: tss_signers_def tss_signer_set_def)
  finally show ?thesis by (simp add: tss_certified_def)
qed

lemma tss_certified_mono:
  assumes "tss_certified C S d" "set (ts_sigs S) \<subseteq> set (ts_sigs S')"
  shows "tss_certified C S' d"
proof -
  have "tss_signer_set C S d \<subseteq> tss_signer_set C S' d" using assms(2) by (auto simp: tss_signer_set_def)
  then have "card (tss_signer_set C S d) \<le> card (tss_signer_set C S' d)"
    by (rule card_mono [rotated]) (simp add: tss_signer_set_def)
  with assms(1) show ?thesis by (simp add: tss_certified_card)
qed

subsection \<open>What is needed of a replica\<close>

text \<open>
  \<open>share v i h\<close> is the digest of a share for a hash \<open>h\<close>, which is not empty, at index \<open>i\<close>; \<open>pledge s i\<close> the hash a replica has accepted for an index; \<open>to_sign\<close> the digests that wait for the
  signing worker; \<open>evidence\<close> the digests whose valid certificates wait for the replica; \<open>decided\<close> the committed indices with their hashes.
\<close>

definition speaks_of :: "(u64 \<Rightarrow> u64 \<Rightarrow> bytes \<Rightarrow> bytes) \<Rightarrow> bytes \<Rightarrow> u64 \<Rightarrow> bytes \<Rightarrow> bool" where
  "speaks_of share d i h \<longleftrightarrow> (\<forall>v i' h'. h' \<noteq> [] \<longrightarrow> d = share v i' h' \<longrightarrow> i' = i \<and> h' = h)"

locale threshold_replica =
  fixes N :: "('a, 's) tss_node"
    and inv :: "'s \<Rightarrow> bool"
    and share :: "u64 \<Rightarrow> u64 \<Rightarrow> bytes \<Rightarrow> bytes"
    and pledge :: "'s \<Rightarrow> u64 \<Rightarrow> bytes option"
    and to_sign :: "'s \<Rightarrow> bytes set"
    and evidence :: "'s \<Rightarrow> bytes set"
    and decided :: "'s \<Rightarrow> (u64 \<times> bytes) set"
  assumes inv_step: "inv s \<Longrightarrow> tn_act N a s = Some (Inr s') \<Longrightarrow> inv s'"
    and signs_pending: "tn_signs N a s = Some d \<Longrightarrow> d \<in> to_sign s"
    and to_sign_step: "inv s \<Longrightarrow> tn_act N a s = Some (Inr s') \<Longrightarrow> d \<in> to_sign s' \<Longrightarrow>
      d \<in> to_sign s \<or> (\<exists>v i h. h \<noteq> [] \<and> d = share v i h \<and> pledge s' i = Some h)"
    and pledge_step: "inv s \<Longrightarrow> tn_act N a s = Some (Inr s') \<Longrightarrow> \<not> tn_proposes N a \<Longrightarrow> pledge s i = Some h \<Longrightarrow> pledge s' i = Some h"
    and evidence_step: "inv s \<Longrightarrow> tn_act N a s = Some (Inr s') \<Longrightarrow> d \<in> evidence s' \<Longrightarrow> d \<in> evidence s \<or> tn_checks N a s = Some d"
    and decided_step: "inv s \<Longrightarrow> tn_act N a s = Some (Inr s') \<Longrightarrow> (i, h) \<in> decided s' \<Longrightarrow>
      (i, h) \<in> decided s \<or> (\<exists>d \<in> evidence s. speaks_of share d i h)"
begin

definition fresh :: "'s \<Rightarrow> bool" where
  "fresh s \<longleftrightarrow> inv s \<and> to_sign s = {} \<and> evidence s = {} \<and> decided s = {}"

definition signed_ok :: "'s \<Rightarrow> bytes \<Rightarrow> bool" where
  "signed_ok s d \<longleftrightarrow> (\<exists>v i h. h \<noteq> [] \<and> d = share v i h \<and> pledge s i = Some h)"

lemma signed_ok_step:
  "inv s \<Longrightarrow> tn_act N a s = Some (Inr s') \<Longrightarrow> \<not> tn_proposes N a \<Longrightarrow> signed_ok s d \<Longrightarrow> signed_ok s' d"
  using pledge_step by (fastforce simp: signed_ok_def)

definition node_ok :: "tss_cfg \<Rightarrow> 's tss_sys \<Rightarrow> PeerID \<Rightarrow> 's \<Rightarrow> bool" where
  "node_ok C S r s \<longleftrightarrow> inv s \<and> (r \<notin> set (tc_proposers C) \<longrightarrow> (\<forall>d \<in> to_sign s. signed_ok s d))
     \<and> (\<forall>d \<in> evidence s. tss_certified C S d)
     \<and> (\<forall>(i, h) \<in> decided s. \<exists>d. tss_certified C S d \<and> speaks_of share d i h)"

definition cluster_ok :: "tss_cfg \<Rightarrow> 's tss_sys \<Rightarrow> bool" where
  "cluster_ok C S \<longleftrightarrow> (\<forall>r s. fmlookup (ts_reps S) r = Some s \<longrightarrow> node_ok C S r s)
     \<and> (\<forall>r d. (r, d) \<in> set (ts_sigs S) \<longrightarrow> r \<notin> set (tc_proposers C) \<longrightarrow> (\<exists>s. fmlookup (ts_reps S) r = Some s \<and> signed_ok s d))"

lemma node_ok_mono: "node_ok C S r s \<Longrightarrow> set (ts_sigs S) \<subseteq> set (ts_sigs S') \<Longrightarrow> node_ok C S' r s"
  unfolding node_ok_def by (blast intro: tss_certified_mono)

lemma node_ok_step:
  assumes "node_ok C S r s" "tn_act N a s = Some (Inr s')" "tn_proposes N a \<Longrightarrow> r \<in> set (tc_proposers C)"
    and "\<And>d. tn_checks N a s = Some d \<Longrightarrow> tss_certified C S d"
  shows "node_ok C S r s'"
  unfolding node_ok_def
proof (intro conjI ballI impI)
  have inv: "inv s" using assms(1) by (simp add: node_ok_def)
  show "inv s'" using inv assms(2) by (rule inv_step)
  show "signed_ok s' d" if "r \<notin> set (tc_proposers C)" "d \<in> to_sign s'" for d
  proof (cases "d \<in> to_sign s")
    case True
    then have "signed_ok s d" using that(1) assms(1) by (simp add: node_ok_def)
    then show ?thesis using that(1) assms(3) by (blast intro: signed_ok_step [OF inv assms(2)])
  next
    case False
    then show ?thesis using to_sign_step [OF inv assms(2) that(2)] by (auto simp: signed_ok_def)
  qed
  show "tss_certified C S d" if "d \<in> evidence s'" for d
    using evidence_step [OF inv assms(2) that] assms(1,4) by (auto simp: node_ok_def)
  show "case x of (i, h) \<Rightarrow> \<exists>d. tss_certified C S d \<and> speaks_of share d i h" if "x \<in> decided s'" for x
    using that decided_step [OF inv assms(2), of "fst x" "snd x"] assms(1) by (fastforce simp: node_ok_def)
qed

lemma cluster_ok_step:
  assumes "tss_do N C r a S = Some S'" "cluster_ok C S"
  shows "cluster_ok C S'"
  using assms(1)
proof (cases rule: tss_do_cases)
  case halt
  then have "node_ok C S' = node_ok C S" by (intro ext) (simp add: node_ok_def tss_certified_card tss_signer_set_def)
  with halt assms(2) show ?thesis by (simp add: cluster_ok_def)
next
  case (move s s')
  have s: "node_ok C S r s" using assms(2) move(1) by (simp add: cluster_ok_def)
  then have inv: "inv s" by (simp add: node_ok_def)
  have mono: "set (ts_sigs S) \<subseteq> set (ts_sigs S')" using move(4) by auto
  have "node_ok C S' r s'" using node_ok_mono [OF node_ok_step [OF s move(2,5,6)] mono] .
  moreover have "node_ok C S' r' t" if "fmlookup (ts_reps S) r' = Some t" for r' t
    using assms(2) that node_ok_mono [OF _ mono] by (simp add: cluster_ok_def)
  moreover have "\<exists>t. fmlookup (ts_reps S') r' = Some t \<and> signed_ok t d"
    if sig: "(r', d) \<in> set (ts_sigs S')" "r' \<notin> set (tc_proposers C)" for r' d
  proof -
    from sig move(1,4) signs_pending s have "\<exists>t. fmlookup (ts_reps S) r' = Some t \<and> signed_ok t d"
      using assms(2) by (auto simp: cluster_ok_def node_ok_def)
    then obtain t where t: "fmlookup (ts_reps S) r' = Some t" "signed_ok t d" by blast
    show ?thesis
    proof (cases "r' = r")
      case True
      then have "signed_ok s' d" using t move(1,5) sig(2) signed_ok_step [OF inv move(2)] by auto
      with True move(3) show ?thesis by simp
    qed (use t move(3) in simp)
  qed
  ultimately show ?thesis unfolding cluster_ok_def move(3) by (auto split: if_splits)
qed

lemma reachable_cluster_ok:
  assumes "tss_reachable N C R S" "\<And>r s. fmlookup R r = Some s \<Longrightarrow> fresh s"
  shows "cluster_ok C S"
  using assms(1)
proof induction
  case tss_start
  then show ?case using assms(2) by (auto simp: cluster_ok_def tss_init_def node_ok_def fresh_def)
next
  case (tss_step S r a S')
  then show ?case using cluster_ok_step by blast
qed

text \<open>
  Two decisions for one index have one hash, when the nodes outnumber twice the threshold by fewer than the Byzantine nodes and the nodes that
  take requests.
\<close>

lemma agreement:
  assumes "tss_reachable N C R S" "\<And>r s. fmlookup R r = Some s \<Longrightarrow> fresh s"
    and "card (set (tc_nodes C)) + card (set (tc_byz C) \<union> set (tc_proposers C)) < 2 * tc_threshold C"
    and "fmlookup (ts_reps S) r1 = Some s1" "fmlookup (ts_reps S) r2 = Some s2"
    and "(i, h1) \<in> decided s1" "(i, h2) \<in> decided s2"
  shows "h1 = h2"
proof -
  have ok: "cluster_ok C S" using reachable_cluster_ok [OF assms(1,2)] .
  have cert: "\<exists>d. tss_certified C S d \<and> speaks_of share d i h" if "fmlookup (ts_reps S) r = Some s" "(i, h) \<in> decided s" for r s h
    using that ok unfolding cluster_ok_def node_ok_def by fast
  obtain d1 d2 where d: "tss_certified C S d1" "speaks_of share d1 i h1" "tss_certified C S d2" "speaks_of share d2 i h2"
    using cert [OF assms(4,6)] cert [OF assms(5,7)] by blast
  have "card (set (tc_nodes C)) + card (set (tc_byz C) \<union> set (tc_proposers C)) < card (tss_signer_set C S d1) + card (tss_signer_set C S d2)"
    using d(1,3) assms(3) by (simp add: tss_certified_card)
  moreover have "tss_signer_set C S d \<subseteq> set (tc_nodes C)" for d by (auto simp: tss_signer_set_def)
  ultimately obtain q where "q \<in> tss_signer_set C S d1" "q \<in> tss_signer_set C S d2" "q \<notin> set (tc_byz C) \<union> set (tc_proposers C)"
    using common_voter_outside [of "set (tc_nodes C)" "tss_signer_set C S d1" "tss_signer_set C S d2"] by (metis List.finite_set finite_Un)
  then have "(q, d1) \<in> set (ts_sigs S)" "(q, d2) \<in> set (ts_sigs S)" "q \<notin> set (tc_proposers C)" by (auto simp: tss_signer_set_def)
  then obtain s where "signed_ok s d1" "signed_ok s d2" using ok unfolding cluster_ok_def by (metis option.inject)
  then show ?thesis using d(2,4) by (auto simp: signed_ok_def speaks_of_def)
qed

end

end
