(* ===== verification/SBFT_Local.thy ===== *)
theory SBFT_Local
  imports SBFT Threshold
begin

text \<open>
  What one replica of SBFT or LinHybster does whatever it receives: the relation \<open>lin_later\<close> between its state before and after a step, and from it the
  laws of \<open>threshold_replica\<close>.
\<close>

subsection \<open>Hypotheses on the environment\<close>

text \<open>
  The encoder keeps index and hash of a message, up to the difference of the nil and the empty slice; commands can be encoded; SHA-256 has no collisions, and its
  values are not empty.
\<close>

definition lin_env_ok :: "LinMessage_Type lin_env \<Rightarrow> bool" where
  "lin_env_ok E \<longleftrightarrow> encodes_commands E \<and> (\<forall>b. env_sha256 E b \<noteq> []) \<and> inj (env_sha256 E)
     \<and> (\<forall>m. \<exists>m'. env_unmarshalLin E (lin_marshall E m) = Some (LinWire_Normal m')
          \<and> lm_Index m' = lm_Index m \<and> sbytes (lm_CommandHash m') = sbytes (lm_CommandHash m))"

definition lin_share :: "LinMessage_Type lin_env \<Rightarrow> u64 \<Rightarrow> u64 \<Rightarrow> bytes \<Rightarrow> bytes" where
  "lin_share E v i h = env_sha256 E (lin_marshall E
     \<lparr>lm_View = v, lm_Index = i, lm_Type = LMT_SignShare, lm_Command = None, lm_CommandHash = Some h\<rparr>)"

lemma lin_share_content:
  assumes "lin_env_ok E" "env_sha256 E content = lin_share E v i h" "env_unmarshalLin E content = Some (LinWire_Normal m)"
  shows "lm_Index m = i \<and> sbytes (lm_CommandHash m) = h"
proof -
  let ?m = "\<lparr>lm_View = v, lm_Index = i, lm_Type = LMT_SignShare, lm_Command = None, lm_CommandHash = Some h\<rparr>"
  have "content = lin_marshall E ?m" using assms(1,2) by (auto simp: lin_env_ok_def lin_share_def dest: injD)
  moreover obtain m' where "env_unmarshalLin E (lin_marshall E ?m) = Some (LinWire_Normal m')"
    "lm_Index m' = lm_Index ?m" "sbytes (lm_CommandHash m') = sbytes (lm_CommandHash ?m)"
    using assms(1) unfolding lin_env_ok_def by blast
  ultimately show ?thesis using assms(3) by simp
qed

lemma lin_share_marshall:
  assumes "lin_env_ok E" "env_sha256 E (lin_marshall E m) = lin_share E v i h"
  shows "lm_Index m = i \<and> sbytes (lm_CommandHash m) = h"
proof -
  obtain m' where m': "env_unmarshalLin E (lin_marshall E m) = Some (LinWire_Normal m')"
    "lm_Index m' = lm_Index m" "sbytes (lm_CommandHash m') = sbytes (lm_CommandHash m)"
    using assms(1) unfolding lin_env_ok_def by blast
  show ?thesis using lin_share_content [OF assms m'(1)] m'(2,3) by simp
qed

subsection \<open>A later state\<close>

definition li_committed :: "lin_instance \<Rightarrow> bool" where
  "li_committed inst \<longleftrightarrow> li_Status inst = LS_Committed \<or> li_Status inst = LS_Executed"

fun job_commits :: "lin_job \<Rightarrow> u64 \<Rightarrow> nat \<Rightarrow> bool" where
  "job_commits (SignJob _ _) idx ptr \<longleftrightarrow> False"
| "job_commits (AggJob _ _ _ i p) idx ptr \<longleftrightarrow> i = idx \<and> p = ptr"
| "job_commits (VerifyJob _ _ i p) idx ptr \<longleftrightarrow> i = idx \<and> p = ptr"

fun job_digest :: "LinMessage_Type lin_env \<Rightarrow> lin_job \<Rightarrow> bytes" where
  "job_digest E (SignJob mBytes _) = env_sha256 E mBytes"
| "job_digest E (AggJob content _ _ _ _) = env_sha256 E content"
| "job_digest E (VerifyJob mBytes _ _ _) = env_sha256 E mBytes"

text \<open>An instance keeps its number and index, and a hash it has; it becomes committed only through a job of \<open>K\<close>.\<close>

definition inst_later :: "lin_job set \<Rightarrow> u64 \<Rightarrow> lin_instance \<Rightarrow> lin_instance \<Rightarrow> bool" where
  "inst_later K idx inst inst' \<longleftrightarrow> li_ptr inst' = li_ptr inst \<and> li_Index inst' = li_Index inst
     \<and> (\<forall>h. li_CommandHash inst = Some h \<longrightarrow> li_CommandHash inst' = Some h)
     \<and> (li_committed inst' \<longrightarrow> li_committed inst \<or> (\<exists>j \<in> K. job_commits j idx (li_ptr inst)))"

definition inst_new :: "lin_job set \<Rightarrow> u64 \<Rightarrow> nat \<Rightarrow> nat \<Rightarrow> lin_instance \<Rightarrow> bool" where
  "inst_new K idx a a' inst \<longleftrightarrow> li_Index inst = idx \<and> a \<le> li_ptr inst \<and> li_ptr inst < a'
     \<and> (li_committed inst \<longrightarrow> (\<exists>j \<in> K. job_commits j idx (li_ptr inst)))"

text \<open>What a job is about: a share of an accepted hash, or a certificate for the hash of the instance it commits.\<close>

definition commit_job_ok :: "LinMessage_Type lin_env \<Rightarrow> 'z lin_replica \<Rightarrow> lin_job \<Rightarrow> bool" where
  "commit_job_ok E s j \<longleftrightarrow> (\<forall>idx ptr. job_commits j idx ptr \<longrightarrow> ptr < ln_alloc s
     \<and> (\<forall>inst h. fmlookup (ln_log s) idx = Some inst \<longrightarrow> li_ptr inst = ptr \<longrightarrow> li_CommandHash inst = None \<or> li_CommandHash inst = Some h \<longrightarrow>
          speaks_of (lin_share E) (job_digest E j) idx h))"

definition lin_pledge :: "'z lin_replica \<Rightarrow> u64 \<Rightarrow> bytes option" where
  "lin_pledge s i = (case fmlookup (ln_log s) i of None \<Rightarrow> None | Some inst \<Rightarrow> li_CommandHash inst)"

definition sign_job_ok :: "LinMessage_Type lin_env \<Rightarrow> 'z lin_replica \<Rightarrow> lin_job \<Rightarrow> bool" where
  "sign_job_ok E s j \<longleftrightarrow> (\<forall>mBytes to. j = SignJob mBytes to \<longrightarrow>
     (\<exists>v i h. h \<noteq> [] \<and> env_sha256 E mBytes = lin_share E v i h \<and> lin_pledge s i = Some h))"

definition lin_later :: "LinMessage_Type lin_env \<Rightarrow> lin_job set \<Rightarrow> 'z lin_replica \<Rightarrow> 'z lin_replica \<Rightarrow> bool" where
  "lin_later E K s s' \<longleftrightarrow> ln_alloc s \<le> ln_alloc s'
     \<and> (\<forall>idx inst. fmlookup (ln_log s) idx = Some inst \<longrightarrow> (\<exists>inst'. fmlookup (ln_log s') idx = Some inst' \<and> inst_later K idx inst inst'))
     \<and> (\<forall>idx inst'. fmlookup (ln_log s) idx = None \<longrightarrow> fmlookup (ln_log s') idx = Some inst' \<longrightarrow> inst_new K idx (ln_alloc s) (ln_alloc s') inst')
     \<and> (\<forall>j \<in> pools_pending (ln_pools s'). j \<in> pools_pending (ln_pools s) \<or> commit_job_ok E s' j \<and> sign_job_ok E s' j)
     \<and> pools_results (ln_pools s') \<subseteq> pools_results (ln_pools s)"

definition lin_inv :: "LinMessage_Type lin_env \<Rightarrow> 'z lin_replica \<Rightarrow> bool" where
  "lin_inv E s \<longleftrightarrow> (\<forall>idx inst. fmlookup (ln_log s) idx = Some inst \<longrightarrow> li_Index inst = idx \<and> li_ptr inst < ln_alloc s)
     \<and> (\<forall>j \<in> pools_pending (ln_pools s). commit_job_ok E s j)"

lemma inst_later_refl [simp]: "inst_later K idx inst inst"
  by (simp add: inst_later_def)

lemma inst_later_trans: "inst_later K idx a b \<Longrightarrow> inst_later K idx b c \<Longrightarrow> inst_later K idx a c"
  by (auto simp: inst_later_def)

lemma inst_new_later: "inst_new K idx a a' i \<Longrightarrow> inst_later K idx i i' \<Longrightarrow> a' \<le> a'' \<Longrightarrow> inst_new K idx a a'' i'"
  by (auto simp: inst_new_def inst_later_def)

lemma lin_later_lookup:
  assumes "lin_later E K s s'" "fmlookup (ln_log s) idx = Some inst"
  obtains inst' where "fmlookup (ln_log s') idx = Some inst'" "inst_later K idx inst inst'"
  using assms unfolding lin_later_def by blast

lemma lin_later_new:
  assumes "lin_later E K s s'" "fmlookup (ln_log s) idx = None" "fmlookup (ln_log s') idx = Some inst'"
  shows "inst_new K idx (ln_alloc s) (ln_alloc s') inst'"
  using assms unfolding lin_later_def by blast

lemma lin_later_alloc: "lin_later E K s s' \<Longrightarrow> ln_alloc s \<le> ln_alloc s'"
  by (simp add: lin_later_def)

lemma lin_later_pledge: "lin_later E K s s' \<Longrightarrow> lin_pledge s i = Some h \<Longrightarrow> lin_pledge s' i = Some h"
  by (auto simp: lin_pledge_def inst_later_def elim!: lin_later_lookup split: option.splits)

lemma sign_job_ok_later: "lin_later E K s s' \<Longrightarrow> sign_job_ok E s j \<Longrightarrow> sign_job_ok E s' j"
  unfolding sign_job_ok_def by (blast intro: lin_later_pledge)

lemma commit_job_ok_later:
  assumes "lin_later E K s s'" "commit_job_ok E s j"
  shows "commit_job_ok E s' j"
  unfolding commit_job_ok_def
proof (intro allI impI conjI)
  fix idx ptr assume c: "job_commits j idx ptr"
  then have ptr: "ptr < ln_alloc s" using assms(2) by (simp add: commit_job_ok_def)
  then show "ptr < ln_alloc s'" using lin_later_alloc [OF assms(1)] by simp
  fix inst' h
  assume i': "fmlookup (ln_log s') idx = Some inst'" "li_ptr inst' = ptr" "li_CommandHash inst' = None \<or> li_CommandHash inst' = Some h"
  show "speaks_of (lin_share E) (job_digest E j) idx h"
  proof (cases "fmlookup (ln_log s) idx")
    case None
    from lin_later_new [OF assms(1) this i'(1)] ptr i'(2) show ?thesis by (simp add: inst_new_def)
  next
    case (Some inst)
    then obtain inst'' where "fmlookup (ln_log s') idx = Some inst''" "inst_later K idx inst inst''" by (rule lin_later_lookup [OF assms(1)])
    with i' have "li_ptr inst = ptr" "li_CommandHash inst = None \<or> li_CommandHash inst = Some h"
      by (auto simp: inst_later_def) (metis not_None_eq option.inject)+
    with Some assms(2) c show ?thesis by (auto simp: commit_job_ok_def)
  qed
qed

lemma lin_later_trans:
  assumes "lin_later E K s s1" "lin_later E K s1 s2"
  shows "lin_later E K s s2"
  unfolding lin_later_def
proof (intro conjI allI impI ballI)
  show "ln_alloc s \<le> ln_alloc s2" using assms [THEN lin_later_alloc] by simp
  show "\<exists>inst'. fmlookup (ln_log s2) idx = Some inst' \<and> inst_later K idx inst inst'" if "fmlookup (ln_log s) idx = Some inst" for idx inst
    using that by (meson assms inst_later_trans lin_later_lookup)
  show "inst_new K idx (ln_alloc s) (ln_alloc s2) inst'"
    if n: "fmlookup (ln_log s) idx = None" "fmlookup (ln_log s2) idx = Some inst'" for idx inst'
  proof (cases "fmlookup (ln_log s1) idx")
    case None
    from lin_later_new [OF assms(2) None n(2)] lin_later_alloc [OF assms(1)] show ?thesis by (auto simp: inst_new_def)
  next
    case (Some i)
    with n(2) have "inst_later K idx i inst'" using lin_later_lookup [OF assms(2) Some] by auto
    with lin_later_new [OF assms(1) n(1) Some] show ?thesis using inst_new_later lin_later_alloc [OF assms(2)] by blast
  qed
  show "j \<in> pools_pending (ln_pools s) \<or> commit_job_ok E s2 j \<and> sign_job_ok E s2 j" if "j \<in> pools_pending (ln_pools s2)" for j
    using that assms commit_job_ok_later [OF assms(2)] sign_job_ok_later [OF assms(2)] unfolding lin_later_def by blast
  show "pools_results (ln_pools s2) \<subseteq> pools_results (ln_pools s)" using assms unfolding lin_later_def by blast
qed

subsection \<open>The operations\<close>

lemma lin_later_frame [simp]:
  "lin_later E K s (s'\<lparr>ln_msgs := x\<rparr>) = lin_later E K s s'" "lin_later E K s (s'\<lparr>ln_executedCmds := p\<rparr>) = lin_later E K s s'"
  "lin_later E K s (s'\<lparr>ln_rQuorum := q\<rparr>) = lin_later E K s s'" "lin_later E K s (s'\<lparr>ln_timers := t\<rparr>) = lin_later E K s s'"
  "lin_later E K s (s'\<lparr>ln_execIdx := i\<rparr>) = lin_later E K s s'" "lin_later E K s (s'\<lparr>ln_index := i\<rparr>) = lin_later E K s s'"
  by (simp_all add: lin_later_def commit_job_ok_def sign_job_ok_def lin_pledge_def)

lemma later_refl [simp]: "lin_later E K s s"
  by (simp add: lin_later_def)

lemma later_enqueue [simp]: "lin_later E K s (lin_enqueueForSending to mm c s') = lin_later E K s s'"
  by (simp add: lin_enqueueForSending_def)

lemma later_sendTo [simp]: "lin_later E K s (lin_sendTo to mm c s') = lin_later E K s s'"
  by (simp add: lin_sendTo_def)

lemma lin_later_broadcast [simp]: "lin_later E K s (lin_broadcast mm b c s') = lin_later E K s s'"
proof -
  have "lin_later E K s (fold (\<lambda>node s'. if b \<or> node \<noteq> ln_id s' then lin_enqueueForSending node mm c s' else s') ns s')
    = lin_later E K s s'" for ns
    by (induction ns arbitrary: s') simp_all
  then show ?thesis by (simp add: lin_broadcast_def)
qed

lemma later_deliver [simp]: "lin_later E K s (lin_deliver pkt s') = lin_later E K s s'"
  by (simp add: lin_deliver_def)

lemma lin_later_put:
  assumes "lin_later E K s s'" "fmlookup (ln_log s') idx = Some inst" "inst_later K idx inst inst'"
  shows "lin_later E K s (lin_put idx inst' s')"
proof (rule lin_later_trans [OF assms(1)])
  show "lin_later E K s' (lin_put idx inst' s')"
    using assms(2,3) by (auto simp: lin_later_def lin_put_def)
qed

lemma later_alloc:
  assumes "lin_later E K s s'" "fmlookup (ln_log s') idx = None" "inst_new K idx (ln_alloc s') (Suc (ln_alloc s')) inst"
  shows "lin_later E K s ((lin_put idx inst s')\<lparr>ln_alloc := Suc (ln_alloc s')\<rparr>)"
proof (rule lin_later_trans [OF assms(1)])
  show "lin_later E K s' ((lin_put idx inst s')\<lparr>ln_alloc := Suc (ln_alloc s')\<rparr>)"
    using assms(2,3) by (auto simp: lin_later_def lin_put_def split: if_splits)
qed

lemma lin_later_Exec:
  assumes "lin_later E K s s'" "commit_job_ok E s' j" "sign_job_ok E s' j"
  shows "lin_later E K s (lin_Exec w j s')"
proof (rule lin_later_trans [OF assms(1)])
  show "lin_later E K s' (lin_Exec w j s')"
    using assms(2,3) by (auto simp: lin_later_def lin_Exec_def commit_job_ok_def sign_job_ok_def lin_pledge_def)
qed

lemma lin_later_exec:
  assumes "lin_later E K s s'"
  shows "lin_later E K s (lin_exec s')"
  using assms
proof (induction s' rule: lin_exec.induct)
  case (1 s')
  show ?case
  proof (cases "\<exists>inst cmd. fmlookup (ln_log s') (ln_execIdx s') = Some inst \<and> lin_IsCommitted inst \<and> li_Command inst = Some cmd")
    case True
    then obtain inst cmd where c: "fmlookup (ln_log s') (ln_execIdx s') = Some inst" "lin_IsCommitted inst" "li_Command inst = Some cmd" by blast
    have "lin_later E K s (lin_execute_one inst cmd s')"
      using 1(2) c unfolding lin_execute_one_def
      by (intro lin_later_put) (auto simp: lin_Execute_def lin_deliver_def inst_later_def lin_IsCommitted_def li_committed_def)
    with 1(1) c show ?thesis by (subst lin_exec.simps) simp
  next
    case False
    then have "lin_exec s' = s'" by (subst lin_exec.simps) (auto split: option.split)
    with 1(2) show ?thesis by simp
  qed
qed

lemma later_setCommitted:
  assumes "lin_later E K s s'" "j \<in> K" "job_commits j idx ptr"
  shows "lin_later E K s (lin_setCommitted idx ptr s')"
  using assms by (auto simp: lin_setCommitted_def inst_later_def split: option.splits intro!: lin_later_put)

text \<open>The head of the handlers: the instance in the log has the hash of the message.\<close>

definition hash_matches :: "LinMessage_Type LinMessage \<Rightarrow> lin_instance \<Rightarrow> bool" where
  "hash_matches m inst \<longleftrightarrow> sbytes (li_CommandHash inst) = sbytes (lm_CommandHash m) \<and> (li_CommandHash inst = None \<longrightarrow> lm_CommandHash m = None)"

lemma updateCommandHash_later:
  "lin_updateCommandHash inst m = Inr inst' \<Longrightarrow> inst_later {} idx inst inst' \<and> hash_matches m inst'"
  by (auto simp: lin_updateCommandHash_def inst_later_def hash_matches_def bytes_Equal_def li_committed_def split: if_splits)

lemma updateBoth_later:
  "lin_updateBoth m inst = Inr inst' \<Longrightarrow> inst_later {} idx inst inst' \<and> hash_matches m inst'"
  by (auto simp: lin_updateBoth_def lin_updateCommand_def inst_later_def li_committed_def go_simps
      dest!: updateCommandHash_later [where idx = idx] split: if_splits)

lemma getInstance_later:
  assumes "lin_getInstance upd m s = Inr (inst, s')" "\<And>i i'. upd i = Inr i' \<Longrightarrow> inst_later {} (lm_Index m) i i' \<and> hash_matches m i'"
  shows "lin_later E {} s s'" "fmlookup (ln_log s') (lm_Index m) = Some inst" "hash_matches m inst"
proof -
  show "lin_later E {} s s'"
  proof (cases "fmlookup (ln_log s) (lm_Index m)")
    case None
    with assms(1) have "s' = (lin_put (lm_Index m) inst s)\<lparr>ln_alloc := Suc (ln_alloc s)\<rparr>" "inst = lin_makeInstance (ln_alloc s) m"
      by (auto simp: lin_getInstance_def Let_def)
    then show ?thesis using later_alloc [OF later_refl None] by (simp add: inst_new_def lin_makeInstance_def li_committed_def)
  next
    case (Some i)
    with assms show ?thesis by (auto simp: lin_getInstance_def go_simps intro!: lin_later_put)
  qed
  show "fmlookup (ln_log s') (lm_Index m) = Some inst" "hash_matches m inst"
    using assms by (auto simp: lin_getInstance_def Let_def go_simps lin_put_def lin_makeInstance_def hash_matches_def split: option.splits)
qed

lemma getHash_later:
  assumes "lin_getInstance (\<lambda>inst. lin_updateCommandHash inst m) m s = Inr (inst, s')"
  shows "lin_later E {} s s'" "fmlookup (ln_log s') (lm_Index m) = Some inst" "hash_matches m inst"
  using getInstance_later [OF assms updateCommandHash_later] by auto

lemma getBoth_later:
  assumes "lin_getInstance (lin_updateBoth m) m s = Inr (inst, s')"
  shows "lin_later E {} s s'" "fmlookup (ln_log s') (lm_Index m) = Some inst" "hash_matches m inst"
  using getInstance_later [OF assms updateBoth_later] by auto

subsection \<open>The handlers\<close>

lemma share_sign_job_ok:
  assumes "fmlookup (ln_log s) idx = Some inst" "li_Index inst = idx" "li_CommandHash inst = Some h" "h \<noteq> []"
  shows "sign_job_ok E s (SignJob (lin_marshall E (lin_shareOf inst)) to)" "commit_job_ok E s (SignJob (lin_marshall E (lin_shareOf inst)) to)"
proof -
  have "env_sha256 E (lin_marshall E (lin_shareOf inst)) = lin_share E (li_View inst) idx h" "lin_pledge s idx = Some h"
    using assms(1-3) by (simp_all add: lin_shareOf_def lin_share_def lin_pledge_def)
  with assms(4) show "sign_job_ok E s (SignJob (lin_marshall E (lin_shareOf inst)) to)" unfolding sign_job_ok_def by blast
  show "commit_job_ok E s (SignJob (lin_marshall E (lin_shareOf inst)) to)" by (simp add: commit_job_ok_def)
qed

lemma commit_job_okI:
  assumes "lin_env_ok E" "lin_inv E s" "fmlookup (ln_log s) (lm_Index m) = Some inst" "hash_matches m inst"
    and "\<And>v i h. job_digest E j = lin_share E v i h \<Longrightarrow> lm_Index m = i \<and> sbytes (lm_CommandHash m) = h"
    and "\<And>idx ptr. job_commits j idx ptr \<Longrightarrow> idx = lm_Index m \<and> ptr = li_ptr inst"
  shows "commit_job_ok E s j"
  unfolding commit_job_ok_def
proof (intro allI impI conjI)
  fix idx ptr assume c: "job_commits j idx ptr"
  then have idx: "idx = lm_Index m" "ptr = li_ptr inst" using assms(6) by blast+
  then show "ptr < ln_alloc s" using assms(2,3) by (simp add: lin_inv_def)
  fix inst' h assume "fmlookup (ln_log s) idx = Some inst'" "li_CommandHash inst' = None \<or> li_CommandHash inst' = Some h"
  then have h: "li_CommandHash inst = None \<or> li_CommandHash inst = Some h" using assms(3) idx by simp
  show "speaks_of (lin_share E) (job_digest E j) idx h"
    unfolding speaks_of_def
  proof (intro allI impI)
    fix v i' h' assume "h' \<noteq> []" "job_digest E j = lin_share E v i' h'"
    with assms(5) have "lm_Index m = i'" "sbytes (lm_CommandHash m) = h'" by blast+
    with h \<open>h' \<noteq> []\<close> assms(4) idx(1) show "i' = idx \<and> h' = h" by (auto simp: hash_matches_def)
  qed
qed

lemma lin_inv_later: "lin_later E K s s' \<Longrightarrow> lin_inv E s \<Longrightarrow> lin_inv E s'"
proof -
  assume l: "lin_later E K s s'" and inv: "lin_inv E s"
  have "li_Index inst' = idx \<and> li_ptr inst' < ln_alloc s'" if i': "fmlookup (ln_log s') idx = Some inst'" for idx inst'
  proof (cases "fmlookup (ln_log s) idx")
    case None
    from lin_later_new [OF l None i'] show ?thesis by (simp add: inst_new_def)
  next
    case (Some inst)
    then have "inst_later K idx inst inst'" using i' lin_later_lookup [OF l Some] by auto
    with inv Some lin_later_alloc [OF l] show ?thesis by (auto simp: lin_inv_def inst_later_def intro: less_le_trans)
  qed
  moreover have "commit_job_ok E s' j" if "j \<in> pools_pending (ln_pools s')" for j
    using that l inv commit_job_ok_later [OF l] unfolding lin_later_def lin_inv_def by blast
  ultimately show ?thesis by (simp add: lin_inv_def)
qed

lemma prepare_later:
  assumes E: "lin_env_ok E" and inv: "lin_inv E s" and hash: "Hash_ptr E (lm_Command m0) = Inr h"
    and get: "lin_getInstance (lin_updateBoth (m0\<lparr>lm_CommandHash := h\<rparr>)) (m0\<lparr>lm_CommandHash := h\<rparr>) s = Inr (inst, s1)"
    and st: "inst1 = inst\<lparr>li_Status := LS_Prepared\<rparr>"
  shows "lin_later E {} s (lin_Exec SignPool (SignJob (lin_marshall E (lin_shareOf inst1)) from) (lin_put (lm_Index m0) inst1 s1))"
proof -
  let ?m = "m0\<lparr>lm_CommandHash := h\<rparr>"
  note g = getBoth_later(1) [OF get, where E = E] getBoth_later(2,3) [OF get, simplified]
  obtain c where c: "h = Command_Hash E c" using hash by (auto simp: Hash_ptr_Inr)
  have h: "h \<noteq> None" using E by (simp add: c lin_env_ok_def Hash_not_nil)
  moreover from this have "sbytes h \<noteq> []" using E by (auto simp: c Command_Hash_def lin_env_ok_def split: option.splits)
  ultimately obtain b where b: "li_CommandHash inst1 = Some b" "b \<noteq> []" using g(3) by (auto simp: hash_matches_def st)
  have "lin_inv E s1" using lin_inv_later [OF g(1) inv] .
  then have idx: "li_Index inst1 = lm_Index m0" using g(2) by (simp add: lin_inv_def st)
  have "lin_later E {} s (lin_put (lm_Index m0) inst1 s1)"
    by (rule lin_later_put [OF g(1,2)]) (simp add: st inst_later_def li_committed_def)
  moreover have "fmlookup (ln_log (lin_put (lm_Index m0) inst1 s1)) (lm_Index m0) = Some inst1" by (simp add: lin_put_def)
  ultimately show ?thesis using share_sign_job_ok [OF _ idx b] by (intro lin_later_Exec)
qed

lemma onPrepare_later:
  assumes "lin_env_ok E" "lin_inv E s"
  shows "sbft_onPrepare E m from s = Inr s' \<Longrightarrow> lin_later E {} s s'" "lh_onPrepare E m from s = Inr s' \<Longrightarrow> lin_later E {} s s'"
proof -
  note l = prepare_later [OF assms, where ?m0.0 = m]
  show "sbft_onPrepare E m from s = Inr s' \<Longrightarrow> lin_later E {} s s'"
    unfolding sbft_onPrepare_def Let_def
    by (elim go_bindE, clarsimp split: if_splits) (rule lin_later_exec, erule getBoth_later(1), drule sym, simp, erule (1) l [OF _ _ refl])
  show "lh_onPrepare E m from s = Inr s' \<Longrightarrow> lin_later E {} s s'"
    unfolding lh_onPrepare_def Let_def by (elim go_bindE) (auto intro: l)
qed

lemma onSignShare_later:
  assumes E: "lin_env_ok E" and inv: "lin_inv E s" and c: "env_unmarshalLin E content = Some (LinWire_Normal m)"
    and res: "lin_onSignShare E thr m from sign content s = Inr s'"
  shows "lin_later E {} s s'"
proof -
  from res obtain inst s1 cc where get: "lin_getInstance (\<lambda>inst. lin_updateCommandHash inst m) m s = Inr (inst, s1)"
    and s': "s' = lin_afterShare E thr m content (inst\<lparr>li_cCert := cc\<rparr>) s1"
    by (auto simp: lin_onSignShare_def go_simps)
  note g = getHash_later(1) [OF get, where E = E] getHash_later(2,3) [OF get]
  let ?i1 = "inst\<lparr>li_cCert := cc, li_Status := LS_SignShared\<rparr>"
  let ?s2 = "lin_put (lm_Index m) ?i1 s1"
  have l: "lin_later E {} s ?s2" by (rule lin_later_put [OF g(1,2)]) (simp add: inst_later_def li_committed_def)
  have inv2: "lin_inv E ?s2" using lin_inv_later [OF l inv] .
  have look: "fmlookup (ln_log ?s2) (lm_Index m) = Some ?i1" "hash_matches m ?i1" using g(3) by (simp_all add: lin_put_def hash_matches_def)
  have "commit_job_ok E ?s2 (AggJob content sigs mB (lm_Index m) (li_ptr inst))" for sigs mB
    by (rule commit_job_okI [OF E inv2 look]) (use lin_share_content [OF E _ c] in auto)
  then have "lin_later E {} s (lin_Exec AggPool (AggJob content sigs mB (lm_Index m) (li_ptr inst)) ?s2)" for sigs mB
    using l by (intro lin_later_Exec) (simp_all add: sign_job_ok_def)
  moreover have "lin_later E {} s (lin_put (lm_Index m) (inst\<lparr>li_cCert := cc\<rparr>) s1)"
    by (rule lin_later_put [OF g(1,2)]) (simp add: inst_later_def li_committed_def)
  ultimately show ?thesis by (simp add: s' lin_afterShare_def Let_def split: prod.splits)
qed

lemma verify_later:
  assumes E: "lin_env_ok E" and inv: "lin_inv E s" and get: "lin_getInstance (\<lambda>inst. lin_updateCommandHash inst m) m s = Inr (inst, s1)"
  shows "lin_later E {} s (lin_Exec VerifyPool (VerifyJob (lin_marshall E (m\<lparr>lm_Type := LMT_SignShare\<rparr>)) sign (lm_Index m) (li_ptr inst)) s1)"
proof -
  note g = getHash_later(1) [OF get, where E = E] getHash_later(2,3) [OF get]
  have "commit_job_ok E s1 (VerifyJob (lin_marshall E (m\<lparr>lm_Type := LMT_SignShare\<rparr>)) sign (lm_Index m) (li_ptr inst))"
    by (rule commit_job_okI [OF E lin_inv_later [OF g(1) inv] g(2,3)]) (use lin_share_marshall [OF E] in force)+
  then show ?thesis using g(1) by (intro lin_later_Exec) (simp_all add: sign_job_ok_def)
qed

lemma onCommit_later:
  assumes "lin_env_ok E" "lin_inv E s"
  shows "sbft_onCommit E m sign s = Inr s' \<Longrightarrow> lin_later E {} s s'" "lh_onCommit E m sign s = Inr s' \<Longrightarrow> lin_later E {} s s'"
proof -
  show "sbft_onCommit E m sign s = Inr s' \<Longrightarrow> lin_later E {} s s'"
    unfolding sbft_onCommit_def
    by (elim go_bindE, clarsimp split: if_splits) (rule lin_later_exec, erule getHash_later(1), drule sym, simp, erule verify_later [OF assms])
  show "lh_onCommit E m sign s = Inr s' \<Longrightarrow> lin_later E {} s s'"
    unfolding lh_onCommit_def
    by (elim go_bindE) (auto intro: verify_later [OF assms] lin_later_exec getHash_later(1) split: if_splits)
qed

lemma sbft_stepResult_later: "sbft_stepResult m from s = Inr s' \<Longrightarrow> lin_later E K s s'"
  by (auto simp: sbft_stepResult_def Let_def go_simps)

lemma callback_later:
  assumes "lin_later E K s s'" "lin_callback j b s' = Inr s''" "j \<in> K"
  shows "lin_later E K s s''"
  using assms by (cases j) (auto simp: lin_callback_def intro!: lin_later_exec later_setCommitted [of E K s _ j])

lemma AsyncCallback_later:
  assumes "lin_AsyncCallback lin_callback s = Inr s'"
  shows "lin_later E (fst ` pools_results (ln_pools s)) s s'"
proof -
  obtain cbs ps where d: "pools_drain (ln_pools s) = (cbs, ps)" by force
  let ?K = "fst ` pools_results (ln_pools s)"
  have "go_fold (\<lambda>(j, r) s'. go_bind r (\<lambda>b. lin_callback j b s')) cbs (s\<lparr>ln_pools := ps\<rparr>) = Inr s'"
    using assms by (simp add: lin_AsyncCallback_def d)
  then show ?thesis
  proof (rule go_fold_invariant [where I = "lin_later E ?K s"])
    show "lin_later E ?K s (s\<lparr>ln_pools := ps\<rparr>)"
      using pools_drain_sets [OF d] by (auto simp: lin_later_def)
    show "lin_later E ?K s t'" if x: "x \<in> set cbs" and t: "lin_later E ?K s t"
      and res: "(case x of (j, r) \<Rightarrow> \<lambda>s'. go_bind r (\<lambda>b. lin_callback j b s')) t = Inr t'" for x t t'
    proof -
      have "fst x \<in> ?K" using x pools_drain_sets(1) [OF d] by auto
      then show ?thesis using res t by (auto simp: go_simps split: prod.splits dest: callback_later)
    qed
  qed
qed

subsection \<open>The replica as a node of a cluster\<close>

text \<open>
  The actions of a replica: the entry points that the peer calls, with any argument, and the threads of the pools. A worker that panics ends the process.
\<close>

datatype lin_act =
    LStep Message | LRequest Command | LTick | LCallback ExecCallback | LAsync | LClearMsgs | LClearCommands
  | LTake pool_id | LAssign pool_id | LFinish pool_id nat

fun lin_do :: "LinMessage_Type lin_env \<Rightarrow> 'z lin_replica Protocol \<Rightarrow> lin_act \<Rightarrow> 'z lin_replica \<Rightarrow> 'z lin_replica go option" where
  "lin_do E P (LStep m) s = Some (pr_Step P m s)"
| "lin_do E P (LRequest c) s = Some (pr_Request P c s)"
| "lin_do E P LTick s = Some (pr_Tick P s)"
| "lin_do E P (LCallback cb) s = Some (pr_Callback P cb s)"
| "lin_do E P LAsync s = Some (pr_AsyncCallback P s)"
| "lin_do E P LClearMsgs s = Some (Inr (pr_ClearMsgs P s))"
| "lin_do E P LClearCommands s = Some (Inr (pr_ClearExecutedCommands P s))"
| "lin_do E P (LTake w) s = map_option (\<lambda>ps. Inr (s\<lparr>ln_pools := ps\<rparr>)) (pools_take w (ln_pools s))"
| "lin_do E P (LAssign w) s = map_option (\<lambda>ps. Inr (s\<lparr>ln_pools := ps\<rparr>)) (pools_assign w (ln_pools s))"
| "lin_do E P (LFinish w i) s =
     (case running_job w i (ln_pools s) of
        None \<Rightarrow> None
      | Some j \<Rightarrow> (case lin_work E (ln_id s) j of
            Inl e \<Rightarrow> Some (Inl e)
          | Inr b \<Rightarrow> map_option (\<lambda>ps. Inr (s\<lparr>ln_pools := ps\<rparr>)) (pools_finish w i (Inr b) (ln_pools s))))"

text \<open>The job that a worker finishes in an action, when it does not panic.\<close>

fun lin_finished :: "LinMessage_Type lin_env \<Rightarrow> lin_act \<Rightarrow> 'z lin_replica \<Rightarrow> lin_job option" where
  "lin_finished E (LFinish w i) s =
     (case running_job w i (ln_pools s) of None \<Rightarrow> None | Some j \<Rightarrow> if go_ok (lin_work E (ln_id s) j) then Some j else None)"
| "lin_finished E _ s = None"

fun is_sign_job :: "lin_job \<Rightarrow> bool" where
  "is_sign_job (SignJob _ _) = True"
| "is_sign_job _ = False"

definition lin_node :: "LinMessage_Type lin_env \<Rightarrow> 'z lin_replica Protocol \<Rightarrow> (lin_act, 'z lin_replica) tss_node" where
  "lin_node E P =
     \<lparr>tn_act = lin_do E P,
      tn_signs = (\<lambda>a s. case lin_finished E a s of Some j \<Rightarrow> if is_sign_job j then Some (job_digest E j) else None | None \<Rightarrow> None),
      tn_checks = (\<lambda>a s. case lin_finished E a s of Some j \<Rightarrow> if is_sign_job j then None else Some (job_digest E j) | None \<Rightarrow> None),
      tn_proposes = (\<lambda>a. case a of LRequest _ \<Rightarrow> True | _ \<Rightarrow> False)\<rparr>"

definition lin_to_sign :: "LinMessage_Type lin_env \<Rightarrow> 'z lin_replica \<Rightarrow> bytes set" where
  "lin_to_sign E s = job_digest E ` {j \<in> pools_pending (ln_pools s). is_sign_job j}"

definition lin_evidence :: "LinMessage_Type lin_env \<Rightarrow> 'z lin_replica \<Rightarrow> bytes set" where
  "lin_evidence E s = job_digest E ` {j \<in> fst ` pools_results (ln_pools s). \<not> is_sign_job j}"

text \<open>An instance without a hash counts as a decision for every hash; agreement shows that there is none.\<close>

definition lin_decided :: "'z lin_replica \<Rightarrow> (u64 \<times> bytes) set" where
  "lin_decided s = {(i, h). \<exists>inst. fmlookup (ln_log s) i = Some inst \<and> li_committed inst \<and> (li_CommandHash inst = None \<or> li_CommandHash inst = Some h)}"

subsection \<open>A later state obeys the laws\<close>

lemma sign_job_cases: "is_sign_job j \<Longrightarrow> \<exists>mB to. j = SignJob mB to"
  by (cases j) auto

lemma later_to_sign:
  assumes "lin_later E K s s'" "d \<in> lin_to_sign E s'"
  shows "d \<in> lin_to_sign E s \<or> (\<exists>v i h. h \<noteq> [] \<and> d = lin_share E v i h \<and> lin_pledge s' i = Some h)"
proof -
  obtain j where "d = job_digest E j" "j \<in> pools_pending (ln_pools s')" "is_sign_job j" using assms(2) by (auto simp: lin_to_sign_def)
  then obtain mB to where j: "d = env_sha256 E mB" "SignJob mB to \<in> pools_pending (ln_pools s')"
    using sign_job_cases by fastforce
  then have "SignJob mB to \<in> pools_pending (ln_pools s) \<or> sign_job_ok E s' (SignJob mB to)"
    using assms(1) unfolding lin_later_def by blast
  then show ?thesis
  proof
    assume "SignJob mB to \<in> pools_pending (ln_pools s)"
    then have "job_digest E (SignJob mB to) \<in> lin_to_sign E s" unfolding lin_to_sign_def by (intro imageI) simp
    with j(1) show ?thesis by simp
  qed (use j(1) in \<open>simp add: sign_job_ok_def\<close>)
qed

lemma later_evidence: "lin_later E K s s' \<Longrightarrow> lin_evidence E s' \<subseteq> lin_evidence E s"
  unfolding lin_later_def lin_evidence_def by (intro image_mono) blast

lemma later_decided:
  assumes l: "lin_later E K s s'" and inv: "lin_inv E s" and K: "K \<subseteq> fst ` pools_results (ln_pools s)" and d: "(i, h) \<in> lin_decided s'"
  shows "(i, h) \<in> lin_decided s \<or> (\<exists>d \<in> lin_evidence E s. speaks_of (lin_share E) d i h)"
proof -
  obtain inst' where i': "fmlookup (ln_log s') i = Some inst'" "li_committed inst'" "li_CommandHash inst' = None \<or> li_CommandHash inst' = Some h"
    using d by (auto simp: lin_decided_def)
  have job: "\<exists>d \<in> lin_evidence E s. speaks_of (lin_share E) d i h" if j: "j \<in> K" "job_commits j i (li_ptr inst')" for j
  proof -
    have "fst ` pools_results (ln_pools s) \<subseteq> pools_pending (ln_pools s)"
      by (simp add: pools_results_def pools_pending_def image_comp)
    then have pend: "j \<in> pools_pending (ln_pools s)" using j(1) K by blast
    have sign: "\<not> is_sign_job j" using j(2) by (cases j) simp_all
    from pend
    have ok: "commit_job_ok E s j" using inv by (simp add: lin_inv_def)
    have "speaks_of (lin_share E) (job_digest E j) i h"
    proof (cases "fmlookup (ln_log s) i")
      case None
      have "li_ptr inst' < ln_alloc s" using ok j(2) unfolding commit_job_ok_def by blast
      with lin_later_new [OF l None i'(1)] show ?thesis by (simp add: inst_new_def)
    next
      case (Some inst)
      then obtain inst'' where "fmlookup (ln_log s') i = Some inst''" "inst_later K i inst inst''" by (rule lin_later_lookup [OF l])
      with i' have "li_ptr inst = li_ptr inst'" "li_CommandHash inst = None \<or> li_CommandHash inst = Some h"
        by (auto simp: inst_later_def) (metis not_None_eq option.inject)+
      with Some ok j(2) show ?thesis by (auto simp: commit_job_ok_def)
    qed
    then show ?thesis using j(1) K sign by (auto simp: lin_evidence_def)
  qed
  show ?thesis
  proof (cases "fmlookup (ln_log s) i")
    case None
    from lin_later_new [OF l None i'(1)] i'(2) job show ?thesis by (auto simp: inst_new_def)
  next
    case (Some inst)
    then obtain inst'' where "fmlookup (ln_log s') i = Some inst''" "inst_later K i inst inst''" by (rule lin_later_lookup [OF l])
    with i' have later: "inst_later K i inst inst'" by simp
    show ?thesis
    proof (cases "li_committed inst")
      case True
      have "li_CommandHash inst = None \<or> li_CommandHash inst = Some h"
        using later i'(3) by (auto simp: inst_later_def) (metis not_None_eq option.inject)+
      with True Some show ?thesis by (auto simp: lin_decided_def)
    next
      case False
      with later i'(2) job show ?thesis by (auto simp: inst_later_def)
    qed
  qed
qed

text \<open>A request replaces the instance at the next index; jobs for the old one do not touch the new one.\<close>

lemma propose_facts:
  assumes inv: "lin_inv E s" and s': "s' = lin_propose E cmd s"
  shows "lin_inv E s'" "lin_to_sign E s' = lin_to_sign E s" "lin_evidence E s' = lin_evidence E s" "lin_decided s' \<subseteq> lin_decided s"
proof -
  let ?inst = "\<lparr>li_ptr = ln_alloc s, li_View = ln_view s, li_Index = ln_index s, li_Status = LS_Prepared, li_Command = Some cmd,
    li_CommandHash = None, li_cCert = fmempty\<rparr> :: lin_instance"
  have bc: "ln_log (lin_broadcast mm b c t) = ln_log t \<and> ln_alloc (lin_broadcast mm b c t) = ln_alloc t \<and> ln_pools (lin_broadcast mm b c t) = ln_pools t"
    for mm b c and t :: "'a lin_replica"
  proof -
    have "ln_log (fold (\<lambda>node s'. if b \<or> node \<noteq> ln_id s' then lin_enqueueForSending node mm c s' else s') ns t) = ln_log t
      \<and> ln_alloc (fold (\<lambda>node s'. if b \<or> node \<noteq> ln_id s' then lin_enqueueForSending node mm c s' else s') ns t) = ln_alloc t
      \<and> ln_pools (fold (\<lambda>node s'. if b \<or> node \<noteq> ln_id s' then lin_enqueueForSending node mm c s' else s') ns t) = ln_pools t" for ns
      by (induction ns arbitrary: t) (simp_all add: lin_enqueueForSending_def)
    then show ?thesis by (simp add: lin_broadcast_def)
  qed
  have f: "ln_log s' = fmupd (ln_index s) ?inst (ln_log s)" "ln_alloc s' = Suc (ln_alloc s)" "ln_pools s' = ln_pools s"
    unfolding s' by (simp_all add: lin_propose_def GetAndIncrement_def Let_def lin_put_def bc)
  have job: "commit_job_ok E s' j" if "commit_job_ok E s j" for j
    using that by (auto simp: commit_job_ok_def f less_Suc_eq split: if_splits)
  show "lin_inv E s'" using inv job by (auto simp: lin_inv_def f less_SucI)
  show "lin_to_sign E s' = lin_to_sign E s" "lin_evidence E s' = lin_evidence E s" by (simp_all add: lin_to_sign_def lin_evidence_def f)
  show "lin_decided s' \<subseteq> lin_decided s" by (auto simp: lin_decided_def f li_committed_def split: if_splits)
qed

end
