(* ===== verification/SBFT_Safety.thy ===== *)
theory SBFT_Safety
  imports SBFT_Local
begin

text \<open>
  Agreement for SBFT and LinHybster, and where it ends: with at most \<open>f\<close> Byzantine nodes correct SBFT replicas commit one hash per index, and LinHybster
  replicas do so when nodes only crash; but a share that carries a command makes a correct replica execute a command that nobody has agreed on.
\<close>

subsection \<open>The laws of a node\<close>

text \<open>What the two protocols have in common as nodes: steps other than requests lead to a later state, and a request proposes.\<close>

definition lin_protocol :: "LinMessage_Type lin_env \<Rightarrow> 'z lin_replica Protocol \<Rightarrow> bool" where
  "lin_protocol E P \<longleftrightarrow>
     (\<forall>m s s'. lin_inv E s \<longrightarrow> pr_Step P m s = Inr s' \<longrightarrow> lin_later E {} s s')
   \<and> (\<forall>s s'. pr_Tick P s = Inr s' \<longrightarrow> lin_later E {} s s')
   \<and> (\<forall>cb s s'. pr_Callback P cb s = Inr s' \<longrightarrow> lin_later E {} s s')
   \<and> (\<forall>s s'. pr_AsyncCallback P s = Inr s' \<longrightarrow> lin_later E (fst ` pools_results (ln_pools s)) s s')
   \<and> (\<forall>s. lin_later E {} s (pr_ClearMsgs P s) \<and> lin_later E {} s (pr_ClearExecutedCommands P s))
   \<and> (\<forall>c s s'. pr_Request P c s = Inr s' \<longrightarrow> (\<exists>c'. s' = lin_propose E c' s))"

lemma sbft_lin_protocol: "lin_env_ok E \<Longrightarrow> lin_protocol E (sbft_Protocol E)"
proof -
  assume E: "lin_env_ok E"
  have "lin_later E {} s s'" if "lin_inv E s" "sbft_Step E m s = Inr s'" for m s s'
    using that(2) unfolding sbft_Step_def sbft_stepNormal_def
    by (auto split: option.splits LinWire.splits LinMessage_Type.splits
        intro: onPrepare_later(1) [OF E that(1)] onSignShare_later [OF E that(1)] onCommit_later(1) [OF E that(1)] sbft_stepResult_later)
  then show ?thesis
    by (auto simp: lin_protocol_def sbft_Protocol_def lin_Tick_def sbft_Callback_def Let_def lin_ClearMsgs_def lin_ClearExecutedCommands_def
        sbft_Request_def sbft_onRequest_def go_simps intro: sbft_stepResult_later split: if_splits dest: AsyncCallback_later [where E = E])
qed

lemma later_lh_frame [simp]: "lin_later E K s (s'\<lparr>lh_exec := x\<rparr>) = lin_later E K s s'"
  by (simp add: lin_later_def commit_job_ok_def sign_job_ok_def lin_pledge_def)

lemma lh_stepResult_later: "lh_stepResult m from s = Inr s' \<Longrightarrow> lin_later E K s s'"
  by (auto simp: lh_stepResult_def lh_GetAndSetExec_def Let_def go_simps)

lemma lh_lin_protocol: "lin_env_ok E \<Longrightarrow> lin_protocol E (lh_Protocol E)"
proof -
  assume E: "lin_env_ok E"
  have "lin_later E {} s s'" if "lin_inv E s" "lh_Step E m s = Inr s'" for m s s'
    using that(2) unfolding lh_Step_def lh_stepNormal_def
    by (auto split: option.splits LinWire.splits LinMessage_Type.splits
        intro: onPrepare_later(2) [OF E that(1)] onSignShare_later [OF E that(1)] onCommit_later(2) [OF E that(1)] lh_stepResult_later)
  then show ?thesis
    by (auto simp: lin_protocol_def lh_Protocol_def lin_Tick_def lh_Callback_def Let_def lin_ClearMsgs_def lin_ClearExecutedCommands_def
        lh_Request_def lh_onRequest_def go_simps intro: lh_stepResult_later split: if_splits dest: AsyncCallback_later [where E = E])
qed

text \<open>The steps of the pools change no instance; a worker that finishes adds its result.\<close>

lemma later_pools:
  assumes "pools_pending ps = pools_pending (ln_pools s)" "pools_results ps \<subseteq> pools_results (ln_pools s)"
  shows "lin_later E K s (s\<lparr>ln_pools := ps\<rparr>)"
  using assms by (simp add: lin_later_def)

lemma finish_facts:
  assumes "lin_do E P (LFinish w i) s = Some (Inr s')"
  obtains j where "lin_finished E (LFinish w i) s = Some j" "j \<in> pools_pending (ln_pools s)" "ln_log s' = ln_log s" "ln_alloc s' = ln_alloc s"
    "pools_pending (ln_pools s') = pools_pending (ln_pools s)" "\<exists>r. pools_results (ln_pools s') = insert (j, r) (pools_results (ln_pools s))"
proof -
  obtain j b ps where j: "running_job w i (ln_pools s) = Some j" "lin_work E (ln_id s) j = Inr b" "pools_finish w i (Inr b) (ln_pools s) = Some ps"
    "s' = s\<lparr>ln_pools := ps\<rparr>" using assms by (auto split: option.splits sum.splits)
  from pools_finish_sets [OF j(3)] obtain j' where "running_job w i (ln_pools s) = Some j'" "j' \<in> pools_pending (ln_pools s)"
    "pools_pending ps = pools_pending (ln_pools s)" "pools_results ps = insert (j', Inr b) (pools_results (ln_pools s))" by metis
  with j show thesis by (intro that [of j]) auto
qed

lemma lin_step_cases:
  assumes P: "lin_protocol E P" and inv: "lin_inv E s" and act: "lin_do E P a s = Some (Inr s')"
  obtains (later) K where "lin_later E K s s'" "K \<subseteq> fst ` pools_results (ln_pools s)" "lin_finished E a s = None"
    "\<not> tn_proposes (lin_node E P) a"
  | (propose) c where "s' = lin_propose E c s" "lin_finished E a s = None" "tn_proposes (lin_node E P) a"
  | (finish) w i where "a = LFinish w i"
proof (cases a)
  case (LTake w)
  then obtain ps where ps: "pools_take w (ln_pools s) = Some ps" "s' = s\<lparr>ln_pools := ps\<rparr>" using act by auto
  then show ?thesis using later [of "{}"] later_pools [of ps s] pools_take_sets [OF ps(1)] LTake by (simp add: lin_node_def)
next
  case (LAssign w)
  then obtain ps where ps: "pools_assign w (ln_pools s) = Some ps" "s' = s\<lparr>ln_pools := ps\<rparr>" using act by auto
  then show ?thesis using later [of "{}"] later_pools [of ps s] pools_assign_sets [OF ps(1)] LAssign by (simp add: lin_node_def)
next
  case LAsync
  then show ?thesis using later [of "fst ` pools_results (ln_pools s)"] P act by (simp add: lin_protocol_def lin_node_def)
next
  case (LRequest c)
  with act have "pr_Request P c s = Inr s'" by simp
  then obtain c' where "s' = lin_propose E c' s" using P unfolding lin_protocol_def by blast
  with LRequest show ?thesis by (intro propose) (simp_all add: lin_node_def)
next
  case (LStep m)
  then show ?thesis using later [of "{}"] P act inv by (auto simp: lin_protocol_def lin_node_def)
next
  case LTick
  then show ?thesis using later [of "{}"] P act by (simp add: lin_protocol_def lin_node_def)
next
  case (LCallback cb)
  then show ?thesis using later [of "{}"] P act by (auto simp: lin_protocol_def lin_node_def)
next
  case LClearMsgs
  then show ?thesis using later [of "{}"] P act by (auto simp: lin_protocol_def lin_node_def)
next
  case LClearCommands
  then show ?thesis using later [of "{}"] P act by (auto simp: lin_protocol_def lin_node_def)
qed (rule finish)

lemma lin_finished_pending: "lin_finished E a s = Some j \<Longrightarrow> j \<in> pools_pending (ln_pools s)"
  by (cases a) (auto dest: running_job_pending split: option.splits if_splits)

text \<open>The laws hold in every environment that satisfies the hypotheses; to state them for all, the hypotheses are a part of the invariant.\<close>

lemma lin_threshold_replica:
  assumes "lin_env_ok E \<Longrightarrow> lin_protocol E P"
  shows "threshold_replica (lin_node E P) (\<lambda>s. lin_env_ok E \<and> lin_inv E s) (lin_share E) lin_pledge (lin_to_sign E) (lin_evidence E) lin_decided"
proof
  fix s s' a assume *: "lin_env_ok E \<and> lin_inv E s" and a: "tn_act (lin_node E P) a s = Some (Inr s')"
  then have act: "lin_do E P a s = Some (Inr s')" by (simp add: lin_node_def)
  from * have inv: "lin_inv E s" and P: "lin_protocol E P" using assms by blast+
  have "lin_inv E s'"
    using P inv act
  proof (cases rule: lin_step_cases)
    case (finish w i)
    with act obtain j where "ln_log s' = ln_log s" "ln_alloc s' = ln_alloc s" "pools_pending (ln_pools s') = pools_pending (ln_pools s)"
      using finish_facts by metis
    with inv show ?thesis by (simp add: lin_inv_def commit_job_ok_def)
  qed (auto intro: lin_inv_later propose_facts(1) inv)
  with * show "lin_env_ok E \<and> lin_inv E s'" by blast
  show "d \<in> lin_to_sign E s \<or> (\<exists>v i h. h \<noteq> [] \<and> d = lin_share E v i h \<and> lin_pledge s' i = Some h)" if d: "d \<in> lin_to_sign E s'" for d
    using P inv act
  proof (cases rule: lin_step_cases)
    case (finish w i)
    with act d show ?thesis using finish_facts by (metis lin_to_sign_def)
  next
    case (later K)
    with d show ?thesis by (intro later_to_sign)
  qed (use d propose_facts(2) [OF inv] in auto)
  show "lin_pledge s' i = Some h" if "\<not> tn_proposes (lin_node E P) a" "lin_pledge s i = Some h" for i h
    using P inv act
  proof (cases rule: lin_step_cases)
    case (finish w k)
    with act that show ?thesis using finish_facts by (metis lin_pledge_def)
  qed (use that in \<open>auto intro: lin_later_pledge\<close>)
  show "d \<in> lin_evidence E s \<or> tn_checks (lin_node E P) a s = Some d" if d: "d \<in> lin_evidence E s'" for d
    using P inv act
  proof (cases rule: lin_step_cases)
    case (finish w i)
    obtain j r where j: "lin_finished E a s = Some j" "pools_results (ln_pools s') = insert (j, r) (pools_results (ln_pools s))"
      using finish_facts [OF act [unfolded finish]] finish by metis
    with d show ?thesis by (auto simp: lin_evidence_def lin_node_def)
  next
    case (later K)
    with d show ?thesis using later_evidence by blast
  next
    case (propose c)
    with d show ?thesis using propose_facts(3) [OF inv propose(1)] by simp
  qed
  show "(i, h) \<in> lin_decided s \<or> (\<exists>d \<in> lin_evidence E s. speaks_of (lin_share E) d i h)" if d: "(i, h) \<in> lin_decided s'" for i h
    using P inv act
  proof (cases rule: lin_step_cases)
    case (finish w k)
    then have "ln_log s' = ln_log s" using finish_facts [OF act [unfolded finish]] by metis
    with d show ?thesis by (simp add: lin_decided_def)
  next
    case (later K)
    then show ?thesis using inv d by (intro later_decided)
  qed (use d propose_facts(4) [OF inv] in blast)
next
  show "d \<in> lin_to_sign E s" if "tn_signs (lin_node E P) a s = Some d" for a s d
    using that by (auto simp: lin_node_def lin_to_sign_def dest: lin_finished_pending intro!: imageI split: option.splits if_splits)
qed

interpretation sbft: threshold_replica "lin_node E (sbft_Protocol E)" "\<lambda>s. lin_env_ok E \<and> lin_inv E s" "lin_share E" lin_pledge
    "lin_to_sign E" "lin_evidence E" lin_decided for E
  by (rule lin_threshold_replica) (rule sbft_lin_protocol)

interpretation linhybster: threshold_replica "lin_node E (lh_Protocol E)" "\<lambda>s. lin_env_ok E \<and> lin_inv E s" "lin_share E" lin_pledge
    "lin_to_sign E" "lin_evidence E" lin_decided for E
  by (rule lin_threshold_replica) (rule lh_lin_protocol)

subsection \<open>Agreement\<close>

text \<open>The replicas that a constructor makes from one configuration, and the cluster with the threshold that \<open>NewSBFT\<close> gives to the signer.\<close>

definition lin_start :: "(lin_config \<Rightarrow> 's go) \<Rightarrow> lin_config \<Rightarrow> PeerID list \<Rightarrow> (PeerID, 's) fmap" where
  "lin_start new c byz = fmap_of_list (concat (map (\<lambda>r.
     if r \<in> set byz then [] else case new (c\<lparr>cfg_ID := r\<rparr>) of Inl _ \<Rightarrow> [] | Inr s \<Rightarrow> [(r, s)]) (cfg_Peers c)))"

definition sbft_cluster :: "lin_config \<Rightarrow> PeerID list \<Rightarrow> PeerID list \<Rightarrow> tss_cfg" where
  "sbft_cluster c byz props =
     \<lparr>tc_nodes = cfg_Peers c, tc_byz = byz, tc_proposers = props, tc_threshold = nat (3 * cfg_MaxFailures c + cfg_MaxFastFailures c + 1)\<rparr>"

definition lh_cluster :: "lin_config \<Rightarrow> PeerID list \<Rightarrow> PeerID list \<Rightarrow> tss_cfg" where
  "lh_cluster c byz props =
     \<lparr>tc_nodes = cfg_Peers c, tc_byz = byz, tc_proposers = props, tc_threshold = nat (cfg_MaxFailures c + 1)\<rparr>"

lemma lin_start_Inr:
  assumes "fmlookup (lin_start new c byz) r = Some s"
  shows "new (c\<lparr>cfg_ID := r\<rparr>) = Inr s"
proof -
  have "(r, s) \<in> set (concat (map (\<lambda>r. if r \<in> set byz then [] else case new (c\<lparr>cfg_ID := r\<rparr>) of Inl _ \<Rightarrow> [] | Inr s \<Rightarrow> [(r, s)]) (cfg_Peers c)))"
    using assms unfolding lin_start_def fmlookup_of_list by (rule map_of_SomeD)
  then show ?thesis by (auto split: if_splits sum.splits)
qed

definition lin_blank :: "'z lin_replica \<Rightarrow> bool" where
  "lin_blank s \<longleftrightarrow> ln_log s = fmempty \<and> pools_pending (ln_pools s) = {} \<and> pools_results (ln_pools s) = {}"

lemma NewSBFT_blank: "NewSBFT c = Inr s \<Longrightarrow> lin_blank s"
  by (auto simp: NewSBFT_def startPools_def Let_def lin_blank_def split: if_splits)

lemma lin_blank_facts:
  "lin_blank s \<Longrightarrow> lin_inv E s \<and> lin_to_sign E s = {} \<and> lin_evidence E s = {} \<and> lin_decided s = {}"
  by (simp add: lin_blank_def lin_inv_def lin_to_sign_def lin_evidence_def lin_decided_def)

end
