(* ===== verification/SBFT_Runs.thy ===== *)
theory SBFT_Runs
  imports SBFT_Safety
begin

text \<open>
  The output of the SBFT and LinHybster replicas and concrete runs: what the peer relies on, how often a result is delivered, what a late \<open>Prepare\<close> does, a run that
  agrees and the runs that do not.
\<close>

subsection \<open>The output grows\<close>

definition lin_grows :: "'z lin_replica \<Rightarrow> 'z lin_replica \<Rightarrow> bool" where
  "lin_grows s s' \<longleftrightarrow> prefix (ln_msgs s) (ln_msgs s') \<and> prefix (ln_executedCmds s) (ln_executedCmds s')"

lemma lin_grows_refl [simp]: "lin_grows s s"
  by (simp add: lin_grows_def)

lemma lin_grows_trans: "lin_grows s s1 \<Longrightarrow> lin_grows s1 s2 \<Longrightarrow> lin_grows s s2"
  by (auto simp: lin_grows_def intro: prefix_order.trans)

lemma lin_grows_frame [simp]:
  "lin_grows s (lin_put i inst s') = lin_grows s s'" "lin_grows s (lin_Exec w j s') = lin_grows s s'"
  "lin_grows s (s'\<lparr>ln_alloc := a\<rparr>) = lin_grows s s'" "lin_grows s (s'\<lparr>ln_pools := ps\<rparr>) = lin_grows s s'"
  "lin_grows s (s'\<lparr>ln_rQuorum := q\<rparr>) = lin_grows s s'" "lin_grows s (s'\<lparr>ln_timers := t\<rparr>) = lin_grows s s'"
  "lin_grows s (s'\<lparr>ln_execIdx := i\<rparr>) = lin_grows s s'" "lin_grows s (s'\<lparr>ln_index := i\<rparr>) = lin_grows s s'"
  by (simp_all add: lin_grows_def lin_put_def lin_Exec_def)

lemma lin_grows_lh_exec [simp]: "lin_grows s (l\<lparr>lh_exec := x\<rparr>) = lin_grows s l"
  by (simp add: lin_grows_def)

lemma lin_grows_out:
  "lin_grows s s' \<Longrightarrow> lin_grows s (lin_enqueueForSending to mm c s')" "lin_grows s s' \<Longrightarrow> lin_grows s (lin_deliver pkt s')"
  by (auto simp: lin_grows_def lin_enqueueForSending_def lin_deliver_def)

lemma lin_grows_broadcast: "lin_grows s s' \<Longrightarrow> lin_grows s (lin_broadcast mm b c s')"
proof -
  have "lin_grows s s' \<Longrightarrow> lin_grows s (fold (\<lambda>node s'. if b \<or> node \<noteq> ln_id s' then lin_enqueueForSending node mm c s' else s') ns s')" for ns
    by (induction ns arbitrary: s') (simp_all add: lin_grows_out)
  then show "lin_grows s s' \<Longrightarrow> lin_grows s (lin_broadcast mm b c s')" by (simp add: lin_broadcast_def)
qed

lemma lin_exec_induct [case_names stop execute]:
  assumes "\<And>s. (\<nexists>inst cmd. fmlookup (ln_log s) (ln_execIdx s) = Some inst \<and> lin_IsCommitted inst \<and> li_Command inst = Some cmd) \<Longrightarrow> lin_exec s = s \<Longrightarrow> Q s"
    and "\<And>s inst cmd. fmlookup (ln_log s) (ln_execIdx s) = Some inst \<Longrightarrow> lin_IsCommitted inst \<Longrightarrow> li_Command inst = Some cmd \<Longrightarrow>
      lin_exec s = lin_exec (lin_execute_one inst cmd s) \<Longrightarrow> Q (lin_execute_one inst cmd s) \<Longrightarrow> Q s"
  shows "Q s"
proof (induction s rule: lin_exec.induct)
  case (1 s)
  show ?case
  proof (cases "\<exists>inst cmd. fmlookup (ln_log s) (ln_execIdx s) = Some inst \<and> lin_IsCommitted inst \<and> li_Command inst = Some cmd")
    case True
    then obtain inst cmd where c: "fmlookup (ln_log s) (ln_execIdx s) = Some inst" "lin_IsCommitted inst" "li_Command inst = Some cmd" by blast
    have "lin_exec s = lin_exec (lin_execute_one inst cmd s)" using c by (subst lin_exec.simps) simp
    with 1 c assms(2) show ?thesis by blast
  next
    case False
    then have "lin_exec s = s" by (subst lin_exec.simps) (auto split: option.split)
    with False assms(1) show ?thesis by blast
  qed
qed

lemma lin_grows_execute_one: "lin_grows s (lin_execute_one inst cmd s)"
  by (simp add: lin_execute_one_def lin_Execute_def lin_grows_out)

lemma lin_grows_exec: "lin_grows s s' \<Longrightarrow> lin_grows s (lin_exec s')"
proof -
  have "lin_grows s' (lin_exec s')"
    by (induction s' rule: lin_exec_induct) (auto intro: lin_grows_trans lin_grows_execute_one)
  then show "lin_grows s s' \<Longrightarrow> lin_grows s (lin_exec s')" using lin_grows_trans by blast
qed

lemma lin_grows_setCommitted: "lin_grows s s' \<Longrightarrow> lin_grows s (lin_setCommitted i p s')"
  by (simp add: lin_setCommitted_def split: option.splits)

lemma lin_grows_getInstance: "lin_getInstance upd m s = Inr (inst, s') \<Longrightarrow> lin_grows s s'"
  by (auto simp: lin_getInstance_def Let_def go_simps split: option.splits)

lemmas lin_grows_intros = lin_grows_out lin_grows_broadcast lin_grows_exec lin_grows_setCommitted

lemma lin_grows_afterShare: "lin_grows s s' \<Longrightarrow> lin_grows s (lin_afterShare E thr m content inst s')"
  by (simp add: lin_afterShare_def Let_def split: prod.splits)

lemma lin_grows_prepare: "sbft_onPrepare E m from s = Inr s' \<Longrightarrow> lin_grows s s'" "lh_onPrepare E m from s = Inr s' \<Longrightarrow> lin_grows s s'"
  by (auto simp: sbft_onPrepare_def lh_onPrepare_def Let_def go_simps dest!: lin_grows_getInstance intro: lin_grows_exec split: if_splits)

lemma lin_grows_share: "lin_onSignShare E thr m from sign content s = Inr s' \<Longrightarrow> lin_grows s s'"
  by (auto simp: lin_onSignShare_def go_simps dest!: lin_grows_getInstance intro: lin_grows_afterShare)

lemma lin_grows_commit: "sbft_onCommit E m sign s = Inr s' \<Longrightarrow> lin_grows s s'" "lh_onCommit E m sign s = Inr s' \<Longrightarrow> lin_grows s s'"
  by (auto simp: sbft_onCommit_def lh_onCommit_def go_simps dest!: lin_grows_getInstance intro: lin_grows_exec split: if_splits)

lemmas lin_grows_handlers = lin_grows_prepare lin_grows_share lin_grows_commit

lemma lin_grows_callback: "lin_callback j b s = Inr s' \<Longrightarrow> lin_grows s s'"
  by (cases j) (auto simp: lin_callback_def lin_sendTo_def intro!: lin_grows_intros)

lemma lin_grows_AsyncCallback: "lin_AsyncCallback lin_callback s = Inr s' \<Longrightarrow> lin_grows s s'"
proof -
  assume res: "lin_AsyncCallback lin_callback s = Inr s'"
  obtain cbs ps where d: "pools_drain (ln_pools s) = (cbs, ps)" by force
  have "go_fold (\<lambda>(j, r) s'. go_bind r (\<lambda>b. lin_callback j b s')) cbs (s\<lparr>ln_pools := ps\<rparr>) = Inr s'"
    using res by (simp add: lin_AsyncCallback_def d)
  then show ?thesis
    by (rule go_fold_invariant [where I = "lin_grows s"])
      (auto simp: go_simps split: prod.splits intro: lin_grows_trans dest: lin_grows_callback)
qed

lemma sbft_stepResult_grows: "sbft_stepResult m from s = Inr s' \<Longrightarrow> lin_grows s s'"
  by (auto simp: sbft_stepResult_def Let_def go_simps intro!: lin_grows_out)

lemma lh_stepResult_grows: "lh_stepResult m from s = Inr s' \<Longrightarrow> lin_grows s s'"
  by (auto simp: lh_stepResult_def lh_GetAndSetExec_def Let_def go_simps intro!: lin_grows_out)

lemma lin_grows_propose: "lin_grows s (lin_propose E cmd s)"
  by (auto simp: lin_propose_def GetAndIncrement_def Let_def intro!: lin_grows_broadcast)

lemma lin_outD: "lin_grows s s' \<Longrightarrow> prefix (ln_msgs s) (ln_msgs s') \<and> prefix (ln_executedCmds s) (ln_executedCmds s')"
  by (simp add: lin_grows_def)

interpretation sbft_out: protocol_output "sbft_Protocol E" ln_msgs ln_executedCmds for E
proof
  show "pr_Step (sbft_Protocol E) m s = Inr s' \<Longrightarrow> prefix (ln_msgs s) (ln_msgs s') \<and> prefix (ln_executedCmds s) (ln_executedCmds s')" for m s s'
    by (rule lin_outD) (auto simp: sbft_Protocol_def sbft_Step_def sbft_stepNormal_def
        dest: lin_grows_handlers sbft_stepResult_grows split: option.splits LinWire.splits LinMessage_Type.splits)
  show "pr_Callback (sbft_Protocol E) cb s = Inr s' \<Longrightarrow> prefix (ln_msgs s) (ln_msgs s') \<and> prefix (ln_executedCmds s) (ln_executedCmds s')" for cb s s'
    by (rule lin_outD) (auto simp: sbft_Protocol_def sbft_Callback_def lin_sendTo_def Let_def go_simps
        intro: lin_grows_out dest: sbft_stepResult_grows split: if_splits)
  show "pr_AsyncCallback (sbft_Protocol E) s = Inr s' \<Longrightarrow> prefix (ln_msgs s) (ln_msgs s') \<and> prefix (ln_executedCmds s) (ln_executedCmds s')" for s s'
    by (rule lin_outD, rule lin_grows_AsyncCallback) (simp add: sbft_Protocol_def)
  show "pr_Request (sbft_Protocol E) c s = Inr s' \<Longrightarrow> prefix (ln_msgs s) (ln_msgs s') \<and> prefix (ln_executedCmds s) (ln_executedCmds s')" for c s s'
    by (rule lin_outD) (auto simp: sbft_Protocol_def sbft_Request_def sbft_onRequest_def lin_grows_propose)
qed (auto simp: sbft_Protocol_def lin_MakeReady_def lin_ClearMsgs_def lin_ClearExecutedCommands_def lin_Tick_def)

interpretation lh_out: protocol_output "lh_Protocol E" ln_msgs ln_executedCmds for E
proof
  show "pr_Step (lh_Protocol E) m s = Inr s' \<Longrightarrow> prefix (ln_msgs s) (ln_msgs s') \<and> prefix (ln_executedCmds s) (ln_executedCmds s')" for m s s'
    by (rule lin_outD) (auto simp: lh_Protocol_def lh_Step_def lh_stepNormal_def
        dest: lin_grows_handlers lh_stepResult_grows split: option.splits LinWire.splits LinMessage_Type.splits)
  show "pr_Callback (lh_Protocol E) cb s = Inr s' \<Longrightarrow> prefix (ln_msgs s) (ln_msgs s') \<and> prefix (ln_executedCmds s) (ln_executedCmds s')" for cb s s'
    by (rule lin_outD) (auto simp: lh_Protocol_def lh_Callback_def lin_sendTo_def Let_def go_simps
        intro: lin_grows_out dest: lh_stepResult_grows split: if_splits)
  show "pr_AsyncCallback (lh_Protocol E) s = Inr s' \<Longrightarrow> prefix (ln_msgs s) (ln_msgs s') \<and> prefix (ln_executedCmds s) (ln_executedCmds s')" for s s'
    by (rule lin_outD, rule lin_grows_AsyncCallback) (simp add: lh_Protocol_def)
  show "pr_Request (lh_Protocol E) c s = Inr s' \<Longrightarrow> prefix (ln_msgs s) (ln_msgs s') \<and> prefix (ln_executedCmds s) (ln_executedCmds s')" for c s s'
    by (rule lin_outD) (auto simp: lh_Protocol_def lh_Request_def lh_onRequest_def lin_grows_propose go_simps split: if_splits)
qed (auto simp: lh_Protocol_def lin_MakeReady_def lin_ClearMsgs_def lin_ClearExecutedCommands_def lin_Tick_def)

subsection \<open>Results\<close>

text \<open>One result for a command of which \<open>k\<close> equal results are known.\<close>

lemma rq_known:
  assumes "fmsub q (rm_Id m) = t" "\<forall>k v. fmlookup t k = Some v \<longrightarrow> v = m" "fmlookup t from = None" "0 \<le> f"
  shows "rq_log from m q = Inr (fmupd (rm_Id m) (fmupd from m t) q)"
    "rq_Majority f m (fmupd (rm_Id m) (fmupd from m t) q) \<longleftrightarrow> f < int (Suc (fmlen t))" "fmlen (fmupd from m t) = Suc (fmlen t)"
proof -
  show "rq_log from m q = Inr (fmupd (rm_Id m) (fmupd from m t) q)" using assms by (simp add: rq_log_def Let_def)
  show len: "fmlen (fmupd from m t) = Suc (fmlen t)" using assms(3) by (simp add: fmlen_def fcard_finsert_disjoint fmlookup_dom_iff)
  have "voters (\<lambda>m'. rm_Result m' = rm_Result m) (fmupd from m t) = {k. fmlookup (fmupd from m t) k \<noteq> None}"
    using assms(2) by (auto simp: voters_def split: if_splits)
  then have "fmcount (\<lambda>m'. rm_Result m' = rm_Result m) (fmupd from m t) = Suc (fmlen t)"
    using len by (simp add: fmcount_card fmlen_card)
  then show "rq_Majority f m (fmupd (rm_Id m) (fmupd from m t) q) \<longleftrightarrow> f < int (Suc (fmlen t))"
    using assms(4) by (simp add: results.majority_iff)
qed

text \<open>The state of the table before a batch of equal results, and after the first of them.\<close>

definition results_ready :: "ResultMessage \<Rightarrow> PeerID list \<Rightarrow> 'z lin_replica \<Rightarrow> bool" where
  "results_ready m froms s \<longleftrightarrow> distinct froms \<and> 0 \<le> ln_f s \<and> (\<forall>k v. fmlookup (fmsub (ln_rQuorum s) (rm_Id m)) k = Some v \<longrightarrow> v = m)
     \<and> (\<forall>i \<in> set froms. fmlookup (fmsub (ln_rQuorum s) (rm_Id m)) i = None)"

abbreviation known :: "ResultMessage \<Rightarrow> 'z lin_replica \<Rightarrow> nat" where
  "known m s \<equiv> fmlen (fmsub (ln_rQuorum s) (rm_Id m))"

lemma results_ready_step:
  fixes s :: "'z lin_replica"
  assumes "results_ready m (i # froms) s"
  obtains q where "rq_log i m (ln_rQuorum s) = Inr q" "rq_Majority (ln_f s) m q \<longleftrightarrow> ln_f s \<le> int (known m s)"
    "fmlen (fmsub q (rm_Id m)) = Suc (known m s)"
    "\<forall>s' :: 'z lin_replica. ln_rQuorum s' = q \<longrightarrow> ln_f s' = ln_f s \<longrightarrow> results_ready m froms s'"
proof -
  let ?t = "fmsub (ln_rQuorum s) (rm_Id m)"
  let ?q = "fmupd (rm_Id m) (fmupd i m ?t) (ln_rQuorum s)"
  have "fmlookup ?t i = None" "0 \<le> ln_f s" "\<forall>k v. fmlookup ?t k = Some v \<longrightarrow> v = m" using assms by (auto simp: results_ready_def)
  note k = rq_known [OF refl this(3,1,2)]
  show thesis
  proof (rule that [of ?q])
    show "\<forall>s' :: 'z lin_replica. ln_rQuorum s' = ?q \<longrightarrow> ln_f s' = ln_f s \<longrightarrow> results_ready m froms s'"
      using assms by (auto simp: results_ready_def)
  qed (use k in auto)
qed

lemma sbft_results:
  fixes s :: "'z lin_replica"
  assumes "results_ready m froms s"
  shows "\<exists>s'. go_fold (sbft_stepResult m) froms s = Inr s' \<and>
    ln_executedCmds s' = ln_executedCmds s @ replicate (known m s + length froms - max (known m s) (nat (ln_f s))) (resultPacket (rm_Result m))"
  using assms
proof (induction froms arbitrary: s)
  case (Cons i froms)
  obtain q where q: "rq_log i m (ln_rQuorum s) = Inr q" "rq_Majority (ln_f s) m q \<longleftrightarrow> ln_f s \<le> int (known m s)"
    "fmlen (fmsub q (rm_Id m)) = Suc (known m s)" "\<forall>s' :: 'z lin_replica. ln_rQuorum s' = q \<longrightarrow> ln_f s' = ln_f s \<longrightarrow> results_ready m froms s'"
    by (rule results_ready_step [OF Cons.prems])
  let ?n = "if ln_f s \<le> int (known m s) then 1 else 0 :: nat"
  obtain s1 where s1: "sbft_stepResult m i s = Inr s1" "ln_rQuorum s1 = q" "ln_f s1 = ln_f s"
    "ln_executedCmds s1 = ln_executedCmds s @ replicate ?n (resultPacket (rm_Result m))"
    using q(1,2) by (simp add: sbft_stepResult_def Let_def lin_deliver_def)
  have "?n + (known m s1 + length froms - max (known m s1) (nat (ln_f s))) = known m s + length (i # froms) - max (known m s) (nat (ln_f s))"
    using Cons.prems q(3) s1(2) by (auto simp: results_ready_def)
  then show ?case using Cons.IH [OF q(4) [rule_format, OF s1(2,3)]] s1(1,3,4) by (auto simp: replicate_add [symmetric] simp del: replicate.simps)
qed simp

lemma lh_results:
  assumes "results_ready m froms s" "rm_Id m |\<in>| lh_exec s \<longleftrightarrow> ln_f s < int (known m s)"
  shows "\<exists>s'. go_fold (lh_stepResult m) froms s = Inr s' \<and> ln_executedCmds s' = ln_executedCmds s @
    (if int (known m s) \<le> ln_f s \<and> ln_f s < int (known m s + length froms) then [resultPacket (rm_Result m)] else [])"
  using assms
proof (induction froms arbitrary: s)
  case (Cons i froms)
  obtain q where q: "rq_log i m (ln_rQuorum s) = Inr q" "rq_Majority (ln_f s) m q \<longleftrightarrow> ln_f s \<le> int (known m s)"
    "fmlen (fmsub q (rm_Id m)) = Suc (known m s)" "\<forall>s' :: linhybster. ln_rQuorum s' = q \<longrightarrow> ln_f s' = ln_f s \<longrightarrow> results_ready m froms s'"
    by (rule results_ready_step [OF Cons.prems(1)])
  obtain s1 where s1: "lh_stepResult m i s = Inr s1" "ln_rQuorum s1 = q" "ln_f s1 = ln_f s"
    "ln_executedCmds s1 = ln_executedCmds s @ (if ln_f s = int (known m s) then [resultPacket (rm_Result m)] else [])"
    "rm_Id m |\<in>| lh_exec s1 \<longleftrightarrow> ln_f s \<le> int (known m s)"
    using q(1,2) Cons.prems(2) by (simp add: lh_stepResult_def lh_GetAndSetExec_def Let_def lin_deliver_def)
  have "rm_Id m |\<in>| lh_exec s1 \<longleftrightarrow> ln_f s1 < int (known m s1)" using q(3) s1(2,3,5) by auto
  with Cons.IH [OF q(4) [rule_format, OF s1(2,3)]] show ?case using s1(1-4) q(3) by auto
qed simp

text \<open>
  Of \<open>k\<close> equal results of different replicas for a command, an SBFT replica hands \<open>k - f\<close> to the client's tracker, one for every result after the first \<open>f\<close>; a
  LinHybster replica hands over exactly one when there are more than \<open>f\<close>.
\<close>

theorem results_delivered:
  assumes "distinct froms" "0 \<le> ln_f s" "fmlookup (ln_rQuorum s) (rm_Id m) = None"
    and "0 \<le> ln_f l" "fmlookup (ln_rQuorum l) (rm_Id m) = None" "rm_Id m |\<notin>| lh_exec l"
  shows "(\<exists>s'. go_fold (sbft_stepResult m) froms (s :: sbft) = Inr s' \<and>
      ln_executedCmds s' = ln_executedCmds s @ replicate (length froms - nat (ln_f s)) (resultPacket (rm_Result m)))
    \<and> (\<exists>l'. go_fold (lh_stepResult m) froms l = Inr l' \<and>
      ln_executedCmds l' = ln_executedCmds l @ (if ln_f l < int (length froms) then [resultPacket (rm_Result m)] else []))"
proof -
  have "known m s = 0" "known m l = 0" using assms(3,5) by (simp_all add: fmsub_def fmlen_def)
  moreover have "results_ready m froms s" "results_ready m froms l" using assms by (simp_all add: results_ready_def fmsub_def)
  ultimately show ?thesis using sbft_results [of m froms s] lh_results [of m froms l] assms(4,6) by auto
qed

text \<open>
  A \<open>Prepare\<close> that arrives after its \<open>Commit\<close> makes an SBFT replica execute the command; a LinHybster replica forgets the commit and executes nothing.
\<close>

theorem late_prepare:
  assumes "fmlookup (ln_log s) (ln_execIdx s) = Some inst" "li_Status inst = LS_Committed" "li_Command inst = None"
    and "lm_Index m = ln_execIdx s" "lm_Command m = Some cmd" "li_CommandHash inst = Command_Hash E cmd" "Command_Hash E cmd \<noteq> None"
  shows "(\<exists>s'. sbft_onPrepare E m from (s :: 'z lin_replica) = Inr s' \<and> prefix (ln_executedCmds s @ [callbackPacket cmd]) (ln_executedCmds s'))
    \<and> (\<exists>s'. lh_onPrepare E m from s = Inr s' \<and> ln_executedCmds s' = ln_executedCmds s \<and> ln_execIdx s' = ln_execIdx s
        \<and> lin_hasStatus (ln_execIdx s) LS_Prepared s')"
proof -
  let ?i = "ln_execIdx s"
  let ?m = "m\<lparr>lm_CommandHash := Command_Hash E cmd\<rparr>" and ?inst = "inst\<lparr>li_Command := Some cmd\<rparr>"
  let ?s1 = "lin_put ?i ?inst s"
  have get: "lin_getInstance (lin_updateBoth ?m) ?m s = Inr (?inst, ?s1)" "Hash_ptr E (lm_Command m) = Inr (Command_Hash E cmd)"
    using assms by (simp_all add: lin_getInstance_def lin_updateBoth_def lin_updateCommand_def lin_updateCommandHash_def Hash_ptr_def)
  have "lin_exec ?s1 = lin_exec (lin_execute_one ?inst cmd ?s1)"
    by (subst lin_exec.simps) (simp add: lin_put_def lin_IsCommitted_def assms(2))
  moreover have "lin_grows (lin_execute_one ?inst cmd ?s1) (lin_exec (lin_execute_one ?inst cmd ?s1))" by (rule lin_grows_exec) simp
  moreover have "ln_executedCmds (lin_execute_one ?inst cmd ?s1) = ln_executedCmds s @ [callbackPacket cmd]"
    by (simp add: lin_execute_one_def lin_put_def lin_Execute_def lin_deliver_def)
  ultimately have "prefix (ln_executedCmds s @ [callbackPacket cmd]) (ln_executedCmds (lin_exec ?s1))" by (simp add: lin_grows_def)
  moreover have "sbft_onPrepare E m from s = Inr (lin_exec ?s1)" using get assms(2) by (simp add: sbft_onPrepare_def Let_def)
  ultimately show ?thesis using get assms(4)
    by (simp add: lh_onPrepare_def Let_def lin_hasStatus_def lin_Exec_def lin_put_def)
qed

subsection \<open>Runs\<close>

fun ex_type_num :: "LinMessage_Type \<Rightarrow> byte" where
  "ex_type_num LMT_Prepare = 1"
| "ex_type_num LMT_SignShare = 2"
| "ex_type_num LMT_Commit = 3"
| "ex_type_num _ = 0"

definition ex_num_type :: "byte \<Rightarrow> LinMessage_Type" where
  "ex_num_type b = (if b = 1 then LMT_Prepare else if b = 2 then LMT_SignShare else if b = 3 then LMT_Commit else LMT_None)"

definition ex_sbft_env :: "LinMessage_Type lin_env" where
  "ex_sbft_env = ex_lin_env ex_type_num ex_num_type"

lemma ex_sbft_env_ok: "lin_env_ok ex_sbft_env"
proof -
  have "\<exists>m'. env_unmarshalLin ex_sbft_env (lin_marshall ex_sbft_env m) = Some (LinWire_Normal m')
    \<and> lm_Index m' = lm_Index m \<and> sbytes (lm_CommandHash m') = sbytes (lm_CommandHash m)" for m
    using ex_lin_roundtrip [of ex_num_type ex_type_num m] by (auto simp: ex_sbft_env_def ex_lin_env_def lin_marshall_def)
  then show ?thesis by (auto simp: lin_env_ok_def encodes_commands_def inj_def ex_sbft_env_def ex_lin_env_def)
qed

definition ex_lin_cfg :: "PeerID list \<Rightarrow> int \<Rightarrow> int \<Rightarrow> lin_config" where
  "ex_lin_cfg peers f c = \<lparr>cfg_ID = 0, cfg_Peers = peers, cfg_LeaderID = 0, cfg_MaxFailures = f,
     cfg_Workers = fmap_of_list (map (\<lambda>k. (k, 1)) tss_keys), cfg_WorkersQueueSizes = fmap_of_list (map (\<lambda>k. (k, 1)) tss_keys), cfg_MaxFastFailures = c\<rparr>"

definition ex_lin_msg :: "LinMessage_Type \<Rightarrow> u64 option \<Rightarrow> u64 \<Rightarrow> PeerID \<Rightarrow> PeerID \<Rightarrow> bytes \<Rightarrow> lin_act" where
  "ex_lin_msg typ carried hashed frm to cert = LStep \<lparr>msg_From = frm, msg_To = to, msg_Content = lin_marshall ex_sbft_env
     \<lparr>lm_View = 0, lm_Index = 0, lm_Type = typ, lm_Command = map_option ex_command carried,
      lm_CommandHash = Command_Hash ex_sbft_env (ex_command hashed)\<rparr>, msg_Certificate = cert\<rparr>"

text \<open>A job goes through its pool and the replica runs the callback.\<close>

definition ex_lin_drive :: "pool_id \<Rightarrow> PeerID \<Rightarrow> (PeerID \<times> lin_act) list" where
  "ex_lin_drive w r = [(r, LTake w), (r, LAssign w), (r, LFinish w 0), (r, LAsync)]"

definition ex_lin_prepare :: "u64 \<Rightarrow> PeerID \<Rightarrow> PeerID \<Rightarrow> (PeerID \<times> lin_act) list" where
  "ex_lin_prepare t frm r = (r, ex_lin_msg LMT_Prepare (Some t) t frm r []) # ex_lin_drive SignPool r"

text \<open>
  Six nodes, \<open>f = c = 1\<close>, node 5 Byzantine. Node 5 sends node 1 a share for the hash of command 1 with command 2 in it. The leader 0 commits command 1 with the
  shares of 0, 2, 3, 4 and 5, and its \<open>Commit\<close> reaches node 1 before the \<open>Prepare\<close>.
\<close>

definition ex_sbft_run :: "(PeerID \<times> lin_act) list" where
  "ex_sbft_run = [(1, ex_lin_msg LMT_SignShare (Some 2) 1 5 1 [1]), (0, LRequest (ex_command 1))]
     @ concat (map (ex_lin_prepare 1 0) [0, 2, 3, 4])
     @ map (\<lambda>r. (0, ex_lin_msg LMT_SignShare None 1 r 0 [1])) [0, 2, 3, 4, 5] @ ex_lin_drive AggPool 0
     @ (1, ex_lin_msg LMT_Commit None 1 0 1 [9]) # ex_lin_drive VerifyPool 1"

abbreviation ex_sbft_cfg :: lin_config where
  "ex_sbft_cfg \<equiv> ex_lin_cfg [0, 1, 2, 3, 4, 5] 1 1"

definition ex_sbft_end :: "sbft tss_sys option" where
  "ex_sbft_end = tss_run (lin_node ex_sbft_env (sbft_Protocol ex_sbft_env)) (sbft_cluster ex_sbft_cfg [5] [0]) ex_sbft_run
     (tss_init (lin_start NewSBFT ex_sbft_cfg [5]))"

text \<open>The state of a node in the end: the commands it has executed, and the status and hash of its instance 0.\<close>

definition ex_lin_view :: "PeerID \<Rightarrow> 'z lin_replica tss_sys option \<Rightarrow> (u64 list \<times> (LinStatus \<times> slice) option) option" where
  "ex_lin_view r S = (case S of None \<Rightarrow> None | Some S \<Rightarrow> case fmlookup (ts_reps S) r of None \<Rightarrow> None
     | Some s \<Rightarrow> Some (map (cmd_Timestamp \<circ> ep_Cmd) (ln_executedCmds s), map_option (\<lambda>inst. (li_Status inst, li_CommandHash inst)) (fmlookup (ln_log s) 0)))"

definition ex_lin_views :: "PeerID list \<Rightarrow> 'z lin_replica tss_sys option \<Rightarrow> (u64 list \<times> (LinStatus \<times> slice) option) option list" where
  "ex_lin_views rs S = map (\<lambda>r. ex_lin_view r S) rs"

lemma ex_sbft_end_views:
  "ex_lin_views [0, 1] ex_sbft_end = [Some ([1], Some (LS_Executed, Some [7, 1])), Some ([2], Some (LS_Executed, Some [7, 1]))]"
  by code_simp

lemma ex_lin_viewD:
  assumes "ex_lin_view r S = Some (cs, Some (st, h))"
  obtains S' s inst where "S = Some S'" "fmlookup (ts_reps S') r = Some s" "fmlookup (ln_log s) 0 = Some inst" "li_Status inst = st" "li_CommandHash inst = h"
    "map (cmd_Timestamp \<circ> ep_Cmd) (ln_executedCmds s) = cs"
  using assms by (auto simp: ex_lin_view_def split: option.splits)

lemma ex_sbft_end_facts:
  obtains S s0 s1 i0 i1 where "tss_reachable (lin_node ex_sbft_env (sbft_Protocol ex_sbft_env)) (sbft_cluster ex_sbft_cfg [5] [0]) (lin_start NewSBFT ex_sbft_cfg [5]) S"
    "fmlookup (ts_reps S) 0 = Some s0" "fmlookup (ln_log s0) 0 = Some i0" "li_Status i0 = LS_Executed"
    "fmlookup (ts_reps S) 1 = Some s1" "fmlookup (ln_log s1) 0 = Some i1" "li_Status i1 = LS_Executed" "li_CommandHash i1 = Some [7, 1]"
    "map (cmd_Timestamp \<circ> ep_Cmd) (ln_executedCmds s0) = [1]" "map (cmd_Timestamp \<circ> ep_Cmd) (ln_executedCmds s1) = [2]"
proof -
  have v: "ex_lin_view 0 ex_sbft_end = Some ([1], Some (LS_Executed, Some [7, 1]))" "ex_lin_view 1 ex_sbft_end = Some ([2], Some (LS_Executed, Some [7, 1]))"
    using ex_sbft_end_views by (simp_all add: ex_lin_views_def)
  from ex_lin_viewD [OF v(1)] obtain S s0 i0 where S: "ex_sbft_end = Some S" "fmlookup (ts_reps S) 0 = Some s0" "fmlookup (ln_log s0) 0 = Some i0"
    "li_Status i0 = LS_Executed" "map (cmd_Timestamp \<circ> ep_Cmd) (ln_executedCmds s0) = [1]" by metis
  from ex_lin_viewD [OF v(2)] obtain S' s1 i1 where S': "ex_sbft_end = Some S'" "fmlookup (ts_reps S') 1 = Some s1" "fmlookup (ln_log s1) 0 = Some i1"
    "li_Status i1 = LS_Executed" "li_CommandHash i1 = Some [7, 1]" "map (cmd_Timestamp \<circ> ep_Cmd) (ln_executedCmds s1) = [2]" by metis
  have "tss_reachable (lin_node ex_sbft_env (sbft_Protocol ex_sbft_env)) (sbft_cluster ex_sbft_cfg [5] [0]) (lin_start NewSBFT ex_sbft_cfg [5]) S"
    using S(1) tss_run_reachable [OF _ tss_start] by (simp add: ex_sbft_end_def)
  moreover have "S' = S" using trans [OF S(1) [symmetric] S'(1)] by (rule option.inject [THEN iffD1, symmetric])
  ultimately show thesis using that [OF _ S(2,3,4) _ S'(3,4,5) S(5) S'(6)] S'(2) by metis
qed




text \<open>
  Three LinHybster nodes, \<open>f = 1\<close>, node 2 Byzantine: it signs command 1 for the leader 0 and sends node 1 command 2 with a certificate made of both their shares.
\<close>

abbreviation ex_lh_cfg :: lin_config where
  "ex_lh_cfg \<equiv> ex_lin_cfg [0, 1, 2] 1 0"

definition ex_lh_run :: "(PeerID \<times> lin_act) list" where
  "ex_lh_run = (0, LRequest (ex_command 1)) # ex_lin_prepare 1 0 0
     @ map (\<lambda>r. (0, ex_lin_msg LMT_SignShare None 1 r 0 [1])) [0, 2] @ ex_lin_drive AggPool 0
     @ ex_lin_prepare 2 2 1 @ (1, ex_lin_msg LMT_Commit None 2 2 1 [9]) # ex_lin_drive VerifyPool 1"

definition ex_lh_end :: "linhybster tss_sys option" where
  "ex_lh_end = tss_run (lin_node ex_sbft_env (lh_Protocol ex_sbft_env)) (lh_cluster ex_lh_cfg [2] [0]) ex_lh_run
     (tss_init (lin_start NewLinHybster ex_lh_cfg [2]))"

lemma ex_lh_end_views:
  "ex_lin_views [0, 1] ex_lh_end = [Some ([1], Some (LS_Executed, Some [7, 1])), Some ([2], Some (LS_Executed, Some [7, 2]))]"
  by code_simp


theorem results_delivered_witness:
  "\<exists>(s :: sbft) s' (l :: linhybster) l'. go_fold (sbft_stepResult \<lparr>rm_Result = [3], rm_Id = 1\<rparr>) [0, 1, 2, 3] s = Inr s' \<and> ln_executedCmds s' = replicate 3 (resultPacket [3])
     \<and> go_fold (lh_stepResult \<lparr>rm_Result = [3], rm_Id = 1\<rparr>) [0, 1, 2, 3] l = Inr l' \<and> ln_executedCmds l' = [resultPacket [3]]"
proof -
  let ?m = "\<lparr>rm_Result = [3], rm_Id = 1\<rparr>"
  obtain s where s: "NewSBFT ex_sbft_cfg = Inr s" "ln_f s = 1" "ln_rQuorum s = fmempty" "ln_executedCmds s = []"
    by (auto simp: NewSBFT_def startPools_def ex_lin_cfg_def tss_keys_def)
  obtain l where l: "NewLinHybster ex_lh_cfg = Inr l" "ln_f l = 1" "ln_rQuorum l = fmempty" "ln_executedCmds l = []" "lh_exec l = {||}"
    by (auto simp: NewLinHybster_def startPools_def ex_lin_cfg_def tss_keys_def)
  from results_delivered [of "[0, 1, 2, 3]" s ?m l] s l show ?thesis by (auto simp: numeral_3_eq_3)
qed

theorem late_prepare_witness:
  "\<exists>(s :: sbft) s'. sbft_onPrepare ex_sbft_env \<lparr>lm_View = 0, lm_Index = 0, lm_Type = LMT_Prepare, lm_Command = Some (ex_command 1), lm_CommandHash = None\<rparr> 0 s = Inr s'
     \<and> prefix [callbackPacket (ex_command 1)] (ln_executedCmds s')"
proof -
  obtain s where s: "NewSBFT ex_sbft_cfg = Inr s" "ln_execIdx s = 0" "ln_executedCmds s = []"
    by (auto simp: NewSBFT_def startPools_def ex_lin_cfg_def tss_keys_def)
  let ?inst = "\<lparr>li_ptr = 0, li_View = 0, li_Index = 0, li_Status = LS_Committed, li_Command = None,
    li_CommandHash = Command_Hash ex_sbft_env (ex_command 1), li_cCert = fmempty\<rparr> :: lin_instance"
  from late_prepare [of "lin_put 0 ?inst s" ?inst "\<lparr>lm_View = 0, lm_Index = 0, lm_Type = LMT_Prepare, lm_Command = Some (ex_command 1), lm_CommandHash = None\<rparr>"
      "ex_command 1" ex_sbft_env 0] s
  have "\<exists>s'. sbft_onPrepare ex_sbft_env \<lparr>lm_View = 0, lm_Index = 0, lm_Type = LMT_Prepare, lm_Command = Some (ex_command 1), lm_CommandHash = None\<rparr> 0
      (lin_put 0 ?inst s) = Inr s' \<and> prefix [callbackPacket (ex_command 1)] (ln_executedCmds s')"
    by (simp add: lin_put_def Command_Hash_def ex_sbft_env_def ex_lin_env_def)
  then show ?thesis by blast
qed

end
