(* ===== verification/Ordered.thy ===== *)
theory Ordered
  imports Peer Vote_Quorum
begin

unbundle bit_operations_syntax

text \<open>
  What the protocols with a separate ordering layer share (\<open>protocols/dqpbft\<close>, \<open>protocols/hybsterx\<close> and their relatives \<open>destiny\<close>, \<open>dqsbftslow\<close>): every replica numbers the
  commands it receives itself, an ordering leader collects the numbers into batches, and a command is executed when the batch and the commands before it are committed.
  Here are the vote tables (\<open>quorum.go\<close>), the identifiers of commands with their encoding, the base of the replica's state and the execution loop (\<open>exec.go\<close>), which is the same
  code in the four packages.
\<close>

subsection \<open>Vote tables (\<open>quorum.go\<close>)\<close>

text \<open>
  \<open>Quorum\<close> and \<open>OQuorum\<close> are the same code for two types of messages. \<open>vw\<close> gives the view of a message; \<open>err\<close> is how the package ends the process when a replica votes
  twice (\<open>Panicf\<close> in \<open>dqpbft\<close>, \<open>Fatalf\<close> in \<open>hybsterx\<close>), and \<open>thr\<close> the number of equal votes that is not enough.
\<close>

record 'm view_table =
  vt_maxView :: u64
  vt_msgs :: "(u64, (PeerID, 'm) fmap) fmap"

definition vt_new :: "'m view_table" where
  "vt_new = \<lparr>vt_maxView = 0, vt_msgs = fmempty\<rparr>"

definition vt_log :: "('m \<Rightarrow> u64) \<Rightarrow> crash \<Rightarrow> PeerID \<Rightarrow> 'm \<Rightarrow> 'm view_table \<Rightarrow> 'm view_table go" where
  "vt_log vw err i m q =
     (if vt_maxView q > vw m then Inl PanicCall
      else let msgs = fmsub (vt_msgs q) (vw m) in
        case fmlookup msgs i of
          None \<Rightarrow> Inr \<lparr>vt_maxView = vw m, vt_msgs = fmupd (vw m) (fmupd i m msgs) (vt_msgs q)\<rparr>
        | Some _ \<Rightarrow> Inl err)"

definition vt_Majority :: "('m \<Rightarrow> u64) \<Rightarrow> ('m \<Rightarrow> 'm \<Rightarrow> bool) \<Rightarrow> int \<Rightarrow> 'm \<Rightarrow> 'm view_table \<Rightarrow> bool" where
  "vt_Majority vw eq thr m q =
     (case fmlookup (vt_msgs q) (vw m) of
        None \<Rightarrow> False
      | Some msgPairs \<Rightarrow> (if int (fmlen msgPairs) \<le> thr then False else int (fmcount (eq m) msgPairs) > thr))"

definition vt_votes :: "'m view_table \<Rightarrow> u64 \<Rightarrow> (PeerID, 'm) fmap" where
  "vt_votes q v = fmsub (vt_msgs q) v"

lemma vt_votes_new [simp]: "vt_votes vt_new v = fmempty"
  by (simp add: vt_votes_def vt_new_def)

lemma vt_log_votes:
  "vt_log vw err i m q = Inr q' \<Longrightarrow> vt_votes q' v = (if v = vw m then fmupd i m (vt_votes q v) else vt_votes q v) \<and> fmlookup (vt_votes q (vw m)) i = None"
  by (auto simp: vt_log_def vt_votes_def Let_def split: if_splits option.splits)

lemma vt_Majority_iff:
  assumes "0 \<le> thr"
  shows "vt_Majority vw eq thr m q \<longleftrightarrow> thr < int (card (voters (eq m) (vt_votes q (vw m))))"
proof (cases "fmlookup (vt_msgs q) (vw m)")
  case None
  with assms show ?thesis by (simp add: vt_Majority_def vt_votes_def fmsub_def)
next
  case (Some msgs)
  then show ?thesis using fmcount_le_fmlen [of "eq m" msgs] by (auto simp: vt_Majority_def vt_votes_def fmsub_def fmcount_card)
qed

lemma voters_cong: "(\<And>m. P m = Q m) \<Longrightarrow> voters P msgs = voters Q msgs"
  by (simp add: voters_def)

lemma vt_vote_quorum:
  assumes "\<And>m m'. eq m m' \<longleftrightarrow> key m' = key m" "\<And>f. 0 \<le> f \<Longrightarrow> 0 \<le> thr f"
  shows "vote_quorum (vt_log vw err) vt_votes (\<lambda>f. vt_Majority vw eq (thr f)) vw key thr"
proof
  fix i m q q' v assume "vt_log vw err i m q = Inr q'"
  from vt_log_votes [OF this, of v] show "vt_votes q' v =
      (if v = vw m \<and> fmlookup (vt_votes q v) i = None then fmupd i m (vt_votes q v) else vt_votes q v)" by auto
next
  fix f :: int and m q assume "0 \<le> f"
  then show "vt_Majority vw eq (thr f) m q \<longleftrightarrow> thr f < int (fmcount (\<lambda>m'. key m' = key m) (vt_votes q (vw m)))"
    using assms(2) vt_Majority_iff [of "thr f" vw eq m q] voters_cong [of "eq m" "\<lambda>m'. key m' = key m" "vt_votes q (vw m)"] assms(1) by (simp add: fmcount_card)
qed

subsection \<open>Identifiers of commands\<close>

record InstanceID =
  iid_ReplicaID :: PeerID
  iid_Index :: u64

definition InstanceID_Equals :: "InstanceID \<Rightarrow> InstanceID \<Rightarrow> bool" where
  "InstanceID_Equals m other \<longleftrightarrow> iid_ReplicaID m = iid_ReplicaID other \<and> iid_Index m = iid_Index other"

fun InstancesEquals :: "InstanceID list \<Rightarrow> InstanceID list \<Rightarrow> bool" where
  "InstancesEquals [] [] = True"
| "InstancesEquals (v # a) (w # b) = (if \<not> InstanceID_Equals v w then False else InstancesEquals a b)"
| "InstancesEquals _ _ = False"

lemma InstanceID_Equals_iff [simp]: "InstanceID_Equals a b \<longleftrightarrow> a = b"
  by (auto simp: InstanceID_Equals_def)

lemma InstancesEquals_iff [simp]: "InstancesEquals a b \<longleftrightarrow> a = b"
  by (induction a b rule: InstancesEquals.induct) auto

text \<open>The generated encoder: a field that is 0 is left out.\<close>

function encodeVarint :: "u64 \<Rightarrow> bytes" where
  "encodeVarint v = (if 128 \<le> v then ucast (v AND 127 OR 128) # encodeVarint (drop_bit 7 v) else [ucast v])"
  by pat_completeness auto
termination
proof (relation "measure unat", simp)
  fix v :: u64 assume "128 \<le> v"
  then have "128 \<le> unat v" by (simp add: word_le_nat_alt)
  then show "(drop_bit 7 v, v) \<in> measure unat" by (simp add: drop_bit_eq_div unat_div)
qed

declare encodeVarint.simps [simp del]

definition InstanceID_Marshal :: "InstanceID \<Rightarrow> bytes" where
  "InstanceID_Marshal m =
     (if iid_ReplicaID m \<noteq> 0 then 8 # encodeVarint (iid_ReplicaID m) else []) @ (if iid_Index m \<noteq> 0 then 16 # encodeVarint (iid_Index m) else [])"

text \<open>The hash of a batch: the encodings are written to the hasher one after the other.\<close>

definition batch_hash :: "'e go_env_scheme \<Rightarrow> InstanceID list \<Rightarrow> bytes" where
  "batch_hash E ids = env_sha256 E (concat (map InstanceID_Marshal ids))"

text \<open>
  The hash of a batch of commands does not determine the batch: the first command of replica 0 is encoded as nothing, and an identifier of which one part is 0 joins with the
  next one. Replicas that vote for one hash can hold different batches.
\<close>

theorem batch_hash_ambiguous:
  "batch_hash E (ids @ \<lparr>iid_ReplicaID = 0, iid_Index = 0\<rparr> # ids') = batch_hash E (ids @ ids')
   \<and> batch_hash E (ids @ \<lparr>iid_ReplicaID = r, iid_Index = 0\<rparr> # \<lparr>iid_ReplicaID = 0, iid_Index = i\<rparr> # ids')
     = batch_hash E (ids @ \<lparr>iid_ReplicaID = r, iid_Index = i\<rparr> # ids')"
  by (simp add: batch_hash_def InstanceID_Marshal_def)

subsection \<open>The replica's state\<close>

text \<open>
  The types of the instances of commands and of batches without their vote tables. The packages' enumerations of states are parts of \<open>od_status\<close>.
\<close>

datatype od_status =
    OS_None | OS_PrePrepared | OS_SignShared | OS_Prepared | OS_CommitSigShared | OS_Committed | OS_StateShared | OS_Executed

record od_instance =
  ci_View :: u64
  ci_InstanceID :: InstanceID
  ci_Status :: od_status
  ci_Command :: "Command option"
  ci_CommandHash :: slice

record od_oinstance =
  oi_View :: u64
  oi_Index :: u64
  oi_Status :: od_status
  oi_Instances :: "InstanceID list"
  oi_CommandHash :: slice

text \<open>The decoder gives nil for an absent list and a batch that is sent is not empty, so the empty list stands for nil.\<close>

record ('i, 'o) ordered =
  od_id :: PeerID
  od_nodes :: "PeerID list"
  od_f :: int
  od_log :: "(InstanceID, 'i) fmap"
  od_view :: u64
  od_index :: u64
  od_execIdx :: "(PeerID, u64) fmap"
  od_olog :: "(u64, 'o) fmap"
  od_oindex :: u64
  od_oview :: u64
  od_oexecIdx :: u64
  od_msgs :: "Message list"
  od_executedCmds :: "ExecPacket list"
  od_cReqBuffer :: "InstanceID list"
  od_oBatchSize :: nat
  od_timer :: "unit tickingTimer"

record od_config = LocalConfig +
  cfg_DqOBatchSize :: nat
  cfg_DqOBatchTimeout :: nat

definition od_new :: "od_config \<Rightarrow> int \<Rightarrow> ('i, 'o) ordered" where
  "od_new c timeout =
     \<lparr>od_id = cfg_ID c, od_nodes = cfg_Peers c, od_f = cfg_MaxFailures c, od_log = fmempty, od_view = cfg_ID c, od_index = 0, od_execIdx = fmempty,
      od_olog = fmempty, od_oindex = 0, od_oview = cfg_LeaderID c, od_oexecIdx = 0, od_msgs = [], od_executedCmds = [], od_cReqBuffer = [],
      od_oBatchSize = cfg_DqOBatchSize c, od_timer = registerInfiniteTimer (MakeTickingTimer timeout ())\<rparr>"

definition od_isPrimaryAtView :: "PeerID \<Rightarrow> u64 \<Rightarrow> ('i, 'o, 'z) ordered_scheme \<Rightarrow> bool go" where
  "od_isPrimaryAtView i view d = go_bind (go_imod view (length (od_nodes d))) (\<lambda>v. Inr (i = v))"

definition od_put :: "InstanceID \<Rightarrow> 'i \<Rightarrow> ('i, 'o, 'z) ordered_scheme \<Rightarrow> ('i, 'o, 'z) ordered_scheme" where
  "od_put i inst d = d\<lparr>od_log := fmupd i inst (od_log d)\<rparr>"

definition od_oput :: "u64 \<Rightarrow> 'o \<Rightarrow> ('i, 'o, 'z) ordered_scheme \<Rightarrow> ('i, 'o, 'z) ordered_scheme" where
  "od_oput i inst d = d\<lparr>od_olog := fmupd i inst (od_olog d)\<rparr>"

definition od_enqueueForSending :: "PeerID \<Rightarrow> bytes \<Rightarrow> bytes \<Rightarrow> ('i, 'o, 'z) ordered_scheme \<Rightarrow> ('i, 'o, 'z) ordered_scheme" where
  "od_enqueueForSending to mm certificate d =
     d\<lparr>od_msgs := od_msgs d @ [\<lparr>msg_From = od_id d, msg_To = to, msg_Content = mm, msg_Certificate = certificate\<rparr>]\<rparr>"

definition od_ClearMsgs :: "('i, 'o, 'z) ordered_scheme \<Rightarrow> ('i, 'o, 'z) ordered_scheme" where
  "od_ClearMsgs d = d\<lparr>od_msgs := []\<rparr>"

definition od_ClearExecutedCommands :: "('i, 'o, 'z) ordered_scheme \<Rightarrow> ('i, 'o, 'z) ordered_scheme" where
  "od_ClearExecutedCommands d = d\<lparr>od_executedCmds := []\<rparr>"

definition od_MakeReady :: "('i, 'o, 'z) ordered_scheme \<Rightarrow> Ready" where
  "od_MakeReady d = \<lparr>rd_Messages = od_msgs d, rd_OrderedCommands = od_executedCmds d\<rparr>"

text \<open>The certificate of a broadcast holds 32 bytes for each node, at the place of its number.\<close>

definition od_broadcastCallback :: "bytes \<Rightarrow> bool \<Rightarrow> bytes \<Rightarrow> ('i, 'o, 'z) ordered_scheme \<Rightarrow> ('i, 'o, 'z) ordered_scheme go" where
  "od_broadcastCallback mBytes sendToSelf cert d =
     go_fold (\<lambda>node d'.
        if sendToSelf \<or> node \<noteq> od_id d'
        then go_bind (slice_range cert (unat (node * 32)) (unat (node * 32 + 32))) (\<lambda>c. Inr (od_enqueueForSending node mBytes c d'))
        else Inr d') (od_nodes d) d"

text \<open>A tick of the timer that sends the batch; \<open>send\<close> is \<open>sendCRequest\<close>.\<close>

definition od_Tick :: "(('i, 'o, 'z) ordered_scheme \<Rightarrow> ('i, 'o, 'z) ordered_scheme go) \<Rightarrow> ('i, 'o, 'z) ordered_scheme \<Rightarrow> ('i, 'o, 'z) ordered_scheme go" where
  "od_Tick send d =
     (case Timer_Tick (od_timer d) of (t, fired) \<Rightarrow>
        go_fold (\<lambda>_ d'. go_bind (od_isPrimaryAtView (od_id d') (od_oview d') d') (\<lambda>b. if b then send d' else Inr d')) fired (d\<lparr>od_timer := t\<rparr>))"

text \<open>The leader collects a command; the buffer is sent when it is full.\<close>

definition od_onCRequest :: "(('i, 'o, 'z) ordered_scheme \<Rightarrow> ('i, 'o, 'z) ordered_scheme go) \<Rightarrow> InstanceID \<Rightarrow> ('i, 'o, 'z) ordered_scheme \<Rightarrow> ('i, 'o, 'z) ordered_scheme go" where
  "od_onCRequest send i d =
     go_bind (od_isPrimaryAtView (od_id d) (od_oview d) d) (\<lambda>b.
     if \<not> b then Inr d
     else let d1 = d\<lparr>od_cReqBuffer := od_cReqBuffer d @ [i]\<rparr> in
       if od_oBatchSize d1 \<le> length (od_cReqBuffer d1) then send d1 else Inr d1)"

subsection \<open>Execution (\<open>exec.go\<close>)\<close>

text \<open>
  \<open>pkt\<close> makes the packet for the applier. The first loop over a batch asks whether all its commands are there; the second delivers them and dereferences the pointer to the
  command, which it clears: an identifier that is twice in the batch ends the process.
\<close>

type_synonym ('x, 'y, 'z) od_replica = "('x od_instance_scheme, 'y od_oinstance_scheme, 'z) ordered_scheme"

definition od_available :: "('x, 'y, 'z) od_replica \<Rightarrow> InstanceID \<Rightarrow> bool" where
  "od_available d i =
     (case fmlookup (od_log d) i of None \<Rightarrow> False | Some inst \<Rightarrow> ci_Status inst = OS_Committed \<and> ci_Command inst \<noteq> None)"

definition od_next :: "PeerID \<Rightarrow> ('x, 'y, 'z) od_replica \<Rightarrow> u64" where
  "od_next r d = (case fmlookup (od_execIdx d) r of None \<Rightarrow> 0 | Some k \<Rightarrow> k)"

definition od_deliver :: "(Command \<Rightarrow> ExecPacket) \<Rightarrow> InstanceID \<Rightarrow> ('x, 'y, 'z) od_replica \<Rightarrow> ('x, 'y, 'z) od_replica go" where
  "od_deliver pkt i d =
     (case fmlookup (od_log d) i of
        None \<Rightarrow> Inl NilDeref
      | Some inst \<Rightarrow> (case ci_Command inst of
          None \<Rightarrow> Inl NilDeref
        | Some cmd \<Rightarrow> Inr (d\<lparr>od_executedCmds := od_executedCmds d @ [pkt cmd],
            od_log := fmupd i (inst\<lparr>ci_Command := None, ci_Status := OS_Executed\<rparr>) (od_log d),
            od_execIdx := fmupd (iid_ReplicaID i) (od_next (iid_ReplicaID i) d + 1) (od_execIdx d)\<rparr>)))"

text \<open>A batch that has been delivered.\<close>

definition od_finish :: "'y od_oinstance_scheme \<Rightarrow> ('x, 'y, 'z) od_replica \<Rightarrow> ('x, 'y, 'z) od_replica" where
  "od_finish oinst d = (od_oput (od_oexecIdx d) (oinst\<lparr>oi_Status := OS_Executed\<rparr>) d)\<lparr>od_oexecIdx := od_oexecIdx d + 1\<rparr>"

definition od_committed :: "('x, 'y, 'z) od_replica \<Rightarrow> u64 set" where
  "od_committed d = {i. \<exists>oinst. fmlookup (od_olog d) i = Some oinst \<and> oi_Status oinst = OS_Committed}"

lemma od_deliver_olog: "od_deliver pkt i d = Inr d' \<Longrightarrow> od_olog d' = od_olog d \<and> od_oexecIdx d' = od_oexecIdx d"
  by (auto simp: od_deliver_def split: option.splits)

lemma od_deliver_batch_olog:
  assumes "go_fold (od_deliver pkt) is d = Inr d'"
  shows "od_olog d' = od_olog d \<and> od_oexecIdx d' = od_oexecIdx d"
  using assms by (rule go_fold_invariant) (simp, metis od_deliver_olog)

lemma od_committed_finish:
  fixes d d1 :: "('x, 'y, 'z) od_replica"
  assumes "fmlookup (od_olog d) (od_oexecIdx d) = Some oinst" "oi_Status oinst = OS_Committed" "go_fold (od_deliver pkt) (oi_Instances oinst) d = Inr d1"
  shows "card (od_committed (od_finish oinst d1)) < card (od_committed d)"
proof -
  have "od_committed (od_finish oinst d1) = od_committed d - {od_oexecIdx d}"
    using assms od_deliver_batch_olog [OF assms(3)] by (auto simp: od_committed_def od_finish_def od_oput_def split: if_splits)
  moreover have "od_oexecIdx d \<in> od_committed d" using assms by (simp add: od_committed_def)
  ultimately show ?thesis by (metis card_Diff1_less finite)
qed

function od_exec :: "(Command \<Rightarrow> ExecPacket) \<Rightarrow> ('x, 'y, 'z) od_replica \<Rightarrow> ('x, 'y, 'z) od_replica go" where
  "od_exec pkt d =
     (case fmlookup (od_olog d) (od_oexecIdx d) of
        None \<Rightarrow> Inr d
      | Some oinst \<Rightarrow>
          if oi_Status oinst \<noteq> OS_Committed then Inr d
          else if \<not> list_all (od_available d) (oi_Instances oinst) then Inr d
          else (case go_fold (od_deliver pkt) (oi_Instances oinst) d of
              Inl e \<Rightarrow> Inl e
            | Inr d1 \<Rightarrow> od_exec pkt (od_finish oinst d1)))"
  by pat_completeness auto
termination
  by (relation "measure (\<lambda>(pkt, d). card (od_committed d))") (auto intro: od_committed_finish)

declare od_exec.simps [simp del]

end
