(* ===== verification/TrInx.thy ===== *)
theory TrInx
  imports Command
begin

unbundle bit_operations_syntax

text \<open>
  The trusted counters of \<open>enclaves/trinx\<close>: the enclave (\<open>TrInxEnclave.cpp\<close>) with the Go wrapper (\<open>trinx.go\<close>). An enclave keeps an array of counters and a key that all replicas
  share; it certifies a message with a value of a counter by an HMAC and moves the counter to the value. HMAC-SHA256 is the parameter \<open>hmac\<close>, a function of key and
  text. An access outside of a C array, which C leaves undefined, is \<open>IndexRange\<close>, like one in Go.
\<close>

type_synonym hmac = "bytes \<Rightarrow> bytes \<Rightarrow> bytes"

record TrInx =
  tx_key :: bytes
  tx_counters :: "u64 list"
  tx_vecLen :: nat

text \<open>\<open>strncpy\<close> stops at a NUL and fills with NULs.\<close>

definition strncpy :: "bytes \<Rightarrow> bytes" where
  "strncpy key = (let k = takeWhile (\<lambda>b. b \<noteq> 0) key in k @ replicate (length key - length k) 0)"

definition trinx_init :: "bytes \<Rightarrow> nat \<Rightarrow> nat \<Rightarrow> TrInx go" where
  "trinx_init key numCtrs vecLen =
     (if key = [] \<or> 1024 < length key then Inl IndexRange
      else Inr \<lparr>tx_key = strncpy key, tx_counters = replicate numCtrs 0, tx_vecLen = vecLen\<rparr>)"

definition le32_bytes :: "32 word \<Rightarrow> bytes" where
  "le32_bytes w = map (\<lambda>i. ucast (drop_bit (8 * i) w)) [0..<4]"

definition le64_bytes :: "u64 \<Rightarrow> bytes" where
  "le64_bytes w = map (\<lambda>i. ucast (drop_bit (8 * i) w)) [0..<8]"

text \<open>\<open>generate_hmac\<close>: the number of the counter, the old value if there is one, the new value, the message.\<close>

definition generate_hmac :: "hmac \<Rightarrow> bytes \<Rightarrow> 32 word \<Rightarrow> u64 option \<Rightarrow> u64 \<Rightarrow> bytes \<Rightarrow> bytes" where
  "generate_hmac H key ctr old new msg =
     H key (le32_bytes ctr @ (case old of None \<Rightarrow> [] | Some v \<Rightarrow> le64_bytes v) @ le64_bytes new @ msg)"

text \<open>The enclave's operations; \<open>Inr None\<close> is the return code \<open>INVALID_COUNTER_VALUE\<close>.\<close>

definition ecall_create_independent :: "hmac \<Rightarrow> 32 word \<Rightarrow> u64 \<Rightarrow> bytes \<Rightarrow> TrInx \<Rightarrow> (bytes \<times> TrInx) option go" where
  "ecall_create_independent H ctr new msg x =
     (if length (tx_counters x) \<le> unat ctr then Inl IndexRange
      else if new \<le> tx_counters x ! unat ctr then Inr None
      else Inr (Some (generate_hmac H (tx_key x) ctr None new msg, x\<lparr>tx_counters := (tx_counters x)[unat ctr := new]\<rparr>)))"

definition ecall_create_independent_vector :: "hmac \<Rightarrow> 32 word \<Rightarrow> u64 \<Rightarrow> bytes \<Rightarrow> TrInx \<Rightarrow> (bytes \<times> TrInx) option go" where
  "ecall_create_independent_vector H ctr new msg x =
     (if length (tx_counters x) \<le> unat ctr then Inl IndexRange
      else if new \<le> tx_counters x ! unat ctr then Inr None
      else Inr (Some (concat (replicate (tx_vecLen x) (generate_hmac H (tx_key x) ctr None new msg)), x\<lparr>tx_counters := (tx_counters x)[unat ctr := new]\<rparr>)))"

definition ecall_create_continuing :: "hmac \<Rightarrow> 32 word \<Rightarrow> u64 \<Rightarrow> bytes \<Rightarrow> TrInx \<Rightarrow> (bytes \<times> TrInx) option go" where
  "ecall_create_continuing H ctr new msg x =
     (if length (tx_counters x) \<le> unat ctr then Inl IndexRange
      else let old = tx_counters x ! unat ctr in
        if new < old then Inr None
        else Inr (Some (generate_hmac H (tx_key x) ctr (Some old) new msg, x\<lparr>tx_counters := (tx_counters x)[unat ctr := new]\<rparr>)))"

subsection \<open>The wrapper (\<open>trinx.go\<close>)\<close>

text \<open>The wrapper takes the address of the first byte of the message, converts the number of the counter to 32 bits, and panics on an error code.\<close>

definition trinx_call :: "(32 word \<Rightarrow> u64 \<Rightarrow> bytes \<Rightarrow> TrInx \<Rightarrow> (bytes \<times> TrInx) option go) \<Rightarrow> bytes \<Rightarrow> u64 \<Rightarrow> u64 \<Rightarrow> TrInx \<Rightarrow> (bytes \<times> TrInx) go" where
  "trinx_call ecall msg tc ctrId x =
     (if msg = [] then Inl IndexRange
      else go_bind (ecall (ucast ctrId) tc msg x) (\<lambda>r. case r of None \<Rightarrow> Inl PanicCall | Some c \<Rightarrow> Inr c))"

definition CreateIndependentCounterCertificate :: "hmac \<Rightarrow> bytes \<Rightarrow> u64 \<Rightarrow> u64 \<Rightarrow> TrInx \<Rightarrow> (bytes \<times> TrInx) go" where
  "CreateIndependentCounterCertificate H = trinx_call (ecall_create_independent H)"

definition CreateIndependentCounterCertificateVector :: "hmac \<Rightarrow> bytes \<Rightarrow> u64 \<Rightarrow> u64 \<Rightarrow> TrInx \<Rightarrow> (bytes \<times> TrInx) go" where
  "CreateIndependentCounterCertificateVector H msg tc ctrId x =
     (if tx_vecLen x = 0 then Inl IndexRange else trinx_call (ecall_create_independent_vector H) msg tc ctrId x)"

definition CreateContinuingCounterCertificate :: "hmac \<Rightarrow> bytes \<Rightarrow> u64 \<Rightarrow> u64 \<Rightarrow> TrInx \<Rightarrow> (bytes \<times> TrInx) go" where
  "CreateContinuingCounterCertificate H = trinx_call (ecall_create_continuing H)"

definition VerifyIndependentCounterCertificate :: "hmac \<Rightarrow> bytes \<Rightarrow> bytes \<Rightarrow> u64 \<Rightarrow> u64 \<Rightarrow> TrInx \<Rightarrow> bool go" where
  "VerifyIndependentCounterCertificate H msg mac tc ctrId x =
     (if length mac \<noteq> 32 then Inl PanicCall
      else if msg = [] then Inl IndexRange
      else Inr (mac = generate_hmac H (tx_key x) (ucast ctrId) None tc msg))"

text \<open>The certificate's own length says how many bytes are compared; the buffer they are copied to has 32.\<close>

definition VerifyContinuingCounterCertificate :: "hmac \<Rightarrow> bytes \<Rightarrow> bytes \<Rightarrow> u64 \<Rightarrow> u64 \<Rightarrow> u64 \<Rightarrow> TrInx \<Rightarrow> bool go" where
  "VerifyContinuingCounterCertificate H msg mac oldCtr newCtr ctrId x =
     (if msg = [] \<or> mac = [] \<or> 32 < length mac then Inl IndexRange
      else Inr (mac = take (length mac) (generate_hmac H (tx_key x) (ucast ctrId) (Some oldCtr) newCtr msg)))"

subsection \<open>What one enclave certifies\<close>

text \<open>What is needed of HMAC-SHA256: it gives 32 bytes.\<close>

definition hmac_ok :: "hmac \<Rightarrow> bool" where
  "hmac_ok H \<longleftrightarrow> (\<forall>key t. length (H key t) = 32)"

lemma generate_hmac_length [simp]: "hmac_ok H \<Longrightarrow> length (generate_hmac H key ctr old new msg) = 32"
  by (simp add: generate_hmac_def hmac_ok_def)

text \<open>A request for a certificate: with a single value or a vector, or continuing from the old value.\<close>

datatype tx_kind = Independent | IndependentVector | Continuing

fun tx_create :: "hmac \<Rightarrow> tx_kind \<Rightarrow> bytes \<Rightarrow> u64 \<Rightarrow> u64 \<Rightarrow> TrInx \<Rightarrow> (bytes \<times> TrInx) go" where
  "tx_create H Independent = CreateIndependentCounterCertificate H"
| "tx_create H IndependentVector = CreateIndependentCounterCertificateVector H"
| "tx_create H Continuing = CreateContinuingCounterCertificate H"

text \<open>An enclave with its host, which may ask for anything: the certificates given out so far, as kind, counter, value and message. A request that fails leaves all as it is.\<close>

inductive tx_history :: "hmac \<Rightarrow> bytes \<Rightarrow> nat \<Rightarrow> nat \<Rightarrow> TrInx \<Rightarrow> (tx_kind \<times> 32 word \<times> u64 \<times> bytes) list \<Rightarrow> bool" for H key n v where
  tx_start: "trinx_init key n v = Inr x \<Longrightarrow> tx_history H key n v x []"
| tx_certify: "tx_history H key n v x h \<Longrightarrow> tx_create H k msg tc c x = Inr (cert, x') \<Longrightarrow> tx_history H key n v x' (h @ [(k, ucast c, tc, msg)])"

lemma tx_create_cases:
  assumes "tx_create H k msg tc c x = Inr (cert, x')"
  shows "unat (ucast c :: 32 word) < length (tx_counters x)" "x' = x\<lparr>tx_counters := (tx_counters x)[unat (ucast c :: 32 word) := tc]\<rparr>"
    "k \<noteq> Continuing \<Longrightarrow> tx_counters x ! unat (ucast c :: 32 word) < tc" "tx_counters x ! unat (ucast c :: 32 word) \<le> tc" "msg \<noteq> []"
  using assms
  by (cases k; auto simp: CreateIndependentCounterCertificate_def CreateIndependentCounterCertificateVector_def CreateContinuingCounterCertificate_def trinx_call_def
      ecall_create_independent_def ecall_create_independent_vector_def ecall_create_continuing_def Let_def go_simps split: if_splits option.splits)+

text \<open>A counter is at the last value certified with it, and the values certified with it do not decrease; those of independent certificates increase.\<close>

lemma tx_history_inv:
  assumes "tx_history H key n v x h"
  shows "(k, c, tc, msg) \<in> set h \<Longrightarrow> unat c < length (tx_counters x) \<and> tc \<le> tx_counters x ! unat c"
  using assms
proof (induction arbitrary: k c tc msg rule: tx_history.induct)
  case (tx_certify x h k' msg' tc' c' cert x')
  note cr = tx_create_cases [OF tx_certify.hyps(2)]
  show ?case
  proof (cases "(k, c, tc, msg) \<in> set h")
    case True
    from tx_certify.IH [OF True] cr show ?thesis
      by (cases "unat c = unat (ucast c' :: 32 word)") (auto simp: nth_list_update)
  next
    case False
    with tx_certify.prems have "k = k'" "c = ucast c'" "tc = tc'" by auto
    with cr show ?thesis by auto
  qed
qed simp


definition tx_old :: "u64 \<Rightarrow> TrInx \<Rightarrow> u64" where
  "tx_old c x = tx_counters x ! unat (ucast c :: 32 word)"

lemma tx_create_cert:
  assumes "tx_create H k msg tc c x = Inr (cert, x')"
  shows "cert = (case k of Independent \<Rightarrow> generate_hmac H (tx_key x) (ucast c) None tc msg
     | IndependentVector \<Rightarrow> concat (replicate (tx_vecLen x) (generate_hmac H (tx_key x) (ucast c) None tc msg))
     | Continuing \<Rightarrow> generate_hmac H (tx_key x) (ucast c) (Some (tx_old c x)) tc msg)"
  using assms
  by (cases k) (auto simp: CreateIndependentCounterCertificate_def CreateIndependentCounterCertificateVector_def CreateContinuingCounterCertificate_def trinx_call_def tx_old_def
      ecall_create_independent_def ecall_create_independent_vector_def ecall_create_continuing_def Let_def go_simps split: if_splits option.splits)

lemma concat_replicate_slice: "length b = m \<Longrightarrow> i < n \<Longrightarrow> take m (drop (m * i) (concat (replicate n b))) = b"
proof (induction n arbitrary: i)
  case (Suc n)
  then show ?case by (cases i) simp_all
qed simp

text \<open>
  Claim C20. A certificate of one enclave is accepted by every enclave with the same key, for the message, the value and the counter it was made for: an independent one, each of the
  32 byte pieces of a vector, and a continuing one with the value from which it continues.
\<close>

theorem trinx_roundtrip:
  assumes "hmac_ok H" "tx_key y = tx_key x" "tx_create H k msg tc c x = Inr (cert, x')"
  shows "case k of Independent \<Rightarrow> VerifyIndependentCounterCertificate H msg cert tc c y = Inr True
     | IndependentVector \<Rightarrow> list_all (\<lambda>i. \<exists>mac. slice_range cert (32 * i) (32 * i + 32) = Inr mac \<and> VerifyIndependentCounterCertificate H msg mac tc c y = Inr True) [0..<tx_vecLen x]
     | Continuing \<Rightarrow> VerifyContinuingCounterCertificate H msg cert (tx_old c x) tc c y = Inr True"
proof (cases k)
  case IndependentVector
  have "slice_range cert (32 * i) (32 * i + 32) = Inr (generate_hmac H (tx_key x) (ucast c) None tc msg)" if "i < tx_vecLen x" for i
    using tx_create_cert [OF assms(3)] IndependentVector that assms(1)
    by (simp add: slice_range_def concat_replicate_slice length_concat sum_list_replicate)
  with IndependentVector tx_create_cases(5) [OF assms(3)] assms(1,2) show ?thesis by (simp add: list_all_iff VerifyIndependentCounterCertificate_def)
qed (use assms(1,2) tx_create_cert [OF assms(3)] tx_create_cases(5) [OF assms(3)] in
    \<open>auto simp: VerifyIndependentCounterCertificate_def VerifyContinuingCounterCertificate_def dest: arg_cong [where f = length]\<close>)

text \<open>
  Claim C35. Continuing certificates are weaker than they should be: the text under the HMAC does not tell the two kinds apart, so that a certificate which continues from \<open>old\<close> to
  \<open>tc\<close> is also an independent certificate for the value \<open>old\<close>, on the message with the bytes of \<open>tc\<close> in front; and a single byte of a continuing certificate is
  accepted, since the length of what is compared is taken from the certificate.
\<close>

theorem trinx_continuing_weak:
  assumes "hmac_ok H" "tx_key y = tx_key x" "CreateContinuingCounterCertificate H msg tc c x = Inr (cert, x')" "0 < k" "k \<le> 32"
  shows "VerifyIndependentCounterCertificate H (le64_bytes tc @ msg) cert (tx_old c x) c y = Inr True
    \<and> VerifyContinuingCounterCertificate H msg (take k cert) (tx_old c x) tc c y = Inr True"
proof -
  have cr: "tx_create H Continuing msg tc c x = Inr (cert, x')" using assms(3) by simp
  have cert: "cert = generate_hmac H (tx_key x) (ucast c) (Some (tx_old c x)) tc msg" using tx_create_cert [OF cr] by simp
  then have "length cert = 32" using assms(1) by simp
  with assms(2,4,5) cert tx_create_cases(5) [OF cr] show ?thesis
    by (auto simp: VerifyIndependentCounterCertificate_def VerifyContinuingCounterCertificate_def generate_hmac_def)
qed

subsection \<open>Witnesses\<close>

definition ex_hmac :: hmac where
  "ex_hmac key t = take 32 (t @ replicate 32 0)"

lemma ex_hmac_ok: "hmac_ok ex_hmac"
  by (auto simp: hmac_ok_def ex_hmac_def)

definition ex_trinx :: TrInx where
  "ex_trinx = \<lparr>tx_key = [1], tx_counters = [0, 0], tx_vecLen = 2\<rparr>"

lemma ex_trinx_init: "trinx_init [1] 2 2 = Inr ex_trinx"
  by code_simp

lemma ex_trinx_creates:
  "map (\<lambda>k. map_sum id (tx_counters \<circ> snd) (tx_create ex_hmac k [9] 5 1 ex_trinx)) [Independent, IndependentVector, Continuing] = [Inr [0, 5], Inr [0, 5], Inr [0, 5]]"
  by code_simp

lemma ex_trinx_create: obtains cert x' where "tx_create ex_hmac k [9] 5 1 ex_trinx = Inr (cert, x')" "tx_counters x' = [0, 5]" "tx_key x' = [1]"
proof -
  have "map_sum id (tx_counters \<circ> snd) (tx_create ex_hmac k [9] 5 1 ex_trinx) = Inr [0, 5]" using ex_trinx_creates by (cases k) simp_all
  then obtain cert x' where r: "tx_create ex_hmac k [9] 5 1 ex_trinx = Inr (cert, x')" "tx_counters x' = [0, 5]"
    by (cases "tx_create ex_hmac k [9] 5 1 ex_trinx") auto
  moreover have "tx_key x' = [1]" using tx_create_cases(2) [OF r(1)] by (simp add: ex_trinx_def)
  ultimately show thesis by (rule that)
qed

theorem trinx_roundtrip_witness:
  "\<exists>cert. VerifyIndependentCounterCertificate ex_hmac [9] cert 5 1 ex_trinx = Inr True"
proof -
  obtain cert x' where "tx_create ex_hmac Independent [9] 5 1 ex_trinx = Inr (cert, x')" by (rule ex_trinx_create)
  from trinx_roundtrip [OF ex_hmac_ok refl this] show ?thesis by auto
qed

theorem trinx_continuing_weak_witness:
  "\<exists>cert. VerifyIndependentCounterCertificate ex_hmac (le64_bytes 5 @ [9]) cert 0 1 ex_trinx = Inr True \<and> VerifyContinuingCounterCertificate ex_hmac [9] (take 1 cert) 0 5 1 ex_trinx = Inr True"
proof -
  obtain cert x' where "tx_create ex_hmac Continuing [9] 5 1 ex_trinx = Inr (cert, x')" by (rule ex_trinx_create)
  then have "CreateContinuingCounterCertificate ex_hmac [9] 5 1 ex_trinx = Inr (cert, x')" by simp
  moreover have "tx_old 1 ex_trinx = 0" by code_simp
  ultimately show ?thesis using trinx_continuing_weak [OF ex_hmac_ok refl, of "[9]" 5 1 ex_trinx cert x' 1] by auto
qed


end
