(* ===== verification/Ballots.thy ===== *)
theory Ballots
  imports Peer_Types Vote_Quorum
begin

text \<open>
  A cluster of replicas that decide by counting votes which they exchange in messages, with the transport between them and Byzantine nodes. A node is given by the operations of
  \<open>bl_node\<close>; a message of the transport can be delivered to its destination at any time, any number of times or never. A Byzantine node sends anything under its own name.

  The locale \<open>ballot_replica\<close> states what is needed of one replica, and agreement of the cluster is proved in it once. It is used for the ordering layer of DQPBFT.
\<close>

subsection \<open>The cluster\<close>

text \<open>
  \<open>bn_act a s\<close>: what the local action \<open>a\<close> does (a request, a tick, a step of the worker pool), \<open>bn_recv m s\<close>: what the message does; \<open>None\<close> says that it is not possible.
  \<open>bn_out\<close> and \<open>bn_clear\<close>: the messages to be sent, and the state after they have been taken.
\<close>

record ('a, 's) bl_node =
  bn_act :: "'a \<Rightarrow> 's \<Rightarrow> 's go option"
  bn_recv :: "Message \<Rightarrow> 's \<Rightarrow> 's go option"
  bn_out :: "'s \<Rightarrow> Message list"
  bn_clear :: "'s \<Rightarrow> 's"

record 's bl_sys =
  bs_reps :: "(PeerID, 's) fmap"
  bs_halted :: "PeerID list"
  bs_net :: "Message list"

datatype 'a bl_act = BDeliver Message | BLocal PeerID 'a | BSend PeerID | BByz Message

definition bl_on :: "PeerID \<Rightarrow> ('s \<Rightarrow> 's go option) \<Rightarrow> 's bl_sys \<Rightarrow> 's bl_sys option" where
  "bl_on r g S =
     (case fmlookup (bs_reps S) r of
        None \<Rightarrow> None
      | Some s \<Rightarrow> if r \<in> set (bs_halted S) then None
          else case g s of
              None \<Rightarrow> None
            | Some (Inl _) \<Rightarrow> Some (S\<lparr>bs_halted := r # bs_halted S\<rparr>)
            | Some (Inr s') \<Rightarrow> Some (S\<lparr>bs_reps := fmupd r s' (bs_reps S)\<rparr>))"

fun bl_do :: "('a, 's) bl_node \<Rightarrow> PeerID list \<Rightarrow> 'a bl_act \<Rightarrow> 's bl_sys \<Rightarrow> 's bl_sys option" where
  "bl_do N byz (BDeliver m) S = (if m \<in> set (bs_net S) then bl_on (msg_To m) (bn_recv N m) S else None)"
| "bl_do N byz (BLocal r a) S = bl_on r (bn_act N a) S"
| "bl_do N byz (BSend r) S =
     (case fmlookup (bs_reps S) r of
        None \<Rightarrow> None
      | Some s \<Rightarrow> if r \<in> set (bs_halted S) then None
          else Some (S\<lparr>bs_reps := fmupd r (bn_clear N s) (bs_reps S), bs_net := bs_net S @ bn_out N s\<rparr>))"
| "bl_do N byz (BByz m) S = (if msg_From m \<in> set byz then Some (S\<lparr>bs_net := bs_net S @ [m]\<rparr>) else None)"

text \<open>The replicas at the start: \<open>new\<close> is the constructor, \<open>cfg r\<close> the configuration of node \<open>r\<close>; a constructor that panics leaves the node out.\<close>

definition bl_boot :: "('c \<Rightarrow> 's go) \<Rightarrow> (PeerID \<Rightarrow> 'c) \<Rightarrow> PeerID list \<Rightarrow> PeerID list \<Rightarrow> (PeerID, 's) fmap" where
  "bl_boot new cfg nodes byz = fmap_of_list (concat (map (\<lambda>r. if r \<in> set byz then [] else case new (cfg r) of Inl _ \<Rightarrow> [] | Inr s \<Rightarrow> [(r, s)]) nodes))"

definition bl_init :: "(PeerID, 's) fmap \<Rightarrow> 's bl_sys" where
  "bl_init R = \<lparr>bs_reps = R, bs_halted = [], bs_net = []\<rparr>"

fun bl_run :: "('a, 's) bl_node \<Rightarrow> PeerID list \<Rightarrow> 'a bl_act list \<Rightarrow> 's bl_sys \<Rightarrow> 's bl_sys option" where
  "bl_run N byz [] S = Some S"
| "bl_run N byz (a # as) S = (case bl_do N byz a S of None \<Rightarrow> None | Some S' \<Rightarrow> bl_run N byz as S')"

inductive bl_reachable :: "('a, 's) bl_node \<Rightarrow> PeerID list \<Rightarrow> (PeerID, 's) fmap \<Rightarrow> 's bl_sys \<Rightarrow> bool" for N byz R where
  bl_start: "bl_reachable N byz R (bl_init R)"
| bl_step: "bl_reachable N byz R S \<Longrightarrow> bl_do N byz a S = Some S' \<Longrightarrow> bl_reachable N byz R S'"

lemma bl_run_reachable: "bl_run N byz as S = Some S' \<Longrightarrow> bl_reachable N byz R S \<Longrightarrow> bl_reachable N byz R S'"
  by (induction as arbitrary: S) (auto split: option.splits intro: bl_step)

lemma bl_boot_Inr:
  assumes "fmlookup (bl_boot new cfg nodes byz) r = Some s"
  shows "new (cfg r) = Inr s \<and> r \<in> set nodes \<and> r \<notin> set byz"
proof -
  have "(r, s) \<in> set (concat (map (\<lambda>r. if r \<in> set byz then [] else case new (cfg r) of Inl _ \<Rightarrow> [] | Inr s \<Rightarrow> [(r, s)]) nodes))"
    using assms unfolding bl_boot_def fmlookup_of_list by (rule map_of_SomeD)
  then show ?thesis by (auto split: if_splits sum.splits)
qed

lemma bl_on_cases [consumes 1, case_names halt move]:
  assumes "bl_on r g S = Some S'"
  obtains (halt) "bs_reps S' = bs_reps S" "bs_net S' = bs_net S"
  | (move) s s' where "fmlookup (bs_reps S) r = Some s" "g s = Some (Inr s')" "bs_reps S' = fmupd r s' (bs_reps S)" "bs_net S' = bs_net S"
  using assms by (auto simp: bl_on_def split: option.splits if_splits sum.splits)

text \<open>What every node keeps for itself holds of all of them.\<close>

lemma bl_reachable_each:
  assumes "bl_reachable N byz R S" and start: "\<And>r s. fmlookup R r = Some s \<Longrightarrow> I s"
    and act: "\<And>a s s'. I s \<Longrightarrow> bn_act N a s = Some (Inr s') \<Longrightarrow> I s'"
    and recv: "\<And>m s s'. I s \<Longrightarrow> bn_recv N m s = Some (Inr s') \<Longrightarrow> I s'"
    and clear: "\<And>s. I s \<Longrightarrow> I (bn_clear N s)"
    and "fmlookup (bs_reps S) r = Some s"
  shows "I s"
  using assms(1,6)
proof (induction arbitrary: r s rule: bl_reachable.induct)
  case bl_start
  then show ?case using start by (simp add: bl_init_def)
next
  case (bl_step S a S')
  have on: "I s" if o: "bl_on r' g S = Some S'" and g: "\<And>t t'. I t \<Longrightarrow> g t = Some (Inr t') \<Longrightarrow> I t'" for r' g
    using o
  proof (cases rule: bl_on_cases)
    case (move t t')
    with bl_step.IH bl_step.prems g show ?thesis by (cases "r = r'") auto
  qed (use bl_step.IH bl_step.prems in auto)
  show ?case
  proof (cases a)
    case (BDeliver m)
    with bl_step.hyps(2) recv show ?thesis by (auto intro: on split: if_splits)
  next
    case (BLocal r' l)
    with bl_step.hyps(2) act show ?thesis by (auto intro: on)
  next
    case (BSend r')
    with bl_step clear show ?thesis by (auto split: option.splits if_splits)
  next
    case (BByz m)
    with bl_step show ?thesis by (auto split: if_splits)
  qed
qed

subsection \<open>Agreement\<close>

text \<open>
  \<open>ident s\<close>: the replica's own number. \<open>ballots s\<close>: the votes it has recorded, its own among them, as voter, subject and vote. \<open>says m\<close>: the votes that the message \<open>m\<close> carries for
  its sender. \<open>decided s\<close>: the subjects decided with \<open>q\<close> votes. A replica never changes a vote of its own, records a vote for another one only when a message from it says so, and
  sends only votes that it has recorded itself.
\<close>

locale ballot_replica =
  fixes N :: "('a, 's) bl_node" and ident :: "'s \<Rightarrow> PeerID" and inv :: "'s \<Rightarrow> bool"
    and ballots :: "'s \<Rightarrow> (PeerID \<times> 'k \<times> 'h) set" and says :: "Message \<Rightarrow> ('k \<times> 'h) set" and decided :: "'s \<Rightarrow> ('k \<times> 'h) set" and q :: nat
  assumes act_ok: "inv s \<Longrightarrow> bn_act N a s = Some (Inr s') \<Longrightarrow> inv s' \<and> ident s' = ident s
      \<and> ballots s' \<subseteq> ballots s \<union> {ident s} \<times> UNIV \<and> ballots s \<inter> {ident s} \<times> UNIV \<subseteq> ballots s'"
    and recv_ok: "inv s \<Longrightarrow> msg_From m \<noteq> ident s \<Longrightarrow> bn_recv N m s = Some (Inr s') \<Longrightarrow> inv s' \<and> ident s' = ident s
      \<and> ballots s' \<subseteq> ballots s \<union> {msg_From m} \<times> says m \<union> {ident s} \<times> UNIV \<and> ballots s \<inter> {ident s} \<times> UNIV \<subseteq> ballots s'"
    and clear_ok: "inv s \<Longrightarrow> inv (bn_clear N s) \<and> ident (bn_clear N s) = ident s \<and> ballots (bn_clear N s) = ballots s"
    and out_ok: "inv s \<Longrightarrow> m \<in> set (bn_out N s) \<Longrightarrow> msg_From m = ident s \<and> msg_To m \<noteq> ident s \<and> {ident s} \<times> says m \<subseteq> ballots s"
    and own_fun: "inv s \<Longrightarrow> (ident s, k, h) \<in> ballots s \<Longrightarrow> (ident s, k, h') \<in> ballots s \<Longrightarrow> h = h'"
    and quorum: "inv s \<Longrightarrow> (k, h) \<in> decided s \<Longrightarrow> q \<le> card {i. (i, k, h) \<in> ballots s}"
begin

text \<open>A vote attributed to a node: of a member, and if it is not Byzantine the node has recorded the vote itself.\<close>

definition backed :: "PeerID list \<Rightarrow> PeerID list \<Rightarrow> (PeerID, 's) fmap \<Rightarrow> PeerID \<times> 'k \<times> 'h \<Rightarrow> bool" where
  "backed nodes byz R v \<longleftrightarrow> fst v \<in> set byz \<or> fst v \<in> set nodes \<and> (\<exists>s. fmlookup R (fst v) = Some s \<and> v \<in> ballots s)"

definition net_ok :: "PeerID list \<Rightarrow> PeerID list \<Rightarrow> (PeerID, 's) fmap \<Rightarrow> Message \<Rightarrow> bool" where
  "net_ok nodes byz R m \<longleftrightarrow> msg_From m \<in> set byz \<or> msg_To m \<noteq> msg_From m \<and> (\<forall>v \<in> says m. backed nodes byz R (msg_From m, v))"

definition cluster_inv :: "PeerID list \<Rightarrow> PeerID list \<Rightarrow> 's bl_sys \<Rightarrow> bool" where
  "cluster_inv nodes byz S \<longleftrightarrow>
     (\<forall>r s. fmlookup (bs_reps S) r = Some s \<longrightarrow> inv s \<and> ident s = r \<and> r \<in> set nodes \<and> r \<notin> set byz \<and> (\<forall>v \<in> ballots s. backed nodes byz (bs_reps S) v))
     \<and> (\<forall>m \<in> set (bs_net S). net_ok nodes byz (bs_reps S) m)"

lemma backed_mono:
  assumes "backed nodes byz R v" "fmlookup R r = Some s" "ident s = r" "ballots s \<inter> {r} \<times> UNIV \<subseteq> ballots s'"
  shows "backed nodes byz (fmupd r s' R) v"
  using assms by (cases v) (auto simp: backed_def)

lemma net_ok_mono:
  assumes "net_ok nodes byz R m" "fmlookup R r = Some s" "ident s = r" "ballots s \<inter> {r} \<times> UNIV \<subseteq> ballots s'"
  shows "net_ok nodes byz (fmupd r s' R) m"
  using assms backed_mono [OF _ assms(2-4)] by (auto simp: net_ok_def)

text \<open>A replica moves, with the votes \<open>V\<close> of another node.\<close>

lemma cluster_move:
  assumes c: "cluster_inv nodes byz S" and r: "fmlookup (bs_reps S) r = Some s" and s': "inv s'" "ident s' = r"
    and new: "ballots s' \<subseteq> ballots s \<union> V \<union> {r} \<times> UNIV" and own: "ballots s \<inter> {r} \<times> UNIV \<subseteq> ballots s'"
    and V: "\<forall>v \<in> V. backed nodes byz (bs_reps S) v" and S': "bs_reps S' = fmupd r s' (bs_reps S)" "bs_net S' = bs_net S @ ms"
    and ms: "\<forall>m \<in> set ms. net_ok nodes byz (bs_reps S) m"
  shows "cluster_inv nodes byz S'"
proof -
  have s: "inv s" "ident s = r" "r \<in> set nodes" "r \<notin> set byz" "\<forall>v \<in> ballots s. backed nodes byz (bs_reps S) v" using c r by (auto simp: cluster_inv_def)
  note mono = backed_mono [OF _ r s(2) own]
  have b': "backed nodes byz (bs_reps S') v" if "v \<in> ballots s'" for v
  proof (cases "fst v = r")
    case True
    then show ?thesis using that s(3) by (auto simp: backed_def S'(1))
  next
    case False
    with that new have "v \<in> ballots s \<or> v \<in> V" by auto
    with s(5) V show ?thesis by (auto simp: S'(1) intro: mono)
  qed
  have "inv t \<and> ident t = i \<and> i \<in> set nodes \<and> i \<notin> set byz \<and> (\<forall>v \<in> ballots t. backed nodes byz (bs_reps S') v)"
    if "fmlookup (bs_reps S') i = Some t" for i t
  proof (cases "i = r")
    case True
    with that s s' b' show ?thesis by (simp add: S'(1))
  next
    case False
    with that have "fmlookup (bs_reps S) i = Some t" by (simp add: S'(1))
    with c show ?thesis by (auto simp: cluster_inv_def S'(1) intro: mono)
  qed
  moreover have "net_ok nodes byz (bs_reps S') m" if "m \<in> set (bs_net S')" for m
    using that c ms net_ok_mono [OF _ r s(2) own] by (auto simp: cluster_inv_def S')
  ultimately show ?thesis by (simp add: cluster_inv_def)
qed

lemma cluster_step:
  assumes "cluster_inv nodes byz S" "bl_do N byz a S = Some S'"
  shows "cluster_inv nodes byz S'"
proof (cases a)
  case (BDeliver m)
  with assms(2) have m: "m \<in> set (bs_net S)" and on: "bl_on (msg_To m) (bn_recv N m) S = Some S'" by (auto split: if_splits)
  have net: "net_ok nodes byz (bs_reps S) m" using assms(1) m by (auto simp: cluster_inv_def)
  from on show ?thesis
  proof (cases rule: bl_on_cases)
    case (move s s')
    then have s: "inv s" "ident s = msg_To m" "msg_To m \<notin> set byz" using assms(1) by (auto simp: cluster_inv_def)
    then have "msg_From m \<noteq> ident s" using net by (auto simp: net_ok_def)
    note ok = recv_ok [OF s(1) this move(2)]
    have "\<forall>v \<in> {msg_From m} \<times> says m. backed nodes byz (bs_reps S) v" using net by (auto simp: net_ok_def backed_def)
    with ok s(2) show ?thesis by (intro cluster_move [OF assms(1) move(1) _ _ _ _ _ move(3), where V = "{msg_From m} \<times> says m" and ms = "[]"]) (auto simp: move(4))
  qed (use assms(1) in \<open>simp add: cluster_inv_def\<close>)
next
  case (BLocal r l)
  with assms(2) have "bl_on r (bn_act N l) S = Some S'" by simp
  then show ?thesis
  proof (cases rule: bl_on_cases)
    case (move s s')
    then have s: "inv s" "ident s = r" using assms(1) by (auto simp: cluster_inv_def)
    note ok = act_ok [OF s(1) move(2)]
    with s(2) show ?thesis by (intro cluster_move [OF assms(1) move(1) _ _ _ _ _ move(3), where V = "{}" and ms = "[]"]) (auto simp: move(4))
  qed (use assms(1) in \<open>simp add: cluster_inv_def\<close>)
next
  case (BSend r)
  with assms(2) obtain s where r: "fmlookup (bs_reps S) r = Some s" and S': "S' = S\<lparr>bs_reps := fmupd r (bn_clear N s) (bs_reps S), bs_net := bs_net S @ bn_out N s\<rparr>"
    by (auto split: option.splits if_splits)
  then have s: "inv s" "ident s = r" "r \<in> set nodes" using assms(1) by (auto simp: cluster_inv_def)
  have "\<forall>m \<in> set (bn_out N s). net_ok nodes byz (bs_reps S) m"
  proof
    fix m assume "m \<in> set (bn_out N s)"
    from out_ok [OF s(1) this] s(2,3) r show "net_ok nodes byz (bs_reps S) m" by (auto simp: net_ok_def backed_def)
  qed
  with clear_ok [OF s(1)] s(2) show ?thesis by (intro cluster_move [OF assms(1) r, where V = "{}" and ms = "bn_out N s"]) (auto simp: S')
next
  case (BByz m)
  with assms show ?thesis by (auto simp: cluster_inv_def net_ok_def split: if_splits)
qed

text \<open>The states in which a replica may start: it has recorded no vote.\<close>

definition fresh_cluster :: "PeerID list \<Rightarrow> PeerID list \<Rightarrow> (PeerID, 's) fmap \<Rightarrow> bool" where
  "fresh_cluster nodes byz R \<longleftrightarrow> (\<forall>r s. fmlookup R r = Some s \<longrightarrow> inv s \<and> ident s = r \<and> r \<in> set nodes \<and> r \<notin> set byz \<and> ballots s = {})"

lemma reachable_inv:
  assumes "fresh_cluster nodes byz R" "bl_reachable N byz R S"
  shows "cluster_inv nodes byz S"
  using assms(2)
proof (induction rule: bl_reachable.induct)
  case bl_start
  show ?case using assms(1) by (simp add: cluster_inv_def fresh_cluster_def bl_init_def)
qed (rule cluster_step)

text \<open>Two replicas attribute to a node that is not Byzantine the same vote on a subject.\<close>

lemma correct_voter:
  assumes "cluster_inv nodes byz S" "fmlookup (bs_reps S) r1 = Some s1" "fmlookup (bs_reps S) r2 = Some s2"
    and "(i, k, h1) \<in> ballots s1" "(i, k, h2) \<in> ballots s2" "i \<notin> set byz"
  shows "h1 = h2"
proof -
  have "backed nodes byz (bs_reps S) (i, k, h1)" "backed nodes byz (bs_reps S) (i, k, h2)" using assms(1-5) by (auto simp: cluster_inv_def)
  then obtain s where "fmlookup (bs_reps S) i = Some s" "(i, k, h1) \<in> ballots s" "(i, k, h2) \<in> ballots s" using assms(6) by (auto simp: backed_def)
  moreover from this have "inv s" "ident s = i" using assms(1) by (auto simp: cluster_inv_def)
  ultimately show ?thesis using own_fun by blast
qed

lemma voter_is_node:
  assumes "cluster_inv nodes byz S" "fmlookup (bs_reps S) r = Some s" "set byz \<subseteq> set nodes" "(i, v) \<in> ballots s"
  shows "i \<in> set nodes"
proof -
  have "backed nodes byz (bs_reps S) (i, v)" using assms by (auto simp: cluster_inv_def)
  with assms(3) show ?thesis by (auto simp: backed_def)
qed

lemma correct_in_quorum:
  assumes c: "cluster_inv nodes byz S" and s: "fmlookup (bs_reps S) r = Some s" "(k, h) \<in> decided s" and "card (set byz) < q"
  obtains i t where "fmlookup (bs_reps S) i = Some t" "(i, k, h) \<in> ballots t" "inv t" "ident t = i"
proof -
  have "inv s" using c s(1) by (auto simp: cluster_inv_def)
  from quorum [OF this s(2)] assms(4) have "card (set byz) < card {i. (i, k, h) \<in> ballots s}" by linarith
  then have "\<not> {i. (i, k, h) \<in> ballots s} \<subseteq> set byz" using card_mono [OF finite_set] by (meson not_less)
  then obtain i where i: "(i, k, h) \<in> ballots s" "i \<notin> set byz" by blast
  have "backed nodes byz (bs_reps S) (i, k, h)" using c s(1) i(1) by (auto simp: cluster_inv_def)
  with i(2) obtain t where t: "fmlookup (bs_reps S) i = Some t" "(i, k, h) \<in> ballots t" by (auto simp: backed_def)
  moreover have "inv t" "ident t = i" using c t(1) by (auto simp: cluster_inv_def)
  ultimately show thesis by (rule that)
qed

lemma agreement:
  assumes c: "cluster_inv nodes byz S" and s1: "fmlookup (bs_reps S) r1 = Some s1" "(k, h1) \<in> decided s1"
    and s2: "fmlookup (bs_reps S) r2 = Some s2" "(k, h2) \<in> decided s2"
    and "set byz \<subseteq> set nodes" "card (set nodes) + card (set byz) < 2 * q"
  shows "h1 = h2"
proof -
  let ?Q1 = "{i. (i, k, h1) \<in> ballots s1}" and ?Q2 = "{i. (i, k, h2) \<in> ballots s2}"
  have "inv s1" "inv s2" using c s1(1) s2(1) by (auto simp: cluster_inv_def)
  then have "q \<le> card ?Q1" "q \<le> card ?Q2" using quorum s1(2) s2(2) by blast+
  then have "card (set nodes) + card (set byz) < card ?Q1 + card ?Q2" using assms(7) by linarith
  moreover have "?Q1 \<subseteq> set nodes" "?Q2 \<subseteq> set nodes" using voter_is_node [OF c s1(1) assms(6)] voter_is_node [OF c s2(1) assms(6)] by blast+
  ultimately obtain i where "(i, k, h1) \<in> ballots s1" "(i, k, h2) \<in> ballots s2" "i \<notin> set byz"
    using common_voter_outside [of "set nodes" ?Q1 ?Q2 "set byz"] by auto
  then show ?thesis using correct_voter [OF c s1(1) s2(1)] by blast
qed

end

end
