(* ===== verification/Hybster.thy ===== *)
theory Hybster
  imports Ordered TrInx Worker Ballots
begin

unbundle bit_operations_syntax

text \<open>
  The replica of \<open>protocols/hybster\<close>: one phase of votes under a leader, certified by the trusted counters of theory \<open>TrInx\<close>, and the change of views (\<open>viewchange.go\<close>). The tables of votes
  are those of theory \<open>Ordered\<close>.

  A message that the log \<open>omsgs\<close> points to is also the argument of \<open>onPrepare\<close>, which sets its command to nil; the entry of \<open>omsgs\<close> is changed accordingly. Nothing else
  reads a message through two pointers. \<open>sort.Slice\<close> is not stable and is given comparisons that are no orders; its result is the parameter \<open>env_sortPr\<close>.
\<close>

subsection \<open>Messages (\<open>hybsterpb\<close>)\<close>

datatype HyType = HY_Prepare | HY_Commit | HY_ViewChange | HY_NewView | HY_NewViewAck | HY_Unknown nat

record HyNormal =
  yn_Type :: HyType
  yn_View :: u64
  yn_Order :: u64
  yn_Command :: "Command option"
  yn_CommandHash :: slice

record Support =
  su_RawMsg :: bytes
  su_Cert :: bytes
  su_From :: PeerID

record HyViewChange =
  yv_FromView :: u64
  yv_ToView :: u64
  yv_Order :: u64
  yv_History :: "Support list"

record HyNewView =
  nv_FromView :: u64
  nv_ToView :: u64
  nv_History :: "Support list"
  nv_Proof :: "Support list"

record HyNewViewAck =
  na_View :: u64
  na_History :: "Support list"

datatype HybsterMessage =
    HybsterMessage_Normal HyNormal | HybsterMessage_ViewChange HyViewChange | HybsterMessage_NewView HyNewView
  | HybsterMessage_NewViewAck HyNewViewAck | HybsterMessage_Unset

record prPkg =
  pp_pr :: HyNormal
  pp_content :: bytes
  pp_cert :: bytes
  pp_from :: PeerID

text \<open>The pointer to a view change is nil for a message of another type.\<close>

record vcPkg =
  vp_vc :: "HyViewChange option"
  vp_content :: bytes
  vp_cert :: bytes
  vp_from :: PeerID

record nvaPkg =
  ap_nva :: HyNewViewAck
  ap_content :: bytes
  ap_cert :: bytes
  ap_from :: PeerID

record hy_env = go_env +
  env_marshalHy :: "HybsterMessage \<Rightarrow> bytes"
  env_unmarshalHy :: "bytes \<Rightarrow> HybsterMessage option"
  env_hyhmac :: hmac
  env_sortPr :: "(prPkg \<Rightarrow> prPkg \<Rightarrow> bool) \<Rightarrow> prPkg list \<Rightarrow> prPkg list"

definition HyNormal_Equals :: "HyNormal \<Rightarrow> HyNormal \<Rightarrow> bool" where
  "HyNormal_Equals m other =
     (if yn_View m \<noteq> yn_View other then False
      else if yn_Order m \<noteq> yn_Order other then False
      else bytes_Equal (yn_CommandHash m) (yn_CommandHash other))"

subsection \<open>Vote tables (\<open>quorum.go\<close>)\<close>

definition hy_qlog :: "PeerID \<Rightarrow> HyNormal \<Rightarrow> HyNormal view_table \<Rightarrow> HyNormal view_table go" where
  "hy_qlog = vt_log yn_View FatalExit"

definition hy_qMajority :: "int \<Rightarrow> HyNormal \<Rightarrow> HyNormal view_table \<Rightarrow> bool" where
  "hy_qMajority f = vt_Majority yn_View HyNormal_Equals f"

definition hy_qReset :: "HyNormal view_table \<Rightarrow> HyNormal view_table" where
  "hy_qReset q = q\<lparr>vt_msgs := fmempty\<rparr>"

interpretation hy_votes: vote_quorum hy_qlog vt_votes hy_qMajority yn_View "\<lambda>m. (yn_View m, yn_Order m, sbytes (yn_CommandHash m))" "\<lambda>f. f"
  unfolding hy_qlog_def hy_qMajority_def by (rule vt_vote_quorum) (auto simp: HyNormal_Equals_def bytes_Equal_def)

subsection \<open>The replica\<close>

text \<open>The instance of slot 0, which the constructor makes, has no table of votes.\<close>

record hy_instance =
  yi_slot :: u64
  yi_view :: u64
  yi_command :: "Command option"
  yi_commandHash :: slice
  yi_prepared :: bool
  yi_commit :: bool
  yi_executed :: bool
  yi_quorum :: "HyNormal view_table option"

record hy_job =
  yj_msg :: HyNormal
  yj_bytes :: bytes
  yj_counter :: u64

record hybster =
  hy_id :: PeerID
  hy_nodes :: "PeerID list"
  hy_f :: int
  hy_log :: "(u64, hy_instance) fmap"
  hy_execute :: u64
  hy_slot :: u64
  hy_msgs :: "Message list"
  hy_executedCmds :: "ExecPacket list"
  hy_certifier :: TrInx
  hy_omsgs :: "prPkg list"
  hy_vmsgs :: "vcPkg list"
  hy_nvmsgs :: "HyNewView list"
  hy_nvamsgs :: "nvaPkg list"
  hy_stableView :: u64
  hy_curView :: u64
  hy_signDispatcher :: "(hy_job, bytes) Dispatcher"

record hy_config = LocalConfig +
  cfg_SecretKeys :: "bytes list"

definition hy_instance0 :: hy_instance where
  "hy_instance0 = \<lparr>yi_slot = 0, yi_view = 0, yi_command = None, yi_commandHash = None, yi_prepared = False, yi_commit = False, yi_executed = False, yi_quorum = None\<rparr>"

definition NewHybster :: "hy_config \<Rightarrow> hybster go" where
  "NewHybster c =
     (case cfg_SecretKeys c of
        [] \<Rightarrow> Inl IndexRange
      | key # _ \<Rightarrow> go_bind (trinx_init key 3 (length (cfg_Peers c))) (\<lambda>x.
          Inr \<lparr>hy_id = cfg_ID c, hy_nodes = cfg_Peers c, hy_f = cfg_MaxFailures c, hy_log = fmupd 0 hy_instance0 fmempty, hy_execute = 1, hy_slot = 0,
               hy_msgs = [], hy_executedCmds = [], hy_certifier = x, hy_omsgs = [], hy_vmsgs = [], hy_nvmsgs = [], hy_nvamsgs = [],
               hy_stableView = cfg_LeaderID c, hy_curView = cfg_LeaderID c,
               hy_signDispatcher = Dispatcher_Run (NewDispatcher 1 (case fmlookup (cfg_WorkersQueueSizes c) ''mac_sign'' of None \<Rightarrow> 0 | Some n \<Rightarrow> n))\<rparr>))"

definition hy_put :: "u64 \<Rightarrow> hy_instance \<Rightarrow> hybster \<Rightarrow> hybster" where
  "hy_put i inst p = p\<lparr>hy_log := fmupd i inst (hy_log p)\<rparr>"

text \<open>A vote for the instance; the receiver of \<open>log\<close> is nil for slot 0.\<close>

definition hy_ilog :: "PeerID \<Rightarrow> HyNormal \<Rightarrow> hy_instance \<Rightarrow> hy_instance go" where
  "hy_ilog i m inst = (case yi_quorum inst of None \<Rightarrow> Inl NilDeref | Some q \<Rightarrow> go_bind (hy_qlog i m q) (\<lambda>q'. Inr (inst\<lparr>yi_quorum := Some q'\<rparr>)))"

definition hy_iMajority :: "int \<Rightarrow> HyNormal \<Rightarrow> hy_instance \<Rightarrow> bool" where
  "hy_iMajority f m inst = (case yi_quorum inst of None \<Rightarrow> False | Some q \<Rightarrow> hy_qMajority f m q)"

definition hy_reset :: "hy_instance \<Rightarrow> hy_instance go" where
  "hy_reset inst = (case yi_quorum inst of None \<Rightarrow> Inl NilDeref
     | Some q \<Rightarrow> Inr (inst\<lparr>yi_quorum := Some (hy_qReset q), yi_prepared := False, yi_commit := False, yi_executed := False\<rparr>))"

definition hy_leaderOfView :: "u64 \<Rightarrow> hybster \<Rightarrow> PeerID go" where
  "hy_leaderOfView v p = go_umod v (length (hy_nodes p))"

subsection \<open>Sending (\<open>messaging.go\<close>)\<close>

definition hy_counter :: "u64 \<Rightarrow> u64 \<Rightarrow> u64" where
  "hy_counter view order = push_bit 48 view OR order"

definition hy_sendTo :: "PeerID \<Rightarrow> bytes \<Rightarrow> bytes \<Rightarrow> hybster \<Rightarrow> hybster" where
  "hy_sendTo to mm cert p =
     p\<lparr>hy_msgs := hy_msgs p @ [\<lparr>msg_From = hy_id p, msg_To = to, msg_Content = mm, msg_Certificate = cert\<rparr>]\<rparr>"

definition hy_broadcast :: "bytes \<Rightarrow> bytes \<Rightarrow> hybster \<Rightarrow> hybster" where
  "hy_broadcast mBytes cert p = fold (\<lambda>node p'. if node \<noteq> hy_id p' then hy_sendTo node mBytes cert p' else p') (hy_nodes p) p"

definition hy_marshalAndSignNormal :: "hy_env \<Rightarrow> HyNormal \<Rightarrow> hybster \<Rightarrow> ((bytes \<times> bytes) \<times> hybster) go" where
  "hy_marshalAndSignNormal E m p =
     (let mBytes = env_marshalHy E (HybsterMessage_Normal m) in
      go_bind (CreateIndependentCounterCertificateVector (env_hyhmac E) mBytes (hy_counter (yn_View m) (yn_Order m)) 0 (hy_certifier p)) (\<lambda>(cert, x).
      go_bind (slice_range cert 0 32) (\<lambda>c. Inr ((mBytes, c), p\<lparr>hy_certifier := x\<rparr>))))"

definition hy_broadcastNormal :: "hy_env \<Rightarrow> HyNormal \<Rightarrow> hybster \<Rightarrow> hybster" where
  "hy_broadcastNormal E m p =
     p\<lparr>hy_signDispatcher := Dispatcher_Exec
         \<lparr>yj_msg = m, yj_bytes = env_marshalHy E (HybsterMessage_Normal m), yj_counter = hy_counter (yn_View m) (yn_Order m)\<rparr> (hy_signDispatcher p)\<rparr>"

text \<open>What a worker does with a job, and the replica's callback.\<close>

definition hy_sign :: "hy_env \<Rightarrow> hy_job \<Rightarrow> hybster \<Rightarrow> (bytes \<times> TrInx) go" where
  "hy_sign E j p = CreateIndependentCounterCertificateVector (env_hyhmac E) (yj_bytes j) (yj_counter j) 0 (hy_certifier p)"

definition hy_signed :: "hy_job \<Rightarrow> bytes \<Rightarrow> hybster \<Rightarrow> hybster go" where
  "hy_signed j cert p =
     go_bind (if yn_Type (yj_msg j) = HY_Prepare
       then go_bind (slice_range cert 0 32) (\<lambda>c.
         Inr (p\<lparr>hy_omsgs := hy_omsgs p @ [\<lparr>pp_pr = yj_msg j, pp_content = yj_bytes j, pp_cert = c, pp_from = hy_id p\<rparr>]\<rparr>))
       else Inr p) (\<lambda>p1.
     go_fold (\<lambda>node p'.
        if node \<noteq> hy_id p'
        then go_bind (slice_range cert (unat (node * 32)) (unat (node * 32 + 32))) (\<lambda>c. Inr (hy_sendTo node (yj_bytes j) c p'))
        else Inr p') (hy_nodes p1) p1)"

definition hy_AsyncCallback :: "hybster \<Rightarrow> hybster go" where
  "hy_AsyncCallback p =
     (case drain_callbacks (hy_signDispatcher p) of (cbs, d) \<Rightarrow> go_fold (\<lambda>(job, cert). hy_signed job cert) cbs (p\<lparr>hy_signDispatcher := d\<rparr>))"

definition hy_broadcastVC :: "hy_env \<Rightarrow> HyViewChange \<Rightarrow> hybster \<Rightarrow> hybster go" where
  "hy_broadcastVC E m p =
     (let mBytes = env_marshalHy E (HybsterMessage_ViewChange m) in
      go_bind (CreateContinuingCounterCertificate (env_hyhmac E) mBytes (push_bit 48 (yv_ToView m)) 0 (hy_certifier p)) (\<lambda>(cert, x).
      Inr (hy_broadcast mBytes cert (p\<lparr>hy_certifier := x,
        hy_vmsgs := hy_vmsgs p @ [\<lparr>vp_vc = Some m, vp_content = mBytes, vp_cert = cert, vp_from = hy_id p\<rparr>]\<rparr>))))"

definition hy_broadcastNV :: "hy_env \<Rightarrow> HyNewView \<Rightarrow> hybster \<Rightarrow> hybster go" where
  "hy_broadcastNV E m p =
     (let mBytes = env_marshalHy E (HybsterMessage_NewView m) in
      go_bind (CreateIndependentCounterCertificate (env_hyhmac E) mBytes (push_bit 48 (nv_ToView m)) 1 (hy_certifier p)) (\<lambda>(cert, x).
      Inr (hy_broadcast mBytes cert (p\<lparr>hy_certifier := x, hy_nvmsgs := hy_nvmsgs p @ [m]\<rparr>))))"

text \<open>The certificate is made for the hash of the message.\<close>

definition hy_broadcastNVA :: "hy_env \<Rightarrow> HyNewViewAck \<Rightarrow> hybster \<Rightarrow> hybster go" where
  "hy_broadcastNVA E m p =
     (let mBytes = env_marshalHy E (HybsterMessage_NewViewAck m); mHash = env_sha256 E mBytes in
      go_bind (CreateContinuingCounterCertificate (env_hyhmac E) mHash 0 2 (hy_certifier p)) (\<lambda>(cert, x).
      Inr (hy_broadcast mBytes cert (p\<lparr>hy_certifier := x,
        hy_nvamsgs := hy_nvamsgs p @ [\<lparr>ap_nva = m, ap_content = mBytes, ap_cert = cert, ap_from = hy_id p\<rparr>]\<rparr>))))"

definition hy_ClearMsgs :: "hybster \<Rightarrow> hybster" where
  "hy_ClearMsgs p = p\<lparr>hy_msgs := []\<rparr>"

subsection \<open>Slots (\<open>instance.go\<close>)\<close>

definition hy_makeInstance :: "HyNormal \<Rightarrow> hy_instance" where
  "hy_makeInstance m =
     \<lparr>yi_slot = yn_Order m, yi_view = yn_View m, yi_command = yn_Command m, yi_commandHash = yn_CommandHash m,
      yi_prepared = False, yi_commit = False, yi_executed = False, yi_quorum = Some vt_new\<rparr>"

definition hy_updateCommand :: "hy_instance \<Rightarrow> HyNormal \<Rightarrow> hy_instance go" where
  "hy_updateCommand inst m =
     (if yi_command inst \<noteq> None
      then go_bind (Command_Equal (yi_command inst) (yn_Command m)) (\<lambda>b. if \<not> b then Inl PanicCall else Inr inst)
      else Inr (inst\<lparr>yi_command := yn_Command m\<rparr>))"

definition hy_updateCommandHash :: "hy_instance \<Rightarrow> HyNormal \<Rightarrow> hy_instance go" where
  "hy_updateCommandHash inst m =
     (if yi_commandHash inst \<noteq> None
      then (if \<not> bytes_Equal (yi_commandHash inst) (yn_CommandHash m) then Inl PanicCall else Inr inst)
      else Inr (inst\<lparr>yi_commandHash := yn_CommandHash m\<rparr>))"

definition hy_checkCommandHash :: "hy_env \<Rightarrow> Command option \<Rightarrow> slice \<Rightarrow> bool go" where
  "hy_checkCommandHash E cmd hash = go_bind (Hash_ptr E cmd) (\<lambda>h. Inr (bytes_Equal hash h))"

definition hy_Execute :: "Command \<Rightarrow> hybster \<Rightarrow> hybster" where
  "hy_Execute cmd p = p\<lparr>hy_executedCmds := hy_executedCmds p @ [mkExecPacket cmd]\<rparr>"

definition hy_pending :: "hybster \<Rightarrow> u64 set" where
  "hy_pending p = {i. \<exists>inst. fmlookup (hy_log p) i = Some inst \<and> yi_command inst \<noteq> None}"

text \<open>Each round clears a command, so the loop ends.\<close>

function hy_exec :: "hybster \<Rightarrow> hybster" where
  "hy_exec p =
     (case fmlookup (hy_log p) (hy_execute p) of
        None \<Rightarrow> p
      | Some e \<Rightarrow>
          (if \<not> yi_commit e then p
           else case yi_command e of
               None \<Rightarrow> p
             | Some cmd \<Rightarrow> hy_exec (hy_put (hy_execute p) (e\<lparr>yi_command := None, yi_executed := True\<rparr>) ((hy_Execute cmd p)\<lparr>hy_execute := hy_execute p + 1\<rparr>))))"
  by pat_completeness auto
termination
proof (relation "measure (\<lambda>p. card (hy_pending p))", simp, clarsimp)
  fix p :: hybster and e cmd
  assume *: "fmlookup (hy_log p) (hy_execute p) = Some e" "yi_command e = Some cmd"
  let ?p' = "hy_put (hy_execute p) (e\<lparr>yi_command := None, yi_executed := True\<rparr>) ((hy_Execute cmd p)\<lparr>hy_execute := hy_execute p + 1\<rparr>)"
  have "hy_pending ?p' = hy_pending p - {hy_execute p}" by (auto simp: hy_pending_def hy_put_def hy_Execute_def split: if_splits)
  moreover have "hy_execute p \<in> hy_pending p" using * by (simp add: hy_pending_def)
  ultimately show "card (hy_pending ?p') < card (hy_pending p)" by (metis card_Diff1_less finite)
qed

declare hy_exec.simps [simp del]

text \<open>The end of \<open>onPrepare\<close> and \<open>onCommit\<close>.\<close>

definition hy_tryCommit :: "HyNormal \<Rightarrow> hy_instance \<Rightarrow> hybster \<Rightarrow> hybster" where
  "hy_tryCommit m inst p =
     (if yi_prepared inst \<and> \<not> yi_commit inst \<and> hy_iMajority (hy_f p) m inst
      then hy_exec (hy_put (yn_Order m) (inst\<lparr>yi_commit := True\<rparr>) p)
      else hy_put (yn_Order m) inst p)"

definition hy_onPrepare :: "hy_env \<Rightarrow> HyNormal \<Rightarrow> PeerID \<Rightarrow> hybster \<Rightarrow> hybster go" where
  "hy_onPrepare E m from p =
     (if yn_View m < hy_curView p then Inr p
      else let p1 = p\<lparr>hy_slot := (if hy_slot p < yn_Order m then yn_Order m else hy_slot p)\<rparr> in
        go_bind (hy_checkCommandHash E (yn_Command m) (yn_CommandHash m)) (\<lambda>b.
        if \<not> b then Inl PanicCall
        else go_bind (case fmlookup (hy_log p1) (yn_Order m) of
            None \<Rightarrow> Inr (hy_makeInstance m)
          | Some inst \<Rightarrow> go_bind (hy_updateCommand inst m) (\<lambda>inst'. hy_updateCommandHash inst' m)) (\<lambda>inst.
        let m' = m\<lparr>yn_Command := None\<rparr> in
        go_bind (hy_ilog from m' inst) (\<lambda>inst1.
        let cm = \<lparr>yn_Type = HY_Commit, yn_View = yn_View m, yn_Order = yn_Order m, yn_Command = None, yn_CommandHash = yn_CommandHash m\<rparr>;
            p2 = hy_broadcastNormal E cm p1 in
        go_bind (hy_ilog (hy_id p2) cm (inst1\<lparr>yi_prepared := True\<rparr>)) (\<lambda>inst2.
        Inr (hy_tryCommit m' inst2 p2))))))"

definition hy_onCommit :: "HyNormal \<Rightarrow> PeerID \<Rightarrow> hybster \<Rightarrow> hybster go" where
  "hy_onCommit m from p =
     (let p1 = p\<lparr>hy_slot := (if hy_slot p < yn_Order m then yn_Order m else hy_slot p)\<rparr> in
      go_bind (case fmlookup (hy_log p1) (yn_Order m) of None \<Rightarrow> Inr (hy_makeInstance m) | Some inst \<Rightarrow> hy_updateCommandHash inst m) (\<lambda>inst.
      go_bind (hy_ilog from m inst) (\<lambda>inst1. Inr (hy_tryCommit m inst1 p1))))"

subsection \<open>Requests (\<open>request.go\<close>)\<close>

definition hy_onRequest :: "hy_env \<Rightarrow> Command \<Rightarrow> hybster \<Rightarrow> hybster go" where
  "hy_onRequest E cmd p =
     (if hy_curView p \<noteq> hy_stableView p then Inl PanicCall
      else go_bind (go_umod (hy_stableView p) (length (hy_nodes p))) (\<lambda>l.
      if l \<noteq> hy_id p then Inl PanicCall
      else let slot = hy_slot p + 1;
               cmdHash = Command_Hash E cmd;
               inst = \<lparr>yi_slot = slot, yi_view = hy_curView p, yi_command = Some cmd, yi_commandHash = cmdHash,
                       yi_prepared = False, yi_commit = False, yi_executed = False, yi_quorum = Some vt_new\<rparr>;
               pr = \<lparr>yn_Type = HY_Prepare, yn_View = hy_curView p, yn_Order = slot, yn_Command = Some cmd, yn_CommandHash = cmdHash\<rparr>
           in go_bind (hy_ilog (hy_id p) pr inst) (\<lambda>inst1.
              Inr (hy_broadcastNormal E pr (hy_put slot (inst1\<lparr>yi_prepared := True\<rparr>) (p\<lparr>hy_slot := slot\<rparr>))))))"

end
