(* ===== verification/Hybster_ViewChange.thy ===== *)
theory Hybster_ViewChange
  imports Hybster
begin

unbundle bit_operations_syntax

text \<open>The change of views of \<open>protocols/hybster/viewchange.go\<close> and the entry points of the replica (\<open>hybster.go\<close>).\<close>

subsection \<open>Searching\<close>

text \<open>\<open>sort.Search\<close>: binary search for the first index at which \<open>f\<close> holds, if \<open>f\<close> is monotone.\<close>

function search_loop :: "(nat \<Rightarrow> bool) \<Rightarrow> nat \<Rightarrow> nat \<Rightarrow> nat" where
  "search_loop f i j = (if i < j then (let h = (i + j) div 2 in if \<not> f h then search_loop f (h + 1) j else search_loop f i h) else i)"
  by pat_completeness auto
termination
  by (relation "measure (\<lambda>(f, i, j). j - i)") auto

declare search_loop.simps [simp del]

definition sort_Search :: "nat \<Rightarrow> (nat \<Rightarrow> bool) \<Rightarrow> nat" where
  "sort_Search n f = search_loop f 0 n"

definition is_first :: "(nat \<Rightarrow> bool) \<Rightarrow> nat \<Rightarrow> nat \<Rightarrow> bool" where
  "is_first f n r \<longleftrightarrow> r \<le> n \<and> (\<forall>k < r. \<not> f k) \<and> (r < n \<longrightarrow> f r)"

lemma search_loop_first:
  assumes "i \<le> j" "j \<le> n" "\<forall>k < i. \<not> f k" "j < n \<longrightarrow> f j" "\<forall>a b. a \<le> b \<longrightarrow> b < n \<longrightarrow> f a \<longrightarrow> f b"
  shows "is_first f n (search_loop f i j)"
  using assms
proof (induction f i j rule: search_loop.induct)
  case (1 f i j)
  show ?case
  proof (cases "i < j")
    case less: True
    define h where "h = (i + j) div 2"
    then have h: "i \<le> h" "h < j" using less by auto
    show ?thesis
    proof (cases "f h")
      case True
      have "is_first f n (search_loop f i h)" using True h 1(4-7) by (intro 1(2) [OF less h_def]) auto
      then show ?thesis using less True by (subst search_loop.simps) (simp add: Let_def h_def)
    next
      case False
      have "\<forall>k < h + 1. \<not> f k" using False h(2) 1(4,7) by (metis less_le_trans less_Suc_eq_le Suc_eq_plus1)
      then have "is_first f n (search_loop f (h + 1) j)" using False h 1(4-7) by (intro 1(1) [OF less h_def]) auto
      then show ?thesis using less False by (subst search_loop.simps) (simp add: Let_def h_def)
    qed
  next
    case False
    with 1(3-6) show ?thesis by (simp add: search_loop.simps is_first_def)
  qed
qed

lemma sort_Search_first: "\<forall>a b. a \<le> b \<longrightarrow> b < n \<longrightarrow> f a \<longrightarrow> f b \<Longrightarrow> is_first f n (sort_Search n f)"
  unfolding sort_Search_def by (rule search_loop_first) auto

subsection \<open>The state that is carried over\<close>

definition pr_before :: "prPkg \<Rightarrow> prPkg \<Rightarrow> bool" where
  "pr_before a b \<longleftrightarrow> yn_Order (pp_pr a) < yn_Order (pp_pr b)"

definition pr_less :: "prPkg \<Rightarrow> prPkg \<Rightarrow> bool" where
  "pr_less a b \<longleftrightarrow> yn_Order (pp_pr a) < yn_Order (pp_pr b) \<or> yn_View (pp_pr a) < yn_View (pp_pr b)"

definition hy_support :: "prPkg \<Rightarrow> Support" where
  "hy_support a = \<lparr>su_RawMsg = pp_content a, su_Cert = pp_cert a, su_From = pp_from a\<rparr>"

definition hy_createAbortState :: "hy_env \<Rightarrow> hybster \<Rightarrow> Support list \<times> hybster" where
  "hy_createAbortState E p = (let om = env_sortPr E pr_before (hy_omsgs p) in (map hy_support om, p\<lparr>hy_omsgs := om\<rparr>))"

definition hy_getNormal :: "hy_env \<Rightarrow> bytes \<Rightarrow> HyNormal go" where
  "hy_getNormal E raw = (case env_unmarshalHy E raw of None \<Rightarrow> Inl PanicCall | Some (HybsterMessage_Normal m) \<Rightarrow> Inr m | Some _ \<Rightarrow> Inl NilDeref)"

text \<open>One entry of a history, with the view that it must have.\<close>

definition hy_abortEntry :: "hy_env \<Rightarrow> hybster \<Rightarrow> u64 \<Rightarrow> Support \<Rightarrow> prPkg go" where
  "hy_abortEntry E p fromView h =
     go_bind (hy_getNormal E (su_RawMsg h)) (\<lambda>pr.
     go_bind (VerifyIndependentCounterCertificate (env_hyhmac E) (su_RawMsg h) (su_Cert h) (hy_counter (yn_View pr) (yn_Order pr)) 0 (hy_certifier p)) (\<lambda>ok.
     if \<not> ok then Inl PanicCall
     else if yn_View pr \<noteq> fromView then Inl PanicCall
     else Inr \<lparr>pp_pr = pr, pp_content = su_RawMsg h, pp_cert = su_Cert h, pp_from = su_From h\<rparr>))"

fun go_map :: "('a \<Rightarrow> 'b go) \<Rightarrow> 'a list \<Rightarrow> 'b list go" where
  "go_map f [] = Inr []"
| "go_map f (x # xs) = go_bind (f x) (\<lambda>y. go_bind (go_map f xs) (\<lambda>ys. Inr (y # ys)))"

definition hy_isCorrectAbortState :: "hy_env \<Rightarrow> Support list \<Rightarrow> u64 \<Rightarrow> hybster \<Rightarrow> prPkg list go" where
  "hy_isCorrectAbortState E history fromView p = go_map (hy_abortEntry E p fromView) history"

definition hy_installPrepare :: "prPkg \<Rightarrow> hybster \<Rightarrow> hybster go" where
  "hy_installPrepare prp p =
     (let pr = pp_pr prp in
      go_bind (case fmlookup (hy_log p) (yn_Order pr) of
          None \<Rightarrow> Inr (hy_makeInstance pr)
        | Some inst \<Rightarrow> go_bind (hy_reset inst) (\<lambda>inst'. Inr (inst'\<lparr>yi_view := yn_View pr\<rparr>))) (\<lambda>inst.
      Inr ((hy_put (yn_Order pr) inst p)\<lparr>hy_omsgs := hy_omsgs p @ [prp]\<rparr>)))"

definition hy_installOrderingState :: "prPkg list \<Rightarrow> hybster \<Rightarrow> hybster go" where
  "hy_installOrderingState prps p = go_fold hy_installPrepare prps (p\<lparr>hy_omsgs := []\<rparr>)"

definition hy_abortStateReceived :: "u64 \<Rightarrow> prPkg list \<Rightarrow> hybster \<Rightarrow> hybster go" where
  "hy_abortStateReceived view prs p = (if hy_stableView p = view then hy_installOrderingState prs p else Inr p)"

subsection \<open>View changes\<close>

definition hy_leaveViewFor :: "hy_env \<Rightarrow> u64 \<Rightarrow> hybster \<Rightarrow> hybster go" where
  "hy_leaveViewFor E nextView p =
     (if nextView \<le> hy_curView p then Inr p
      else case hy_createAbortState E p of (prs, p1) \<Rightarrow>
        hy_broadcastVC E \<lparr>yv_FromView = hy_stableView p1, yv_ToView = nextView, yv_Order = hy_slot p1, yv_History = prs\<rparr> (p1\<lparr>hy_curView := nextView\<rparr>))"

definition hy_isRelevantViewChange :: "HyViewChange \<Rightarrow> PeerID \<Rightarrow> hybster \<Rightarrow> bool" where
  "hy_isRelevantViewChange m from p =
     (if from = hy_id p then False
      else if yv_ToView m < hy_curView p \<or> \<not> (hy_curView p \<noteq> hy_stableView p \<and> yv_ToView m = hy_curView p) then False
      else True)"

definition hy_isCorrectViewChange :: "hy_env \<Rightarrow> HyViewChange \<Rightarrow> bytes \<Rightarrow> bytes \<Rightarrow> hybster \<Rightarrow> prPkg list option go" where
  "hy_isCorrectViewChange E m content cert p =
     (if yv_ToView m \<le> yv_FromView m then Inr None
      else go_bind (VerifyContinuingCounterCertificate (env_hyhmac E) content cert (hy_counter (yv_FromView m) (yv_Order m)) (push_bit 48 (yv_ToView m)) 0 (hy_certifier p)) (\<lambda>ok.
      if \<not> ok then Inl PanicCall
      else go_bind (hy_isCorrectAbortState E (yv_History m) (yv_FromView m) p) (\<lambda>prs. Inr (Some prs))))"

text \<open>\<open>isCorrectPrepareSet\<close>, entry by entry; an entry of another view makes the result negative.\<close>

fun hy_isCorrectPrepareSet :: "hy_env \<Rightarrow> Support list \<Rightarrow> u64 \<Rightarrow> hybster \<Rightarrow> prPkg list option go" where
  "hy_isCorrectPrepareSet E [] view p = Inr (Some [])"
| "hy_isCorrectPrepareSet E (h # hs) view p =
     go_bind (hy_getNormal E (su_RawMsg h)) (\<lambda>pr.
     if yn_View pr \<noteq> view then Inr None
     else go_bind (VerifyIndependentCounterCertificate (env_hyhmac E) (su_RawMsg h) (su_Cert h) (hy_counter (yn_View pr) (yn_Order pr)) 0 (hy_certifier p)) (\<lambda>ok.
       if \<not> ok then Inl PanicCall
       else go_bind (hy_isCorrectPrepareSet E hs view p) (\<lambda>r.
         Inr (map_option (\<lambda>prs. \<lparr>pp_pr = pr, pp_content = su_RawMsg h, pp_cert = su_Cert h, pp_from = su_From h\<rparr> # prs) r))))"

definition hy_isCorrectViewTransition :: "hy_env \<Rightarrow> Support list \<Rightarrow> u64 \<Rightarrow> prPkg list \<Rightarrow> hybster \<Rightarrow> prPkg list option go" where
  "hy_isCorrectViewTransition E history view abrt p =
     go_bind (hy_isCorrectPrepareSet E history view p) (\<lambda>r.
     case r of
       None \<Rightarrow> Inr None
     | Some prpkgs \<Rightarrow>
         if \<exists>prp \<in> set prpkgs. sort_Search (length abrt) (\<lambda>i. yn_Order (pp_pr prp) \<le> yn_Order (pp_pr (abrt ! i))) = length abrt
         then Inr None else Inr (Some prpkgs))"

text \<open>The messages of one replica are merged into those collected so far.\<close>

definition hy_merge :: "hy_env \<Rightarrow> prPkg list \<Rightarrow> prPkg list \<Rightarrow> prPkg list" where
  "hy_merge E prps Q =
     (let toAdd = filter (\<lambda>prp. sort_Search (length Q) (\<lambda>i. pr_less prp (Q ! i)) = length Q) prps in env_sortPr E pr_less (Q @ toAdd))"

definition hy_countVC :: "hy_env \<Rightarrow> u64 \<Rightarrow> u64 \<Rightarrow> hybster \<Rightarrow> vcPkg \<Rightarrow> vcPkg list \<times> prPkg list \<Rightarrow> (vcPkg list \<times> prPkg list) go" where
  "hy_countVC E from to p vcp acc =
     (case vp_vc vcp of
        None \<Rightarrow> Inl NilDeref
      | Some vc \<Rightarrow>
          if yv_FromView vc > from then Inr acc
          else if yv_ToView vc \<noteq> to then Inr acc
          else go_bind (hy_isCorrectViewChange E vc (vp_content vcp) (vp_cert vcp) p) (\<lambda>r.
            case r of None \<Rightarrow> Inr acc | Some prpkgs \<Rightarrow> Inr (fst acc @ [vcp], hy_merge E prpkgs (snd acc))))"

definition hy_isCorrectViewChangeCertificate :: "hy_env \<Rightarrow> vcPkg list \<Rightarrow> u64 \<Rightarrow> u64 \<Rightarrow> hybster \<Rightarrow> (vcPkg list \<times> prPkg list) option go" where
  "hy_isCorrectViewChangeCertificate E vcs from to p =
     (if int (length vcs) < hy_f p + 1 then Inr None
      else go_bind (go_fold (hy_countVC E from to p) vcs ([], [])) (\<lambda>acc.
      if int (length (fst acc)) > hy_f p then Inr (Some acc) else Inr None))"

definition hy_isCorrectNewViewAck :: "hy_env \<Rightarrow> nvaPkg \<Rightarrow> u64 \<Rightarrow> hybster \<Rightarrow> prPkg list option go" where
  "hy_isCorrectNewViewAck E nvap fromView p =
     go_bind (VerifyContinuingCounterCertificate (env_hyhmac E) (ap_content nvap) (ap_cert nvap) 0 0 2 (hy_certifier p)) (\<lambda>ok.
     if \<not> ok then Inr None
     else go_bind (hy_isCorrectAbortState E (na_History (ap_nva nvap)) fromView p) (\<lambda>prs. Inr (Some prs)))"

fun hy_mergeAcks :: "hy_env \<Rightarrow> u64 \<Rightarrow> hybster \<Rightarrow> nvaPkg list \<Rightarrow> prPkg list \<Rightarrow> prPkg list option go" where
  "hy_mergeAcks E from p [] Q = Inr (Some Q)"
| "hy_mergeAcks E from p (a # as) Q =
     go_bind (hy_isCorrectNewViewAck E a from p) (\<lambda>r. case r of None \<Rightarrow> Inr None | Some prs \<Rightarrow> hy_mergeAcks E from p as (hy_merge E prs Q))"

definition hy_isCorrectNewViewCertificate :: "hy_env \<Rightarrow> vcPkg list \<Rightarrow> nvaPkg list \<Rightarrow> u64 \<Rightarrow> u64 \<Rightarrow> hybster \<Rightarrow> (vcPkg list \<times> prPkg list) option go" where
  "hy_isCorrectNewViewCertificate E vcs acks from to p =
     go_bind (hy_isCorrectViewChangeCertificate E vcs from to p) (\<lambda>r.
     case r of
       None \<Rightarrow> Inr None
     | Some (vcpsQ, prpsQ) \<Rightarrow> go_bind (hy_mergeAcks E from p acks prpsQ) (\<lambda>r'.
         case r' of
           None \<Rightarrow> Inr None
         | Some prpsQ' \<Rightarrow>
             let vcCount = length (filter (\<lambda>v. case vp_vc v of None \<Rightarrow> False | Some vc \<Rightarrow> yv_FromView vc = from \<and> yv_ToView vc = to) vcs)
                   + length (filter (\<lambda>a. from \<le> na_View (ap_nva a) \<and> na_View (ap_nva a) \<le> to) acks)
             in if int vcCount > hy_f p then Inr (Some (vcpsQ, prpsQ')) else Inr None))"

subsection \<open>New views\<close>

text \<open>One message of the old view is certified again for the new one, unless there is already one of its slot.\<close>

definition hy_transitPrepare :: "hy_env \<Rightarrow> u64 \<Rightarrow> prPkg \<Rightarrow> prPkg list \<times> hybster \<Rightarrow> (prPkg list \<times> hybster) go" where
  "hy_transitPrepare E toView opr acc =
     (let pr = (pp_pr opr)\<lparr>yn_View := toView\<rparr>; out = fst acc;
          idx = sort_Search (length out) (\<lambda>i. yn_Order pr \<le> yn_Order (pp_pr (out ! i))) in
      if idx < length out \<and> yn_Order (pp_pr (out ! idx)) = yn_Order pr then Inr acc
      else go_bind (hy_marshalAndSignNormal E pr (snd acc)) (\<lambda>((mBytes, cert), p').
        Inr (out @ [\<lparr>pp_pr = pr, pp_content = mBytes, pp_cert = cert, pp_from = hy_id p'\<rparr>], p')))"

definition hy_createViewTransition :: "hy_env \<Rightarrow> u64 \<Rightarrow> prPkg list \<Rightarrow> hybster \<Rightarrow> (prPkg list \<times> hybster) go" where
  "hy_createViewTransition E toView prpkgs p = go_fold (hy_transitPrepare E toView) (env_sortPr E pr_before prpkgs) ([], p)"

definition hy_enterView :: "u64 \<Rightarrow> prPkg list \<Rightarrow> hybster \<Rightarrow> hybster go" where
  "hy_enterView view prps p =
     (if view \<le> hy_stableView p then Inl PanicCall
      else if hy_curView p < view then Inl PanicCall
      else hy_installOrderingState prps (p\<lparr>hy_stableView := view\<rparr>))"

text \<open>The new leader votes for a message of the new view.\<close>

definition hy_votePrepare :: "prPkg \<Rightarrow> hybster \<Rightarrow> hybster go" where
  "hy_votePrepare prp p =
     (case fmlookup (hy_log p) (yn_Order (pp_pr prp)) of
        None \<Rightarrow> Inl PanicCall
      | Some inst \<Rightarrow> go_bind (hy_ilog (pp_from prp) (pp_pr prp) (inst\<lparr>yi_prepared := True\<rparr>)) (\<lambda>inst'. Inr (hy_put (yn_Order (pp_pr prp)) inst' p)))"

definition hy_trySendNewView :: "hy_env \<Rightarrow> u64 \<Rightarrow> u64 \<Rightarrow> hybster \<Rightarrow> hybster go" where
  "hy_trySendNewView E fromView toView p =
     go_bind (hy_leaderOfView toView p) (\<lambda>l.
     if \<not> (l = hy_id p \<and> hy_curView p \<le> toView) then Inr p
     else go_bind (hy_isCorrectNewViewCertificate E (hy_vmsgs p) (hy_nvamsgs p) fromView toView p) (\<lambda>r.
       case r of
         None \<Rightarrow> Inr p
       | Some (vcpsQ, prpsQ) \<Rightarrow>
           let p1 = p\<lparr>hy_curView := (if hy_curView p < toView then toView else hy_curView p)\<rparr> in
           if toView \<le> hy_stableView p1 then Inl PanicCall
           else go_bind (hy_createViewTransition E toView prpsQ p1) (\<lambda>(prps, p2).
             go_bind (hy_broadcastNV E \<lparr>nv_FromView = fromView, nv_ToView = toView, nv_History = map hy_support prps,
                 nv_Proof = map (\<lambda>v. \<lparr>su_RawMsg = vp_content v, su_Cert = vp_cert v, su_From = vp_from v\<rparr>) vcpsQ\<rparr> p2) (\<lambda>p3.
             go_bind (hy_enterView toView prps p3) (go_fold hy_votePrepare prps)))))"

definition hy_installViewChange :: "vcPkg \<Rightarrow> u64 \<Rightarrow> prPkg list \<Rightarrow> hybster \<Rightarrow> hybster go" where
  "hy_installViewChange vcp toView prs p = hy_abortStateReceived toView prs (p\<lparr>hy_vmsgs := hy_vmsgs p @ [vcp]\<rparr>)"

definition hy_onViewChange :: "hy_env \<Rightarrow> HyViewChange \<Rightarrow> bytes \<Rightarrow> bytes \<Rightarrow> PeerID \<Rightarrow> hybster \<Rightarrow> hybster go" where
  "hy_onViewChange E m content cert from p =
     (if \<not> hy_isRelevantViewChange m from p then Inr p
      else go_bind (hy_isCorrectViewChange E m content cert p) (\<lambda>r.
      case r of
        None \<Rightarrow> Inl PanicCall
      | Some prs \<Rightarrow>
          go_bind (hy_installViewChange \<lparr>vp_vc = Some m, vp_content = content, vp_cert = cert, vp_from = from\<rparr> (yv_ToView m) prs p) (\<lambda>p1.
          go_bind (if hy_curView p1 = hy_stableView p1 \<and> hy_curView p1 < yv_ToView m
            then (let count = length (filter (\<lambda>v. case vp_vc v of None \<Rightarrow> False | Some vc \<Rightarrow> yv_ToView vc = yv_ToView m) (hy_vmsgs p1)) in
                  if length (hy_nodes p1) div 2 < count then hy_leaveViewFor E (yv_ToView m) p1 else Inr p1)
            else Inr p1) (\<lambda>p2. hy_trySendNewView E (yv_FromView m) (yv_ToView m) p2))))"

definition hy_latestKnownView :: "hybster \<Rightarrow> u64" where
  "hy_latestKnownView p = fold (\<lambda>nv mx. if mx < nv_ToView nv then nv_ToView nv else mx) (hy_nvmsgs p) 0"

definition hy_onNewViewReady :: "hy_env \<Rightarrow> HyNewView \<Rightarrow> hybster \<Rightarrow> hybster go" where
  "hy_onNewViewReady E m p =
     (if \<not> (nv_ToView m = hy_latestKnownView p \<and> hy_stableView p < nv_ToView m) then Inr p
      else let belated = nv_ToView m < hy_curView p;
               p1 = p\<lparr>hy_curView := (if hy_curView p < nv_ToView m then nv_ToView m else hy_curView p)\<rparr> in
        go_bind (hy_isCorrectPrepareSet E (nv_History m) (nv_ToView m) p1) (\<lambda>r.
        case r of
          None \<Rightarrow> Inl PanicCall
        | Some prs \<Rightarrow> go_bind (hy_enterView (nv_ToView m) prs p1) (\<lambda>p2.
            if belated then hy_broadcastNVA E \<lparr>na_View = nv_ToView m, na_History = nv_History m\<rparr> p2 else Inr p2)))"

definition hy_getViewChange :: "hy_env \<Rightarrow> Support \<Rightarrow> vcPkg go" where
  "hy_getViewChange E s =
     (case env_unmarshalHy E (su_RawMsg s) of
        None \<Rightarrow> Inl PanicCall
      | Some w \<Rightarrow> Inr \<lparr>vp_vc = (case w of HybsterMessage_ViewChange vc \<Rightarrow> Some vc | _ \<Rightarrow> None), vp_content = su_RawMsg s, vp_cert = su_Cert s, vp_from = su_From s\<rparr>)"

definition hy_isCorrectNewView :: "hy_env \<Rightarrow> HyNewView \<Rightarrow> bytes \<Rightarrow> bytes \<Rightarrow> PeerID \<Rightarrow> hybster \<Rightarrow> (vcPkg list \<times> prPkg list) option go" where
  "hy_isCorrectNewView E m content cert from p =
     go_bind (hy_leaderOfView (nv_ToView m) p) (\<lambda>l.
     if l \<noteq> from then Inl PanicCall
     else go_bind (VerifyIndependentCounterCertificate (env_hyhmac E) content cert (push_bit 48 (nv_ToView m)) 1 (hy_certifier p)) (\<lambda>ok.
     if \<not> ok then Inl PanicCall
     else go_bind (go_map (hy_getViewChange E) (nv_Proof m)) (\<lambda>vcs.
     go_bind (hy_isCorrectNewViewCertificate E vcs (hy_nvamsgs p) (nv_FromView m) (nv_ToView m) p) (\<lambda>r.
     case r of
       None \<Rightarrow> Inr None
     | Some (_, abortPrs) \<Rightarrow> go_bind (hy_isCorrectViewTransition E (nv_History m) (nv_ToView m) abortPrs p) (\<lambda>r'.
         Inr (map_option (\<lambda>prs. (vcs, prs)) r'))))))"

text \<open>The view changes in the proof of a new view are stored, those that are relevant.\<close>

definition hy_storeProof :: "prPkg list \<Rightarrow> vcPkg \<Rightarrow> hybster \<Rightarrow> hybster go" where
  "hy_storeProof prs vcp p =
     (case vp_vc vcp of
        None \<Rightarrow> Inl NilDeref
      | Some vc \<Rightarrow> if hy_isRelevantViewChange vc (vp_from vcp) p then hy_installViewChange vcp (yv_ToView vc) prs p else Inr p)"

text \<open>\<open>onPrepare\<close> for the entry \<open>i\<close> of \<open>omsgs\<close>; unless its view is old its command is nil afterwards.\<close>

definition hy_replay :: "hy_env \<Rightarrow> PeerID \<Rightarrow> nat \<Rightarrow> hybster \<Rightarrow> hybster go" where
  "hy_replay E from i p =
     (let prp = hy_omsgs p ! i; pr = pp_pr prp in
      go_bind (hy_onPrepare E pr from p) (\<lambda>p'.
      if yn_View pr < hy_curView p then Inr p'
      else Inr (p'\<lparr>hy_omsgs := (hy_omsgs p')[i := prp\<lparr>pp_pr := pr\<lparr>yn_Command := None\<rparr>\<rparr>]\<rparr>)))"

definition hy_onNewView :: "hy_env \<Rightarrow> HyNewView \<Rightarrow> bytes \<Rightarrow> bytes \<Rightarrow> PeerID \<Rightarrow> hybster \<Rightarrow> hybster go" where
  "hy_onNewView E m content cert from p =
     (if \<not> hy_latestKnownView p < nv_ToView m then Inl PanicCall
      else go_bind (hy_isCorrectNewView E m content cert from p) (\<lambda>r.
      case r of
        None \<Rightarrow> Inl PanicCall
      | Some (vcps, prs) \<Rightarrow>
          if hy_curView p = hy_stableView p \<and> hy_curView p = nv_ToView m then Inr p
          else go_bind (hy_onNewViewReady E m (p\<lparr>hy_nvmsgs := hy_nvmsgs p @ [m]\<rparr>)) (\<lambda>p1.
            go_bind (go_fold (hy_storeProof prs) vcps p1) (\<lambda>p2.
            go_fold (hy_replay E from) [0..<length (hy_omsgs p2)] p2))))"

definition hy_isRelevantNewViewAck :: "HyNewViewAck \<Rightarrow> hybster \<Rightarrow> bool" where
  "hy_isRelevantNewViewAck m p \<longleftrightarrow> \<not> na_View m < hy_stableView p \<and> (\<forall>a \<in> set (hy_nvamsgs p). \<not> na_View m \<le> na_View (ap_nva a))"

definition hy_onNewViewAck :: "hy_env \<Rightarrow> HyNewViewAck \<Rightarrow> bytes \<Rightarrow> bytes \<Rightarrow> PeerID \<Rightarrow> hybster \<Rightarrow> hybster go" where
  "hy_onNewViewAck E m content cert from p =
     (if \<not> hy_isRelevantNewViewAck m p then Inr p
      else let nvap = \<lparr>ap_nva = m, ap_content = content, ap_cert = cert, ap_from = from\<rparr> in
        go_bind (hy_isCorrectNewViewAck E nvap (na_View m) p) (\<lambda>r.
        case r of
          None \<Rightarrow> Inr p
        | Some _ \<Rightarrow>
            let p1 = p\<lparr>hy_nvamsgs := hy_nvamsgs p @ [nvap]\<rparr> in
            go_bind (hy_isCorrectAbortState E (na_History m) (na_View m) p1) (\<lambda>prs.
            go_bind (hy_abortStateReceived (na_View m) prs p1) (\<lambda>p2.
            hy_trySendNewView E (na_View m) (hy_curView p2) p2))))"

subsection \<open>Entry points (\<open>hybster.go\<close>)\<close>

definition hy_stepNormal :: "hy_env \<Rightarrow> HyNormal \<Rightarrow> bytes \<Rightarrow> bytes \<Rightarrow> PeerID \<Rightarrow> hybster \<Rightarrow> hybster go" where
  "hy_stepNormal E m content cert from p =
     (if hy_curView p \<noteq> hy_stableView p then Inr p
      else go_bind (VerifyIndependentCounterCertificate (env_hyhmac E) content cert (hy_counter (yn_View m) (yn_Order m)) 0 (hy_certifier p)) (\<lambda>ok.
      if \<not> ok then Inr p
      else if yn_View m \<noteq> hy_curView p then Inl FatalExit
      else case yn_Type m of
          HY_Prepare \<Rightarrow> hy_onPrepare E m from (p\<lparr>hy_omsgs := hy_omsgs p @ [\<lparr>pp_pr = m\<lparr>yn_Command := None\<rparr>, pp_content = content, pp_cert = cert, pp_from = from\<rparr>]\<rparr>)
        | HY_Commit \<Rightarrow> hy_onCommit m from p
        | _ \<Rightarrow> Inl PanicCall))"

definition hy_Step :: "hy_env \<Rightarrow> Message \<Rightarrow> hybster \<Rightarrow> hybster go" where
  "hy_Step E mm p =
     (case env_unmarshalHy E (msg_Content mm) of
        None \<Rightarrow> Inl PanicCall
      | Some (HybsterMessage_Normal m) \<Rightarrow> hy_stepNormal E m (msg_Content mm) (msg_Certificate mm) (msg_From mm) p
      | Some (HybsterMessage_ViewChange m) \<Rightarrow> hy_onViewChange E m (msg_Content mm) (msg_Certificate mm) (msg_From mm) p
      | Some (HybsterMessage_NewView m) \<Rightarrow> hy_onNewView E m (msg_Content mm) (msg_Certificate mm) (msg_From mm) p
      | Some (HybsterMessage_NewViewAck m) \<Rightarrow> hy_onNewViewAck E m (msg_Content mm) (msg_Certificate mm) (msg_From mm) p
      | Some HybsterMessage_Unset \<Rightarrow> Inl PanicCall)"

definition hy_Callback :: "ExecCallback \<Rightarrow> hybster \<Rightarrow> hybster go" where
  "hy_Callback cb p = Inr p"

text \<open>No timer is ever registered.\<close>

definition hy_Tick :: "hybster \<Rightarrow> hybster go" where
  "hy_Tick p = Inr p"

definition hy_Request :: "hy_env \<Rightarrow> Command \<Rightarrow> hybster \<Rightarrow> hybster go" where
  "hy_Request E cmd p = hy_onRequest E cmd p"

definition hy_MakeReady :: "hybster \<Rightarrow> Ready" where
  "hy_MakeReady p = \<lparr>rd_Messages = hy_msgs p, rd_OrderedCommands = hy_executedCmds p\<rparr>"

definition hy_ClearExecutedCommands :: "hybster \<Rightarrow> hybster" where
  "hy_ClearExecutedCommands p = p\<lparr>hy_executedCmds := []\<rparr>"

definition hy_hasCommitted :: "u64 \<Rightarrow> hybster \<Rightarrow> bool" where
  "hy_hasCommitted i p = (case fmlookup (hy_log p) i of None \<Rightarrow> False | Some inst \<Rightarrow> yi_prepared inst \<and> yi_commit inst)"

definition hy_hasExecuted :: "u64 \<Rightarrow> hybster \<Rightarrow> bool" where
  "hy_hasExecuted i p = (case fmlookup (hy_log p) i of None \<Rightarrow> False | Some inst \<Rightarrow> yi_prepared inst \<and> yi_commit inst \<and> yi_executed inst)"

definition hy_Protocol :: "hy_env \<Rightarrow> hybster Protocol" where
  "hy_Protocol E =
     \<lparr>pr_Step = hy_Step E, pr_Tick = hy_Tick, pr_Request = hy_Request E, pr_Callback = hy_Callback,
      pr_MakeReady = (\<lambda>s. Inr (hy_MakeReady s, s)), pr_ClearMsgs = hy_ClearMsgs,
      pr_ClearExecutedCommands = hy_ClearExecutedCommands, pr_AsyncCallback = hy_AsyncCallback\<rparr>"

end
