(* ===== verification/Hybster_Local.thy ===== *)
theory Hybster_Local
  imports Hybster_ViewChange
begin

text \<open>
  What a Hybster replica does with views: the two places that would start a view change cannot be reached, so that a replica that runs the code never leaves its view unless it is sent a new
  one; and the replica under the peer.
\<close>

subsection \<open>Handlers that leave the views alone\<close>

definition hy_grows :: "hybster \<Rightarrow> hybster \<Rightarrow> bool" where
  "hy_grows p p' \<longleftrightarrow> prefix (hy_msgs p) (hy_msgs p') \<and> prefix (hy_executedCmds p) (hy_executedCmds p') \<and> hy_f p' = hy_f p"

definition hy_calm :: "hybster \<Rightarrow> hybster \<Rightarrow> bool" where
  "hy_calm p p' \<longleftrightarrow> hy_grows p p' \<and> hy_curView p' = hy_curView p \<and> hy_stableView p' = hy_stableView p \<and> hy_vmsgs p' = hy_vmsgs p"

lemma hy_grows_refl [simp]: "hy_grows p p"
  by (simp add: hy_grows_def)

lemma hy_calm_refl [simp]: "hy_calm p p"
  by (simp add: hy_calm_def)

lemma hy_grows_trans: "hy_grows p p1 \<Longrightarrow> hy_grows p1 p2 \<Longrightarrow> hy_grows p p2"
  by (auto simp: hy_grows_def intro: prefix_order.trans)

lemma hy_calm_trans: "hy_calm p p1 \<Longrightarrow> hy_calm p1 p2 \<Longrightarrow> hy_calm p p2"
  by (auto simp: hy_calm_def intro: hy_grows_trans)

lemma hy_calm_grows: "hy_calm p p' \<Longrightarrow> hy_grows p p'"
  by (simp add: hy_calm_def)

lemma hy_calm_frame [simp]:
  "hy_calm p (hy_put i inst p') = hy_calm p p'" "hy_calm p (p'\<lparr>hy_slot := k\<rparr>) = hy_calm p p'" "hy_calm p (p'\<lparr>hy_omsgs := om\<rparr>) = hy_calm p p'"
  "hy_calm p (p'\<lparr>hy_execute := k\<rparr>) = hy_calm p p'" "hy_calm p (p'\<lparr>hy_certifier := x\<rparr>) = hy_calm p p'" "hy_calm p (hy_broadcastNormal E m p') = hy_calm p p'"
  "hy_calm p (p'\<lparr>hy_signDispatcher := d\<rparr>) = hy_calm p p'" "hy_calm p (p'\<lparr>hy_nvmsgs := nv\<rparr>) = hy_calm p p'" "hy_calm p (p'\<lparr>hy_nvamsgs := na\<rparr>) = hy_calm p p'"
  by (simp_all add: hy_calm_def hy_grows_def hy_put_def hy_broadcastNormal_def)

lemma hy_calm_frame_left [simp]:
  "hy_calm (p\<lparr>hy_slot := k\<rparr>) p' = hy_calm p p'" "hy_calm (p\<lparr>hy_omsgs := om\<rparr>) p' = hy_calm p p'" "hy_calm (p\<lparr>hy_signDispatcher := d\<rparr>) p' = hy_calm p p'"
  "hy_calm (p\<lparr>hy_nvamsgs := na\<rparr>) p' = hy_calm p p'" "hy_calm (p\<lparr>hy_nvmsgs := nv\<rparr>) p' = hy_calm p p'"
  "hy_calm (hy_put i inst p) p' = hy_calm p p'" "hy_calm (p\<lparr>hy_execute := k\<rparr>) p' = hy_calm p p'"
  by (simp_all add: hy_calm_def hy_grows_def hy_put_def)

lemma hy_calm_fold:
  assumes "go_fold h xs p = Inr p'" "\<And>x p1 p2. h x p1 = Inr p2 \<Longrightarrow> hy_calm p1 p2"
  shows "hy_calm p p'"
  using assms(1) by (rule go_fold_invariant) (auto intro: hy_calm_trans assms(2))

lemma hy_calm_sendTo: "hy_calm p p' \<Longrightarrow> hy_calm p (hy_sendTo to mm cert p')"
  by (auto simp: hy_calm_def hy_grows_def hy_sendTo_def)

lemma hy_calm_broadcast: "hy_calm p p' \<Longrightarrow> hy_calm p (hy_broadcast mm cert p')"
proof -
  have "hy_calm p p' \<Longrightarrow> hy_calm p (fold (\<lambda>node p'. if node \<noteq> hy_id p' then hy_sendTo node mm cert p' else p') ns p')" for ns
    by (induction ns arbitrary: p') (simp_all add: hy_calm_sendTo)
  then show "hy_calm p p' \<Longrightarrow> hy_calm p (hy_broadcast mm cert p')" by (simp add: hy_broadcast_def)
qed

lemma hy_calm_exec: "hy_calm p (hy_exec p)"
proof (induction p rule: hy_exec.induct)
  case (1 p)
  have "hy_calm p (hy_Execute cmd p)" for cmd by (simp add: hy_calm_def hy_grows_def hy_Execute_def)
  then show ?case using 1 by (subst hy_exec.simps) (auto split: option.split intro: hy_calm_trans)
qed

lemma hy_calm_tryCommit: "hy_calm p p' \<Longrightarrow> hy_calm p (hy_tryCommit m inst p')"
  using hy_calm_exec [of "hy_put (yn_Order m) (inst\<lparr>yi_commit := True\<rparr>) p'"] by (auto simp: hy_tryCommit_def intro: hy_calm_trans)

lemma hy_calm_handlers:
  "hy_onPrepare E m from p = Inr p' \<Longrightarrow> hy_calm p p'" "hy_onCommit m from p = Inr p' \<Longrightarrow> hy_calm p p'" "hy_onRequest E c p = Inr p' \<Longrightarrow> hy_calm p p'"
  by (auto simp: hy_onPrepare_def hy_onCommit_def hy_onRequest_def Let_def go_simps split: if_splits intro!: hy_calm_tryCommit)

lemma hy_calm_signed: "hy_signed j cert p = Inr p' \<Longrightarrow> hy_calm p p'"
  by (auto simp: hy_signed_def go_simps split: if_splits dest!: hy_calm_fold intro!: hy_calm_sendTo)

lemma hy_calm_AsyncCallback: "hy_AsyncCallback p = Inr p' \<Longrightarrow> hy_calm p p'"
  by (auto simp: hy_AsyncCallback_def split: prod.splits dest!: hy_calm_fold hy_calm_signed)

lemma hy_calm_stepNormal: "hy_stepNormal E m content cert from p = Inr p' \<Longrightarrow> hy_calm p p'"
  by (auto simp: hy_stepNormal_def go_simps split: if_splits HyType.splits dest!: hy_calm_handlers)

lemma hy_calm_installOrderingState: "hy_installOrderingState prps p = Inr p' \<Longrightarrow> hy_calm p p'"
  unfolding hy_installOrderingState_def
  by (drule hy_calm_fold) (auto simp: hy_installPrepare_def Let_def go_simps)

lemma hy_calm_abortStateReceived: "hy_abortStateReceived v prs p = Inr p' \<Longrightarrow> hy_calm p p'"
  by (auto simp: hy_abortStateReceived_def split: if_splits dest: hy_calm_installOrderingState)

lemma hy_calm_replay: "hy_replay E from i p = Inr p' \<Longrightarrow> hy_calm p p'"
  by (auto simp: hy_replay_def Let_def go_simps split: if_splits dest!: hy_calm_handlers)


subsection \<open>No view change starts\<close>

definition hy_settled :: "hybster \<Rightarrow> bool" where
  "hy_settled p \<longleftrightarrow> hy_curView p = hy_stableView p \<and> hy_vmsgs p = [] \<and> 0 \<le> hy_f p"

lemma hy_settled_calm: "hy_settled p \<Longrightarrow> hy_calm p p' \<Longrightarrow> hy_settled p'"
  by (simp add: hy_settled_def hy_calm_def hy_grows_def)

lemma hy_settled_irrelevant: "hy_settled p \<Longrightarrow> \<not> hy_isRelevantViewChange m from p"
  by (simp add: hy_settled_def hy_isRelevantViewChange_def)

lemma hy_settled_ViewChange: "hy_settled p \<Longrightarrow> hy_onViewChange E m content cert from p = Inr p"
  by (simp add: hy_onViewChange_def hy_settled_irrelevant)

lemma hy_settled_trySendNewView: "hy_settled p \<Longrightarrow> hy_trySendNewView E v w p = Inr p' \<Longrightarrow> p' = p"
  by (auto simp: hy_trySendNewView_def hy_settled_def hy_isCorrectNewViewCertificate_def hy_isCorrectViewChangeCertificate_def go_simps split: if_splits)

lemma hy_settled_storeProof:
  assumes "go_fold (hy_storeProof prs) vcps p = Inr p'" "hy_settled p"
  shows "p' = p"
proof -
  have "p' = p \<and> hy_settled p'" using assms(1)
    by (rule go_fold_invariant) (auto simp: hy_storeProof_def hy_settled_irrelevant assms(2) split: option.splits if_splits)
  then show ?thesis ..
qed

lemma hy_settled_onNewViewReady:
  assumes "hy_settled p" "hy_onNewViewReady E m p = Inr p'"
  shows "hy_settled p'"
proof (cases "nv_ToView m = hy_latestKnownView p \<and> hy_stableView p < nv_ToView m")
  case True
  then have "\<not> nv_ToView m < hy_curView p" "hy_curView p < nv_ToView m" using assms(1) by (auto simp: hy_settled_def)
  with True assms(2) obtain prs where "hy_enterView (nv_ToView m) prs (p\<lparr>hy_curView := nv_ToView m\<rparr>) = Inr p'"
    by (auto simp: hy_onNewViewReady_def Let_def go_simps split: option.splits)
  then have "hy_installOrderingState prs (p\<lparr>hy_curView := nv_ToView m, hy_stableView := nv_ToView m\<rparr>) = Inr p'" by (auto simp: hy_enterView_def split: if_splits)
  from hy_calm_installOrderingState [OF this] assms(1) show ?thesis by (auto simp: hy_settled_def hy_calm_def hy_grows_def)
next
  case False
  with assms show ?thesis by (auto simp: hy_onNewViewReady_def)
qed

lemma hy_onNewView_cases:
  assumes "hy_onNewView E m content cert from p = Inr p'"
  obtains "p' = p" | vcps prs p1 p2 where "hy_onNewViewReady E m (p\<lparr>hy_nvmsgs := hy_nvmsgs p @ [m]\<rparr>) = Inr p1" "go_fold (hy_storeProof prs) vcps p1 = Inr p2"
    "go_fold (hy_replay E from) [0..<length (hy_omsgs p2)] p2 = Inr p'"
proof (cases "hy_isCorrectNewView E m content cert from p")
  case (Inr r)
  with assms obtain vcps prs where "r = Some (vcps, prs)" by (cases r) (auto simp: hy_onNewView_def split: if_splits)
  with Inr assms show thesis using that by (auto simp: hy_onNewView_def go_simps split: if_splits)
qed (use assms in \<open>auto simp: hy_onNewView_def split: if_splits\<close>)

lemma hy_settled_onNewView:
  assumes "hy_settled p" "hy_onNewView E m content cert from p = Inr p'"
  shows "hy_settled p'"
  using assms(2)
proof (cases rule: hy_onNewView_cases)
  case (2 vcps prs p1 p2)
  have "hy_settled (p\<lparr>hy_nvmsgs := hy_nvmsgs p @ [m]\<rparr>)" using assms(1) by (simp add: hy_settled_def)
  from hy_settled_onNewViewReady [OF this 2(1)] have p1: "hy_settled p1" .
  have "hy_calm p2 p'" by (rule hy_calm_fold [OF 2(3)]) (rule hy_calm_replay)
  with hy_settled_storeProof [OF 2(2) p1] p1 show ?thesis by (auto intro: hy_settled_calm)
qed (use assms(1) in simp)

lemma hy_settled_onNewViewAck:
  assumes "hy_settled p" "hy_onNewViewAck E m content cert from p = Inr p'"
  shows "hy_settled p'"
proof -
  consider "p' = p" | prs p2 na where "hy_abortStateReceived (na_View m) prs (p\<lparr>hy_nvamsgs := na\<rparr>) = Inr p2" "hy_trySendNewView E (na_View m) (hy_curView p2) p2 = Inr p'"
    using assms(2) by (auto simp: hy_onNewViewAck_def Let_def go_simps split: if_splits option.splits)
  then show ?thesis
  proof cases
    case 2
    then have c: "hy_calm p p2" by (auto dest: hy_calm_abortStateReceived)
    with hy_settled_trySendNewView [OF hy_settled_calm [OF assms(1) c] 2(2)] show ?thesis using assms(1) by (auto intro: hy_settled_calm)
  qed (use assms(1) in simp)
qed

lemma hy_settled_Step:
  assumes "hy_settled p" "hy_Step E mm p = Inr p'"
  shows "hy_settled p'"
  using assms hy_settled_onNewView [OF assms(1)] hy_settled_onNewViewAck [OF assms(1)] hy_settled_ViewChange [OF assms(1)]
  by (auto simp: hy_Step_def split: option.splits HybsterMessage.splits intro: hy_settled_calm dest!: hy_calm_stepNormal)


subsection \<open>Under the peer\<close>

lemma hy_grows_frame [simp]:
  "hy_grows p (p'\<lparr>hy_curView := v\<rparr>) = hy_grows p p'" "hy_grows p (p'\<lparr>hy_stableView := v\<rparr>) = hy_grows p p'" "hy_grows p (p'\<lparr>hy_vmsgs := vm\<rparr>) = hy_grows p p'"
  "hy_grows p (p'\<lparr>hy_omsgs := om\<rparr>) = hy_grows p p'" "hy_grows p (p'\<lparr>hy_certifier := x\<rparr>) = hy_grows p p'" "hy_grows p (p'\<lparr>hy_nvmsgs := nv\<rparr>) = hy_grows p p'"
  "hy_grows p (p'\<lparr>hy_nvamsgs := na\<rparr>) = hy_grows p p'" "hy_grows p (hy_put i inst p') = hy_grows p p'"
  by (simp_all add: hy_grows_def hy_put_def)

lemma hy_grows_frame_left [simp]:
  "hy_grows (p\<lparr>hy_curView := v\<rparr>) p' = hy_grows p p'" "hy_grows (p\<lparr>hy_stableView := v\<rparr>) p' = hy_grows p p'" "hy_grows (p\<lparr>hy_vmsgs := vm\<rparr>) p' = hy_grows p p'"
  "hy_grows (p\<lparr>hy_omsgs := om\<rparr>) p' = hy_grows p p'" "hy_grows (p\<lparr>hy_nvmsgs := nv\<rparr>) p' = hy_grows p p'" "hy_grows (p\<lparr>hy_nvamsgs := na\<rparr>) p' = hy_grows p p'"
  "hy_grows (p\<lparr>hy_certifier := x\<rparr>) p' = hy_grows p p'"
  by (simp_all add: hy_grows_def)

lemma hy_grows_broadcast: "hy_grows p p' \<Longrightarrow> hy_grows p (hy_broadcast mm cert p')"
  using hy_calm_broadcast [OF hy_calm_refl, of p' mm cert] by (auto intro: hy_grows_trans hy_calm_grows)

lemma hy_grows_send:
  "hy_broadcastVC E vc p = Inr p' \<Longrightarrow> hy_grows p p'" "hy_broadcastNV E nv p = Inr p' \<Longrightarrow> hy_grows p p'" "hy_broadcastNVA E na p = Inr p' \<Longrightarrow> hy_grows p p'"
  by (auto simp: hy_broadcastVC_def hy_broadcastNV_def hy_broadcastNVA_def Let_def go_simps intro!: hy_grows_broadcast)

lemma hy_grows_leaveViewFor: "hy_leaveViewFor E v p = Inr p' \<Longrightarrow> hy_grows p p'"
  by (auto simp: hy_leaveViewFor_def hy_createAbortState_def Let_def split: if_splits dest!: hy_grows_send)

lemma hy_grows_transit: "hy_transitPrepare E v opr acc = Inr acc' \<Longrightarrow> hy_grows (snd acc) (snd acc')"
  by (auto simp: hy_transitPrepare_def hy_marshalAndSignNormal_def Let_def go_simps split: if_splits)

lemma hy_grows_createViewTransition: "hy_createViewTransition E v prs p = Inr (prps, p') \<Longrightarrow> hy_grows p p'"
proof -
  assume "hy_createViewTransition E v prs p = Inr (prps, p')"
  then have "hy_grows p (snd (prps, p'))" unfolding hy_createViewTransition_def
    by (rule go_fold_invariant) (auto intro: hy_grows_trans dest: hy_grows_transit)
  then show ?thesis by simp
qed

lemma hy_grows_enterView: "hy_enterView v prs p = Inr p' \<Longrightarrow> hy_grows p p'"
  by (auto simp: hy_enterView_def split: if_splits dest!: hy_calm_installOrderingState hy_calm_grows)

lemma hy_grows_votePrepare: "go_fold hy_votePrepare prps p = Inr p' \<Longrightarrow> hy_calm p p'"
  by (erule hy_calm_fold) (auto simp: hy_votePrepare_def go_simps split: option.splits)

lemma hy_grows_trySendNewView:
  assumes "hy_trySendNewView E v w p = Inr p'"
  shows "hy_grows p p'"
proof -
  consider "p' = p" | p1 prpsQ prps p2 nv p3 p4 where "hy_createViewTransition E w prpsQ p1 = Inr (prps, p2)" "hy_grows p p1" "hy_broadcastNV E nv p2 = Inr p3"
    "hy_enterView w prps p3 = Inr p4" "go_fold hy_votePrepare prps p4 = Inr p'"
  proof (cases "hy_isCorrectNewViewCertificate E (hy_vmsgs p) (hy_nvamsgs p) v w p")
    case (Inr r)
    show thesis
    proof (cases r)
      case None
      with Inr assms show thesis using that by (auto simp: hy_trySendNewView_def go_simps split: if_splits)
    next
      case (Some a)
      with Inr assms show thesis using that by (cases a) (fastforce simp: hy_trySendNewView_def Let_def go_simps split: if_splits)
    qed
  qed (use assms in \<open>auto simp: hy_trySendNewView_def go_simps split: if_splits\<close>)
  then show ?thesis
  proof cases
    case 2
    have "hy_grows p p2" using hy_grows_createViewTransition [OF 2(1)] 2(2) by (rule hy_grows_trans [rotated])
    moreover have "hy_grows p2 p3" "hy_grows p3 p4" "hy_grows p4 p'" using 2 by (auto dest: hy_grows_send hy_grows_enterView hy_grows_votePrepare hy_calm_grows)
    ultimately show ?thesis by (blast intro: hy_grows_trans)
  qed simp
qed

lemma hy_grows_installViewChange: "hy_installViewChange vcp v prs p = Inr p' \<Longrightarrow> hy_grows p p'"
  by (auto simp: hy_installViewChange_def dest!: hy_calm_abortStateReceived hy_calm_grows)

lemma hy_grows_onViewChange: "hy_onViewChange E m content cert from p = Inr p' \<Longrightarrow> hy_grows p p'"
  by (auto simp: hy_onViewChange_def Let_def go_simps split: if_splits option.splits
      dest!: hy_grows_installViewChange hy_grows_trySendNewView hy_grows_leaveViewFor intro: hy_grows_trans)

lemma hy_grows_onNewViewReady: "hy_onNewViewReady E m p = Inr p' \<Longrightarrow> hy_grows p p'"
  by (auto simp: hy_onNewViewReady_def Let_def go_simps split: if_splits option.splits dest!: hy_grows_enterView hy_grows_send intro: hy_grows_trans)

lemma hy_grows_fold:
  assumes "go_fold h xs p = Inr p'" "\<And>x p1 p2. h x p1 = Inr p2 \<Longrightarrow> hy_grows p1 p2"
  shows "hy_grows p p'"
  using assms(1) by (rule go_fold_invariant) (auto intro: hy_grows_trans assms(2))

lemma hy_grows_onNewView:
  assumes "hy_onNewView E m content cert from p = Inr p'"
  shows "hy_grows p p'"
proof -
  consider "p' = p" | vcps prs p1 p2 where "hy_onNewViewReady E m (p\<lparr>hy_nvmsgs := hy_nvmsgs p @ [m]\<rparr>) = Inr p1" "go_fold (hy_storeProof prs) vcps p1 = Inr p2"
    "go_fold (hy_replay E from) [0..<length (hy_omsgs p2)] p2 = Inr p'"
    by (rule hy_onNewView_cases [OF assms])
  then show ?thesis
  proof cases
    case 2
    have "hy_grows p p1" using hy_grows_onNewViewReady [OF 2(1)] by simp
    moreover have "hy_grows p1 p2" by (rule hy_grows_fold [OF 2(2)]) (auto simp: hy_storeProof_def split: option.splits if_splits dest: hy_grows_installViewChange)
    moreover have "hy_grows p2 p'" by (rule hy_grows_fold [OF 2(3)]) (blast intro: hy_calm_grows hy_calm_replay)
    ultimately show ?thesis by (blast intro: hy_grows_trans)
  qed simp
qed

lemma hy_grows_onNewViewAck: "hy_onNewViewAck E m content cert from p = Inr p' \<Longrightarrow> hy_grows p p'"
  by (auto simp: hy_onNewViewAck_def Let_def go_simps split: if_splits option.splits
      dest!: hy_calm_abortStateReceived hy_grows_trySendNewView hy_calm_grows intro: hy_grows_trans)

lemma hy_grows_Step: "hy_Step E mm p = Inr p' \<Longrightarrow> hy_grows p p'"
  by (auto simp: hy_Step_def split: option.splits HybsterMessage.splits
      dest: hy_grows_onViewChange hy_grows_onNewView hy_grows_onNewViewAck hy_calm_stepNormal hy_calm_grows)

interpretation hy_out: protocol_output "hy_Protocol E" hy_msgs hy_executedCmds for E
proof
  fix s s' :: hybster
  show "pr_Step (hy_Protocol E) m s = Inr s' \<Longrightarrow> prefix (hy_msgs s) (hy_msgs s') \<and> prefix (hy_executedCmds s) (hy_executedCmds s')" for m
    using hy_grows_Step by (auto simp: hy_Protocol_def hy_grows_def)
  show "pr_Request (hy_Protocol E) c s = Inr s' \<Longrightarrow> prefix (hy_msgs s) (hy_msgs s') \<and> prefix (hy_executedCmds s) (hy_executedCmds s')" for c
    using hy_calm_grows [OF hy_calm_handlers(3)] by (auto simp: hy_Protocol_def hy_Request_def hy_grows_def)
  show "pr_AsyncCallback (hy_Protocol E) s = Inr s' \<Longrightarrow> prefix (hy_msgs s) (hy_msgs s') \<and> prefix (hy_executedCmds s) (hy_executedCmds s')"
    using hy_calm_grows [OF hy_calm_AsyncCallback] by (auto simp: hy_Protocol_def hy_grows_def)
qed (auto simp: hy_Protocol_def hy_Callback_def hy_Tick_def hy_MakeReady_def hy_ClearMsgs_def hy_ClearExecutedCommands_def)

subsection \<open>A replica with its threads\<close>

datatype hy_act = HyRequest Command | HyAsync | HyTake | HyAssign | HyFinish nat | HyApply

definition hy_pool :: "((hy_job, bytes) Dispatcher \<Rightarrow> (hy_job, bytes) Dispatcher option) \<Rightarrow> hybster \<Rightarrow> hybster go option" where
  "hy_pool g p = map_option (\<lambda>d. Inr (p\<lparr>hy_signDispatcher := d\<rparr>)) (g (hy_signDispatcher p))"

text \<open>A worker calls the enclave with its job; a panic in the worker ends the process.\<close>

definition hy_finish :: "hy_env \<Rightarrow> nat \<Rightarrow> hybster \<Rightarrow> hybster go option" where
  "hy_finish E i p =
     (let d = hy_signDispatcher p in
      if i < length (d_busy d) then
        (case hy_sign E (d_busy d ! i) p of
           Inl e \<Rightarrow> Some (Inl e)
         | Inr (cert, x) \<Rightarrow> map_option (\<lambda>d'. Inr (p\<lparr>hy_signDispatcher := d', hy_certifier := x\<rparr>)) (worker_finish (\<lambda>_. cert) i d))
      else None)"

fun hy_do :: "hy_env \<Rightarrow> hy_act \<Rightarrow> hybster \<Rightarrow> hybster go option" where
  "hy_do E (HyRequest cmd) p = Some (hy_Request E cmd p)"
| "hy_do E HyAsync p = Some (hy_AsyncCallback p)"
| "hy_do E HyTake p = hy_pool dispatch_take p"
| "hy_do E HyAssign p = hy_pool dispatch_assign p"
| "hy_do E (HyFinish i) p = hy_finish E i p"
| "hy_do E HyApply p = Some (Inr (hy_ClearExecutedCommands p))"

definition hy_node :: "hy_env \<Rightarrow> (hy_act, hybster) bl_node" where
  "hy_node E = \<lparr>bn_act = hy_do E, bn_recv = (\<lambda>m p. Some (hy_Step E m p)), bn_out = (\<lambda>p. rd_Messages (hy_MakeReady p)), bn_clear = hy_ClearMsgs\<rparr>"

definition hy_start :: "hy_config \<Rightarrow> PeerID list \<Rightarrow> (PeerID, hybster) fmap" where
  "hy_start c byz = bl_boot NewHybster (\<lambda>r. c\<lparr>cfg_ID := r\<rparr>) (cfg_Peers c) byz"

lemma hy_do_settled:
  assumes "hy_settled p" "hy_do E a p = Some (Inr p')"
  shows "hy_settled p'"
proof (cases a)
  case (HyRequest cmd)
  with assms show ?thesis by (auto simp: hy_Request_def intro: hy_settled_calm dest: hy_calm_handlers)
next
  case HyAsync
  with assms show ?thesis by (auto intro: hy_settled_calm dest: hy_calm_AsyncCallback)
qed (use assms in \<open>auto simp: hy_pool_def hy_finish_def hy_ClearExecutedCommands_def hy_settled_def Let_def split: if_splits sum.splits\<close>)

lemma hy_node_settled:
  "hy_settled p \<Longrightarrow> bn_act (hy_node E) a p = Some (Inr p') \<Longrightarrow> hy_settled p'"
  "hy_settled p \<Longrightarrow> bn_recv (hy_node E) m p = Some (Inr p') \<Longrightarrow> hy_settled p'"
  "hy_settled p \<Longrightarrow> hy_settled (bn_clear (hy_node E) p)"
  by (auto simp: hy_node_def hy_settled_def [of "hy_ClearMsgs p"] hy_ClearMsgs_def dest: hy_do_settled hy_settled_Step) (simp_all add: hy_settled_def)

lemma hy_start_settled: "0 \<le> cfg_MaxFailures c \<Longrightarrow> fmlookup (hy_start c byz) r = Some p \<Longrightarrow> hy_settled p"
  unfolding hy_start_def by (drule bl_boot_Inr) (auto simp: NewHybster_def hy_settled_def go_simps split: list.splits)

end
