(* ===== verification/DQPBFT.thy ===== *)
theory DQPBFT
  imports Ordered PBFT
begin

text \<open>
  The replica of \<open>protocols/dqpbft\<close>: PBFT's three phases once for every command (\<open>cinstance.go\<close>, led by the replica that received it) and once for every batch of the ordering leader
  (\<open>oinstance.go\<close>). The two enumerations of message types have the constructors of \<open>AgreementMessage_Type\<close>, those of states are parts of \<open>od_status\<close>.
\<close>

subsection \<open>Messages (\<open>dqpbftpb\<close>)\<close>

record DQAgreement =
  da_View :: u64
  da_InstanceID :: InstanceID
  da_Type :: AgreementMessage_Type
  da_Command :: "Command option"
  da_CommandHash :: slice

record DQOAgreement =
  do_View :: u64
  do_Index :: u64
  do_Type :: AgreementMessage_Type
  do_Instances :: "InstanceID list"
  do_CommandHash :: slice

datatype DQPBFTMessage = DQPBFTMessage_Agreement DQAgreement | DQPBFTMessage_OAgreement DQOAgreement | DQPBFTMessage_Unset

record dq_env = go_env +
  env_marshalDQ :: "DQPBFTMessage \<Rightarrow> bytes"
  env_unmarshalDQ :: "bytes \<Rightarrow> DQPBFTMessage option"

definition DQAgreement_Equals :: "DQAgreement \<Rightarrow> DQAgreement \<Rightarrow> bool" where
  "DQAgreement_Equals m other =
     (if da_View m \<noteq> da_View other then False
      else if \<not> InstanceID_Equals (da_InstanceID m) (da_InstanceID other) then False
      else bytes_Equal (da_CommandHash m) (da_CommandHash other))"

definition DQOAgreement_Equals :: "DQOAgreement \<Rightarrow> DQOAgreement \<Rightarrow> bool" where
  "DQOAgreement_Equals m other =
     (if do_View m \<noteq> do_View other then False
      else if do_Index m \<noteq> do_Index other then False
      else bytes_Equal (do_CommandHash m) (do_CommandHash other))"

subsection \<open>Vote tables (\<open>quorum.go\<close>)\<close>

definition dq_qlog :: "PeerID \<Rightarrow> DQAgreement \<Rightarrow> DQAgreement view_table \<Rightarrow> DQAgreement view_table go" where
  "dq_qlog = vt_log da_View PanicCall"

definition dq_qMajority :: "int \<Rightarrow> DQAgreement \<Rightarrow> DQAgreement view_table \<Rightarrow> bool" where
  "dq_qMajority f = vt_Majority da_View DQAgreement_Equals (2 * f)"

definition dq_oqlog :: "PeerID \<Rightarrow> DQOAgreement \<Rightarrow> DQOAgreement view_table \<Rightarrow> DQOAgreement view_table go" where
  "dq_oqlog = vt_log do_View PanicCall"

definition dq_oqMajority :: "int \<Rightarrow> DQOAgreement \<Rightarrow> DQOAgreement view_table \<Rightarrow> bool" where
  "dq_oqMajority f = vt_Majority do_View DQOAgreement_Equals (2 * f)"

interpretation dq_votes: vote_quorum dq_qlog vt_votes dq_qMajority da_View "\<lambda>m. (da_View m, da_InstanceID m, sbytes (da_CommandHash m))" "\<lambda>f. 2 * f"
  unfolding dq_qlog_def dq_qMajority_def by (rule vt_vote_quorum) (auto simp: DQAgreement_Equals_def bytes_Equal_def)

interpretation dq_ovotes: vote_quorum dq_oqlog vt_votes dq_oqMajority do_View "\<lambda>m. (do_View m, do_Index m, sbytes (do_CommandHash m))" "\<lambda>f. 2 * f"
  unfolding dq_oqlog_def dq_oqMajority_def by (rule vt_vote_quorum) (auto simp: DQOAgreement_Equals_def bytes_Equal_def)

subsection \<open>The replica\<close>

record dq_instance = od_instance +
  ci_pCert :: "DQAgreement view_table"
  ci_cCert :: "DQAgreement view_table"

record dq_oinstance = od_oinstance +
  oi_pCert :: "DQOAgreement view_table"
  oi_cCert :: "DQOAgreement view_table"

record DQPBFT = "(dq_instance, dq_oinstance) ordered" +
  dq_signDispatcher :: "(bytes \<times> bool, bytes) Dispatcher"

definition NewDQPBFT :: "od_config \<Rightarrow> DQPBFT go" where
  "NewDQPBFT c = go_bind (startDispatcher (LocalConfig.truncate c) ''mac_sign'') (\<lambda>d.
     Inr (ordered.extend (od_new c (int (cfg_DqOBatchTimeout c))) \<lparr>dq_signDispatcher = d\<rparr>))"

subsection \<open>Sending (\<open>messaging.go\<close>)\<close>

definition dq_sendTo :: "dq_env \<Rightarrow> PeerID \<Rightarrow> DQPBFTMessage \<Rightarrow> DQPBFT \<Rightarrow> DQPBFT" where
  "dq_sendTo E to m d =
     (let mBytes = env_marshalDQ E m in od_enqueueForSending to mBytes (env_createSignedCertificate E mBytes) d)"

definition dq_broadcast :: "dq_env \<Rightarrow> DQPBFTMessage \<Rightarrow> bool \<Rightarrow> DQPBFT \<Rightarrow> DQPBFT" where
  "dq_broadcast E m sendToSelf d = d\<lparr>dq_signDispatcher := Dispatcher_Exec (env_marshalDQ E m, sendToSelf) (dq_signDispatcher d)\<rparr>"

definition dq_signVector :: "dq_env \<Rightarrow> PeerID list \<Rightarrow> bytes \<times> bool \<Rightarrow> bytes" where
  "dq_signVector E nodes job = concat (map (\<lambda>_. env_createSignedCertificate E (fst job)) nodes)"

definition dq_AsyncCallback :: "DQPBFT \<Rightarrow> DQPBFT go" where
  "dq_AsyncCallback d =
     (case drain_callbacks (dq_signDispatcher d) of (cbs, p) \<Rightarrow>
        go_fold (\<lambda>(job, cert). od_broadcastCallback (fst job) (snd job) cert) cbs (d\<lparr>dq_signDispatcher := p\<rparr>))"

subsection \<open>Batches (\<open>oinstance.go\<close>)\<close>

abbreviation dq_exec :: "DQPBFT \<Rightarrow> DQPBFT go" where
  "dq_exec \<equiv> od_exec mkExecPacket"

definition dq_makeOInstance :: "DQOAgreement \<Rightarrow> dq_oinstance" where
  "dq_makeOInstance m =
     \<lparr>oi_View = do_View m, oi_Index = do_Index m, oi_Status = OS_None, oi_Instances = do_Instances m, oi_CommandHash = do_CommandHash m,
      oi_pCert = vt_new, oi_cCert = vt_new\<rparr>"

definition dq_updateOCommand :: "dq_oinstance \<Rightarrow> DQOAgreement \<Rightarrow> dq_oinstance go" where
  "dq_updateOCommand inst m =
     (if oi_Instances inst \<noteq> []
      then (if \<not> InstancesEquals (oi_Instances inst) (do_Instances m) then Inl PanicCall else Inr inst)
      else Inr (inst\<lparr>oi_Instances := do_Instances m\<rparr>))"

definition dq_updateOCommandHash :: "dq_oinstance \<Rightarrow> DQOAgreement \<Rightarrow> dq_oinstance go" where
  "dq_updateOCommandHash inst m =
     (if oi_CommandHash inst \<noteq> None
      then (if \<not> bytes_Equal (oi_CommandHash inst) (do_CommandHash m) then Inl PanicCall else Inr inst)
      else Inr (inst\<lparr>oi_CommandHash := do_CommandHash m\<rparr>))"

text \<open>The view of the new instance is \<open>d.view\<close>, the view of the leader's own commands.\<close>

definition dq_sendCRequest :: "dq_env \<Rightarrow> DQPBFT \<Rightarrow> DQPBFT go" where
  "dq_sendCRequest E d =
     go_bind (od_isPrimaryAtView (od_id d) (od_oview d) d) (\<lambda>b.
     if \<not> b then Inr d
     else let ids = od_cReqBuffer d; d1 = d\<lparr>od_cReqBuffer := []\<rparr> in
       if length ids \<le> 0 then Inr d1
       else let index = od_oindex d1;
                ppm = \<lparr>do_View = od_view d1, do_Index = index, do_Type = AMT_PrePrepare, do_Instances = ids, do_CommandHash = None\<rparr>;
                logppm = \<lparr>do_View = od_view d1, do_Index = index, do_Type = AMT_PrePrepare, do_Instances = [], do_CommandHash = Some (batch_hash E ids)\<rparr>
            in go_bind (dq_oqlog (od_id d1) logppm vt_new) (\<lambda>pc.
               let inst = \<lparr>oi_View = od_view d1, oi_Index = index, oi_Status = OS_PrePrepared, oi_Instances = ids, oi_CommandHash = None,
                           oi_pCert = pc, oi_cCert = vt_new\<rparr>
               in Inr (dq_broadcast E (DQPBFTMessage_OAgreement ppm) False (od_oput index inst (d1\<lparr>od_oindex := index + 1\<rparr>)))))"

definition dq_onCRequest :: "dq_env \<Rightarrow> InstanceID \<Rightarrow> DQPBFT \<Rightarrow> DQPBFT go" where
  "dq_onCRequest E = od_onCRequest (dq_sendCRequest E)"

text \<open>The end of \<open>onOPrePrepare\<close> and \<open>onOPrepare\<close>: with enough votes for \<open>m\<close> the batch is prepared, and committed if the commits are there.\<close>

definition dq_oprepared :: "dq_env \<Rightarrow> u64 \<Rightarrow> DQOAgreement \<Rightarrow> dq_oinstance \<Rightarrow> DQPBFT \<Rightarrow> DQPBFT go" where
  "dq_oprepared E idx m inst d =
     (if dq_oqMajority (od_f d) m (oi_pCert inst) \<and> oi_Status inst = OS_PrePrepared
      then let inst1 = inst\<lparr>oi_Status := OS_Prepared\<rparr>;
               cm = \<lparr>do_View = do_View m, do_Index = do_Index m, do_Type = AMT_Commit, do_Instances = [], do_CommandHash = oi_CommandHash inst\<rparr>;
               d1 = dq_broadcast E (DQPBFTMessage_OAgreement cm) False d
           in go_bind (dq_oqlog (od_id d) cm (oi_cCert inst1)) (\<lambda>cc.
              let inst2 = inst1\<lparr>oi_cCert := cc\<rparr> in
              if dq_oqMajority (od_f d) cm cc
              then dq_exec (od_oput idx (inst2\<lparr>oi_Status := OS_Committed\<rparr>) d1)
              else Inr (od_oput idx inst2 d1))
      else Inr (od_oput idx inst d))"

definition dq_onOPrePrepare :: "dq_env \<Rightarrow> DQOAgreement \<Rightarrow> PeerID \<Rightarrow> DQPBFT \<Rightarrow> DQPBFT go" where
  "dq_onOPrePrepare E m0 from d =
     go_bind (od_isPrimaryAtView from (od_oview d) d) (\<lambda>b.
     if \<not> b then Inl PanicCall
     else let m = m0\<lparr>do_CommandHash := Some (batch_hash E (do_Instances m0))\<rparr> in
       go_bind (case fmlookup (od_olog d) (do_Index m) of
           None \<Rightarrow> Inr (dq_makeOInstance m)
         | Some inst \<Rightarrow> go_bind (dq_updateOCommand inst m) (\<lambda>inst'. dq_updateOCommandHash inst' m)) (\<lambda>inst.
       go_bind (dq_oqlog from m (oi_pCert inst)) (\<lambda>pc1.
       let inst1 = inst\<lparr>oi_Status := OS_PrePrepared\<rparr>;
           pm = \<lparr>do_View = oi_View inst1, do_Index = oi_Index inst1, do_Type = AMT_Prepare, do_Instances = [], do_CommandHash = oi_CommandHash inst1\<rparr> in
       go_bind (dq_oqlog (od_id d) pm pc1) (\<lambda>pc2.
       dq_oprepared E (do_Index m) pm (inst1\<lparr>oi_pCert := pc2\<rparr>) (dq_broadcast E (DQPBFTMessage_OAgreement pm) False d)))))"

text \<open>The lookup at the head of \<open>onOPrepare\<close> and \<open>onOCommit\<close>.\<close>

definition dq_getOInstance :: "DQOAgreement \<Rightarrow> DQPBFT \<Rightarrow> dq_oinstance go" where
  "dq_getOInstance m d =
     (case fmlookup (od_olog d) (do_Index m) of None \<Rightarrow> Inr (dq_makeOInstance m) | Some inst \<Rightarrow> dq_updateOCommandHash inst m)"

definition dq_onOPrepare :: "dq_env \<Rightarrow> DQOAgreement \<Rightarrow> PeerID \<Rightarrow> DQPBFT \<Rightarrow> DQPBFT go" where
  "dq_onOPrepare E m from d =
     go_bind (od_isPrimaryAtView from (od_oview d) d) (\<lambda>b.
     if b then Inl PanicCall
     else go_bind (dq_getOInstance m d) (\<lambda>inst.
       go_bind (dq_oqlog from m (oi_pCert inst)) (\<lambda>pc.
       dq_oprepared E (do_Index m) m (inst\<lparr>oi_pCert := pc\<rparr>) d)))"

definition dq_onOCommit :: "DQOAgreement \<Rightarrow> PeerID \<Rightarrow> DQPBFT \<Rightarrow> DQPBFT go" where
  "dq_onOCommit m from d =
     go_bind (dq_getOInstance m d) (\<lambda>inst.
     go_bind (dq_oqlog from m (oi_cCert inst)) (\<lambda>cc.
     let inst1 = inst\<lparr>oi_cCert := cc\<rparr> in
     if dq_oqMajority (od_f d) m cc \<and> oi_Status inst1 = OS_Prepared
     then dq_exec (od_oput (do_Index m) (inst1\<lparr>oi_Status := OS_Committed\<rparr>) d)
     else Inr (od_oput (do_Index m) inst1 d)))"

subsection \<open>Commands (\<open>cinstance.go\<close>)\<close>

definition dq_makeInstance :: "DQAgreement \<Rightarrow> dq_instance" where
  "dq_makeInstance m =
     \<lparr>ci_View = da_View m, ci_InstanceID = da_InstanceID m, ci_Status = OS_None, ci_Command = da_Command m, ci_CommandHash = da_CommandHash m,
      ci_pCert = vt_new, ci_cCert = vt_new\<rparr>"

definition dq_updateCommand :: "dq_instance \<Rightarrow> DQAgreement \<Rightarrow> dq_instance go" where
  "dq_updateCommand inst m =
     (if ci_Command inst \<noteq> None
      then go_bind (Command_Equal (ci_Command inst) (da_Command m)) (\<lambda>b. if \<not> b then Inl FatalExit else Inr inst)
      else Inr (inst\<lparr>ci_Command := da_Command m\<rparr>))"

definition dq_updateCommandHash :: "dq_instance \<Rightarrow> DQAgreement \<Rightarrow> dq_instance go" where
  "dq_updateCommandHash inst m =
     (if ci_CommandHash inst \<noteq> None
      then (if \<not> bytes_Equal (ci_CommandHash inst) (da_CommandHash m) then Inl PanicCall else Inr inst)
      else Inr (inst\<lparr>ci_CommandHash := da_CommandHash m\<rparr>))"

definition dq_prepared :: "dq_env \<Rightarrow> InstanceID \<Rightarrow> DQAgreement \<Rightarrow> dq_instance \<Rightarrow> DQPBFT \<Rightarrow> DQPBFT go" where
  "dq_prepared E i m inst d =
     (if dq_qMajority (od_f d) m (ci_pCert inst) \<and> ci_Status inst = OS_PrePrepared
      then let inst1 = inst\<lparr>ci_Status := OS_Prepared\<rparr>;
               cm = \<lparr>da_View = da_View m, da_InstanceID = da_InstanceID m, da_Type = AMT_Commit, da_Command = None, da_CommandHash = ci_CommandHash inst\<rparr>;
               d1 = dq_broadcast E (DQPBFTMessage_Agreement cm) False d
           in go_bind (dq_qlog (od_id d) cm (ci_cCert inst1)) (\<lambda>cc.
              let inst2 = inst1\<lparr>ci_cCert := cc\<rparr> in
              if dq_qMajority (od_f d) cm cc
              then dq_exec (od_put i (inst2\<lparr>ci_Status := OS_Committed\<rparr>) d1)
              else Inr (od_put i inst2 d1))
      else Inr (od_put i inst d))"

text \<open>The ordering leader collects the command first. Who sent the message is not compared with the owner of the instance.\<close>

definition dq_onPrePrepare :: "dq_env \<Rightarrow> DQAgreement \<Rightarrow> PeerID \<Rightarrow> DQPBFT \<Rightarrow> DQPBFT go" where
  "dq_onPrePrepare E m0 from d0 =
     go_bind (go_bind (od_isPrimaryAtView (od_id d0) (od_oview d0) d0) (\<lambda>b. if b then dq_onCRequest E (da_InstanceID m0) d0 else Inr d0)) (\<lambda>d.
     go_bind (Hash_ptr E (da_Command m0)) (\<lambda>hash.
     let m = m0\<lparr>da_CommandHash := hash\<rparr> in
     go_bind (case fmlookup (od_log d) (da_InstanceID m) of
         None \<Rightarrow> Inr (dq_makeInstance m)
       | Some inst \<Rightarrow> go_bind (dq_updateCommand inst m) (\<lambda>inst'. dq_updateCommandHash inst' m)) (\<lambda>inst.
     go_bind (dq_qlog from (m\<lparr>da_Command := None\<rparr>) (ci_pCert inst)) (\<lambda>pc1.
     let inst1 = inst\<lparr>ci_Status := OS_PrePrepared\<rparr>;
         pm = \<lparr>da_View = ci_View inst1, da_InstanceID = ci_InstanceID inst1, da_Type = AMT_Prepare, da_Command = None, da_CommandHash = ci_CommandHash inst1\<rparr> in
     go_bind (dq_qlog (od_id d) pm pc1) (\<lambda>pc2.
     dq_prepared E (da_InstanceID m) pm (inst1\<lparr>ci_pCert := pc2\<rparr>) (dq_broadcast E (DQPBFTMessage_Agreement pm) False d))))))"

definition dq_getInstance :: "DQAgreement \<Rightarrow> DQPBFT \<Rightarrow> dq_instance go" where
  "dq_getInstance m d =
     (case fmlookup (od_log d) (da_InstanceID m) of None \<Rightarrow> Inr (dq_makeInstance m) | Some inst \<Rightarrow> dq_updateCommandHash inst m)"

definition dq_onPrepare :: "dq_env \<Rightarrow> DQAgreement \<Rightarrow> PeerID \<Rightarrow> DQPBFT \<Rightarrow> DQPBFT go" where
  "dq_onPrepare E m from d =
     go_bind (dq_getInstance m d) (\<lambda>inst.
     go_bind (dq_qlog from m (ci_pCert inst)) (\<lambda>pc.
     dq_prepared E (da_InstanceID m) m (inst\<lparr>ci_pCert := pc\<rparr>) d))"

definition dq_onCommit :: "DQAgreement \<Rightarrow> PeerID \<Rightarrow> DQPBFT \<Rightarrow> DQPBFT go" where
  "dq_onCommit m from d =
     go_bind (dq_getInstance m d) (\<lambda>inst.
     go_bind (dq_qlog from m (ci_cCert inst)) (\<lambda>cc.
     let inst1 = inst\<lparr>ci_cCert := cc\<rparr> in
     if dq_qMajority (od_f d) m cc \<and> ci_Status inst1 = OS_Prepared
     then dq_exec (od_put (da_InstanceID m) (inst1\<lparr>ci_Status := OS_Committed\<rparr>) d)
     else Inr (od_put (da_InstanceID m) inst1 d)))"

subsection \<open>Requests (\<open>request.go\<close>)\<close>

definition dq_onRequest :: "dq_env \<Rightarrow> Command \<Rightarrow> DQPBFT \<Rightarrow> DQPBFT go" where
  "dq_onRequest E cmd d =
     (let index = od_index d;
          instID = \<lparr>iid_ReplicaID = od_id d, iid_Index = index\<rparr>;
          ppm = \<lparr>da_View = od_view d, da_InstanceID = instID, da_Type = AMT_PrePrepare, da_Command = Some cmd, da_CommandHash = None\<rparr>;
          logppm = ppm\<lparr>da_Command := None, da_CommandHash := Command_Hash E cmd\<rparr>
      in go_bind (dq_qlog (od_id d) logppm vt_new) (\<lambda>pc.
         let inst = \<lparr>ci_View = od_view d, ci_InstanceID = instID, ci_Status = OS_PrePrepared, ci_Command = Some cmd, ci_CommandHash = None,
                     ci_pCert = pc, ci_cCert = vt_new\<rparr>;
             d1 = dq_broadcast E (DQPBFTMessage_Agreement ppm) False (od_put instID inst (d\<lparr>od_index := index + 1\<rparr>))
         in go_bind (od_isPrimaryAtView (od_id d1) (od_oview d1) d1) (\<lambda>b. if b then dq_onCRequest E instID d1 else Inr d1)))"

subsection \<open>Entry points (\<open>dqpbft.go\<close>)\<close>

definition dq_stepNormal :: "dq_env \<Rightarrow> DQAgreement \<Rightarrow> PeerID \<Rightarrow> DQPBFT \<Rightarrow> DQPBFT go" where
  "dq_stepNormal E m from d =
     (case da_Type m of
        AMT_PrePrepare \<Rightarrow> dq_onPrePrepare E m from d
      | AMT_Prepare \<Rightarrow> dq_onPrepare E m from d
      | AMT_Commit \<Rightarrow> dq_onCommit m from d
      | AMT_Unknown _ \<Rightarrow> Inl PanicCall)"

definition dq_stepONormal :: "dq_env \<Rightarrow> DQOAgreement \<Rightarrow> PeerID \<Rightarrow> DQPBFT \<Rightarrow> DQPBFT go" where
  "dq_stepONormal E m from d =
     (case do_Type m of
        AMT_PrePrepare \<Rightarrow> dq_onOPrePrepare E m from d
      | AMT_Prepare \<Rightarrow> dq_onOPrepare E m from d
      | AMT_Commit \<Rightarrow> dq_onOCommit m from d
      | AMT_Unknown _ \<Rightarrow> Inl PanicCall)"

definition dq_Step :: "dq_env \<Rightarrow> Message \<Rightarrow> DQPBFT \<Rightarrow> DQPBFT go" where
  "dq_Step E mm d =
     (case env_unmarshalDQ E (msg_Content mm) of
        None \<Rightarrow> Inl PanicCall
      | Some t \<Rightarrow>
          if \<not> env_verifyCertificate E (msg_Content mm) (msg_Certificate mm) then Inl PanicCall
          else (case t of
              DQPBFTMessage_Agreement m \<Rightarrow> dq_stepNormal E m (msg_From mm) d
            | DQPBFTMessage_OAgreement m \<Rightarrow> dq_stepONormal E m (msg_From mm) d
            | DQPBFTMessage_Unset \<Rightarrow> Inl PanicCall))"

definition dq_Callback :: "ExecCallback \<Rightarrow> DQPBFT \<Rightarrow> DQPBFT go" where
  "dq_Callback cb d = Inr d"

definition dq_Request :: "dq_env \<Rightarrow> Command \<Rightarrow> DQPBFT \<Rightarrow> DQPBFT go" where
  "dq_Request E cmd d = dq_onRequest E cmd d"

definition dq_Tick :: "dq_env \<Rightarrow> DQPBFT \<Rightarrow> DQPBFT go" where
  "dq_Tick E = od_Tick (dq_sendCRequest E)"

definition dq_hasStatus :: "InstanceID \<Rightarrow> od_status \<Rightarrow> DQPBFT \<Rightarrow> bool" where
  "dq_hasStatus i st d = (case fmlookup (od_log d) i of None \<Rightarrow> False | Some inst \<Rightarrow> ci_Status inst = st)"

definition dq_Protocol :: "dq_env \<Rightarrow> DQPBFT Protocol" where
  "dq_Protocol E =
     \<lparr>pr_Step = dq_Step E, pr_Tick = dq_Tick E, pr_Request = dq_Request E, pr_Callback = dq_Callback,
      pr_MakeReady = (\<lambda>s. Inr (od_MakeReady s, s)), pr_ClearMsgs = od_ClearMsgs,
      pr_ClearExecutedCommands = od_ClearExecutedCommands, pr_AsyncCallback = dq_AsyncCallback\<rparr>"

end
