(* ===== verification/Ordered_Exec.thy ===== *)
theory Ordered_Exec
  imports Ordered
begin

text \<open>
  What the execution loop of the protocols with an ordering layer delivers: the commands of the committed batches, batch by batch and in the order of the batch, as far as all commands are
  there; and that a batch which names a command twice ends the process.
\<close>

definition od_command :: "('x, 'y, 'z) od_replica \<Rightarrow> InstanceID \<Rightarrow> Command" where
  "od_command d i = the (ci_Command (the (fmlookup (od_log d) i)))"

definition od_batch :: "('x, 'y, 'z) od_replica \<Rightarrow> u64 \<Rightarrow> InstanceID list" where
  "od_batch d i = (case fmlookup (od_olog d) i of None \<Rightarrow> [] | Some oinst \<Rightarrow> oi_Instances oinst)"

text \<open>The identifiers in the next \<open>k\<close> batches.\<close>

definition od_order :: "nat \<Rightarrow> ('x, 'y, 'z) od_replica \<Rightarrow> InstanceID list" where
  "od_order k d = concat (map (\<lambda>j. od_batch d (od_oexecIdx d + of_nat j)) [0..<k])"

text \<open>What the second loop changes: the commands of \<open>is\<close> have been handed over.\<close>

definition od_delivered :: "(Command \<Rightarrow> ExecPacket) \<Rightarrow> InstanceID list \<Rightarrow> ('x, 'y, 'z) od_replica \<Rightarrow> ('x, 'y, 'z) od_replica \<Rightarrow> bool" where
  "od_delivered pkt is d d' \<longleftrightarrow> distinct is \<and> od_executedCmds d' = od_executedCmds d @ map (\<lambda>i. pkt (od_command d i)) is
     \<and> (\<forall>i. fmlookup (od_log d') i = (if i \<in> set is then map_option (\<lambda>inst. inst\<lparr>ci_Command := None, ci_Status := OS_Executed\<rparr>) (fmlookup (od_log d) i)
          else fmlookup (od_log d) i))"

lemma od_delivered_Nil [simp]: "od_delivered pkt [] d d"
  by (simp add: od_delivered_def)

lemma od_deliver_fold:
  assumes "go_fold (od_deliver pkt) is d = Inr d'"
  shows "od_delivered pkt is d d' \<and> (\<forall>i \<in> set is. \<exists>inst. fmlookup (od_log d) i = Some inst \<and> ci_Command inst \<noteq> None)"
  using assms
proof (induction "is" arbitrary: d)
  case (Cons i js)
  then obtain d1 where d1: "od_deliver pkt i d = Inr d1" "go_fold (od_deliver pkt) js d1 = Inr d'" by (auto simp: go_simps)
  then obtain inst cmd where i: "fmlookup (od_log d) i = Some inst" "ci_Command inst = Some cmd"
    "od_log d1 = fmupd i (inst\<lparr>ci_Command := None, ci_Status := OS_Executed\<rparr>) (od_log d)" "od_executedCmds d1 = od_executedCmds d @ [pkt cmd]"
    by (auto simp: od_deliver_def split: option.splits)
  note IH = Cons.IH [OF d1(2)]
  then have "i \<notin> set js" using i(3) by force
  then have same: "fmlookup (od_log d1) j = fmlookup (od_log d) j" if "j \<in> set js" for j using that i(3) by auto
  then have "map (\<lambda>i. pkt (od_command d1 i)) js = map (\<lambda>i. pkt (od_command d i)) js" by (auto simp: od_command_def)
  then have "od_executedCmds d' = od_executedCmds d @ map (\<lambda>i. pkt (od_command d i)) (i # js)"
    using IH i by (auto simp: od_delivered_def od_command_def)
  moreover have "fmlookup (od_log d') j = (if j \<in> set (i # js) then map_option (\<lambda>inst. inst\<lparr>ci_Command := None, ci_Status := OS_Executed\<rparr>) (fmlookup (od_log d) j)
          else fmlookup (od_log d) j)" for j
    using IH i \<open>i \<notin> set js\<close> unfolding od_delivered_def by (auto simp del: fmupd_lookup simp: same) auto
  moreover have "\<exists>inst. fmlookup (od_log d) j = Some inst \<and> ci_Command inst \<noteq> None" if "j \<in> set (i # js)" for j
    using that IH i(1,2) same by auto
  ultimately show ?case using IH \<open>i \<notin> set js\<close> by (auto simp: od_delivered_def)
qed simp

lemma od_deliver_fails: "go_fold (od_deliver pkt) is d = Inl e \<Longrightarrow> e = NilDeref"
  by (induction "is" arbitrary: d) (auto simp: go_simps od_deliver_def split: option.splits)

lemma od_deliver_dup:
  assumes "\<not> distinct is"
  shows "go_fold (od_deliver pkt) is d = Inl NilDeref"
  using assms od_deliver_fold [of pkt "is" d] od_deliver_fails [of pkt "is" d] by (cases "go_fold (od_deliver pkt) is d") (auto simp: od_delivered_def)

lemma od_deliver_ok:
  assumes "distinct is" "\<And>i. i \<in> set is \<Longrightarrow> \<exists>inst. fmlookup (od_log d) i = Some inst \<and> ci_Command inst \<noteq> None"
  shows "\<exists>d'. go_fold (od_deliver pkt) is d = Inr d'"
  using assms
proof (induction "is" arbitrary: d)
  case (Cons i js)
  from Cons.prems(2) [of i] obtain inst cmd where "fmlookup (od_log d) i = Some inst" "ci_Command inst = Some cmd" by auto
  then obtain d1 where d1: "od_deliver pkt i d = Inr d1" "\<And>j. j \<noteq> i \<Longrightarrow> fmlookup (od_log d1) j = fmlookup (od_log d) j"
    by (force simp: od_deliver_def)
  have "\<exists>d'. go_fold (od_deliver pkt) js d1 = Inr d'"
    using Cons.prems d1(2) by (intro Cons.IH) (metis distinct.simps(2) list.set_intros(2))+
  with d1(1) show ?case by simp
qed simp

text \<open>One round of the loop, and where it stops.\<close>

definition od_ready :: "('x, 'y, 'z) od_replica \<Rightarrow> bool" where
  "od_ready d \<longleftrightarrow> (\<exists>oinst. fmlookup (od_olog d) (od_oexecIdx d) = Some oinst \<and> oi_Status oinst = OS_Committed
     \<and> (\<forall>i \<in> set (oi_Instances oinst). od_available d i))"

lemma od_exec_stop: "\<not> od_ready d \<Longrightarrow> od_exec pkt d = Inr d"
  by (subst od_exec.simps) (auto simp: od_ready_def list_all_iff split: option.splits)

lemma od_exec_round:
  assumes "fmlookup (od_olog d) (od_oexecIdx d) = Some oinst" "oi_Status oinst = OS_Committed" "\<forall>i \<in> set (oi_Instances oinst). od_available d i"
  shows "od_exec pkt d = go_bind (go_fold (od_deliver pkt) (oi_Instances oinst) d) (\<lambda>d1. od_exec pkt (od_finish oinst d1))"
  using assms by (subst od_exec.simps) (auto simp: list_all_iff go_bind_def)

lemma od_exec_induct [case_names stop round]:
  assumes "\<And>d. \<not> od_ready d \<Longrightarrow> P d"
    and "\<And>d oinst. fmlookup (od_olog d) (od_oexecIdx d) = Some oinst \<Longrightarrow> oi_Status oinst = OS_Committed \<Longrightarrow> \<forall>i \<in> set (oi_Instances oinst). od_available d i
      \<Longrightarrow> (\<And>d1. go_fold (od_deliver pkt) (oi_Instances oinst) d = Inr d1 \<Longrightarrow> P (od_finish oinst d1)) \<Longrightarrow> P d"
  shows "P d"
proof (induction "card (od_committed d)" arbitrary: d rule: less_induct)
  case less
  show ?case
  proof (cases "od_ready d")
    case True
    then obtain oinst where o: "fmlookup (od_olog d) (od_oexecIdx d) = Some oinst" "oi_Status oinst = OS_Committed" "\<forall>i \<in> set (oi_Instances oinst). od_available d i"
      by (auto simp: od_ready_def)
    then show ?thesis using assms(2) [OF o] less od_committed_finish by blast
  qed (rule assms(1))
qed

text \<open>The rest of the state after a round.\<close>

lemma od_finish_round:
  assumes "fmlookup (od_olog d) (od_oexecIdx d) = Some oinst" "go_fold (od_deliver pkt) (oi_Instances oinst) d = Inr d1"
  shows "od_oexecIdx (od_finish oinst d1) = od_oexecIdx d + 1" "od_log (od_finish oinst d1) = od_log d1" "od_executedCmds (od_finish oinst d1) = od_executedCmds d1"
    "od_batch (od_finish oinst d1) = od_batch d"
    "fmlookup (od_olog (od_finish oinst d1)) i = (if i = od_oexecIdx d then Some (oinst\<lparr>oi_Status := OS_Executed\<rparr>) else fmlookup (od_olog d) i)"
  using assms od_deliver_batch_olog [OF assms(2)] by (auto simp: od_finish_def od_oput_def od_batch_def fun_eq_iff split: option.splits)

lemma od_available_after:
  assumes "od_delivered pkt is d d1" "od_available d' i" "od_log d' = od_log d1"
  shows "i \<notin> set is \<and> od_available d i \<and> od_command d' i = od_command d i"
  using assms by (auto simp: od_delivered_def od_available_def od_command_def split: option.splits if_splits)

definition od_run :: "(Command \<Rightarrow> ExecPacket) \<Rightarrow> nat \<Rightarrow> ('x, 'y, 'z) od_replica \<Rightarrow> ('x, 'y, 'z) od_replica \<Rightarrow> bool" where
  "od_run pkt k d d' \<longleftrightarrow> od_oexecIdx d' = od_oexecIdx d + of_nat k \<and> od_delivered pkt (od_order k d) d d'
     \<and> (\<forall>i \<in> set (od_order k d). od_available d i) \<and> \<not> od_ready d' \<and> od_batch d' = od_batch d
     \<and> (\<forall>i. (\<exists>oinst. fmlookup (od_olog d') i = Some oinst \<and> oi_Status oinst = OS_Committed) \<longrightarrow> fmlookup (od_olog d') i = fmlookup (od_olog d) i)
     \<and> (\<forall>j < k. \<exists>oinst. fmlookup (od_olog d) (od_oexecIdx d + of_nat j) = Some oinst \<and> oi_Status oinst = OS_Committed)"

lemma od_order_Suc: "od_order (Suc k) d = od_batch d (od_oexecIdx d) @ concat (map (\<lambda>j. od_batch d (od_oexecIdx d + 1 + of_nat j)) [0..<k])"
proof -
  have "[0..<Suc k] = 0 # map Suc [0..<k]" by (simp add: map_Suc_upt upt_conv_Cons)
  then show ?thesis unfolding od_order_def by (simp add: comp_def add.assoc)
qed

lemma od_run_Suc:
  assumes o: "fmlookup (od_olog d) (od_oexecIdx d) = Some oinst" "oi_Status oinst = OS_Committed" "\<forall>i \<in> set (oi_Instances oinst). od_available d i"
    and d1: "go_fold (od_deliver pkt) (oi_Instances oinst) d = Inr d1" and run: "od_run pkt k (od_finish oinst d1) d'"
  shows "od_run pkt (Suc k) d d'"
proof -
  let ?d = "od_finish oinst d1" and ?b = "oi_Instances oinst"
  note f = od_finish_round [OF o(1) d1] and dl = conjunct1 [OF od_deliver_fold [OF d1]]
  have ord: "od_order (Suc k) d = ?b @ od_order k ?d"
    unfolding od_order_Suc using o(1) by (simp add: od_order_def f(1,4)) (simp add: od_batch_def)
  have av: "i \<notin> set ?b \<and> od_available d i \<and> od_command ?d i = od_command d i" if "i \<in> set (od_order k ?d)" for i
    using run that od_available_after [OF dl _ f(2)] by (auto simp: od_run_def)
  have "od_executedCmds d' = od_executedCmds d @ map (\<lambda>i. pkt (od_command d i)) (od_order (Suc k) d)"
    using run dl av by (simp add: od_run_def od_delivered_def f(3) ord)
  moreover have "distinct (od_order (Suc k) d)" using run dl av by (auto simp: od_run_def od_delivered_def ord)
  moreover have "fmlookup (od_log d') i = (if i \<in> set (od_order (Suc k) d) then map_option (\<lambda>inst. inst\<lparr>ci_Command := None, ci_Status := OS_Executed\<rparr>) (fmlookup (od_log d) i)
          else fmlookup (od_log d) i)" for i
    using run dl av unfolding od_run_def od_delivered_def ord by (simp add: f(2))
  ultimately have "od_delivered pkt (od_order (Suc k) d) d d'" by (simp add: od_delivered_def)
  moreover have "\<exists>oinst. fmlookup (od_olog d) (od_oexecIdx d + of_nat j) = Some oinst \<and> oi_Status oinst = OS_Committed" if "j < Suc k" for j
  proof (cases j)
    case (Suc n)
    with that run obtain o' where o': "fmlookup (od_olog ?d) (od_oexecIdx ?d + of_nat n) = Some o'" "oi_Status o' = OS_Committed" by (auto simp: od_run_def)
    with f(5) have "fmlookup (od_olog d) (od_oexecIdx ?d + of_nat n) = Some o'" by (auto split: if_splits)
    with o' Suc f(1) show ?thesis by (simp add: add.assoc)
  qed (use o in simp)
  moreover have "fmlookup (od_olog d') i = fmlookup (od_olog d) i"
    if "fmlookup (od_olog d') i = Some o'" "oi_Status o' = OS_Committed" for i o'
    using that run f(5) [of i] by (auto simp: od_run_def split: if_splits)
  ultimately show ?thesis using run o(3) av by (auto simp: od_run_def f ord add.assoc)
qed

lemma od_exec_run: "od_exec pkt d = Inr d' \<Longrightarrow> \<exists>k. od_run pkt k d d'"
proof (induction d rule: od_exec_induct [where pkt = pkt])
  case (stop d)
  then have "od_run pkt 0 d d'" by (simp add: od_exec_stop od_run_def od_order_def)
  then show ?case by blast
next
  case (round d oinst)
  from round.prems obtain d1 where d1: "go_fold (od_deliver pkt) (oi_Instances oinst) d = Inr d1" "od_exec pkt (od_finish oinst d1) = Inr d'"
    by (auto simp: od_exec_round [OF round.hyps(1-3)] go_simps)
  with round.IH obtain k where "od_run pkt k (od_finish oinst d1) d'" by blast
  with od_run_Suc [OF round.hyps(1-3) d1(1)] show ?case by blast
qed

text \<open>
  Claim C30. The execution loop ends. When it returns, it has delivered, in order and each once, the commands of the batches from the next one on, all committed; it stops at a batch that is
  not committed or misses a command. It ends the process only when a committed batch names a command twice.
\<close>

theorem od_exec_delivers:
  "(case od_exec pkt d of
      Inr d' \<Rightarrow> \<exists>k. od_oexecIdx d' = od_oexecIdx d + of_nat k \<and> \<not> od_ready d'
        \<and> list_all (\<lambda>j. \<exists>oinst. fmlookup (od_olog d) (od_oexecIdx d + of_nat j) = Some oinst \<and> oi_Status oinst = OS_Committed) [0..<k]
        \<and> distinct (od_order k d) \<and> list_all (od_available d) (od_order k d)
        \<and> od_executedCmds d' = od_executedCmds d @ map (\<lambda>i. pkt (od_command d i)) (od_order k d)
    | Inl e \<Rightarrow> e = NilDeref \<and> (\<exists>i oinst. fmlookup (od_olog d) i = Some oinst \<and> oi_Status oinst = OS_Committed \<and> \<not> distinct (oi_Instances oinst)))"
proof (cases "od_exec pkt d")
  case (Inr d')
  from od_exec_run [OF this] obtain k where "od_run pkt k d d'" by blast
  with Inr show ?thesis by (auto simp: od_run_def od_delivered_def list_all_iff intro!: exI [of _ k])
next
  case (Inl e)
  then have "e = NilDeref \<and> (\<exists>i oinst. fmlookup (od_olog d) i = Some oinst \<and> oi_Status oinst = OS_Committed \<and> \<not> distinct (oi_Instances oinst))"
  proof (induction d rule: od_exec_induct [where pkt = pkt])
    case (round d oinst)
    show ?case
    proof (cases "distinct (oi_Instances oinst)")
      case True
      have "\<exists>inst. fmlookup (od_log d) i = Some inst \<and> ci_Command inst \<noteq> None" if "i \<in> set (oi_Instances oinst)" for i
        using round.hyps(3) that by (auto simp: od_available_def split: option.splits)
      from od_deliver_ok [OF True this] obtain d1 where d1: "go_fold (od_deliver pkt) (oi_Instances oinst) d = Inr d1" by blast
      with round.prems have "od_exec pkt (od_finish oinst d1) = Inl e" by (simp add: od_exec_round [OF round.hyps(1-3)])
      from round.IH [OF d1 this] show ?thesis using od_finish_round(5) [OF round.hyps(1) d1] by (auto split: if_splits)
    next
      case False
      then have "go_fold (od_deliver pkt) (oi_Instances oinst) d = Inl NilDeref" by (rule od_deliver_dup)
      with round False show ?thesis by (auto simp: od_exec_round [OF round.hyps(1-3)])
    qed
  qed (simp add: od_exec_stop)
  with Inl show ?thesis by simp
qed

text \<open>What the loop leaves as it is.\<close>

definition od_same :: "('i, 'o, 'z) ordered_scheme \<Rightarrow> ('i, 'o, 'z) ordered_scheme \<Rightarrow> bool" where
  "od_same d d' \<longleftrightarrow> od_id d' = od_id d \<and> od_nodes d' = od_nodes d \<and> od_f d' = od_f d \<and> od_view d' = od_view d \<and> od_index d' = od_index d \<and> od_oindex d' = od_oindex d
     \<and> od_oview d' = od_oview d \<and> od_msgs d' = od_msgs d \<and> od_cReqBuffer d' = od_cReqBuffer d \<and> od_oBatchSize d' = od_oBatchSize d \<and> od_timer d' = od_timer d
     \<and> ordered.more d' = ordered.more d \<and> prefix (od_executedCmds d) (od_executedCmds d')"

lemma od_same_refl [simp]: "od_same d d"
  by (simp add: od_same_def)

lemma od_same_trans: "od_same d d1 \<Longrightarrow> od_same d1 d2 \<Longrightarrow> od_same d d2"
  unfolding od_same_def by (auto intro: prefix_order.trans)

lemma od_deliver_same: "od_deliver pkt i d = Inr d' \<Longrightarrow> od_same d d'"
  by (auto simp: od_deliver_def od_same_def split: option.splits)

lemma od_deliver_fold_same: "go_fold (od_deliver pkt) is d = Inr d' \<Longrightarrow> od_same d d'"
  by (induction "is" arbitrary: d) (auto simp: go_simps intro: od_same_trans od_deliver_same)

definition od_frame :: "('x, 'y, 'z) od_replica \<Rightarrow> ('x, 'y, 'z) od_replica \<Rightarrow> bool" where
  "od_frame d d' \<longleftrightarrow> od_same d d'
     \<and> (\<forall>i. fmlookup (od_olog d') i = fmlookup (od_olog d) i \<or> (\<exists>oinst. fmlookup (od_olog d) i = Some oinst \<and> oi_Status oinst = OS_Committed
           \<and> fmlookup (od_olog d') i = Some (oinst\<lparr>oi_Status := OS_Executed\<rparr>)))"

lemma od_exec_frame: "od_exec pkt d = Inr d' \<Longrightarrow> od_frame d d'"
proof (induction d rule: od_exec_induct [where pkt = pkt])
  case (stop d)
  then show ?case by (simp add: od_exec_stop od_frame_def)
next
  case (round d oinst)
  from round.prems obtain d1 where d1: "go_fold (od_deliver pkt) (oi_Instances oinst) d = Inr d1" "od_exec pkt (od_finish oinst d1) = Inr d'"
    by (auto simp: od_exec_round [OF round.hyps(1-3)] go_simps)
  note f = round.IH [OF d1] and r = od_finish_round [OF round.hyps(1) d1(1)]
  have "od_same d1 (od_finish oinst d1)" by (simp add: od_same_def od_finish_def od_oput_def)
  with od_deliver_fold_same [OF d1(1)] f have "od_same d d'" unfolding od_frame_def by (blast intro: od_same_trans)
  moreover have "fmlookup (od_olog d') i = fmlookup (od_olog d) i \<or> (\<exists>oinst. fmlookup (od_olog d) i = Some oinst \<and> oi_Status oinst = OS_Committed
           \<and> fmlookup (od_olog d') i = Some (oinst\<lparr>oi_Status := OS_Executed\<rparr>))" for i
  proof (cases "i = od_oexecIdx d")
    case True
    with r(5) [of i] have "fmlookup (od_olog (od_finish oinst d1)) i = Some (oinst\<lparr>oi_Status := OS_Executed\<rparr>)" by simp
    with spec [OF conjunct2 [OF f [unfolded od_frame_def]], of i] have "fmlookup (od_olog d') i = Some (oinst\<lparr>oi_Status := OS_Executed\<rparr>)" by auto
    with True round.hyps show ?thesis by simp
  next
    case False
    with r(5) [of i] f show ?thesis unfolding od_frame_def by metis
  qed
  ultimately show ?case by (simp add: od_frame_def)
qed

end
