(* ===== verification/HybsterX.thy ===== *)
theory HybsterX
  imports Ordered_Exec TrInx Bucket_Worker Ballots
begin

unbundle bit_operations_syntax

text \<open>
  The replica of \<open>protocols/hybsterx\<close>: the two layers of theory \<open>Ordered\<close> with two phases each and quorums of \<open>f + 1\<close> out of \<open>2f + 1\<close>, and the trusted counters of theory \<open>TrInx\<close>:
  a replica certifies its message on the command \<open>i\<close> of replica \<open>r\<close> with the counter \<open>r\<close> of its enclave, and those on batches with a further counter. Signing is done by
  the bucket worker pool.
\<close>

subsection \<open>Messages (\<open>hybsterxpb\<close>)\<close>

datatype HxType = HX_None | HX_Prepare | HX_Commit | HX_Unknown nat

record HxNormal =
  hn_View :: u64
  hn_InstanceID :: InstanceID
  hn_Type :: HxType
  hn_Command :: "Command option"
  hn_CommandHash :: slice

record HxONormal =
  ho_View :: u64
  ho_Index :: u64
  ho_Type :: HxType
  ho_Instances :: "InstanceID list"
  ho_CommandHash :: slice

datatype HybsterxMessage = HybsterxMessage_Normal HxNormal | HybsterxMessage_ONormal HxONormal | HybsterxMessage_Unset

record hx_env = go_env +
  env_marshalHx :: "HybsterxMessage \<Rightarrow> bytes"
  env_unmarshalHx :: "bytes \<Rightarrow> HybsterxMessage option"
  env_hmac :: hmac

definition HxNormal_Equals :: "HxNormal \<Rightarrow> HxNormal \<Rightarrow> bool" where
  "HxNormal_Equals m other =
     (if hn_View m \<noteq> hn_View other then False
      else if \<not> InstanceID_Equals (hn_InstanceID m) (hn_InstanceID other) then False
      else bytes_Equal (hn_CommandHash m) (hn_CommandHash other))"

definition HxONormal_Equals :: "HxONormal \<Rightarrow> HxONormal \<Rightarrow> bool" where
  "HxONormal_Equals m other =
     (if ho_View m \<noteq> ho_View other then False
      else if ho_Index m \<noteq> ho_Index other then False
      else bytes_Equal (ho_CommandHash m) (ho_CommandHash other))"

subsection \<open>Vote tables (\<open>quorum.go\<close>)\<close>

definition hx_qlog :: "PeerID \<Rightarrow> HxNormal \<Rightarrow> HxNormal view_table \<Rightarrow> HxNormal view_table go" where
  "hx_qlog = vt_log hn_View FatalExit"

definition hx_qMajority :: "int \<Rightarrow> HxNormal \<Rightarrow> HxNormal view_table \<Rightarrow> bool" where
  "hx_qMajority f = vt_Majority hn_View HxNormal_Equals f"

definition hx_oqlog :: "PeerID \<Rightarrow> HxONormal \<Rightarrow> HxONormal view_table \<Rightarrow> HxONormal view_table go" where
  "hx_oqlog = vt_log ho_View FatalExit"

definition hx_oqMajority :: "int \<Rightarrow> HxONormal \<Rightarrow> HxONormal view_table \<Rightarrow> bool" where
  "hx_oqMajority f = vt_Majority ho_View HxONormal_Equals f"

interpretation hx_votes: vote_quorum hx_qlog vt_votes hx_qMajority hn_View "\<lambda>m. (hn_View m, hn_InstanceID m, sbytes (hn_CommandHash m))" "\<lambda>f. f"
  unfolding hx_qlog_def hx_qMajority_def by (rule vt_vote_quorum) (auto simp: HxNormal_Equals_def bytes_Equal_def)

interpretation hx_ovotes: vote_quorum hx_oqlog vt_votes hx_oqMajority ho_View "\<lambda>m. (ho_View m, ho_Index m, sbytes (ho_CommandHash m))" "\<lambda>f. f"
  unfolding hx_oqlog_def hx_oqMajority_def by (rule vt_vote_quorum) (auto simp: HxONormal_Equals_def bytes_Equal_def)

subsection \<open>The replica\<close>

record hx_instance = od_instance +
  hi_quorum :: "HxNormal view_table"

record hx_oinstance = od_oinstance +
  hoi_quorum :: "HxONormal view_table"

text \<open>A job of the pool: the message, the value of the counter and its number.\<close>

record hx_job =
  hj_bytes :: bytes
  hj_counter :: u64
  hj_ctrIdx :: u64

record hybsterx = "(hx_instance, hx_oinstance) ordered" +
  hx_certifier :: TrInx
  hx_signDispatcher :: "(hx_job, bytes) BucketDispatcher"
  hx_signWorkerCount :: nat

record hx_config = od_config +
  cfg_SecretKeys :: "bytes list"

definition fm_count :: "(string, nat) fmap \<Rightarrow> string \<Rightarrow> nat" where
  "fm_count m k = (case fmlookup m k of None \<Rightarrow> 0 | Some n \<Rightarrow> n)"

definition NewHybsterx :: "hx_config \<Rightarrow> hybsterx go" where
  "NewHybsterx c =
     (case cfg_SecretKeys c of
        [] \<Rightarrow> Inl IndexRange
      | key # _ \<Rightarrow> go_bind (trinx_init key (length (cfg_Peers c) + 1) (length (cfg_Peers c))) (\<lambda>x.
          let cap = fm_count (cfg_WorkersQueueSizes c) ''mac_sign''; count = fm_count (cfg_Workers c) ''mac_sign'' in
          Inr (ordered.extend (od_new (od_config.truncate c) 5)
            \<lparr>hx_certifier = x, hx_signDispatcher = NewBucketDispatcher cap count cap, hx_signWorkerCount = count\<rparr>)))"

definition hx_counter :: "u64 \<Rightarrow> u64 \<Rightarrow> u64" where
  "hx_counter view index = (push_bit 48 view OR index) + 1"

subsection \<open>Sending (\<open>messaging.go\<close>)\<close>

text \<open>\<open>int(i) % p.signWorkerCount\<close>, the bucket of a job.\<close>

definition hx_bucket :: "int \<Rightarrow> hybsterx \<Rightarrow> int go" where
  "hx_bucket i p = (if hx_signWorkerCount p = 0 then Inl DivZero else Inr (i smod int (hx_signWorkerCount p)))"

definition hx_Exec :: "hx_job \<Rightarrow> int \<Rightarrow> hybsterx \<Rightarrow> hybsterx go" where
  "hx_Exec j i p = go_bind (hx_bucket i p) (\<lambda>b. Inr (p\<lparr>hx_signDispatcher := BucketDispatcher_Exec j b (hx_signDispatcher p)\<rparr>))"

definition hx_broadcastNormal :: "hx_env \<Rightarrow> HxNormal \<Rightarrow> hybsterx \<Rightarrow> hybsterx go" where
  "hx_broadcastNormal E m p =
     hx_Exec \<lparr>hj_bytes = env_marshalHx E (HybsterxMessage_Normal m), hj_counter = hx_counter (hn_View m) (iid_Index (hn_InstanceID m)),
              hj_ctrIdx = iid_ReplicaID (hn_InstanceID m)\<rparr> (sint (iid_ReplicaID (hn_InstanceID m))) p"

definition hx_broadcastONormal :: "hx_env \<Rightarrow> HxONormal \<Rightarrow> hybsterx \<Rightarrow> hybsterx go" where
  "hx_broadcastONormal E m p =
     hx_Exec \<lparr>hj_bytes = env_marshalHx E (HybsterxMessage_ONormal m), hj_counter = hx_counter (ho_View m) (ho_Index m),
              hj_ctrIdx = of_nat (length (od_nodes p))\<rparr> (int (length (od_nodes p))) p"

text \<open>What a worker does with a job, and the callback of the replica.\<close>

definition hx_sign :: "hx_env \<Rightarrow> hx_job \<Rightarrow> hybsterx \<Rightarrow> (bytes \<times> TrInx) go" where
  "hx_sign E j p = CreateIndependentCounterCertificateVector (env_hmac E) (hj_bytes j) (hj_counter j) (hj_ctrIdx j) (hx_certifier p)"

definition hx_AsyncCallback :: "hybsterx \<Rightarrow> hybsterx go" where
  "hx_AsyncCallback p =
     go_fold (\<lambda>((_, job), cert). od_broadcastCallback (hj_bytes job) False cert) (b_callbackC (hx_signDispatcher p))
       (p\<lparr>hx_signDispatcher := (hx_signDispatcher p)\<lparr>b_callbackC := []\<rparr>\<rparr>)"

subsection \<open>Commands (\<open>cinstance.go\<close>, \<open>request.go\<close>)\<close>

text \<open>\<open>exec.go\<close>, which is the code of DQPBFT.\<close>

definition hx_exec :: "hybsterx \<Rightarrow> hybsterx go" where
  "hx_exec = od_exec mkExecPacket"

declare hx_exec_def [simp]

definition hx_makeInstance :: "HxNormal \<Rightarrow> hx_instance" where
  "hx_makeInstance m =
     \<lparr>ci_View = hn_View m, ci_InstanceID = hn_InstanceID m, ci_Status = OS_None, ci_Command = hn_Command m, ci_CommandHash = hn_CommandHash m, hi_quorum = vt_new\<rparr>"

definition hx_updateCommand :: "hx_instance \<Rightarrow> HxNormal \<Rightarrow> hx_instance go" where
  "hx_updateCommand inst m =
     (if ci_Command inst \<noteq> None
      then go_bind (Command_Equal (ci_Command inst) (hn_Command m)) (\<lambda>b. if \<not> b then Inl PanicCall else Inr inst)
      else Inr (inst\<lparr>ci_Command := hn_Command m\<rparr>))"

definition hx_updateCommandHash :: "hx_instance \<Rightarrow> HxNormal \<Rightarrow> hx_instance go" where
  "hx_updateCommandHash inst m =
     (if ci_CommandHash inst \<noteq> None
      then (if \<not> bytes_Equal (ci_CommandHash inst) (hn_CommandHash m) then Inl PanicCall else Inr inst)
      else Inr (inst\<lparr>ci_CommandHash := hn_CommandHash m\<rparr>))"

text \<open>\<open>sendCRequest\<close> and \<open>onCRequest\<close> of \<open>oinstance.go\<close>, which the handlers of commands call.\<close>

definition hx_sendCRequest :: "hx_env \<Rightarrow> hybsterx \<Rightarrow> hybsterx go" where
  "hx_sendCRequest E p =
     go_bind (od_isPrimaryAtView (od_id p) (od_oview p) p) (\<lambda>b.
     if \<not> b then Inr p
     else let ids = od_cReqBuffer p; p1 = p\<lparr>od_cReqBuffer := []\<rparr> in
       if length ids \<le> 0 then Inr p1
       else let cmdHash = batch_hash E ids;
                index = od_oindex p1;
                pm = \<lparr>ho_View = od_view p1, ho_Index = index, ho_Type = HX_Prepare, ho_Instances = ids, ho_CommandHash = Some cmdHash\<rparr>
            in go_bind (hx_oqlog (od_id p1) pm vt_new) (\<lambda>q.
               let inst = \<lparr>oi_View = od_view p1, oi_Index = index, oi_Status = OS_Prepared, oi_Instances = ids, oi_CommandHash = Some cmdHash, hoi_quorum = q\<rparr>
               in hx_broadcastONormal E pm (od_oput index inst (p1\<lparr>od_oindex := index + 1\<rparr>))))"

definition hx_onCRequest :: "hx_env \<Rightarrow> InstanceID \<Rightarrow> hybsterx \<Rightarrow> hybsterx go" where
  "hx_onCRequest E = od_onCRequest (hx_sendCRequest E)"

text \<open>If this replica is the ordering leader it collects the command.\<close>

definition hx_collect :: "hx_env \<Rightarrow> InstanceID \<Rightarrow> hybsterx \<Rightarrow> hybsterx go" where
  "hx_collect E i p = go_bind (od_isPrimaryAtView (od_id p) (od_oview p) p) (\<lambda>b. if b then hx_onCRequest E i p else Inr p)"

text \<open>With enough votes for \<open>m\<close> the prepared command is committed.\<close>

definition hx_commit :: "HxNormal \<Rightarrow> hx_instance \<Rightarrow> hybsterx \<Rightarrow> hybsterx go" where
  "hx_commit m inst p =
     (if hx_qMajority (od_f p) m (hi_quorum inst) \<and> ci_Status inst = OS_Prepared
      then hx_exec (od_put (hn_InstanceID m) (inst\<lparr>ci_Status := OS_Committed\<rparr>) p)
      else Inr (od_put (hn_InstanceID m) inst p))"

definition hx_onPrepare :: "hx_env \<Rightarrow> HxNormal \<Rightarrow> PeerID \<Rightarrow> hybsterx \<Rightarrow> hybsterx go" where
  "hx_onPrepare E m0 from p0 =
     go_bind (hx_collect E (hn_InstanceID m0) p0) (\<lambda>p.
     go_bind (Hash_ptr E (hn_Command m0)) (\<lambda>hash.
     let m = m0\<lparr>hn_CommandHash := hash\<rparr> in
     go_bind (case fmlookup (od_log p) (hn_InstanceID m) of
         None \<Rightarrow> Inr (hx_makeInstance m)
       | Some inst \<Rightarrow> go_bind (hx_updateCommand inst m) (\<lambda>inst'. hx_updateCommandHash inst' m)) (\<lambda>inst.
     go_bind (hx_qlog from (m\<lparr>hn_Command := None\<rparr>) (hi_quorum inst)) (\<lambda>q1.
     let inst1 = inst\<lparr>ci_Status := OS_Prepared\<rparr>;
         cm = \<lparr>hn_View = ci_View inst1, hn_InstanceID = ci_InstanceID inst1, hn_Type = HX_Commit, hn_Command = None, hn_CommandHash = ci_CommandHash inst1\<rparr> in
     go_bind (hx_broadcastNormal E cm p) (\<lambda>p1.
     go_bind (hx_qlog (od_id p1) cm q1) (\<lambda>q2.
     hx_commit cm (inst1\<lparr>hi_quorum := q2\<rparr>) p1))))))"

definition hx_onCommit :: "HxNormal \<Rightarrow> PeerID \<Rightarrow> hybsterx \<Rightarrow> hybsterx go" where
  "hx_onCommit m from p =
     go_bind (case fmlookup (od_log p) (hn_InstanceID m) of None \<Rightarrow> Inr (hx_makeInstance m) | Some inst \<Rightarrow> hx_updateCommandHash inst m) (\<lambda>inst.
     go_bind (hx_qlog from m (hi_quorum inst)) (\<lambda>q.
     hx_commit m (inst\<lparr>hi_quorum := q\<rparr>) p))"

definition hx_onRequest :: "hx_env \<Rightarrow> Command \<Rightarrow> hybsterx \<Rightarrow> hybsterx go" where
  "hx_onRequest E cmd p =
     (let cmdHash = Command_Hash E cmd;
          index = od_index p;
          instID = \<lparr>iid_ReplicaID = od_id p, iid_Index = index\<rparr>;
          pr = \<lparr>hn_View = od_view p, hn_InstanceID = instID, hn_Type = HX_Prepare, hn_Command = Some cmd, hn_CommandHash = cmdHash\<rparr>
      in go_bind (hx_qlog (od_id p) pr vt_new) (\<lambda>q.
         let inst = \<lparr>ci_View = od_view p, ci_InstanceID = instID, ci_Status = OS_Prepared, ci_Command = Some cmd, ci_CommandHash = cmdHash, hi_quorum = q\<rparr>
         in go_bind (hx_broadcastNormal E pr (od_put instID inst (p\<lparr>od_index := index + 1\<rparr>))) (hx_collect E instID)))"

subsection \<open>Batches (\<open>oinstance.go\<close>)\<close>

definition hx_makeOInstance :: "HxONormal \<Rightarrow> hx_oinstance" where
  "hx_makeOInstance m =
     \<lparr>oi_View = ho_View m, oi_Index = ho_Index m, oi_Status = OS_None, oi_Instances = ho_Instances m, oi_CommandHash = ho_CommandHash m, hoi_quorum = vt_new\<rparr>"

definition hx_updateOCommand :: "hx_oinstance \<Rightarrow> HxONormal \<Rightarrow> hx_oinstance go" where
  "hx_updateOCommand inst m =
     (if oi_Instances inst \<noteq> []
      then (if \<not> InstancesEquals (oi_Instances inst) (ho_Instances m) then Inl PanicCall else Inr inst)
      else Inr (inst\<lparr>oi_Instances := ho_Instances m\<rparr>))"

definition hx_updateOCommandHash :: "hx_oinstance \<Rightarrow> HxONormal \<Rightarrow> hx_oinstance go" where
  "hx_updateOCommandHash inst m =
     (if oi_CommandHash inst \<noteq> None
      then (if \<not> bytes_Equal (oi_CommandHash inst) (ho_CommandHash m) then Inl PanicCall else Inr inst)
      else Inr (inst\<lparr>oi_CommandHash := ho_CommandHash m\<rparr>))"

definition hx_ocommit :: "HxONormal \<Rightarrow> hx_oinstance \<Rightarrow> hybsterx \<Rightarrow> hybsterx go" where
  "hx_ocommit m inst p =
     (if hx_oqMajority (od_f p) m (hoi_quorum inst) \<and> oi_Status inst = OS_Prepared
      then hx_exec (od_oput (ho_Index m) (inst\<lparr>oi_Status := OS_Committed\<rparr>) p)
      else Inr (od_oput (ho_Index m) inst p))"

text \<open>The sender is not compared with the ordering leader.\<close>

definition hx_onOPrepare :: "hx_env \<Rightarrow> HxONormal \<Rightarrow> PeerID \<Rightarrow> hybsterx \<Rightarrow> hybsterx go" where
  "hx_onOPrepare E m0 from p =
     (let m = m0\<lparr>ho_CommandHash := Some (batch_hash E (ho_Instances m0))\<rparr> in
      go_bind (case fmlookup (od_olog p) (ho_Index m) of
          None \<Rightarrow> Inr (hx_makeOInstance m)
        | Some inst \<Rightarrow> go_bind (hx_updateOCommand inst m) (\<lambda>inst'. hx_updateOCommandHash inst' m)) (\<lambda>inst.
      go_bind (hx_oqlog from m (hoi_quorum inst)) (\<lambda>q1.
      let inst1 = inst\<lparr>oi_Status := OS_Prepared\<rparr>;
          cm = \<lparr>ho_View = ho_View m, ho_Index = ho_Index m, ho_Type = HX_Commit, ho_Instances = [], ho_CommandHash = ho_CommandHash m\<rparr> in
      go_bind (hx_broadcastONormal E cm p) (\<lambda>p1.
      go_bind (hx_oqlog (od_id p1) cm q1) (\<lambda>q2.
      hx_ocommit cm (inst1\<lparr>hoi_quorum := q2\<rparr>) p1)))))"

definition hx_onOCommit :: "HxONormal \<Rightarrow> PeerID \<Rightarrow> hybsterx \<Rightarrow> hybsterx go" where
  "hx_onOCommit m from p =
     go_bind (case fmlookup (od_olog p) (ho_Index m) of None \<Rightarrow> Inr (hx_makeOInstance m) | Some inst \<Rightarrow> hx_updateOCommandHash inst m) (\<lambda>inst.
     go_bind (hx_oqlog from m (hoi_quorum inst)) (\<lambda>q.
     hx_ocommit m (inst\<lparr>hoi_quorum := q\<rparr>) p))"

subsection \<open>Entry points (\<open>hybsterx.go\<close>)\<close>

definition hx_stepNormal :: "hx_env \<Rightarrow> HxNormal \<Rightarrow> bytes \<Rightarrow> bytes \<Rightarrow> PeerID \<Rightarrow> hybsterx \<Rightarrow> hybsterx go" where
  "hx_stepNormal E m content cert from p =
     go_bind (VerifyIndependentCounterCertificate (env_hmac E) content cert (hx_counter (hn_View m) (iid_Index (hn_InstanceID m)))
       (iid_ReplicaID (hn_InstanceID m)) (hx_certifier p)) (\<lambda>valid.
     if \<not> valid then Inr p
     else case hn_Type m of
         HX_Prepare \<Rightarrow> hx_onPrepare E m from p
       | HX_Commit \<Rightarrow> hx_onCommit m from p
       | _ \<Rightarrow> Inl PanicCall)"

definition hx_stepONormal :: "hx_env \<Rightarrow> HxONormal \<Rightarrow> bytes \<Rightarrow> bytes \<Rightarrow> PeerID \<Rightarrow> hybsterx \<Rightarrow> hybsterx go" where
  "hx_stepONormal E m content cert from p =
     go_bind (VerifyIndependentCounterCertificate (env_hmac E) content cert (hx_counter (ho_View m) (ho_Index m))
       (of_nat (length (od_nodes p))) (hx_certifier p)) (\<lambda>valid.
     if \<not> valid then Inr p
     else case ho_Type m of
         HX_Prepare \<Rightarrow> hx_onOPrepare E m from p
       | HX_Commit \<Rightarrow> hx_onOCommit m from p
       | _ \<Rightarrow> Inl PanicCall)"

definition hx_Step :: "hx_env \<Rightarrow> Message \<Rightarrow> hybsterx \<Rightarrow> hybsterx go" where
  "hx_Step E mm p =
     (case env_unmarshalHx E (msg_Content mm) of
        None \<Rightarrow> Inl PanicCall
      | Some (HybsterxMessage_Normal m) \<Rightarrow> hx_stepNormal E m (msg_Content mm) (msg_Certificate mm) (msg_From mm) p
      | Some (HybsterxMessage_ONormal m) \<Rightarrow> hx_stepONormal E m (msg_Content mm) (msg_Certificate mm) (msg_From mm) p
      | Some HybsterxMessage_Unset \<Rightarrow> Inl PanicCall)"

definition hx_Callback :: "ExecCallback \<Rightarrow> hybsterx \<Rightarrow> hybsterx go" where
  "hx_Callback cb p = Inr p"

definition hx_Request :: "hx_env \<Rightarrow> Command \<Rightarrow> hybsterx \<Rightarrow> hybsterx go" where
  "hx_Request E cmd p = hx_onRequest E cmd p"

definition hx_Tick :: "hx_env \<Rightarrow> hybsterx \<Rightarrow> hybsterx go" where
  "hx_Tick E = od_Tick (hx_sendCRequest E)"

definition hx_hasStatus :: "InstanceID \<Rightarrow> od_status \<Rightarrow> hybsterx \<Rightarrow> bool" where
  "hx_hasStatus i st p = (case fmlookup (od_log p) i of None \<Rightarrow> False | Some inst \<Rightarrow> ci_Status inst = st)"

definition hx_Protocol :: "hx_env \<Rightarrow> hybsterx Protocol" where
  "hx_Protocol E =
     \<lparr>pr_Step = hx_Step E, pr_Tick = hx_Tick E, pr_Request = hx_Request E, pr_Callback = hx_Callback,
      pr_MakeReady = (\<lambda>s. Inr (od_MakeReady s, s)), pr_ClearMsgs = od_ClearMsgs,
      pr_ClearExecutedCommands = od_ClearExecutedCommands, pr_AsyncCallback = hx_AsyncCallback\<rparr>"

end
