(* ===== verification/Ordered_Peer.thy ===== *)
theory Ordered_Peer
  imports DQPBFT HybsterX
begin

text \<open>
  DQPBFT and HybsterX under the peer: their handlers only add to the two output queues, so that both replicas interpret \<open>protocol_output\<close>.
\<close>

definition od_grows :: "('i, 'o, 'z) ordered_scheme \<Rightarrow> ('i, 'o, 'z) ordered_scheme \<Rightarrow> bool" where
  "od_grows d d' \<longleftrightarrow> prefix (od_msgs d) (od_msgs d') \<and> prefix (od_executedCmds d) (od_executedCmds d')"

lemma od_grows_refl [simp]: "od_grows d d"
  by (simp add: od_grows_def)

lemma od_grows_trans: "od_grows d d1 \<Longrightarrow> od_grows d1 d2 \<Longrightarrow> od_grows d d2"
  by (auto simp: od_grows_def intro: prefix_order.trans)

lemma od_grows_frame [simp]:
  "od_grows d (od_put i inst d') = od_grows d d'" "od_grows d (od_oput k oinst d') = od_grows d d'"
  "od_grows d (d'\<lparr>od_cReqBuffer := b\<rparr>) = od_grows d d'" "od_grows d (d'\<lparr>od_index := j\<rparr>) = od_grows d d'"
  "od_grows d (d'\<lparr>od_oindex := j\<rparr>) = od_grows d d'" "od_grows d (d'\<lparr>od_timer := t\<rparr>) = od_grows d d'"
  by (simp_all add: od_grows_def od_put_def od_oput_def)

lemma od_grows_frame_left [simp]: "od_grows (od_put i inst d) d' = od_grows d d'" "od_grows (d\<lparr>od_index := j\<rparr>) d' = od_grows d d'"
  by (simp_all add: od_grows_def od_put_def)

lemma od_grows_frame2 [simp]:
  fixes q :: DQPBFT and p :: hybsterx
  shows "od_grows q0 (q\<lparr>dq_signDispatcher := g\<rparr>) = od_grows q0 q" "od_grows p0 (p\<lparr>hx_signDispatcher := g'\<rparr>) = od_grows p0 p"
  by (simp_all add: od_grows_def)

lemma od_grows_fold:
  assumes "go_fold h xs d = Inr d'" "\<And>x d1 d2. h x d1 = Inr d2 \<Longrightarrow> od_grows d1 d2"
  shows "od_grows d d'"
  using assms(1) by (rule go_fold_invariant) (auto intro: od_grows_trans assms(2))

lemma od_grows_deliver: "od_deliver pkt i d = Inr d' \<Longrightarrow> od_grows d d'"
  by (auto simp: od_deliver_def od_grows_def split: option.splits)

lemma od_grows_exec: "od_exec pkt d = Inr d' \<Longrightarrow> od_grows d d'"
proof (induction pkt d arbitrary: d' rule: od_exec.induct)
  case (1 pkt d)
  show ?case
  proof (cases "od_ready d")
    case True
    then obtain oinst where o: "fmlookup (od_olog d) (od_oexecIdx d) = Some oinst" "oi_Status oinst = OS_Committed" "\<forall>i \<in> set (oi_Instances oinst). od_available d i"
      by (auto simp: od_ready_def)
    from 1(2) od_exec_round [OF o] obtain d1 where d1: "go_fold (od_deliver pkt) (oi_Instances oinst) d = Inr d1" "od_exec pkt (od_finish oinst d1) = Inr d'"
      by (auto simp: go_simps)
    have "od_grows d d1" by (rule od_grows_fold [OF d1(1)]) (rule od_grows_deliver)
    moreover have "od_grows (od_finish oinst d1) d'" using o by (intro 1(1) [OF _ _ _ d1]) (auto simp: list_all_iff)
    then have "od_grows d1 d'" by (simp add: od_grows_def od_finish_def od_oput_def)
    ultimately show ?thesis by (rule od_grows_trans)
  next
    case False
    with 1(2) show ?thesis by (simp add: od_exec_stop)
  qed
qed

lemma od_grows_exec_frame:
  "od_exec pkt (od_put i inst d) = Inr d' \<Longrightarrow> od_grows d d'" "od_exec pkt (od_oput k oinst d) = Inr d' \<Longrightarrow> od_grows d d'"
  by (auto dest!: od_grows_exec simp: od_grows_def od_put_def od_oput_def)

lemma od_grows_broadcastCallback: "od_broadcastCallback b s cert d = Inr d' \<Longrightarrow> od_grows d d'"
  unfolding od_broadcastCallback_def
  by (erule od_grows_fold) (auto simp: od_grows_def od_enqueueForSending_def go_simps split: if_splits)

lemma od_grows_Tick: "od_Tick send d = Inr d' \<Longrightarrow> (\<And>d1 d2. send d1 = Inr d2 \<Longrightarrow> od_grows d1 d2) \<Longrightarrow> od_grows d d'"
  by (auto simp: od_Tick_def go_simps split: prod.splits if_splits dest!: od_grows_fold) (auto simp: od_grows_def)

lemma od_grows_onCRequest: "od_onCRequest send i d = Inr d' \<Longrightarrow> (\<And>d1 d2. send d1 = Inr d2 \<Longrightarrow> od_grows d1 d2) \<Longrightarrow> od_grows d d'"
  by (fastforce simp: od_onCRequest_def Let_def go_simps od_grows_def split: if_splits)

subsection \<open>DQPBFT\<close>

lemma dq_grows_broadcast [simp]: "od_grows d (dq_broadcast E m b d') = od_grows d d'"
  by (simp add: dq_broadcast_def)

lemma dq_grows_sendCRequest: "dq_sendCRequest E d = Inr d' \<Longrightarrow> od_grows d d'"
  by (auto simp: dq_sendCRequest_def Let_def go_simps split: if_splits)

lemma dq_grows_onCRequest: "dq_onCRequest E i d = Inr d' \<Longrightarrow> od_grows d d'"
  unfolding dq_onCRequest_def by (erule od_grows_onCRequest) (rule dq_grows_sendCRequest)

lemma dq_grows_prepared: "dq_prepared E i m inst d = Inr d' \<Longrightarrow> od_grows d d'" "dq_oprepared E k om oinst d = Inr d' \<Longrightarrow> od_grows d d'"
  by (auto simp: dq_prepared_def dq_oprepared_def Let_def go_simps split: if_splits dest!: od_grows_exec_frame)
    (simp_all add: od_grows_def dq_broadcast_def)

lemma dq_grows_prepared_sent:
  "dq_prepared E i m inst (dq_broadcast E' w b d) = Inr d' \<Longrightarrow> od_grows d d'" "dq_oprepared E k om oinst (dq_broadcast E' w b d) = Inr d' \<Longrightarrow> od_grows d d'"
  by (auto dest!: dq_grows_prepared simp: od_grows_def dq_broadcast_def)

lemma dq_grows_handlers:
  "dq_onPrepare E m from d = Inr d' \<Longrightarrow> od_grows d d'" "dq_onCommit m from d = Inr d' \<Longrightarrow> od_grows d d'"
  "dq_onOPrePrepare E om from d = Inr d' \<Longrightarrow> od_grows d d'" "dq_onOPrepare E om from d = Inr d' \<Longrightarrow> od_grows d d'" "dq_onOCommit om from d = Inr d' \<Longrightarrow> od_grows d d'"
  by (auto simp: dq_onPrepare_def dq_onCommit_def dq_onOPrePrepare_def dq_onOPrepare_def dq_onOCommit_def Let_def go_simps
      dest: dq_grows_prepared dq_grows_prepared_sent od_grows_exec_frame split: if_splits)

lemma dq_grows_onPrePrepare: "dq_onPrePrepare E m from d = Inr d' \<Longrightarrow> od_grows d d'"
  by (auto simp: dq_onPrePrepare_def Let_def go_simps dest!: dq_grows_prepared_sent split: if_splits intro: od_grows_trans dq_grows_onCRequest)

lemma dq_grows_onRequest: "dq_onRequest E c d = Inr d' \<Longrightarrow> od_grows d d'"
  by (auto simp: dq_onRequest_def Let_def go_simps split: if_splits dest!: dq_grows_onCRequest) (simp add: od_grows_def dq_broadcast_def od_put_def)

interpretation dq_out: protocol_output "dq_Protocol E" od_msgs od_executedCmds for E
proof
  fix s s' :: DQPBFT
  show "pr_Step (dq_Protocol E) m s = Inr s' \<Longrightarrow> prefix (od_msgs s) (od_msgs s') \<and> prefix (od_executedCmds s) (od_executedCmds s')" for m
    unfolding od_grows_def [symmetric]
    by (auto simp: dq_Protocol_def dq_Step_def dq_stepNormal_def dq_stepONormal_def intro: dq_grows_handlers dq_grows_onPrePrepare
        split: option.splits if_splits DQPBFTMessage.splits AgreementMessage_Type.splits)
  show "pr_Tick (dq_Protocol E) s = Inr s' \<Longrightarrow> prefix (od_msgs s) (od_msgs s') \<and> prefix (od_executedCmds s) (od_executedCmds s')"
    unfolding od_grows_def [symmetric] by (auto simp: dq_Protocol_def dq_Tick_def intro: od_grows_Tick dq_grows_sendCRequest)
  show "pr_Request (dq_Protocol E) c s = Inr s' \<Longrightarrow> prefix (od_msgs s) (od_msgs s') \<and> prefix (od_executedCmds s) (od_executedCmds s')" for c
    unfolding od_grows_def [symmetric] by (auto simp: dq_Protocol_def dq_Request_def intro: dq_grows_onRequest)
  show "pr_AsyncCallback (dq_Protocol E) s = Inr s' \<Longrightarrow> prefix (od_msgs s) (od_msgs s') \<and> prefix (od_executedCmds s) (od_executedCmds s')"
    unfolding od_grows_def [symmetric] by (auto simp: dq_Protocol_def dq_AsyncCallback_def split: prod.splits dest!: od_grows_fold od_grows_broadcastCallback)
      (simp add: od_grows_def)
qed (auto simp: dq_Protocol_def dq_Callback_def od_MakeReady_def od_ClearMsgs_def od_ClearExecutedCommands_def)

subsection \<open>HybsterX\<close>

lemma hx_grows_Exec: "hx_Exec j i p = Inr p' \<Longrightarrow> od_msgs p' = od_msgs p \<and> od_executedCmds p' = od_executedCmds p"
  by (auto simp: hx_Exec_def go_simps)

lemma hx_grows_broadcast: "hx_broadcastNormal E m p = Inr p' \<Longrightarrow> od_grows p p'" "hx_broadcastONormal E om p = Inr p' \<Longrightarrow> od_grows p p'"
  by (auto simp: hx_broadcastNormal_def hx_broadcastONormal_def od_grows_def dest!: hx_grows_Exec)

lemma hx_grows_broadcast_frame:
  "hx_broadcastNormal E m (od_put i inst (p\<lparr>od_index := k\<rparr>)) = Inr p' \<Longrightarrow> od_grows p p'"
  "hx_broadcastONormal E om (od_oput j oinst (p\<lparr>od_cReqBuffer := b, od_oindex := k\<rparr>)) = Inr p' \<Longrightarrow> od_grows p p'"
  by (auto dest!: hx_grows_broadcast simp: od_grows_def od_put_def od_oput_def)

lemma hx_grows_sendCRequest: "hx_sendCRequest E p = Inr p' \<Longrightarrow> od_grows p p'"
  by (auto simp: hx_sendCRequest_def Let_def go_simps dest: hx_grows_broadcast_frame split: if_splits)

lemma hx_grows_collect: "hx_collect E i p = Inr p' \<Longrightarrow> od_grows p p'"
  by (auto simp: hx_collect_def hx_onCRequest_def go_simps split: if_splits intro: od_grows_onCRequest hx_grows_sendCRequest)

lemma hx_grows_commit: "hx_commit m inst p = Inr p' \<Longrightarrow> od_grows p p'" "hx_ocommit om oinst p = Inr p' \<Longrightarrow> od_grows p p'"
  by (auto simp: hx_commit_def hx_ocommit_def dest: od_grows_exec_frame split: if_splits)

lemma hx_grows_handlers:
  "hx_onCommit m from p = Inr p' \<Longrightarrow> od_grows p p'" "hx_onOCommit om from p = Inr p' \<Longrightarrow> od_grows p p'" "hx_onOPrepare E om from p = Inr p' \<Longrightarrow> od_grows p p'"
  "hx_onPrepare E m from p = Inr p' \<Longrightarrow> od_grows p p'" "hx_onRequest E c p = Inr p' \<Longrightarrow> od_grows p p'"
  by (auto simp: hx_onCommit_def hx_onOCommit_def hx_onOPrepare_def hx_onPrepare_def hx_onRequest_def Let_def go_simps
      dest: hx_grows_commit hx_grows_broadcast_frame hx_grows_collect hx_grows_broadcast intro: od_grows_trans
      dest!: hx_grows_collect hx_grows_broadcast hx_grows_commit)

interpretation hx_out: protocol_output "hx_Protocol E" od_msgs od_executedCmds for E
proof
  fix s s' :: hybsterx
  show "pr_Step (hx_Protocol E) m s = Inr s' \<Longrightarrow> prefix (od_msgs s) (od_msgs s') \<and> prefix (od_executedCmds s) (od_executedCmds s')" for m
    unfolding od_grows_def [symmetric]
    by (auto simp: hx_Protocol_def hx_Step_def hx_stepNormal_def hx_stepONormal_def go_simps intro: hx_grows_handlers
        split: option.splits if_splits HybsterxMessage.splits HxType.splits)
  show "pr_Tick (hx_Protocol E) s = Inr s' \<Longrightarrow> prefix (od_msgs s) (od_msgs s') \<and> prefix (od_executedCmds s) (od_executedCmds s')"
    unfolding od_grows_def [symmetric] by (auto simp: hx_Protocol_def hx_Tick_def intro: od_grows_Tick hx_grows_sendCRequest)
  show "pr_Request (hx_Protocol E) c s = Inr s' \<Longrightarrow> prefix (od_msgs s) (od_msgs s') \<and> prefix (od_executedCmds s) (od_executedCmds s')" for c
    unfolding od_grows_def [symmetric] by (auto simp: hx_Protocol_def hx_Request_def intro: hx_grows_handlers)
  show "pr_AsyncCallback (hx_Protocol E) s = Inr s' \<Longrightarrow> prefix (od_msgs s) (od_msgs s') \<and> prefix (od_executedCmds s) (od_executedCmds s')"
    unfolding od_grows_def [symmetric] by (auto simp: hx_Protocol_def hx_AsyncCallback_def split: prod.splits dest!: od_grows_fold od_grows_broadcastCallback)
      (simp add: od_grows_def)
qed (auto simp: hx_Protocol_def hx_Callback_def od_MakeReady_def od_ClearMsgs_def od_ClearExecutedCommands_def)

end
