(* ===== verification/DQPBFT_Local.thy ===== *)
theory DQPBFT_Local
  imports DQPBFT Ordered_Exec Ballots
begin

text \<open>
  What one DQPBFT replica guarantees for its table of batches, whatever it receives: the laws of \<open>ballot_replica\<close>. A vote is on the hash of a batch (\<open>VHash\<close>, the subject
  is the index of the batch); the leader's message also fixes the batch itself (\<open>VBatch\<close>).
\<close>

subsection \<open>Votes\<close>

datatype dq_vote = VHash bytes | VBatch "InstanceID list"

definition inst_ballots :: "PeerID \<Rightarrow> dq_oinstance \<Rightarrow> (PeerID \<times> bool \<times> dq_vote) set" where
  "inst_ballots leader inst =
     {(i, False, VHash (sbytes (do_CommandHash m))) | i v m. fmlookup (vt_votes (oi_pCert inst) v) i = Some m}
     \<union> (if oi_Status inst = OS_None then {} else {(leader, True, VBatch (oi_Instances inst))})"

definition dq_ballots :: "PeerID \<Rightarrow> DQPBFT \<Rightarrow> (PeerID \<times> (u64 \<times> bool) \<times> dq_vote) set" where
  "dq_ballots leader d = {(i, (k, b), h). \<exists>inst. fmlookup (od_olog d) k = Some inst \<and> (i, b, h) \<in> inst_ballots leader inst}"

text \<open>The votes that a message carries: the leader's for the batch and its hash, another replica's for a hash.\<close>

definition dq_speaks :: "dq_env \<Rightarrow> PeerID \<Rightarrow> PeerID \<Rightarrow> DQOAgreement \<Rightarrow> ((u64 \<times> bool) \<times> dq_vote) set" where
  "dq_speaks E leader from m =
     (case do_Type m of
        AMT_PrePrepare \<Rightarrow> if from = leader then {((do_Index m, False), VHash (batch_hash E (do_Instances m))), ((do_Index m, True), VBatch (do_Instances m))} else {}
      | AMT_Prepare \<Rightarrow> {((do_Index m, False), VHash (sbytes (do_CommandHash m)))}
      | _ \<Rightarrow> {})"

definition dq_saysB :: "dq_env \<Rightarrow> PeerID \<Rightarrow> PeerID \<Rightarrow> bytes \<Rightarrow> ((u64 \<times> bool) \<times> dq_vote) set" where
  "dq_saysB E leader from content = (case env_unmarshalDQ E content of Some (DQPBFTMessage_OAgreement m) \<Rightarrow> dq_speaks E leader from m | _ \<Rightarrow> {})"

definition dq_says :: "dq_env \<Rightarrow> PeerID \<Rightarrow> Message \<Rightarrow> ((u64 \<times> bool) \<times> dq_vote) set" where
  "dq_says E leader m = dq_saysB E leader (msg_From m) (msg_Content m)"

text \<open>
  What is needed of the code outside the repository: the decoder reads back what the encoder wrote (but may turn an empty hash into nil), and a digest is not empty.
\<close>

definition dq_env_ok :: "dq_env \<Rightarrow> bool" where
  "dq_env_ok E \<longleftrightarrow> (\<forall>x. env_sha256 E x \<noteq> [])
     \<and> (\<forall>m. \<exists>m'. env_unmarshalDQ E (env_marshalDQ E (DQPBFTMessage_OAgreement m)) = Some (DQPBFTMessage_OAgreement m') \<and> do_Type m' = do_Type m
          \<and> do_Index m' = do_Index m \<and> do_Instances m' = do_Instances m \<and> sbytes (do_CommandHash m') = sbytes (do_CommandHash m))
     \<and> (\<forall>m. \<exists>m'. env_unmarshalDQ E (env_marshalDQ E (DQPBFTMessage_Agreement m)) = Some (DQPBFTMessage_Agreement m'))"

lemma dq_saysB_order:
  assumes "dq_env_ok E"
  shows "dq_saysB E leader from (env_marshalDQ E (DQPBFTMessage_OAgreement m)) = dq_speaks E leader from m"
proof -
  from assms obtain m' where "env_unmarshalDQ E (env_marshalDQ E (DQPBFTMessage_OAgreement m)) = Some (DQPBFTMessage_OAgreement m')" "do_Type m' = do_Type m"
    "do_Index m' = do_Index m" "do_Instances m' = do_Instances m" "sbytes (do_CommandHash m') = sbytes (do_CommandHash m)" unfolding dq_env_ok_def by blast
  then show ?thesis by (simp add: dq_saysB_def dq_speaks_def split: AgreementMessage_Type.split)
qed

lemma dq_saysB_command:
  assumes "dq_env_ok E"
  shows "dq_saysB E leader from (env_marshalDQ E (DQPBFTMessage_Agreement m)) = {}"
proof -
  from assms obtain m' where "env_unmarshalDQ E (env_marshalDQ E (DQPBFTMessage_Agreement m)) = Some (DQPBFTMessage_Agreement m')" unfolding dq_env_ok_def by blast
  then show ?thesis by (simp add: dq_saysB_def)
qed

lemma batch_hash_nonempty: "dq_env_ok E \<Longrightarrow> batch_hash E ids \<noteq> []"
  by (simp add: dq_env_ok_def batch_hash_def)

subsection \<open>The invariant\<close>

definition hash_quorum :: "int \<Rightarrow> bytes \<Rightarrow> dq_oinstance \<Rightarrow> bool" where
  "hash_quorum f h inst \<longleftrightarrow> 2 * f < int (card {i. \<exists>v m. fmlookup (vt_votes (oi_pCert inst) v) i = Some m \<and> sbytes (do_CommandHash m) = h})"

definition dq_prepd :: "dq_oinstance \<Rightarrow> bool" where
  "dq_prepd inst \<longleftrightarrow> oi_Status inst \<in> {OS_Prepared, OS_Committed, OS_Executed}"

text \<open>
  Of one batch: the replica's own vote is in the view of the instance and not empty; a prepared batch has a quorum for a hash, which is the one in the instance; the leader has not
  voted beyond its counter.
\<close>

definition inst_ok :: "PeerID \<Rightarrow> int \<Rightarrow> PeerID \<Rightarrow> u64 \<Rightarrow> u64 \<Rightarrow> dq_oinstance \<Rightarrow> bool" where
  "inst_ok leader f self next k inst \<longleftrightarrow> oi_Index inst = k
     \<and> (\<forall>v m. fmlookup (vt_votes (oi_pCert inst) v) self = Some m \<longrightarrow> v = oi_View inst \<and> sbytes (do_CommandHash m) \<noteq> [])
     \<and> (dq_prepd inst \<longrightarrow> (\<exists>h. hash_quorum f h inst \<and> (h \<noteq> [] \<longrightarrow> oi_CommandHash inst = Some h)))
     \<and> (self = leader \<and> next \<le> k \<longrightarrow> oi_Status inst = OS_None \<and> (\<forall>v. fmlookup (vt_votes (oi_pCert inst) v) self = None))"

definition dq_jobs :: "DQPBFT \<Rightarrow> (bytes \<times> bool) set" where
  "dq_jobs d = set_mset (pool_jobs (dq_signDispatcher d))"

definition dq_pending_ok :: "dq_env \<Rightarrow> PeerID \<Rightarrow> DQPBFT \<Rightarrow> bool" where
  "dq_pending_ok E leader d \<longleftrightarrow> (\<forall>(c, b) \<in> dq_jobs d. \<not> b \<and> {od_id d} \<times> dq_saysB E leader (od_id d) c \<subseteq> dq_ballots leader d)
     \<and> (\<forall>m \<in> set (od_msgs d). msg_From m = od_id d \<and> msg_To m \<noteq> od_id d \<and> {od_id d} \<times> dq_says E leader m \<subseteq> dq_ballots leader d)"

definition dq_inv :: "dq_env \<Rightarrow> PeerID \<Rightarrow> int \<Rightarrow> DQPBFT \<Rightarrow> bool" where
  "dq_inv E leader f d \<longleftrightarrow> dq_env_ok E \<and> od_f d = f \<and> 0 \<le> f \<and> (\<forall>i. od_isPrimaryAtView i (od_oview d) d = Inr (i = leader))
     \<and> (\<forall>k inst. fmlookup (od_olog d) k = Some inst \<longrightarrow> inst_ok leader f (od_id d) (od_oindex d) k inst) \<and> dq_pending_ok E leader d"

text \<open>What all handlers leave as it is.\<close>

definition dq_conf :: "DQPBFT \<Rightarrow> DQPBFT \<Rightarrow> bool" where
  "dq_conf d d' \<longleftrightarrow> od_id d' = od_id d \<and> od_f d' = od_f d \<and> od_nodes d' = od_nodes d \<and> od_oview d' = od_oview d"

lemma dq_conf_refl [simp]: "dq_conf d d"
  by (simp add: dq_conf_def)

lemma dq_conf_primary: "dq_conf d d' \<Longrightarrow> od_isPrimaryAtView i (od_oview d') d' = od_isPrimaryAtView i (od_oview d) d"
  by (simp add: dq_conf_def od_isPrimaryAtView_def)

lemma dq_inv_job: "dq_inv E leader f d \<Longrightarrow> (c, b) \<in> dq_jobs d \<Longrightarrow> \<not> b \<and> {od_id d} \<times> dq_saysB E leader (od_id d) c \<subseteq> dq_ballots leader d"
  unfolding dq_inv_def dq_pending_ok_def by blast

lemma dq_inv_msg: "dq_inv E leader f d \<Longrightarrow> m \<in> set (od_msgs d) \<Longrightarrow> msg_From m = od_id d \<and> msg_To m \<noteq> od_id d \<and> {od_id d} \<times> dq_says E leader m \<subseteq> dq_ballots leader d"
  unfolding dq_inv_def dq_pending_ok_def by blast

lemma dq_pending_okI:
  assumes "\<And>c b. (c, b) \<in> dq_jobs d \<Longrightarrow> \<not> b \<and> {od_id d} \<times> dq_saysB E leader (od_id d) c \<subseteq> dq_ballots leader d"
    and "\<And>m. m \<in> set (od_msgs d) \<Longrightarrow> msg_From m = od_id d \<and> msg_To m \<noteq> od_id d \<and> {od_id d} \<times> dq_says E leader m \<subseteq> dq_ballots leader d"
  shows "dq_pending_ok E leader d"
  unfolding dq_pending_ok_def by (intro conjI ballI) (use assms in \<open>auto split: prod.splits\<close>)

lemma dq_invI:
  assumes "dq_inv E leader f d" "dq_conf d d'" "dq_pending_ok E leader d'"
    and "\<And>k inst. fmlookup (od_olog d') k = Some inst \<Longrightarrow> inst_ok leader f (od_id d) (od_oindex d') k inst"
  shows "dq_inv E leader f d'"
  using assms dq_conf_primary [OF assms(2)] unfolding dq_inv_def dq_conf_def by simp

lemma inst_ballots_status:
  "oi_Status inst \<noteq> OS_None \<Longrightarrow> st \<noteq> OS_None \<Longrightarrow> inst_ballots leader (inst\<lparr>oi_Status := st\<rparr>) = inst_ballots leader inst"
  by (simp add: inst_ballots_def)

text \<open>A step that records the votes \<open>V\<close> of others.\<close>

definition dq_good :: "dq_env \<Rightarrow> PeerID \<Rightarrow> int \<Rightarrow> (PeerID \<times> (u64 \<times> bool) \<times> dq_vote) set \<Rightarrow> DQPBFT \<Rightarrow> DQPBFT \<Rightarrow> bool" where
  "dq_good E leader f V d d' \<longleftrightarrow> dq_inv E leader f d' \<and> od_id d' = od_id d \<and> dq_ballots leader d' \<subseteq> dq_ballots leader d \<union> V \<union> {od_id d} \<times> UNIV
     \<and> dq_ballots leader d \<inter> {od_id d} \<times> UNIV \<subseteq> dq_ballots leader d'"

lemma dq_good_refl [simp]: "dq_inv E leader f d \<Longrightarrow> dq_good E leader f V d d"
  by (auto simp: dq_good_def)

lemma dq_good_trans: "dq_good E leader f V d d1 \<Longrightarrow> dq_good E leader f V d1 d2 \<Longrightarrow> dq_good E leader f V d d2"
  unfolding dq_good_def by auto

text \<open>The votes on batch \<open>k\<close>.\<close>

definition slot_ballots :: "PeerID \<Rightarrow> u64 \<Rightarrow> DQPBFT \<Rightarrow> (PeerID \<times> bool \<times> dq_vote) set" where
  "slot_ballots leader k d = (case fmlookup (od_olog d) k of None \<Rightarrow> {} | Some inst \<Rightarrow> inst_ballots leader inst)"

lemma dq_ballots_slot: "(i, (k, b), h) \<in> dq_ballots leader d \<longleftrightarrow> (i, b, h) \<in> slot_ballots leader k d"
  by (auto simp: dq_ballots_def slot_ballots_def split: option.splits)

definition jobs_ok :: "dq_env \<Rightarrow> PeerID \<Rightarrow> u64 \<Rightarrow> dq_oinstance \<Rightarrow> DQPBFT \<Rightarrow> DQPBFT \<Rightarrow> bool" where
  "jobs_ok E leader k inst d d' \<longleftrightarrow> (\<forall>c b. (c, b) \<in> dq_jobs d' \<longrightarrow> (c, b) \<notin> dq_jobs d \<longrightarrow> \<not> b
     \<and> (\<forall>k' b' h. ((k', b'), h) \<in> dq_saysB E leader (od_id d) c \<longrightarrow> k' = k \<and> (od_id d, b', h) \<in> inst_ballots leader inst))"

text \<open>A step that changes one batch.\<close>

lemma dq_put_good:
  assumes inv: "dq_inv E leader f d" and ok: "\<And>k' inst'. fmlookup (od_olog d') k' = Some inst' \<Longrightarrow> inst_ok leader f (od_id d) (od_oindex d') k' inst'"
    and new: "inst_ballots leader inst \<subseteq> slot_ballots leader k d \<union> {(i, b, h). (i, (k, b), h) \<in> V} \<union> {od_id d} \<times> UNIV"
    and own: "slot_ballots leader k d \<inter> {od_id d} \<times> UNIV \<subseteq> inst_ballots leader inst"
    and d': "od_olog d' = fmupd k inst (od_olog d)" "dq_conf d d'" "od_msgs d' = od_msgs d" and jobs: "jobs_ok E leader k inst d d'"
  shows "dq_good E leader f V d d'"
proof -
  have slot: "slot_ballots leader k' d' = (if k' = k then inst_ballots leader inst else slot_ballots leader k' d)" for k'
    by (simp add: slot_ballots_def d'(1))
  have id: "od_id d' = od_id d" using d'(2) by (simp add: dq_conf_def)
  have old: "(od_id d, (k', b), h) \<in> dq_ballots leader d'" if "(od_id d, (k', b), h) \<in> dq_ballots leader d" for k' b h
    using that own unfolding dq_ballots_slot slot by auto
  have sub: "{od_id d} \<times> X \<subseteq> dq_ballots leader d'" if "{od_id d} \<times> X \<subseteq> dq_ballots leader d" for X using that old by auto
  have J: "\<not> b \<and> {od_id d} \<times> dq_saysB E leader (od_id d) c \<subseteq> dq_ballots leader d'" if "(c, b) \<in> dq_jobs d'" for c b
  proof (cases "(c, b) \<in> dq_jobs d")
    case True
    from dq_inv_job [OF inv this] sub show ?thesis by blast
  next
    case False
    with that jobs have "\<not> b" "\<And>k' b' h. ((k', b'), h) \<in> dq_saysB E leader (od_id d) c \<Longrightarrow> k' = k \<and> (od_id d, b', h) \<in> inst_ballots leader inst"
      by (auto simp: jobs_ok_def)
    then show ?thesis by (auto simp: dq_ballots_slot slot)
  qed
  have M: "msg_From m = od_id d \<and> msg_To m \<noteq> od_id d \<and> {od_id d} \<times> dq_says E leader m \<subseteq> dq_ballots leader d'" if "m \<in> set (od_msgs d')" for m
    using dq_inv_msg [OF inv, of m] that sub [of "dq_says E leader m"] by (simp add: d'(3))
  have "dq_pending_ok E leader d'" by (rule dq_pending_okI, unfold id, erule J, erule M)
  moreover have "dq_ballots leader d' \<subseteq> dq_ballots leader d \<union> V \<union> {od_id d} \<times> UNIV"
    using new by (auto simp: dq_ballots_slot slot split: if_splits)
  moreover have "dq_ballots leader d \<inter> {od_id d} \<times> UNIV \<subseteq> dq_ballots leader d'" using old by auto
  ultimately show ?thesis using dq_invI [OF inv d'(2) _ ok] id by (simp add: dq_good_def)
qed

text \<open>A step that changes no batch.\<close>

lemma dq_good_frame:
  assumes "dq_inv E leader f d" "od_olog d' = od_olog d" "dq_conf d d'" "od_oindex d' = od_oindex d"
    and "\<And>m. m \<in> set (od_msgs d') \<Longrightarrow> m \<notin> set (od_msgs d) \<Longrightarrow> msg_From m = od_id d \<and> msg_To m \<noteq> od_id d \<and> {od_id d} \<times> dq_says E leader m \<subseteq> dq_ballots leader d"
    and "\<And>c b. (c, b) \<in> dq_jobs d' \<Longrightarrow> (c, b) \<notin> dq_jobs d \<Longrightarrow> \<not> b \<and> dq_saysB E leader (od_id d) c = {}"
  shows "dq_good E leader f V d d'"
proof -
  have b: "dq_ballots leader d' = dq_ballots leader d" by (simp add: dq_ballots_def assms(2))
  have id: "od_id d' = od_id d" using assms(3) by (simp add: dq_conf_def)
  have J: "\<not> b \<and> {od_id d} \<times> dq_saysB E leader (od_id d) c \<subseteq> dq_ballots leader d" if "(c, b) \<in> dq_jobs d'" for c b
    using that assms(1) assms(6) [of c b] by (cases "(c, b) \<in> dq_jobs d") (auto simp: dq_inv_def dq_pending_ok_def)
  have M: "msg_From m = od_id d \<and> msg_To m \<noteq> od_id d \<and> {od_id d} \<times> dq_says E leader m \<subseteq> dq_ballots leader d" if "m \<in> set (od_msgs d')" for m
    by (cases "m \<in> set (od_msgs d)", erule dq_inv_msg [OF assms(1)], rule assms(5) [OF that])
  have "dq_pending_ok E leader d'" by (rule dq_pending_okI, unfold id b, erule J, erule M)
  moreover have "inst_ok leader f (od_id d) (od_oindex d') k inst" if "fmlookup (od_olog d') k = Some inst" for k inst
    using that assms(1,2,4) by (simp add: dq_inv_def)
  ultimately show ?thesis using dq_invI [OF assms(1,3)] by (simp add: dq_good_def b id Un_assoc)
qed

lemma dq_more: "ordered.more d = \<lparr>dq_signDispatcher = dq_signDispatcher d\<rparr>"
  by (cases d) simp

lemma dq_exec_good:
  assumes inv: "dq_inv E leader f d" and res: "dq_exec d = Inr d'"
  shows "dq_good E leader f V d d'"
proof -
  have fr: "od_same d d'" and ol: "\<And>i. fmlookup (od_olog d') i = fmlookup (od_olog d) i \<or> (\<exists>oinst. fmlookup (od_olog d) i = Some oinst \<and> oi_Status oinst = OS_Committed
           \<and> fmlookup (od_olog d') i = Some (oinst\<lparr>oi_Status := OS_Executed\<rparr>))"
    using od_exec_frame [OF res] by (auto simp: od_frame_def)
  have conf: "dq_conf d d'" and oi: "od_oindex d' = od_oindex d" and ms: "od_msgs d' = od_msgs d" and id: "od_id d' = od_id d" and more: "ordered.more d' = ordered.more d"
    using fr by (auto simp: od_same_def dq_conf_def)
  have jobs: "dq_jobs d' = dq_jobs d" using dq_more [of d] dq_more [of d'] more by (simp add: dq_jobs_def)
  have "slot_ballots leader k d' = slot_ballots leader k d" for k
    using ol [of k] by (auto simp: slot_ballots_def inst_ballots_status)
  then have b: "dq_ballots leader d' = dq_ballots leader d" by (auto simp: dq_ballots_slot)
  have ok: "inst_ok leader f (od_id d) (od_oindex d') k inst" if "fmlookup (od_olog d') k = Some inst" for k inst
    using ol [of k]
  proof
    assume "\<exists>oinst. fmlookup (od_olog d) k = Some oinst \<and> oi_Status oinst = OS_Committed \<and> fmlookup (od_olog d') k = Some (oinst\<lparr>oi_Status := OS_Executed\<rparr>)"
    then obtain o' where o': "fmlookup (od_olog d) k = Some o'" "oi_Status o' = OS_Committed" "fmlookup (od_olog d') k = Some (o'\<lparr>oi_Status := OS_Executed\<rparr>)" by blast
    from o'(3) that have "inst = o'\<lparr>oi_Status := OS_Executed\<rparr>" by simp
    moreover from inv o'(1) have "inst_ok leader f (od_id d) (od_oindex d) k o'" by (simp add: dq_inv_def)
    ultimately show ?thesis using o'(2) oi by (auto simp: inst_ok_def dq_prepd_def hash_quorum_def)
  qed (use that inv oi in \<open>simp add: dq_inv_def\<close>)
  have "dq_pending_ok E leader d'" by (rule dq_pending_okI, unfold id b jobs ms, erule dq_inv_job [OF inv], erule dq_inv_msg [OF inv])
  from dq_invI [OF inv conf this ok] show ?thesis by (simp add: dq_good_def b id Un_assoc)
qed

subsection \<open>One batch\<close>

lemma finite_vt_voters: "finite {i. \<exists>v m. fmlookup (vt_votes q v) i = Some m \<and> P m}"
proof -
  have "{i. \<exists>v m. fmlookup (vt_votes q v) i = Some m \<and> P m} \<subseteq> (\<Union>v \<in> fset (fmdom (vt_msgs q)). fset (fmdom (vt_votes q v)))"
    by (fastforce simp: vt_votes_def fmsub_def fmlookup_dom_iff split: option.splits)
  then show ?thesis by (rule finite_subset) simp
qed

lemma hash_quorum_mono:
  assumes "hash_quorum f h inst" "\<And>v i m. fmlookup (vt_votes (oi_pCert inst) v) i = Some m \<Longrightarrow> fmlookup (vt_votes (oi_pCert inst') v) i = Some m"
  shows "hash_quorum f h inst'"
proof -
  have "card {i. \<exists>v m. fmlookup (vt_votes (oi_pCert inst) v) i = Some m \<and> sbytes (do_CommandHash m) = h}
      \<le> card {i. \<exists>v m. fmlookup (vt_votes (oi_pCert inst') v) i = Some m \<and> sbytes (do_CommandHash m) = h}"
    using assms(2) by (intro card_mono finite_vt_voters) blast
  with assms(1) show ?thesis by (simp add: hash_quorum_def)
qed

lemma hash_quorum_Majority:
  assumes "dq_oqMajority f m (oi_pCert inst)" "0 \<le> f"
  shows "hash_quorum f (sbytes (do_CommandHash m)) inst"
proof -
  have "2 * f < int (card (voters (DQOAgreement_Equals m) (vt_votes (oi_pCert inst) (do_View m))))"
    using assms vt_Majority_iff [of "2 * f" do_View DQOAgreement_Equals m "oi_pCert inst"] by (simp add: dq_oqMajority_def)
  also have "card (voters (DQOAgreement_Equals m) (vt_votes (oi_pCert inst) (do_View m)))
      \<le> card {i. \<exists>v m'. fmlookup (vt_votes (oi_pCert inst) v) i = Some m' \<and> sbytes (do_CommandHash m') = sbytes (do_CommandHash m)}"
    by (intro card_mono finite_vt_voters subsetI) (clarsimp simp: voters_def DQOAgreement_Equals_def bytes_Equal_def split: if_splits, blast)
  finally show ?thesis by (simp add: hash_quorum_def)
qed

text \<open>A batch in a good state, reached from one with the votes \<open>old\<close> by adding votes from \<open>V\<close> and of the replica's own.\<close>

definition inst_step :: "PeerID \<Rightarrow> int \<Rightarrow> PeerID \<Rightarrow> u64 \<Rightarrow> u64 \<Rightarrow> (PeerID \<times> bool \<times> dq_vote) set \<Rightarrow> (PeerID \<times> bool \<times> dq_vote) set \<Rightarrow> dq_oinstance \<Rightarrow> bool" where
  "inst_step leader f self next k V old inst \<longleftrightarrow> inst_ok leader f self next k inst \<and> inst_ballots leader inst \<subseteq> old \<union> V \<union> {self} \<times> UNIV
     \<and> old \<inter> {self} \<times> UNIV \<subseteq> inst_ballots leader inst"

lemma inst_step_make: "do_Index m = k \<Longrightarrow> inst_step leader f self next k V {} (dq_makeOInstance m)"
  by (auto simp: inst_step_def dq_makeOInstance_def inst_ok_def inst_ballots_def dq_prepd_def)

lemma inst_step_refl: "inst_ok leader f self next k inst \<Longrightarrow> inst_step leader f self next k V (inst_ballots leader inst) inst"
  by (auto simp: inst_step_def)

lemma inst_step_cCert [simp]: "inst_step leader f self next k V old (inst\<lparr>oi_cCert := cc\<rparr>) = inst_step leader f self next k V old inst"
  by (simp add: inst_step_def inst_ok_def inst_ballots_def dq_prepd_def hash_quorum_def)

lemma updateOCommandHash_fields:
  assumes "dq_updateOCommandHash inst m = Inr inst'"
  shows "sbytes (oi_CommandHash inst') = sbytes (do_CommandHash m)" "oi_pCert inst' = oi_pCert inst" "oi_Status inst' = oi_Status inst"
    "oi_View inst' = oi_View inst" "oi_Index inst' = oi_Index inst" "oi_Instances inst' = oi_Instances inst" "oi_cCert inst' = oi_cCert inst"
    "oi_CommandHash inst = Some h \<Longrightarrow> oi_CommandHash inst' = Some h"
  using assms by (auto simp: dq_updateOCommandHash_def bytes_Equal_def split: if_splits)

lemma inst_step_hash:
  assumes "inst_step leader f self next k V old inst" "dq_updateOCommandHash inst m = Inr inst'"
  shows "inst_step leader f self next k V old inst'"
proof -
  note u = updateOCommandHash_fields [OF assms(2)]
  have "inst_ballots leader inst' = inst_ballots leader inst" by (simp add: inst_ballots_def u)
  moreover have "hash_quorum f h inst' = hash_quorum f h inst" for h by (simp add: hash_quorum_def u)
  moreover have "dq_prepd inst' = dq_prepd inst" by (simp add: dq_prepd_def u)
  ultimately show ?thesis using assms(1) u(8) unfolding inst_step_def inst_ok_def u by metis
qed

lemma oqlog_lookup:
  "dq_oqlog i m q = Inr q' \<Longrightarrow> fmlookup (vt_votes q' v) j = (if v = do_View m \<and> j = i then Some m else fmlookup (vt_votes q v) j)"
  "dq_oqlog i m q = Inr q' \<Longrightarrow> fmlookup (vt_votes q (do_View m)) i = None"
  unfolding dq_oqlog_def using vt_log_votes [of do_View PanicCall i m q q' v] vt_log_votes [of do_View PanicCall i m q q' "do_View m"] by auto

lemma inst_step_log:
  assumes step: "inst_step leader f self next k V old inst" and log: "dq_oqlog i m (oi_pCert inst) = Inr pc"
    and i: "i \<noteq> self \<and> (i, False, VHash (sbytes (do_CommandHash m))) \<in> V
      \<or> i = self \<and> self \<noteq> leader \<and> do_View m = oi_View inst \<and> sbytes (do_CommandHash m) \<noteq> []"
  shows "inst_step leader f self next k V old (inst\<lparr>oi_pCert := pc\<rparr>)"
proof -
  note l = oqlog_lookup [OF log]
  let ?inst = "inst\<lparr>oi_pCert := pc\<rparr>"
  have b: "inst_ballots leader ?inst = insert (i, False, VHash (sbytes (do_CommandHash m))) (inst_ballots leader inst)"
    using l(2) by (auto simp: inst_ballots_def l(1) split: if_splits) (metis option.distinct(1))+
  have q: "hash_quorum f h inst \<Longrightarrow> hash_quorum f h ?inst" for h
    by (erule hash_quorum_mono) (use l in \<open>auto split: if_splits\<close>)
  have "inst_ok leader f self next k ?inst"
    using step i q unfolding inst_step_def inst_ok_def dq_prepd_def by (auto simp: l(1) split: if_splits)
  then show ?thesis using step i unfolding inst_step_def b by auto
qed

lemma inst_step_preprepared:
  assumes "inst_step leader f self next k V old inst" "self \<noteq> leader" "(leader, True, VBatch ids) \<in> V"
  shows "inst_step leader f self next k V old (inst\<lparr>oi_Instances := ids, oi_Status := OS_PrePrepared\<rparr>)"
  using assms by (auto simp: inst_step_def inst_ok_def inst_ballots_def dq_prepd_def split: if_splits)

lemma inst_step_status:
  assumes "inst_step leader f self next k V old inst" "oi_Status inst \<noteq> OS_None" "st \<noteq> OS_None"
    and "hash_quorum f (sbytes (oi_CommandHash inst)) inst"
  shows "inst_step leader f self next k V old (inst\<lparr>oi_Status := st\<rparr>)"
proof -
  have "hash_quorum f h (inst\<lparr>oi_Status := st\<rparr>) = hash_quorum f h inst" for h by (simp add: hash_quorum_def)
  moreover have "sbytes (oi_CommandHash inst) \<noteq> [] \<longrightarrow> oi_CommandHash inst = Some (sbytes (oi_CommandHash inst))" by (cases "oi_CommandHash inst") auto
  ultimately have "inst_ok leader f self next k (inst\<lparr>oi_Status := st\<rparr>)" using assms unfolding inst_step_def inst_ok_def by auto
  then show ?thesis using assms inst_ballots_status [of inst st leader] by (simp add: inst_step_def)
qed

subsection \<open>The handlers of the ordering layer\<close>

abbreviation at_slot :: "u64 \<Rightarrow> (PeerID \<times> (u64 \<times> bool) \<times> dq_vote) set \<Rightarrow> (PeerID \<times> bool \<times> dq_vote) set" where
  "at_slot k V \<equiv> {(i, b, h). (i, (k, b), h) \<in> V}"

text \<open>A batch is stored in a state \<open>d\<close> that differs from \<open>d0\<close> only by new jobs.\<close>

lemma dq_store_good:
  assumes inv: "dq_inv E leader f d0" and step: "inst_step leader f (od_id d0) (od_oindex d0) k (at_slot k V) (slot_ballots leader k d0) inst"
    and d: "od_olog d = od_olog d0" "dq_conf d0 d" "od_msgs d = od_msgs d0" "od_oindex d = od_oindex d0" and jobs: "jobs_ok E leader k inst d0 d"
  shows "dq_good E leader f V d0 (od_oput k inst d)"
proof (rule dq_put_good [OF inv])
  show "inst_ok leader f (od_id d0) (od_oindex (od_oput k inst d)) k' inst'" if "fmlookup (od_olog (od_oput k inst d)) k' = Some inst'" for k' inst'
    using that inv step by (auto simp: od_oput_def d(1,4) inst_step_def dq_inv_def split: if_splits)
  have "dq_jobs (od_oput k inst d) = dq_jobs d" by (simp add: dq_jobs_def od_oput_def)
  then show "jobs_ok E leader k inst d0 (od_oput k inst d)" using jobs by (simp only: jobs_ok_def)
qed (use step d in \<open>simp_all add: inst_step_def od_oput_def dq_conf_def\<close>)

lemma dq_jobs_broadcast [simp]: "dq_jobs (dq_broadcast E m b d) = insert (env_marshalDQ E m, b) (dq_jobs d)"
  by (simp add: dq_jobs_def dq_broadcast_def)

lemma dq_broadcast_fields [simp]:
  "od_olog (dq_broadcast E m b d) = od_olog d" "dq_conf d0 (dq_broadcast E m b d) = dq_conf d0 d" "od_msgs (dq_broadcast E m b d) = od_msgs d"
  "od_oindex (dq_broadcast E m b d) = od_oindex d" "od_id (dq_broadcast E m b d) = od_id d" "od_f (dq_broadcast E m b d) = od_f d"
  by (simp_all add: dq_broadcast_def dq_conf_def)

lemma jobs_ok_order:
  assumes "jobs_ok E leader k inst d0 d" "dq_env_ok E"
    and "\<And>k' b h. ((k', b), h) \<in> dq_speaks E leader (od_id d0) m \<Longrightarrow> k' = k \<and> (od_id d0, b, h) \<in> inst_ballots leader inst"
  shows "jobs_ok E leader k inst d0 (dq_broadcast E (DQPBFTMessage_OAgreement m) False d)"
  using assms(1,3) unfolding jobs_ok_def dq_jobs_broadcast by (auto simp: dq_saysB_order [OF assms(2)])

lemma jobs_ok_status: "oi_Status inst \<noteq> OS_None \<Longrightarrow> st \<noteq> OS_None \<Longrightarrow> jobs_ok E leader k (inst\<lparr>oi_Status := st\<rparr>) d0 d = jobs_ok E leader k inst d0 d"
  by (simp add: jobs_ok_def inst_ballots_status)

lemma jobs_ok_cCert [simp]: "jobs_ok E leader k (inst\<lparr>oi_cCert := cc\<rparr>) d0 d = jobs_ok E leader k inst d0 d"
  by (simp add: jobs_ok_def inst_ballots_def)

lemma dq_oprepared_good:
  assumes inv: "dq_inv E leader f d0" and step: "inst_step leader f (od_id d0) (od_oindex d0) k (at_slot k V) (slot_ballots leader k d0) inst"
    and d: "od_olog d = od_olog d0" "dq_conf d0 d" "od_msgs d = od_msgs d0" "od_oindex d = od_oindex d0" and jobs: "jobs_ok E leader k inst d0 d"
    and hash: "sbytes (oi_CommandHash inst) = sbytes (do_CommandHash m)" and res: "dq_oprepared E k m inst d = Inr d'"
  shows "dq_good E leader f V d0 d'"
proof (cases "dq_oqMajority (od_f d) m (oi_pCert inst) \<and> oi_Status inst = OS_PrePrepared")
  case False
  then have "d' = od_oput k inst d" using res by (auto simp: dq_oprepared_def)
  then show ?thesis using dq_store_good [OF inv step d jobs] by simp
next
  case True
  have E: "dq_env_ok E" and f: "od_f d = f" "0 \<le> f" using inv d(2) by (auto simp: dq_inv_def dq_conf_def)
  let ?i1 = "inst\<lparr>oi_Status := OS_Prepared\<rparr>"
  let ?cm = "\<lparr>do_View = do_View m, do_Index = do_Index m, do_Type = AMT_Commit, do_Instances = [], do_CommandHash = oi_CommandHash inst\<rparr>"
  let ?d1 = "dq_broadcast E (DQPBFTMessage_OAgreement ?cm) False d"
  have q: "hash_quorum f (sbytes (oi_CommandHash inst)) inst" using hash_quorum_Majority True f by (metis hash)
  have st: "inst_step leader f (od_id d0) (od_oindex d0) k (at_slot k V) (slot_ballots leader k d0) (inst\<lparr>oi_Status := s\<rparr>)" if "s \<noteq> OS_None" for s
    using inst_step_status [OF step _ that q] True by simp
  have j: "jobs_ok E leader k (inst\<lparr>oi_Status := s, oi_cCert := cc\<rparr>) d0 ?d1" if "s \<noteq> OS_None" for s cc
    using jobs_ok_order [OF jobs E, of ?cm] that True by (simp add: jobs_ok_status dq_speaks_def)
  obtain cc where cc: "(if dq_oqMajority (od_f d) ?cm cc then dq_exec (od_oput k (?i1\<lparr>oi_cCert := cc, oi_Status := OS_Committed\<rparr>) ?d1)
      else Inr (od_oput k (?i1\<lparr>oi_cCert := cc\<rparr>) ?d1)) = Inr d'"
    using res True by (auto simp: dq_oprepared_def Let_def go_simps)
  have good: "dq_good E leader f V d0 (od_oput k (inst\<lparr>oi_Status := s, oi_cCert := cc\<rparr>) ?d1)" if "s \<noteq> OS_None" for s
    by (rule dq_store_good [OF inv]) (use st [OF that] j [OF that] d in simp_all)
  show ?thesis
  proof (cases "dq_oqMajority (od_f d) ?cm cc")
    case True
    have "?i1\<lparr>oi_cCert := cc, oi_Status := OS_Committed\<rparr> = inst\<lparr>oi_Status := OS_Committed, oi_cCert := cc\<rparr>" by simp
    with cc True have ex: "dq_exec (od_oput k (inst\<lparr>oi_Status := OS_Committed, oi_cCert := cc\<rparr>) ?d1) = Inr d'" by simp
    have g: "dq_good E leader f V d0 (od_oput k (inst\<lparr>oi_Status := OS_Committed, oi_cCert := cc\<rparr>) ?d1)" by (rule good) simp
    then have "dq_inv E leader f (od_oput k (inst\<lparr>oi_Status := OS_Committed, oi_cCert := cc\<rparr>) ?d1)" by (simp add: dq_good_def)
    from dq_good_trans [OF g dq_exec_good [OF this ex]] show ?thesis .
  next
    case False
    with cc good [of OS_Prepared] show ?thesis by simp
  qed
qed

lemma jobs_ok_refl [simp]: "jobs_ok E leader k inst d d"
  by (simp add: jobs_ok_def)

lemma dq_slot_step:
  assumes "dq_inv E leader f d"
  shows "fmlookup (od_olog d) k = Some inst \<Longrightarrow> inst_step leader f (od_id d) (od_oindex d) k V (slot_ballots leader k d) inst"
    and "fmlookup (od_olog d) (do_Index m) = None \<Longrightarrow> inst_step leader f (od_id d) (od_oindex d) (do_Index m) V (slot_ballots leader (do_Index m) d) (dq_makeOInstance m)"
  using assms inst_step_refl inst_step_make by (auto simp: slot_ballots_def dq_inv_def)

lemma dq_getOInstance_step:
  assumes "dq_inv E leader f d" "dq_getOInstance m d = Inr inst"
  shows "inst_step leader f (od_id d) (od_oindex d) (do_Index m) V (slot_ballots leader (do_Index m) d) inst" (is ?step)
    and "sbytes (oi_CommandHash inst) = sbytes (do_CommandHash m)" (is ?hash)
proof -
  have "?step \<and> ?hash"
  proof (cases "fmlookup (od_olog d) (do_Index m)")
    case None
    with assms(2) have "inst = dq_makeOInstance m" by (simp add: dq_getOInstance_def)
    with dq_slot_step(2) [OF assms(1) None] show ?thesis by (simp add: dq_makeOInstance_def)
  next
    case (Some old)
    with assms(2) have "dq_updateOCommandHash old m = Inr inst" by (simp add: dq_getOInstance_def)
    with inst_step_hash [OF dq_slot_step(1) [OF assms(1) Some]] updateOCommandHash_fields(1) show ?thesis by blast
  qed
  then show ?step ?hash by blast+
qed

lemma dq_onOPrepare_good:
  assumes inv: "dq_inv E leader f d" and fr: "from \<noteq> od_id d" and ty: "do_Type m = AMT_Prepare" and res: "dq_onOPrepare E m from d = Inr d'"
  shows "dq_good E leader f ({from} \<times> dq_speaks E leader from m) d d'"
proof -
  let ?V = "{from} \<times> dq_speaks E leader from m"
  obtain inst pc where g: "dq_getOInstance m d = Inr inst" "dq_oqlog from m (oi_pCert inst) = Inr pc" "dq_oprepared E (do_Index m) m (inst\<lparr>oi_pCert := pc\<rparr>) d = Inr d'"
    using res by (auto simp: dq_onOPrepare_def go_simps split: if_splits)
  note s = dq_getOInstance_step [OF inv g(1)]
  have "inst_step leader f (od_id d) (od_oindex d) (do_Index m) (at_slot (do_Index m) ?V) (slot_ballots leader (do_Index m) d) (inst\<lparr>oi_pCert := pc\<rparr>)"
    by (rule inst_step_log [OF s(1) g(2)]) (use fr ty in \<open>simp add: dq_speaks_def\<close>)
  from dq_oprepared_good [OF inv this _ _ _ _ _ _ g(3)] s(2) show ?thesis by simp
qed

lemma dq_onOCommit_good:
  assumes inv: "dq_inv E leader f d" and res: "dq_onOCommit m from d = Inr d'"
  shows "dq_good E leader f V d d'"
proof -
  obtain inst cc where g: "dq_getOInstance m d = Inr inst" and r: "(if dq_oqMajority (od_f d) m cc \<and> oi_Status inst = OS_Prepared
      then dq_exec (od_oput (do_Index m) (inst\<lparr>oi_cCert := cc, oi_Status := OS_Committed\<rparr>) d) else Inr (od_oput (do_Index m) (inst\<lparr>oi_cCert := cc\<rparr>) d)) = Inr d'"
    using res by (auto simp: dq_onOCommit_def Let_def go_simps)
  note s = dq_getOInstance_step [OF inv g]
  show ?thesis
  proof (cases "dq_oqMajority (od_f d) m cc \<and> oi_Status inst = OS_Prepared")
    case False
    then have "d' = od_oput (do_Index m) (inst\<lparr>oi_cCert := cc\<rparr>) d" using r by auto
    moreover have "dq_good E leader f V d (od_oput (do_Index m) (inst\<lparr>oi_cCert := cc\<rparr>) d)" by (rule dq_store_good [OF inv]) (simp_all add: s(1))
    ultimately show ?thesis by simp
  next
    case True
    let ?d = "od_oput (do_Index m) (inst\<lparr>oi_cCert := cc, oi_Status := OS_Committed\<rparr>) d"
    have "inst_step leader f (od_id d) (od_oindex d) (do_Index m) (at_slot (do_Index m) V) (slot_ballots leader (do_Index m) d) (inst\<lparr>oi_cCert := cc, oi_Status := OS_Committed\<rparr>)"
      using s(1) [of "at_slot (do_Index m) V"] True by (auto simp: inst_step_def inst_ok_def dq_prepd_def hash_quorum_def inst_ballots_def)
    then have g: "dq_good E leader f V d ?d" by (intro dq_store_good [OF inv]) simp_all
    then have "dq_inv E leader f ?d" by (simp add: dq_good_def)
    moreover have "dq_exec ?d = Inr d'" using r True by simp
    ultimately show ?thesis by (rule dq_good_trans [OF g dq_exec_good])
  qed
qed

lemma updateOCommand_fields:
  assumes "dq_updateOCommand inst m = Inr inst'"
  shows "inst' = inst\<lparr>oi_Instances := do_Instances m\<rparr>"
  using assms by (auto simp: dq_updateOCommand_def split: if_splits)

lemma dq_onOPrePrepare_good:
  assumes inv: "dq_inv E leader f d" and fr: "from \<noteq> od_id d" and ty: "do_Type m0 = AMT_PrePrepare" and res: "dq_onOPrePrepare E m0 from d = Inr d'"
  shows "dq_good E leader f ({from} \<times> dq_speaks E leader from m0) d d'"
proof -
  let ?k = "do_Index m0" and ?ids = "do_Instances m0" and ?h = "batch_hash E (do_Instances m0)"
  let ?V = "{from} \<times> dq_speaks E leader from m0" and ?m = "m0\<lparr>do_CommandHash := Some ?h\<rparr>"
  have E: "dq_env_ok E" and lead: "from = leader" using inv res by (auto simp: dq_inv_def dq_onOPrePrepare_def split: if_splits)
  then have V: "(from, False, VHash ?h) \<in> at_slot ?k ?V" "(leader, True, VBatch ?ids) \<in> at_slot ?k ?V" using ty by (auto simp: dq_speaks_def)
  obtain inst pc1 pc2 where
    g: "(case fmlookup (od_olog d) ?k of None \<Rightarrow> Inr (dq_makeOInstance ?m)
         | Some inst \<Rightarrow> go_bind (dq_updateOCommand inst ?m) (\<lambda>inst'. dq_updateOCommandHash inst' ?m)) = Inr inst"
    and l1: "dq_oqlog from ?m (oi_pCert inst) = Inr pc1"
    and l2: "dq_oqlog (od_id d) (\<lparr>do_View = oi_View inst, do_Index = oi_Index inst, do_Type = AMT_Prepare, do_Instances = [], do_CommandHash = oi_CommandHash inst\<rparr>) pc1 = Inr pc2"
    and r: "dq_oprepared E ?k (\<lparr>do_View = oi_View inst, do_Index = oi_Index inst, do_Type = AMT_Prepare, do_Instances = [], do_CommandHash = oi_CommandHash inst\<rparr>)
        (inst\<lparr>oi_Status := OS_PrePrepared, oi_pCert := pc2\<rparr>)
        (dq_broadcast E (DQPBFTMessage_OAgreement (\<lparr>do_View = oi_View inst, do_Index = oi_Index inst, do_Type = AMT_Prepare, do_Instances = [], do_CommandHash = oi_CommandHash inst\<rparr>)) False d) = Inr d'"
    using res by (auto simp: dq_onOPrePrepare_def Let_def go_simps split: if_splits)
  let ?pm = "\<lparr>do_View = oi_View inst, do_Index = oi_Index inst, do_Type = AMT_Prepare, do_Instances = [], do_CommandHash = oi_CommandHash inst\<rparr>"
  let ?step = "inst_step leader f (od_id d) (od_oindex d) ?k (at_slot ?k ?V) (slot_ballots leader ?k d)"
  let ?i2 = "inst\<lparr>oi_Status := OS_PrePrepared, oi_pCert := pc2\<rparr>"
  have inst: "?step (inst\<lparr>oi_Status := OS_PrePrepared\<rparr>) \<and> oi_Instances inst = ?ids \<and> sbytes (oi_CommandHash inst) = ?h"
  proof (cases "fmlookup (od_olog d) ?k")
    case None
    with g have i: "inst = dq_makeOInstance ?m" by simp
    have "?step (dq_makeOInstance ?m)" using dq_slot_step(2) [OF inv, of ?m] None by simp
    from inst_step_preprepared [OF this _ V(2)] fr lead i show ?thesis by (auto simp: dq_makeOInstance_def)
  next
    case (Some old)
    with g obtain o1 where o1: "dq_updateOCommand old ?m = Inr o1" "dq_updateOCommandHash o1 ?m = Inr inst" by (auto simp: go_simps)
    note u = updateOCommandHash_fields [OF o1(2)] and c = updateOCommand_fields [OF o1(1)]
    have "?step (old\<lparr>oi_Instances := ?ids, oi_Status := OS_PrePrepared\<rparr>)"
      using inst_step_preprepared [OF dq_slot_step(1) [OF inv Some] _ V(2)] fr lead by simp
    then have s: "?step (o1\<lparr>oi_Status := OS_PrePrepared\<rparr>)" by (simp add: c)
    have "dq_updateOCommandHash (o1\<lparr>oi_Status := OS_PrePrepared\<rparr>) ?m = Inr (inst\<lparr>oi_Status := OS_PrePrepared\<rparr>)"
      using o1(2) by (auto simp: dq_updateOCommandHash_def split: if_splits)
    from inst_step_hash [OF s this] u c show ?thesis by simp
  qed
  have "oi_Index inst = ?k" using inst by (simp add: inst_step_def inst_ok_def)
  have s1: "?step (inst\<lparr>oi_Status := OS_PrePrepared, oi_pCert := pc1\<rparr>)"
    using inst_step_log [OF conjunct1 [OF inst], of "from" ?m pc1] l1 fr V(1) by simp
  have "?step (inst\<lparr>oi_Status := OS_PrePrepared, oi_pCert := pc1, oi_pCert := pc2\<rparr>)"
    by (rule inst_step_log [OF s1, where m = ?pm and i = "od_id d"]) (use l2 inst fr lead batch_hash_nonempty [OF E] in simp_all)
  then have s2: "?step ?i2" by simp
  have own: "(od_id d, False, VHash ?h) \<in> inst_ballots leader ?i2"
    using oqlog_lookup(1) [OF l2, of "oi_View inst" "od_id d"] inst by (force simp: inst_ballots_def)
  have "jobs_ok E leader ?k ?i2 d (dq_broadcast E (DQPBFTMessage_OAgreement ?pm) False d)"
    by (rule jobs_ok_order [OF jobs_ok_refl E]) (use own inst \<open>oi_Index inst = ?k\<close> in \<open>auto simp: dq_speaks_def\<close>)
  from dq_oprepared_good [OF inv s2 _ _ _ _ this _ r] show ?thesis by simp
qed

text \<open>The leader sends a batch; its counter has not reached the end.\<close>

lemma dq_sendCRequest_good:
  assumes inv: "dq_inv E leader f d" and room: "od_oindex d \<noteq> -1" and res: "dq_sendCRequest E d = Inr d'"
  shows "dq_good E leader f V d d' \<and> (od_oindex d' = od_oindex d \<or> od_cReqBuffer d' = [])"
proof -
  have E: "dq_env_ok E" and prim: "od_isPrimaryAtView (od_id d) (od_oview d) d = Inr (od_id d = leader)" using inv by (auto simp: dq_inv_def)
  show ?thesis
  proof (cases "od_id d = leader \<and> od_cReqBuffer d \<noteq> []")
    case False
    then have "d' = d \<or> d' = d\<lparr>od_cReqBuffer := []\<rparr>" using res prim by (auto simp: dq_sendCRequest_def Let_def split: if_splits)
    then show ?thesis using inv dq_good_frame [OF inv, of "d\<lparr>od_cReqBuffer := []\<rparr>"] by (auto simp: dq_conf_def dq_jobs_def)
  next
    case True
    let ?k = "od_oindex d" and ?ids = "od_cReqBuffer d"
    let ?log = "\<lparr>do_View = od_view d, do_Index = ?k, do_Type = AMT_PrePrepare, do_Instances = [], do_CommandHash = Some (batch_hash E ?ids)\<rparr>"
    let ?ppm = "\<lparr>do_View = od_view d, do_Index = ?k, do_Type = AMT_PrePrepare, do_Instances = ?ids, do_CommandHash = None\<rparr>"
    obtain pc where pc: "dq_oqlog leader ?log vt_new = Inr pc" and d': "d' = dq_broadcast E (DQPBFTMessage_OAgreement ?ppm) False
        (od_oput ?k \<lparr>oi_View = od_view d, oi_Index = ?k, oi_Status = OS_PrePrepared, oi_Instances = ?ids, oi_CommandHash = None, oi_pCert = pc, oi_cCert = vt_new\<rparr>
          (d\<lparr>od_cReqBuffer := [], od_oindex := ?k + 1\<rparr>))"
      using res prim True by (auto simp: dq_sendCRequest_def Let_def go_simps)
    let ?inst = "\<lparr>oi_View = od_view d, oi_Index = ?k, oi_Status = OS_PrePrepared, oi_Instances = ?ids, oi_CommandHash = None, oi_pCert = pc, oi_cCert = vt_new\<rparr> :: dq_oinstance"
    note l = oqlog_lookup(1) [OF pc]
    have b: "inst_ballots leader ?inst = {(leader, False, VHash (batch_hash E ?ids)), (leader, True, VBatch ?ids)}"
      by (auto simp: inst_ballots_def l split: if_splits)
    have less: "?k < ?k + 1" using room by (rule word_less_plus1)
    have "inst_ok leader f leader (?k + 1) ?k ?inst" using less batch_hash_nonempty [OF E] by (auto simp: inst_ok_def l dq_prepd_def split: if_splits)
    moreover have "inst_ok leader f leader (?k + 1) k inst" if "fmlookup (od_olog d) k = Some inst" for k inst
      using that inv True less by (auto simp: dq_inv_def inst_ok_def)
    ultimately have ok: "inst_ok leader f (od_id d) (od_oindex d') k inst" if "fmlookup (od_olog d') k = Some inst" for k inst
      using that True by (auto simp: d' od_oput_def dq_broadcast_def split: if_splits)
    have "slot_ballots leader ?k d \<inter> {leader} \<times> UNIV = {}"
      using inv True by (auto simp: slot_ballots_def inst_ballots_def dq_inv_def inst_ok_def split: option.splits if_splits)
    then have "dq_good E leader f V d d'"
      by (intro dq_put_good [OF inv ok, where k = ?k and inst = ?inst])
        (use True in \<open>auto simp: b d' od_oput_def dq_broadcast_def dq_conf_def jobs_ok_def dq_jobs_def dq_saysB_order [OF E] dq_speaks_def\<close>)
    then show ?thesis by (simp add: d' od_oput_def dq_broadcast_def)
  qed
qed

subsection \<open>The handlers of the command layer\<close>

lemma dq_put_cmd_good: "dq_inv E leader f d \<Longrightarrow> dq_good E leader f V d (od_put i inst d)"
  by (rule dq_good_frame) (auto simp: od_put_def dq_conf_def dq_jobs_def)

lemma dq_broadcast_cmd_good:
  assumes "dq_inv E leader f d"
  shows "dq_good E leader f V d (dq_broadcast E (DQPBFTMessage_Agreement m) False d)"
  using assms by (rule dq_good_frame) (use assms dq_saysB_command in \<open>auto simp: dq_inv_def\<close>)

lemma dq_good_inv: "dq_good E leader f V d d' \<Longrightarrow> dq_inv E leader f d'"
  by (simp add: dq_good_def)

lemma dq_good_then: "dq_good E leader f V d d1 \<Longrightarrow> (dq_inv E leader f d1 \<Longrightarrow> dq_good E leader f V d1 d2) \<Longrightarrow> dq_good E leader f V d d2"
  using dq_good_trans dq_good_inv by blast

lemma dq_prepared_good:
  assumes inv: "dq_inv E leader f d" and res: "dq_prepared E i m inst d = Inr d'"
  shows "dq_good E leader f V d d'"
proof (cases "dq_qMajority (od_f d) m (ci_pCert inst) \<and> ci_Status inst = OS_PrePrepared")
  case False
  then show ?thesis using res dq_put_cmd_good [OF inv] by (auto simp: dq_prepared_def)
next
  case True
  let ?cm = "\<lparr>da_View = da_View m, da_InstanceID = da_InstanceID m, da_Type = AMT_Commit, da_Command = None, da_CommandHash = ci_CommandHash inst\<rparr>"
  let ?d1 = "dq_broadcast E (DQPBFTMessage_Agreement ?cm) False d"
  obtain inst' where "d' = od_put i inst' ?d1 \<or> dq_exec (od_put i inst' ?d1) = Inr d'"
    using res True by (auto simp: dq_prepared_def Let_def go_simps split: if_splits)
  moreover have "dq_good E leader f V d (od_put i inst' ?d1)"
    by (rule dq_good_then [OF dq_broadcast_cmd_good [OF inv] dq_put_cmd_good])
  ultimately show ?thesis using dq_good_then dq_exec_good by blast
qed

lemma dq_onCRequest_good:
  assumes inv: "dq_inv E leader f d" and room: "od_oindex d \<noteq> -1" and res: "dq_onCRequest E i d = Inr d'"
  shows "dq_good E leader f V d d'"
proof -
  let ?d1 = "d\<lparr>od_cReqBuffer := od_cReqBuffer d @ [i]\<rparr>"
  have "d' = d \<or> d' = ?d1 \<or> dq_sendCRequest E ?d1 = Inr d'"
    using res by (auto simp: dq_onCRequest_def od_onCRequest_def Let_def go_simps split: if_splits)
  moreover have g: "dq_good E leader f V d ?d1" using inv by (rule dq_good_frame) (auto simp: dq_conf_def dq_jobs_def)
  moreover have "dq_good E leader f V d d'" if "dq_sendCRequest E ?d1 = Inr d'"
    using dq_good_then [OF g] dq_sendCRequest_good [OF _ _ that] room by simp
  ultimately show ?thesis using inv by auto
qed

lemma dq_onPrePrepare_good:
  assumes inv: "dq_inv E leader f d0" and room: "od_oindex d0 \<noteq> -1" and res: "dq_onPrePrepare E m0 from d0 = Inr d'"
  shows "dq_good E leader f V d0 d'"
proof -
  obtain d pm i inst where d: "d = d0 \<or> dq_onCRequest E (da_InstanceID m0) d0 = Inr d"
    and r: "dq_prepared E i pm inst (dq_broadcast E (DQPBFTMessage_Agreement pm) False d) = Inr d'"
    using res by (fastforce simp: dq_onPrePrepare_def Let_def go_simps split: if_splits)
  have g: "dq_good E leader f V d0 d" using d inv dq_onCRequest_good [OF inv room] by auto
  show ?thesis by (rule dq_good_then [OF g], rule dq_good_then [OF dq_broadcast_cmd_good], assumption, rule dq_prepared_good [OF _ r])
qed

lemma dq_onPrepare_good: "dq_inv E leader f d \<Longrightarrow> dq_onPrepare E m from d = Inr d' \<Longrightarrow> dq_good E leader f V d d'"
  by (auto simp: dq_onPrepare_def go_simps intro: dq_prepared_good)

lemma dq_onCommit_good:
  assumes inv: "dq_inv E leader f d" and res: "dq_onCommit m from d = Inr d'"
  shows "dq_good E leader f V d d'"
proof -
  obtain inst where "d' = od_put (da_InstanceID m) inst d \<or> dq_exec (od_put (da_InstanceID m) inst d) = Inr d'"
    using res by (auto simp: dq_onCommit_def Let_def go_simps split: if_splits)
  then show ?thesis using dq_put_cmd_good [OF inv] dq_good_then dq_exec_good by blast
qed

lemma dq_onRequest_good:
  assumes inv: "dq_inv E leader f d" and room: "od_oindex d \<noteq> -1" and res: "dq_onRequest E cmd d = Inr d'"
  shows "dq_good E leader f V d d'"
proof -
  obtain d1 ppm i inst where d1: "d1 = dq_broadcast E (DQPBFTMessage_Agreement ppm) False (od_put i inst (d\<lparr>od_index := od_index d + 1\<rparr>))"
    and r: "d' = d1 \<or> dq_onCRequest E i d1 = Inr d'"
    using res by (fastforce simp: dq_onRequest_def Let_def go_simps split: if_splits)
  have "dq_good E leader f V d (d\<lparr>od_index := od_index d + 1\<rparr>)" using inv by (rule dq_good_frame) (auto simp: dq_conf_def dq_jobs_def)
  then have g: "dq_good E leader f V d d1" unfolding d1 by (blast intro: dq_good_then dq_put_cmd_good dq_broadcast_cmd_good)
  moreover have "od_oindex d1 \<noteq> -1" using room by (simp add: d1 od_put_def)
  ultimately show ?thesis using r dq_good_then [OF g] dq_onCRequest_good by blast
qed

lemma dq_Tick_good:
  assumes inv: "dq_inv E leader f d" and room: "od_oindex d \<noteq> -1" and res: "dq_Tick E d = Inr d'"
  shows "dq_good E leader f V d d'"
proof -
  obtain t fired where "Timer_Tick (od_timer d) = (t, fired)" by (cases "Timer_Tick (od_timer d)")
  with res have r: "go_fold (\<lambda>_ d'. go_bind (od_isPrimaryAtView (od_id d') (od_oview d') d') (\<lambda>b. if b then dq_sendCRequest E d' else Inr d')) fired (d\<lparr>od_timer := t\<rparr>) = Inr d'"
    by (simp add: dq_Tick_def od_Tick_def)
  have t: "dq_good E leader f V d (d\<lparr>od_timer := t\<rparr>)" using inv by (rule dq_good_frame) (auto simp: dq_conf_def dq_jobs_def)
  let ?I = "\<lambda>d1. dq_good E leader f V d d1 \<and> (od_oindex d1 = od_oindex d \<or> od_cReqBuffer d1 = [])"
  have "?I d'"
  proof (rule go_fold_invariant [OF r])
    fix x d1 d2 assume I: "?I d1" and s: "go_bind (od_isPrimaryAtView (od_id d1) (od_oview d1) d1) (\<lambda>b. if b then dq_sendCRequest E d1 else Inr d1) = Inr d2"
    then have "d2 = d1 \<or> dq_sendCRequest E d1 = Inr d2" by (auto simp: go_simps split: if_splits)
    then show "?I d2"
    proof
      assume s: "dq_sendCRequest E d1 = Inr d2"
      note i1 = dq_good_inv [OF conjunct1 [OF I]]
      show ?thesis
      proof (cases "od_cReqBuffer d1 = []")
        case True
        then have "d2 = d1 \<or> d2 = d1\<lparr>od_cReqBuffer := []\<rparr>" using s by (auto simp: dq_sendCRequest_def Let_def go_simps split: if_splits)
        with True have "d2 = d1" by auto
        with I show ?thesis by simp
      next
        case False
        with I have "od_oindex d1 = od_oindex d" by simp
        with dq_sendCRequest_good [OF i1 _ s, of V] room I show ?thesis using dq_good_trans by metis
      qed
    qed (use I in simp)
  qed (use t in simp)
  then show ?thesis by blast
qed

subsection \<open>The replica as a node of the cluster\<close>

lemma dq_enqueue_good:
  assumes "dq_inv E leader f d" "node \<noteq> od_id d" "{od_id d} \<times> dq_saysB E leader (od_id d) c \<subseteq> dq_ballots leader d"
  shows "dq_good E leader f V d (od_enqueueForSending node c cert d)"
  using assms(1) by (rule dq_good_frame) (use assms(2,3) in \<open>auto simp: od_enqueueForSending_def dq_conf_def dq_jobs_def dq_says_def\<close>)

text \<open>The callbacks of the pool; \<open>cbs\<close> are those that are left.\<close>

lemma dq_broadcastCallback_good:
  assumes inv: "dq_inv E leader f d" and says: "{od_id d} \<times> dq_saysB E leader (od_id d) c \<subseteq> dq_ballots leader d"
    and res: "od_broadcastCallback c False cert d = Inr d'"
  shows "dq_good E leader f V d d'"
proof -
  let ?I = "\<lambda>d1. dq_good E leader f V d d1"
  have "?I d'"
  proof (rule go_fold_invariant [OF res [unfolded od_broadcastCallback_def]])
    fix node d1 d2 assume I: "?I d1" and s: "(if False \<or> node \<noteq> od_id d1 then go_bind (slice_range cert (unat (node * 32)) (unat (node * 32 + 32)))
        (\<lambda>ce. Inr (od_enqueueForSending node c ce d1)) else Inr d1) = Inr d2"
    have id: "od_id d1 = od_id d" and sub: "{od_id d} \<times> dq_saysB E leader (od_id d) c \<subseteq> dq_ballots leader d1"
      using I says by (auto simp: dq_good_def)
    from s consider "d2 = d1" | ce where "node \<noteq> od_id d1" "d2 = od_enqueueForSending node c ce d1" by (auto simp: go_simps split: if_splits)
    then show "?I d2"
    proof cases
      case 2
      from dq_enqueue_good [OF dq_good_inv [OF I] 2(1)] sub have "dq_good E leader f V d1 d2" unfolding id 2(2) by blast
      with I show ?thesis by (rule dq_good_trans)
    qed (use I in simp)
  qed (use inv in simp)
  then show ?thesis .
qed

lemma dq_AsyncCallback_good:
  assumes inv: "dq_inv E leader f d" and res: "dq_AsyncCallback d = Inr d'"
  shows "dq_good E leader f V d d'"
proof -
  let ?cbs = "d_callbackC (dq_signDispatcher d)" and ?d0 = "d\<lparr>dq_signDispatcher := (dq_signDispatcher d)\<lparr>d_callbackC := []\<rparr>\<rparr>"
  have r: "go_fold (\<lambda>(job, cert). od_broadcastCallback (fst job) (snd job) cert) ?cbs ?d0 = Inr d'"
    using res by (simp add: dq_AsyncCallback_def drain_callbacks_def)
  have j: "fst x \<in> dq_jobs d" if "x \<in> set ?cbs" for x using that by (force simp: dq_jobs_def pool_jobs_def)
  have d0: "dq_good E leader f V d ?d0" using inv by (rule dq_good_frame) (auto simp: dq_conf_def dq_jobs_def pool_jobs_def unfinished_def)
  show ?thesis
  proof (rule go_fold_invariant [where I = "dq_good E leader f V d", OF r d0])
    fix x d1 d2 assume x: "x \<in> set ?cbs" and I: "dq_good E leader f V d d1" and s: "(case x of (job, cert) \<Rightarrow> od_broadcastCallback (fst job) (snd job) cert) d1 = Inr d2"
    obtain c b cert where [simp]: "x = ((c, b), cert)" by (metis surj_pair)
    have "\<not> b" "{od_id d} \<times> dq_saysB E leader (od_id d) c \<subseteq> dq_ballots leader d" using dq_inv_job [OF inv, of c b] j [OF x] by auto
    moreover have id: "od_id d1 = od_id d" using I by (simp add: dq_good_def)
    moreover from calculation have "{od_id d1} \<times> dq_saysB E leader (od_id d1) c \<subseteq> dq_ballots leader d1" using I by (auto simp: dq_good_def)
    ultimately have "dq_good E leader f V d1 d2" using dq_broadcastCallback_good [OF dq_good_inv [OF I]] s by simp
    with I show "dq_good E leader f V d d2" by (rule dq_good_trans)
  qed
qed

datatype dq_act = DRequest Command | DTick | DAsync | DTake | DAssign | DFinish nat | DApply

definition dq_pool :: "((bytes \<times> bool, bytes) Dispatcher \<Rightarrow> (bytes \<times> bool, bytes) Dispatcher option) \<Rightarrow> DQPBFT \<Rightarrow> DQPBFT go option" where
  "dq_pool g d = map_option (\<lambda>p. Inr (d\<lparr>dq_signDispatcher := p\<rparr>)) (g (dq_signDispatcher d))"

fun dq_do :: "dq_env \<Rightarrow> dq_act \<Rightarrow> DQPBFT \<Rightarrow> DQPBFT go option" where
  "dq_do E (DRequest cmd) d = Some (dq_Request E cmd d)"
| "dq_do E DTick d = Some (dq_Tick E d)"
| "dq_do E DAsync d = Some (dq_AsyncCallback d)"
| "dq_do E DTake d = dq_pool dispatch_take d"
| "dq_do E DAssign d = dq_pool dispatch_assign d"
| "dq_do E (DFinish i) d = dq_pool (worker_finish (dq_signVector E (od_nodes d)) i) d"
| "dq_do E DApply d = Some (Inr (od_ClearExecutedCommands d))"

text \<open>The counter of batches has 64 bits; the cluster is followed until it is used up.\<close>

definition dq_node :: "dq_env \<Rightarrow> (dq_act, DQPBFT) bl_node" where
  "dq_node E = \<lparr>bn_act = (\<lambda>a d. if od_oindex d = -1 then None else dq_do E a d),
     bn_recv = (\<lambda>m d. if od_oindex d = -1 then None else Some (dq_Step E m d)),
     bn_out = (\<lambda>d. rd_Messages (od_MakeReady d)), bn_clear = od_ClearMsgs\<rparr>"

lemma dq_pool_good:
  assumes inv: "dq_inv E leader f d" and res: "dq_pool g d = Some (Inr d')" and step: "\<And>p. g (dq_signDispatcher d) = Some p \<Longrightarrow> pool_step ex (dq_signDispatcher d) p"
  shows "dq_good E leader f V d d'"
proof -
  obtain p where p: "g (dq_signDispatcher d) = Some p" "d' = d\<lparr>dq_signDispatcher := p\<rparr>" using res by (auto simp: dq_pool_def)
  have "pool_jobs p = pool_jobs (dq_signDispatcher d)" by (rule pool_step_jobs [OF step [OF p(1)]])
  with inv show ?thesis by (intro dq_good_frame) (auto simp: p(2) dq_conf_def dq_jobs_def)
qed

lemma dq_do_good:
  assumes inv: "dq_inv E leader f d" and room: "od_oindex d \<noteq> -1" and res: "dq_do E a d = Some (Inr d')"
  shows "dq_good E leader f V d d'"
proof (cases a)
  case (DRequest cmd)
  with res dq_onRequest_good [OF inv room] show ?thesis by (simp add: dq_Request_def)
next
  case DTick
  with res dq_Tick_good [OF inv room] show ?thesis by simp
next
  case DAsync
  with res dq_AsyncCallback_good [OF inv] show ?thesis by simp
next
  case DTake
  with res dq_pool_good [OF inv, of dispatch_take] show ?thesis by (auto intro: pool_step.intros)
next
  case DAssign
  with res dq_pool_good [OF inv, of dispatch_assign] show ?thesis by (auto intro: pool_step.intros)
next
  case (DFinish i)
  with res dq_pool_good [OF inv, of "worker_finish (dq_signVector E (od_nodes d)) i"] show ?thesis by (auto intro: pool_step.intros)
next
  case DApply
  then have "d' = od_ClearExecutedCommands d" using res by simp
  then show ?thesis by (auto simp: od_ClearExecutedCommands_def dq_conf_def dq_jobs_def intro!: dq_good_frame [OF inv])
qed

lemma dq_Step_good:
  assumes inv: "dq_inv E leader f d" and room: "od_oindex d \<noteq> -1" and fr: "msg_From m \<noteq> od_id d" and res: "dq_Step E m d = Inr d'"
  shows "dq_good E leader f ({msg_From m} \<times> dq_says E leader m) d d'"
proof -
  consider (cmd) a where "env_unmarshalDQ E (msg_Content m) = Some (DQPBFTMessage_Agreement a)" "dq_stepNormal E a (msg_From m) d = Inr d'"
    | (order) a where "env_unmarshalDQ E (msg_Content m) = Some (DQPBFTMessage_OAgreement a)" "dq_stepONormal E a (msg_From m) d = Inr d'"
    using res by (auto simp: dq_Step_def split: option.splits if_splits DQPBFTMessage.splits)
  then show ?thesis
  proof cases
    case cmd
    then show ?thesis using dq_onPrePrepare_good [OF inv room] dq_onPrepare_good [OF inv] dq_onCommit_good [OF inv]
      by (auto simp: dq_stepNormal_def split: AgreementMessage_Type.splits)
  next
    case order
    have says: "dq_says E leader m = dq_speaks E leader (msg_From m) a" using order(1) by (simp add: dq_says_def dq_saysB_def)
    show ?thesis unfolding says using order(2) dq_onOPrePrepare_good [OF inv fr] dq_onOPrepare_good [OF inv fr] dq_onOCommit_good [OF inv]
      by (auto simp: dq_stepONormal_def split: AgreementMessage_Type.splits)
  qed
qed

definition dq_decided :: "int \<Rightarrow> DQPBFT \<Rightarrow> ((u64 \<times> bool) \<times> dq_vote) set" where
  "dq_decided f d = {((k, False), VHash h) | k h. \<exists>inst. fmlookup (od_olog d) k = Some inst \<and> dq_prepd inst \<and> hash_quorum f h inst}"

lemma inst_own_unique:
  assumes "inst_ok leader f self next k inst" "(self, b, h) \<in> inst_ballots leader inst" "(self, b, h') \<in> inst_ballots leader inst"
  shows "h = h'"
proof -
  have view: "v = oi_View inst" if "fmlookup (vt_votes (oi_pCert inst) v) self = Some m" for v m
    using assms(1) that unfolding inst_ok_def by blast
  have "m = m'" if "fmlookup (vt_votes (oi_pCert inst) v) self = Some m" "fmlookup (vt_votes (oi_pCert inst) v') self = Some m'" for v m v' m'
    using that view [OF that(1)] view [OF that(2)] by simp
  then show ?thesis using assms(2,3) by (fastforce simp: inst_ballots_def split: if_splits)
qed

lemma hash_quorum_ballots:
  assumes "hash_quorum f h inst" "fmlookup (od_olog d) k = Some inst" "0 \<le> f"
  shows "nat (2 * f + 1) \<le> card {i. (i, (k, False), VHash h) \<in> dq_ballots leader d}"
proof -
  have "{i. (i, (k, False), VHash h) \<in> dq_ballots leader d} = {i. \<exists>v m. fmlookup (vt_votes (oi_pCert inst) v) i = Some m \<and> sbytes (do_CommandHash m) = h}"
    using assms(2) by (auto simp: dq_ballots_def inst_ballots_def split: if_splits)
  with assms(1,3) show ?thesis by (simp add: hash_quorum_def)
qed

interpretation dq: ballot_replica "dq_node E" od_id "dq_inv E leader f" "dq_ballots leader" "dq_says E leader" "dq_decided f" "nat (2 * f + 1)"
proof
  fix s a s' assume "dq_inv E leader f s" "bn_act (dq_node E) a s = Some (Inr s')"
  then show "dq_inv E leader f s' \<and> od_id s' = od_id s \<and> dq_ballots leader s' \<subseteq> dq_ballots leader s \<union> {od_id s} \<times> UNIV
      \<and> dq_ballots leader s \<inter> {od_id s} \<times> UNIV \<subseteq> dq_ballots leader s'"
    using dq_do_good [of E leader f s a s' "{}"] by (auto simp: dq_node_def dq_good_def split: if_splits)
next
  fix s m s' assume "dq_inv E leader f s" "msg_From m \<noteq> od_id s" "bn_recv (dq_node E) m s = Some (Inr s')"
  then show "dq_inv E leader f s' \<and> od_id s' = od_id s \<and> dq_ballots leader s' \<subseteq> dq_ballots leader s \<union> {msg_From m} \<times> dq_says E leader m \<union> {od_id s} \<times> UNIV
      \<and> dq_ballots leader s \<inter> {od_id s} \<times> UNIV \<subseteq> dq_ballots leader s'"
    using dq_Step_good [of E leader f s m s'] by (auto simp: dq_node_def dq_good_def split: if_splits)
next
  fix s assume "dq_inv E leader f s"
  then have "dq_good E leader f {} s (od_ClearMsgs s)" by (rule dq_good_frame) (auto simp: od_ClearMsgs_def dq_conf_def dq_jobs_def)
  then show "dq_inv E leader f (bn_clear (dq_node E) s) \<and> od_id (bn_clear (dq_node E) s) = od_id s \<and> dq_ballots leader (bn_clear (dq_node E) s) = dq_ballots leader s"
    by (simp add: dq_node_def dq_good_def) (simp add: dq_ballots_def od_ClearMsgs_def)
next
  fix s m assume "dq_inv E leader f s" "m \<in> set (bn_out (dq_node E) s)"
  then show "msg_From m = od_id s \<and> msg_To m \<noteq> od_id s \<and> {od_id s} \<times> dq_says E leader m \<subseteq> dq_ballots leader s"
    using dq_inv_msg by (simp add: dq_node_def od_MakeReady_def)
next
  fix s k h h' assume "dq_inv E leader f s" "(od_id s, k, h) \<in> dq_ballots leader s" "(od_id s, k, h') \<in> dq_ballots leader s"
  then obtain x b inst where "k = (x, b)" "fmlookup (od_olog s) x = Some inst" "(od_id s, b, h) \<in> inst_ballots leader inst" "(od_id s, b, h') \<in> inst_ballots leader inst"
    "inst_ok leader f (od_id s) (od_oindex s) x inst" by (auto simp: dq_ballots_def dq_inv_def)
  then show "h = h'" by (blast intro: inst_own_unique)
next
  fix s k h assume "dq_inv E leader f s" "(k, h) \<in> dq_decided f s"
  then show "nat (2 * f + 1) \<le> card {i. (i, k, h) \<in> dq_ballots leader s}"
    by (auto simp: dq_decided_def dq_inv_def intro: hash_quorum_ballots)
qed

end
