(* ===== verification/DQPBFT_Safety.thy ===== *)
theory DQPBFT_Safety
  imports DQPBFT_Local Linear
begin

text \<open>
  Agreement of the ordering layer of DQPBFT, and its limits: what the batches of two replicas have in common, and a run in which one Byzantine node makes two correct replicas
  execute different commands for one identifier.
\<close>

subsection \<open>The start\<close>

definition dq_leader :: "od_config \<Rightarrow> PeerID" where
  "dq_leader c = word_of_int (sint (cfg_LeaderID c) smod int (length (cfg_Peers c)))"

definition dq_start :: "od_config \<Rightarrow> PeerID list \<Rightarrow> (PeerID, DQPBFT) fmap" where
  "dq_start c byz = bl_boot NewDQPBFT (\<lambda>r. c\<lparr>cfg_ID := r\<rparr>) (cfg_Peers c) byz"

lemma dq_pool_empty: "startDispatcher c n = Inr p \<Longrightarrow> pool_jobs p = {#}"
  by (auto simp: startDispatcher_def Dispatcher_Run_def NewDispatcher_def pool_jobs_def unfinished_def split: option.splits)

lemma NewDQPBFT_inv:
  assumes "NewDQPBFT c = Inr d" "dq_env_ok E" "0 \<le> cfg_MaxFailures c" "cfg_Peers c \<noteq> []"
  shows "dq_inv E (dq_leader c) (cfg_MaxFailures c) d \<and> od_id d = cfg_ID c \<and> dq_ballots leader d = {}"
  using assms
  by (auto simp: NewDQPBFT_def od_new_def ordered.defs dq_inv_def dq_ballots_def dq_pending_ok_def dq_jobs_def od_isPrimaryAtView_def dq_leader_def go_simps dest!: dq_pool_empty)

lemma dq_start_fresh:
  assumes "dq_env_ok E" "0 \<le> cfg_MaxFailures c"
  shows "dq.fresh_cluster E (dq_leader c) (cfg_MaxFailures c) (cfg_Peers c) byz (dq_start c byz)"
proof -
  have "dq_inv E (dq_leader c) (cfg_MaxFailures c) s \<and> od_id s = r \<and> r \<in> set (cfg_Peers c) \<and> r \<notin> set byz \<and> dq_ballots (dq_leader c) s = {}"
    if "fmlookup (dq_start c byz) r = Some s" for r s
  proof -
    have b: "NewDQPBFT (c\<lparr>cfg_ID := r\<rparr>) = Inr s" "r \<in> set (cfg_Peers c)" "r \<notin> set byz" using bl_boot_Inr [OF that [unfolded dq_start_def]] by auto
    moreover have "cfg_Peers c \<noteq> []" using b(2) by auto
    moreover have "dq_leader (c\<lparr>cfg_ID := r\<rparr>) = dq_leader c" by (simp add: dq_leader_def)
    ultimately show ?thesis using NewDQPBFT_inv [OF b(1) assms(1), of "dq_leader c"] assms(2) by simp
  qed
  then show ?thesis by (simp add: dq.fresh_cluster_def)
qed

subsection \<open>Agreement on batches\<close>

lemma dq_vote_nonempty:
  assumes "dq_inv E leader f s" "(od_id s, (k, False), VHash h) \<in> dq_ballots leader s"
  shows "h \<noteq> []"
proof -
  obtain inst where "fmlookup (od_olog s) k = Some inst" "(od_id s, False, VHash h) \<in> inst_ballots leader inst" using assms(2) by (auto simp: dq_ballots_def)
  moreover from this have "inst_ok leader f (od_id s) (od_oindex s) k inst" using assms(1) by (simp add: dq_inv_def)
  ultimately show ?thesis by (auto simp: inst_ballots_def inst_ok_def split: if_splits)
qed

lemma dq_prepd_decided:
  assumes c: "dq.cluster_inv E leader f nodes byz S" and s: "fmlookup (bs_reps S) r = Some s" "fmlookup (od_olog s) k = Some inst" "dq_prepd inst"
    and byz: "int (card (set byz)) \<le> f"
  obtains h where "oi_CommandHash inst = Some h" "((k, False), VHash h) \<in> dq_decided f s"
proof -
  have inv: "dq_inv E leader f s" using c s(1) by (auto simp: dq.cluster_inv_def)
  then have "inst_ok leader f (od_id s) (od_oindex s) k inst" "0 \<le> f" using s(2) by (auto simp: dq_inv_def)
  then obtain h where h: "hash_quorum f h inst" "h \<noteq> [] \<Longrightarrow> oi_CommandHash inst = Some h" using s(3) unfolding inst_ok_def by blast
  have dec: "((k, False), VHash h) \<in> dq_decided f s" using h(1) s(2,3) by (auto simp: dq_decided_def)
  have "card (set byz) < nat (2 * f + 1)" using byz \<open>0 \<le> f\<close> by linarith
  from dq.correct_in_quorum [OF c s(1) dec this] obtain i t where "(i, (k, False), VHash h) \<in> dq_ballots leader t" "dq_inv E leader f t" "od_id t = i" by blast
  then have "h \<noteq> []" using dq_vote_nonempty by blast
  with h(2) dec show thesis by (intro that)
qed

subsection \<open>A run\<close>

text \<open>An encoder of messages: numbers in unary, lists with their length.\<close>

fun read_ids :: "nat \<Rightarrow> bytes \<Rightarrow> InstanceID list \<times> bytes" where
  "read_ids 0 b = ([], b)"
| "read_ids (Suc n) b = (case read_unary b of (r, b1) \<Rightarrow> case read_unary b1 of (i, b2) \<Rightarrow> case read_ids n b2 of (ids, b3) \<Rightarrow>
     (\<lparr>iid_ReplicaID = r, iid_Index = i\<rparr> # ids, b3))"

definition write_ids :: "InstanceID list \<Rightarrow> bytes" where
  "write_ids ids = concat (map (\<lambda>i. unary (iid_ReplicaID i) @ unary (iid_Index i)) ids)"

lemma read_ids_write: "read_ids (length ids) (write_ids ids @ b) = (ids, b)"
  by (induction ids) (simp_all add: write_ids_def)

definition write_nat :: "nat \<Rightarrow> bytes" where
  "write_nat n = replicate n 0 @ [1]"

definition read_nat :: "bytes \<Rightarrow> nat \<times> bytes" where
  "read_nat b = (length (takeWhile (\<lambda>x. x = 0) b), tl (dropWhile (\<lambda>x. x = 0) b))"

lemma read_nat_write [simp]: "read_nat (write_nat n @ b) = (n, b)"
  by (simp add: read_nat_def write_nat_def takeWhile_replicate_append dropWhile_replicate_append)

fun type_nat :: "AgreementMessage_Type \<Rightarrow> nat" where
  "type_nat AMT_PrePrepare = 0"
| "type_nat AMT_Prepare = 1"
| "type_nat AMT_Commit = 2"
| "type_nat (AMT_Unknown n) = n + 3"

definition nat_type :: "nat \<Rightarrow> AgreementMessage_Type" where
  "nat_type n = (if n = 0 then AMT_PrePrepare else if n = 1 then AMT_Prepare else if n = 2 then AMT_Commit else AMT_Unknown (n - 3))"

lemma nat_type_nat [simp]: "nat_type (type_nat t) = t"
  by (cases t) (simp_all add: nat_type_def)

definition ex_dq_marshal :: "DQPBFTMessage \<Rightarrow> bytes" where
  "ex_dq_marshal w =
     (case w of
        DQPBFTMessage_Agreement m \<Rightarrow> 0 # write_nat (type_nat (da_Type m)) @ unary (da_View m) @ write_ids [da_InstanceID m] @
          (case da_Command m of None \<Rightarrow> [0] | Some c \<Rightarrow> 1 # unary (cmd_Timestamp c)) @ sbytes (da_CommandHash m)
      | DQPBFTMessage_OAgreement m \<Rightarrow> 1 # write_nat (type_nat (do_Type m)) @ unary (do_View m) @ unary (do_Index m) @
          write_nat (length (do_Instances m)) @ write_ids (do_Instances m) @ sbytes (do_CommandHash m)
      | DQPBFTMessage_Unset \<Rightarrow> [])"

definition read_slice :: "bytes \<Rightarrow> slice" where
  "read_slice h = (if h = [] then None else Some h)"

definition ex_dq_unmarshal :: "bytes \<Rightarrow> DQPBFTMessage option" where
  "ex_dq_unmarshal b =
     (case b of
        [] \<Rightarrow> Some DQPBFTMessage_Unset
      | k # b0 \<Rightarrow> case read_nat b0 of (t, b1) \<Rightarrow> case read_unary b1 of (v, b2) \<Rightarrow>
          if k = 0 then (case read_ids 1 b2 of (ids, b3) \<Rightarrow> case read_command b3 of (c, h) \<Rightarrow>
            Some (DQPBFTMessage_Agreement \<lparr>da_View = v, da_InstanceID = hd ids, da_Type = nat_type t, da_Command = c, da_CommandHash = read_slice h\<rparr>))
          else (case read_unary b2 of (i, b3) \<Rightarrow> case read_nat b3 of (n, b4) \<Rightarrow> case read_ids n b4 of (ids, h) \<Rightarrow>
            Some (DQPBFTMessage_OAgreement \<lparr>do_View = v, do_Index = i, do_Type = nat_type t, do_Instances = ids, do_CommandHash = read_slice h\<rparr>)))"

definition ex_dq_env :: dq_env where
  "ex_dq_env = \<lparr>env_sha256 = (\<lambda>b. 7 # b), env_marshalCommand = (\<lambda>c. Some [ucast (cmd_Timestamp c)]), env_createSignedCertificate = (\<lambda>_. replicate 32 0),
     env_verifyCertificate = (\<lambda>_ _. True), env_rangeOrder = (\<lambda>ks. ks), env_marshalDQ = ex_dq_marshal, env_unmarshalDQ = ex_dq_unmarshal\<rparr>"

lemma ex_dq_env_ok: "dq_env_ok ex_dq_env"
proof -
  have "\<exists>m'. ex_dq_unmarshal (ex_dq_marshal (DQPBFTMessage_OAgreement m)) = Some (DQPBFTMessage_OAgreement m') \<and> do_Type m' = do_Type m
      \<and> do_Index m' = do_Index m \<and> do_Instances m' = do_Instances m \<and> sbytes (do_CommandHash m') = sbytes (do_CommandHash m)" for m
    by (simp add: ex_dq_unmarshal_def ex_dq_marshal_def read_ids_write read_slice_def)
  moreover have "\<exists>m'. ex_dq_unmarshal (ex_dq_marshal (DQPBFTMessage_Agreement m)) = Some (DQPBFTMessage_Agreement m')" for m
    by (simp add: ex_dq_unmarshal_def ex_dq_marshal_def split: prod.split)
  ultimately show ?thesis by (simp add: dq_env_ok_def ex_dq_env_def)
qed

definition ex_dq_cfg :: od_config where
  "ex_dq_cfg = \<lparr>cfg_ID = 0, cfg_Peers = [0, 1, 2, 3], cfg_LeaderID = 0, cfg_MaxFailures = 1,
     cfg_Workers = fmap_of_list [(''mac_sign'', 1)], cfg_WorkersQueueSizes = fmap_of_list [(''mac_sign'', 1)], cfg_DqOBatchSize = 1, cfg_DqOBatchTimeout = 5\<rparr>"

definition ex_dq_msg :: "DQPBFTMessage \<Rightarrow> PeerID \<Rightarrow> PeerID \<Rightarrow> Message" where
  "ex_dq_msg w frm to = \<lparr>msg_From = frm, msg_To = to, msg_Content = ex_dq_marshal w, msg_Certificate = replicate 32 0\<rparr>"

text \<open>Messages on the command of replica 0 with index 0 and on batch 0, which holds just that command.\<close>

definition ex_cmd_msg :: "AgreementMessage_Type \<Rightarrow> u64 \<Rightarrow> DQPBFTMessage" where
  "ex_cmd_msg t x = DQPBFTMessage_Agreement \<lparr>da_View = 0, da_InstanceID = \<lparr>iid_ReplicaID = 0, iid_Index = 0\<rparr>, da_Type = t,
     da_Command = (if t = AMT_PrePrepare then Some (ex_command x) else None), da_CommandHash = (if t = AMT_PrePrepare then None else Command_Hash ex_dq_env (ex_command x))\<rparr>"

definition ex_ord_msg :: "AgreementMessage_Type \<Rightarrow> DQPBFTMessage" where
  "ex_ord_msg t = DQPBFTMessage_OAgreement \<lparr>do_View = 0, do_Index = 0, do_Type = t,
     do_Instances = (if t = AMT_PrePrepare then [\<lparr>iid_ReplicaID = 0, iid_Index = 0\<rparr>] else []),
     do_CommandHash = (if t = AMT_PrePrepare then None else Some (batch_hash ex_dq_env [\<lparr>iid_ReplicaID = 0, iid_Index = 0\<rparr>]))\<rparr>"

definition ex_dq_flush :: "PeerID \<Rightarrow> dq_act bl_act list" where
  "ex_dq_flush r = [BLocal r DTake, BLocal r DAssign, BLocal r (DFinish 0), BLocal r DAsync, BSend r]"

definition ex_dq_byz :: "DQPBFTMessage \<Rightarrow> PeerID \<Rightarrow> dq_act bl_act list" where
  "ex_dq_byz w to = [BByz (ex_dq_msg w 3 to), BDeliver (ex_dq_msg w 3 to)]"

text \<open>
  Node 3 is Byzantine and announces command 1 under replica 0's first identifier to the replicas 0 and 1, which commit it. Then replica 0 receives command 2 from a client
  and announces it under the same identifier; node 2 commits this one. The leader's batch 0 with the identifier is committed by the replicas 1 and 2.
\<close>

definition ex_dq_run :: "dq_act bl_act list" where
  "ex_dq_run =
     ex_dq_byz (ex_cmd_msg AMT_PrePrepare 1) 0 @ ex_dq_byz (ex_cmd_msg AMT_PrePrepare 1) 1 @ ex_dq_flush 0 @ ex_dq_flush 0 @ ex_dq_flush 1
     @ BDeliver (ex_dq_msg (ex_cmd_msg AMT_Prepare 1) 0 1) # BDeliver (ex_dq_msg (ex_cmd_msg AMT_Prepare 1) 1 0) # ex_dq_flush 0 @ ex_dq_flush 1
     @ BDeliver (ex_dq_msg (ex_cmd_msg AMT_Commit 1) 0 1) # ex_dq_byz (ex_cmd_msg AMT_Commit 1) 1
     @ BLocal 0 (DRequest (ex_command 2)) # ex_dq_flush 0
     @ BDeliver (ex_dq_msg (ex_cmd_msg AMT_PrePrepare 2) 0 2) # ex_dq_byz (ex_cmd_msg AMT_Prepare 2) 2 @ ex_dq_flush 2 @ ex_dq_flush 2
     @ BDeliver (ex_dq_msg (ex_cmd_msg AMT_Prepare 2) 2 0) # ex_dq_byz (ex_cmd_msg AMT_Prepare 2) 0 @ ex_dq_flush 0 @ ex_dq_flush 0
     @ BDeliver (ex_dq_msg (ex_cmd_msg AMT_Commit 2) 0 2) # ex_dq_byz (ex_cmd_msg AMT_Commit 2) 2
     @ BDeliver (ex_dq_msg (ex_ord_msg AMT_PrePrepare) 0 1) # BDeliver (ex_dq_msg (ex_ord_msg AMT_PrePrepare) 0 2) # ex_dq_flush 1 @ ex_dq_flush 2
     @ BDeliver (ex_dq_msg (ex_ord_msg AMT_Prepare) 1 2) # BDeliver (ex_dq_msg (ex_ord_msg AMT_Prepare) 2 1) # ex_dq_flush 1 @ ex_dq_flush 2
     @ BDeliver (ex_dq_msg (ex_ord_msg AMT_Commit) 1 2) # BDeliver (ex_dq_msg (ex_ord_msg AMT_Commit) 2 1)
     # ex_dq_byz (ex_ord_msg AMT_Commit) 1 @ ex_dq_byz (ex_ord_msg AMT_Commit) 2"

definition ex_dq_end :: "DQPBFT bl_sys option" where
  "ex_dq_end = bl_run (dq_node ex_dq_env) [3] ex_dq_run (bl_init (dq_start ex_dq_cfg [3]))"

text \<open>What a replica has executed, and the state of its batch 0.\<close>

definition ex_dq_view :: "PeerID \<Rightarrow> DQPBFT bl_sys option \<Rightarrow> (u64 list \<times> (od_status \<times> InstanceID list) option) option" where
  "ex_dq_view r S = (case S of None \<Rightarrow> None | Some S \<Rightarrow> case fmlookup (bs_reps S) r of None \<Rightarrow> None
     | Some d \<Rightarrow> Some (map (cmd_Timestamp \<circ> ep_Cmd) (od_executedCmds d), map_option (\<lambda>inst. (oi_Status inst, oi_Instances inst)) (fmlookup (od_olog d) 0)))"

lemma ex_dq_end_views:
  "map (\<lambda>r. ex_dq_view r ex_dq_end) [1, 2] = [Some ([1], Some (OS_Executed, [\<lparr>iid_ReplicaID = 0, iid_Index = 0\<rparr>])), Some ([2], Some (OS_Executed, [\<lparr>iid_ReplicaID = 0, iid_Index = 0\<rparr>]))]"
  by code_simp

lemma ex_dq_viewD:
  assumes "ex_dq_view r S = Some (cs, Some (st, ids))"
  obtains S' d inst where "S = Some S'" "fmlookup (bs_reps S') r = Some d" "fmlookup (od_olog d) 0 = Some inst" "oi_Status inst = st" "oi_Instances inst = ids"
    "map (cmd_Timestamp \<circ> ep_Cmd) (od_executedCmds d) = cs"
  using assms by (auto simp: ex_dq_view_def split: option.splits)

lemma ex_dq_end_facts:
  obtains S d1 d2 i1 i2 where "bl_reachable (dq_node ex_dq_env) [3] (dq_start ex_dq_cfg [3]) S"
    "fmlookup (bs_reps S) 1 = Some d1" "fmlookup (od_olog d1) 0 = Some i1" "oi_Status i1 = OS_Executed"
    "fmlookup (bs_reps S) 2 = Some d2" "fmlookup (od_olog d2) 0 = Some i2" "oi_Status i2 = OS_Executed"
    "oi_Instances i1 = [\<lparr>iid_ReplicaID = 0, iid_Index = 0\<rparr>]"
    "map (cmd_Timestamp \<circ> ep_Cmd) (od_executedCmds d1) = [1]" "map (cmd_Timestamp \<circ> ep_Cmd) (od_executedCmds d2) = [2]"
proof -
  have v: "ex_dq_view 1 ex_dq_end = Some ([1], Some (OS_Executed, [\<lparr>iid_ReplicaID = 0, iid_Index = 0\<rparr>]))"
    "ex_dq_view 2 ex_dq_end = Some ([2], Some (OS_Executed, [\<lparr>iid_ReplicaID = 0, iid_Index = 0\<rparr>]))"
    using ex_dq_end_views by simp_all
  from ex_dq_viewD [OF v(1)] obtain S d1 i1 where S: "ex_dq_end = Some S" "fmlookup (bs_reps S) 1 = Some d1" "fmlookup (od_olog d1) 0 = Some i1"
    "oi_Status i1 = OS_Executed" "oi_Instances i1 = [\<lparr>iid_ReplicaID = 0, iid_Index = 0\<rparr>]" "map (cmd_Timestamp \<circ> ep_Cmd) (od_executedCmds d1) = [1]" by metis
  from ex_dq_viewD [OF v(2)] obtain S' d2 i2 where S': "ex_dq_end = Some S'" "fmlookup (bs_reps S') 2 = Some d2" "fmlookup (od_olog d2) 0 = Some i2"
    "oi_Status i2 = OS_Executed" "map (cmd_Timestamp \<circ> ep_Cmd) (od_executedCmds d2) = [2]" by metis
  have r: "bl_reachable (dq_node ex_dq_env) [3] (dq_start ex_dq_cfg [3]) S"
    using S(1) bl_run_reachable [OF _ bl_start] by (simp add: ex_dq_end_def)
  have "S' = S" using trans [OF S(1) [symmetric] S'(1)] by (rule option.inject [THEN iffD1, symmetric])
  with S'(2) have "fmlookup (bs_reps S) 2 = Some d2" by simp
  then show thesis by (rule that [OF r S(2-4) _ S'(3,4) S(5,6) S'(5)])
qed




end
