(* ===== verification/HybsterX_Runs.thy ===== *)
theory HybsterX_Runs
  imports Ordered_Peer DQPBFT_Safety
begin

text \<open>
  HybsterX replicas with their worker pools and enclaves as a cluster, and two runs: one in which certificates of genuine enclaves do not prevent that two correct replicas
  execute different commands, and one without faulty nodes in which two messages that change places end the process of a replica.
\<close>

datatype hx_act = HRequest Command | HTick | HAsync | HTake | HSend | HReceive nat | HFinish nat | HApply

definition hx_pool :: "((hx_job, bytes) BucketDispatcher \<Rightarrow> (hx_job, bytes) BucketDispatcher option) \<Rightarrow> hybsterx \<Rightarrow> hybsterx go option" where
  "hx_pool g p = map_option (\<lambda>b. Inr (p\<lparr>hx_signDispatcher := b\<rparr>)) (g (hx_signDispatcher p))"

text \<open>Worker \<open>w\<close> calls the enclave with its job; a panic in the worker ends the process.\<close>

definition hx_finish :: "hx_env \<Rightarrow> nat \<Rightarrow> hybsterx \<Rightarrow> hybsterx go option" where
  "hx_finish E w p =
     (let b = hx_signDispatcher p in
      if w < length (b_running b) then
        (case b_running b ! w of
           None \<Rightarrow> None
         | Some j \<Rightarrow> (case hx_sign E j p of
             Inl e \<Rightarrow> Some (Inl e)
           | Inr (cert, x) \<Rightarrow> map_option (\<lambda>b'. Inr (p\<lparr>hx_signDispatcher := b', hx_certifier := x\<rparr>)) (bucket_finish (\<lambda>_. cert) w b)))
      else None)"

fun hx_do :: "hx_env \<Rightarrow> hx_act \<Rightarrow> hybsterx \<Rightarrow> hybsterx go option" where
  "hx_do E (HRequest cmd) p = Some (hx_Request E cmd p)"
| "hx_do E HTick p = Some (hx_Tick E p)"
| "hx_do E HAsync p = Some (hx_AsyncCallback p)"
| "hx_do E HTake p = hx_pool bucket_take p"
| "hx_do E HSend p = map_option (\<lambda>r. go_bind r (\<lambda>b. Inr (p\<lparr>hx_signDispatcher := b\<rparr>))) (bucket_send (hx_signDispatcher p))"
| "hx_do E (HReceive w) p = hx_pool (bucket_receive w) p"
| "hx_do E (HFinish w) p = hx_finish E w p"
| "hx_do E HApply p = Some (Inr (od_ClearExecutedCommands p))"

definition hx_node :: "hx_env \<Rightarrow> (hx_act, hybsterx) bl_node" where
  "hx_node E = \<lparr>bn_act = hx_do E, bn_recv = (\<lambda>m p. Some (hx_Step E m p)), bn_out = (\<lambda>p. rd_Messages (od_MakeReady p)), bn_clear = od_ClearMsgs\<rparr>"

definition hx_start :: "hx_config \<Rightarrow> PeerID list \<Rightarrow> (PeerID, hybsterx) fmap" where
  "hx_start c byz = bl_boot NewHybsterx (\<lambda>r. c\<lparr>cfg_ID := r\<rparr>) (cfg_Peers c) byz"

subsection \<open>An environment\<close>

fun hx_type_nat :: "HxType \<Rightarrow> nat" where
  "hx_type_nat HX_None = 0"
| "hx_type_nat HX_Prepare = 1"
| "hx_type_nat HX_Commit = 2"
| "hx_type_nat (HX_Unknown n) = n + 3"

definition hx_nat_type :: "nat \<Rightarrow> HxType" where
  "hx_nat_type n = (if n = 0 then HX_None else if n = 1 then HX_Prepare else if n = 2 then HX_Commit else HX_Unknown (n - 3))"

definition ex_hx_marshal :: "HybsterxMessage \<Rightarrow> bytes" where
  "ex_hx_marshal w =
     (case w of
        HybsterxMessage_Normal m \<Rightarrow> 0 # write_nat (hx_type_nat (hn_Type m)) @ unary (hn_View m) @ write_ids [hn_InstanceID m] @
          (case hn_Command m of None \<Rightarrow> [0] | Some c \<Rightarrow> 1 # unary (cmd_Timestamp c)) @ sbytes (hn_CommandHash m)
      | HybsterxMessage_ONormal m \<Rightarrow> 1 # write_nat (hx_type_nat (ho_Type m)) @ unary (ho_View m) @ unary (ho_Index m) @
          write_nat (length (ho_Instances m)) @ write_ids (ho_Instances m) @ sbytes (ho_CommandHash m)
      | HybsterxMessage_Unset \<Rightarrow> [])"

definition ex_hx_unmarshal :: "bytes \<Rightarrow> HybsterxMessage option" where
  "ex_hx_unmarshal b =
     (case b of
        [] \<Rightarrow> Some HybsterxMessage_Unset
      | k # b0 \<Rightarrow> case read_nat b0 of (t, b1) \<Rightarrow> case read_unary b1 of (v, b2) \<Rightarrow>
          if k = 0 then (case read_ids 1 b2 of (ids, b3) \<Rightarrow> case read_command b3 of (c, h) \<Rightarrow>
            Some (HybsterxMessage_Normal \<lparr>hn_View = v, hn_InstanceID = hd ids, hn_Type = hx_nat_type t, hn_Command = c, hn_CommandHash = read_slice h\<rparr>))
          else (case read_unary b2 of (i, b3) \<Rightarrow> case read_nat b3 of (n, b4) \<Rightarrow> case read_ids n b4 of (ids, h) \<Rightarrow>
            Some (HybsterxMessage_ONormal \<lparr>ho_View = v, ho_Index = i, ho_Type = hx_nat_type t, ho_Instances = ids, ho_CommandHash = read_slice h\<rparr>)))"

definition ex_hx_env :: hx_env where
  "ex_hx_env = \<lparr>env_sha256 = (\<lambda>b. 7 # b), env_marshalCommand = (\<lambda>c. Some [ucast (cmd_Timestamp c)]), env_createSignedCertificate = (\<lambda>_. []),
     env_verifyCertificate = (\<lambda>_ _. True), env_rangeOrder = (\<lambda>ks. ks), env_marshalHx = ex_hx_marshal, env_unmarshalHx = ex_hx_unmarshal, env_hmac = ex_hmac\<rparr>"

definition ex_hx_cfg :: hx_config where
  "ex_hx_cfg = \<lparr>cfg_ID = 0, cfg_Peers = [0, 1, 2], cfg_LeaderID = 0, cfg_MaxFailures = 1,
     cfg_Workers = fmap_of_list [(''mac_sign'', 1)], cfg_WorkersQueueSizes = fmap_of_list [(''mac_sign'', 1)], cfg_DqOBatchSize = 1, cfg_DqOBatchTimeout = 5,
     cfg_SecretKeys = [[1]]\<rparr>"

text \<open>The certificate of an enclave with the common key for a message.\<close>

definition ex_hx_cert :: "HybsterxMessage \<Rightarrow> bytes" where
  "ex_hx_cert w =
     (case w of
        HybsterxMessage_Normal m \<Rightarrow> generate_hmac ex_hmac [1] (ucast (iid_ReplicaID (hn_InstanceID m))) None (hx_counter (hn_View m) (iid_Index (hn_InstanceID m))) (ex_hx_marshal w)
      | HybsterxMessage_ONormal m \<Rightarrow> generate_hmac ex_hmac [1] 3 None (hx_counter (ho_View m) (ho_Index m)) (ex_hx_marshal w)
      | HybsterxMessage_Unset \<Rightarrow> [])"

definition ex_hx_msg :: "HybsterxMessage \<Rightarrow> PeerID \<Rightarrow> PeerID \<Rightarrow> Message" where
  "ex_hx_msg w frm to = \<lparr>msg_From = frm, msg_To = to, msg_Content = ex_hx_marshal w, msg_Certificate = ex_hx_cert w\<rparr>"

definition ex_hx_prepare :: "u64 \<Rightarrow> InstanceID \<Rightarrow> u64 \<Rightarrow> slice \<Rightarrow> HybsterxMessage" where
  "ex_hx_prepare v i x h = HybsterxMessage_Normal \<lparr>hn_View = v, hn_InstanceID = i, hn_Type = HX_Prepare, hn_Command = Some (ex_command x), hn_CommandHash = h\<rparr>"

definition ex_hx_flush :: "PeerID \<Rightarrow> hx_act bl_act list" where
  "ex_hx_flush r = [BLocal r HTake, BLocal r HSend, BLocal r (HReceive 0), BLocal r (HFinish 0), BLocal r HAsync, BSend r]"

subsection \<open>Two views\<close>

text \<open>
  Three nodes, node 2 Byzantine. It announces command 1 to replica 0 in view 0 and command 2 to replica 1 in view 1, both as its first command: its enclave certifies both, one
  after the other. Each replica has the two votes it needs in the view it has heard of. The leader 0 orders the command.
\<close>

abbreviation ex_hx_id :: InstanceID where
  "ex_hx_id \<equiv> \<lparr>iid_ReplicaID = 2, iid_Index = 0\<rparr>"

definition ex_hx_order :: "HxType \<Rightarrow> HybsterxMessage" where
  "ex_hx_order t = HybsterxMessage_ONormal \<lparr>ho_View = 0, ho_Index = 0, ho_Type = t, ho_Instances = (if t = HX_Prepare then [ex_hx_id] else []),
     ho_CommandHash = Some (batch_hash ex_hx_env [ex_hx_id])\<rparr>"

definition ex_hx_run :: "hx_act bl_act list" where
  "ex_hx_run =
     [BByz (ex_hx_msg (ex_hx_prepare 0 ex_hx_id 1 None) 2 0), BDeliver (ex_hx_msg (ex_hx_prepare 0 ex_hx_id 1 None) 2 0),
      BByz (ex_hx_msg (ex_hx_prepare 1 ex_hx_id 2 None) 2 1), BDeliver (ex_hx_msg (ex_hx_prepare 1 ex_hx_id 2 None) 2 1)]
     @ ex_hx_flush 0 @ ex_hx_flush 1 @ ex_hx_flush 0 @ [BDeliver (ex_hx_msg (ex_hx_order HX_Prepare) 0 1)] @ ex_hx_flush 1
     @ [BDeliver (ex_hx_msg (ex_hx_order HX_Commit) 1 0)]"

definition ex_hx_end :: "hybsterx bl_sys option" where
  "ex_hx_end = bl_run (hx_node ex_hx_env) [2] ex_hx_run (bl_init (hx_start ex_hx_cfg [2]))"

definition ex_hx_view :: "PeerID \<Rightarrow> hybsterx bl_sys option \<Rightarrow> u64 list option" where
  "ex_hx_view r S = (case S of None \<Rightarrow> None | Some S \<Rightarrow> map_option (\<lambda>p. map (cmd_Timestamp \<circ> ep_Cmd) (od_executedCmds p)) (fmlookup (bs_reps S) r))"

lemma ex_hx_end_views: "map (\<lambda>r. ex_hx_view r ex_hx_end) [0, 1] = [Some [1], Some [2]]"
  by code_simp

text \<open>The two announcements of node 2 with their certificates come from one enclave.\<close>

definition ex_hx_enclave :: "TrInx go" where
  "ex_hx_enclave = go_bind (trinx_init [1] 4 3) (\<lambda>x0.
     go_bind (CreateIndependentCounterCertificate ex_hmac (ex_hx_marshal (ex_hx_prepare 0 ex_hx_id 1 None)) (hx_counter 0 0) 2 x0) (\<lambda>(c1, x1).
     go_bind (CreateIndependentCounterCertificate ex_hmac (ex_hx_marshal (ex_hx_prepare 1 ex_hx_id 2 None)) (hx_counter 1 0) 2 x1) (\<lambda>(c2, x2).
     if c1 = ex_hx_cert (ex_hx_prepare 0 ex_hx_id 1 None) \<and> c2 = ex_hx_cert (ex_hx_prepare 1 ex_hx_id 2 None) then Inr x2 else Inl PanicCall)))"

lemma map_sum_InrD: "map_sum f g s = Inr y \<Longrightarrow> \<exists>x. s = Inr x"
  by (cases s) auto

lemma ex_hx_enclave_ok: "map_sum id tx_counters ex_hx_enclave = Inr [0, 0, hx_counter 1 0, 0]"
  by code_simp

text \<open>
  Claim C33. One Byzantine HybsterX node of three, whose only two messages carry certificates that its enclave gives one after the other, makes two correct replicas execute different
  commands for its first identifier: the view is a part of the counter's value and any view is accepted, so that the enclave certifies a command for each view.
\<close>

theorem hx_view_equivocation:
  "(\<exists>x. ex_hx_enclave = Inr x)
   \<and> filter (\<lambda>a. case a of BByz _ \<Rightarrow> True | _ \<Rightarrow> False) ex_hx_run = [BByz (ex_hx_msg (ex_hx_prepare 0 ex_hx_id 1 None) 2 0), BByz (ex_hx_msg (ex_hx_prepare 1 ex_hx_id 2 None) 2 1)]
   \<and> (\<exists>(S :: hybsterx bl_sys) p0 p1. bl_run (hx_node ex_hx_env) [2] ex_hx_run (bl_init (hx_start ex_hx_cfg [2])) = Some S
     \<and> fmlookup (bs_reps S) 0 = Some p0 \<and> fmlookup (bs_reps S) 1 = Some p1
     \<and> map (cmd_Timestamp \<circ> ep_Cmd) (od_executedCmds p0) = [1] \<and> map (cmd_Timestamp \<circ> ep_Cmd) (od_executedCmds p1) = [2])"
proof -
  have v: "ex_hx_view 0 ex_hx_end = Some [1]" "ex_hx_view 1 ex_hx_end = Some [2]" using ex_hx_end_views by simp_all
  then obtain S where S: "ex_hx_end = Some S" by (auto simp: ex_hx_view_def split: option.splits)
  moreover from v obtain p0 p1 where "fmlookup (bs_reps S) 0 = Some p0" "fmlookup (bs_reps S) 1 = Some p1"
    "map (cmd_Timestamp \<circ> ep_Cmd) (od_executedCmds p0) = [1]" "map (cmd_Timestamp \<circ> ep_Cmd) (od_executedCmds p1) = [2]" unfolding ex_hx_view_def S by auto
  moreover have "\<exists>x. ex_hx_enclave = Inr x" by (rule map_sum_InrD [OF ex_hx_enclave_ok])
  ultimately show ?thesis unfolding ex_hx_end_def by (auto simp: ex_hx_run_def ex_hx_flush_def)
qed

subsection \<open>Messages that change places\<close>

text \<open>Replica 2 receives two commands and announces them; replica 1 hears of the second one first.\<close>

definition ex_hx_own :: "u64 \<Rightarrow> HybsterxMessage" where
  "ex_hx_own i = ex_hx_prepare 2 \<lparr>iid_ReplicaID = 2, iid_Index = i\<rparr> i (Command_Hash ex_hx_env (ex_command i))"

definition ex_hx_swap :: "hx_act bl_act list" where
  "ex_hx_swap =
     [BLocal 2 (HRequest (ex_command 0)), BLocal 2 (HRequest (ex_command 1))] @ ex_hx_flush 2 @ ex_hx_flush 2
     @ [BDeliver (ex_hx_msg (ex_hx_own 1) 2 1), BDeliver (ex_hx_msg (ex_hx_own 0) 2 1)] @ ex_hx_flush 1
     @ [BLocal 1 HTake, BLocal 1 HSend, BLocal 1 (HReceive 0), BLocal 1 (HFinish 0)]"


end
