(* ===== verification/Hybster_Runs.thy ===== *)
theory Hybster_Runs
  imports Hybster_Local HybsterX_Runs
begin

text \<open>
  Clusters of Hybster replicas: no replica ever starts a view change, and one Byzantine node with a genuine enclave makes up a new view in which another command takes the place of an
  executed one.
\<close>

subsection \<open>An environment\<close>

definition write_bytes :: "bytes \<Rightarrow> bytes" where
  "write_bytes b = write_nat (length b) @ b"

definition read_bytes :: "bytes \<Rightarrow> bytes \<times> bytes" where
  "read_bytes b = (case read_nat b of (n, b1) \<Rightarrow> (take n b1, drop n b1))"

lemma read_bytes_write [simp]: "read_bytes (write_bytes x @ b) = (x, b)"
  by (simp add: read_bytes_def write_bytes_def)

definition write_support :: "Support \<Rightarrow> bytes" where
  "write_support s = write_bytes (su_RawMsg s) @ write_bytes (su_Cert s) @ unary (su_From s)"

definition read_support :: "bytes \<Rightarrow> Support \<times> bytes" where
  "read_support b = (case read_bytes b of (r, b1) \<Rightarrow> case read_bytes b1 of (c, b2) \<Rightarrow> case read_unary b2 of (f, b3) \<Rightarrow> (\<lparr>su_RawMsg = r, su_Cert = c, su_From = f\<rparr>, b3))"

lemma read_support_write [simp]: "read_support (write_support s @ b) = (s, b)"
  by (simp add: read_support_def write_support_def)

fun read_supports :: "nat \<Rightarrow> bytes \<Rightarrow> Support list \<times> bytes" where
  "read_supports 0 b = ([], b)"
| "read_supports (Suc n) b = (case read_support b of (s, b1) \<Rightarrow> case read_supports n b1 of (ss, b2) \<Rightarrow> (s # ss, b2))"

definition write_history :: "Support list \<Rightarrow> bytes" where
  "write_history ss = write_nat (length ss) @ concat (map write_support ss)"

definition read_history :: "bytes \<Rightarrow> Support list \<times> bytes" where
  "read_history b = (case read_nat b of (n, b1) \<Rightarrow> read_supports n b1)"

lemma read_supports_write: "read_supports (length ss) (concat (map write_support ss) @ b) = (ss, b)"
  by (induction ss) simp_all

lemma read_history_write [simp]: "read_history (write_history ss @ b) = (ss, b)"
  by (simp add: read_history_def write_history_def read_supports_write)

lemma read_history_write_end [simp]: "read_history (write_history ss) = (ss, [])"
  using read_history_write [of ss "[]"] by simp

fun hy_type_nat :: "HyType \<Rightarrow> nat" where
  "hy_type_nat HY_Prepare = 0"
| "hy_type_nat HY_Commit = 1"
| "hy_type_nat HY_ViewChange = 3"
| "hy_type_nat HY_NewView = 4"
| "hy_type_nat HY_NewViewAck = 5"
| "hy_type_nat (HY_Unknown n) = (if n = 0 then 2 else n + 5)"

definition hy_nat_type :: "nat \<Rightarrow> HyType" where
  "hy_nat_type n = (if n = 0 then HY_Prepare else if n = 1 then HY_Commit else if n = 2 then HY_Unknown 0 else if n = 3 then HY_ViewChange
     else if n = 4 then HY_NewView else if n = 5 then HY_NewViewAck else HY_Unknown (n - 5))"

lemma hy_nat_type_nat [simp]: "hy_nat_type (hy_type_nat t) = t"
  by (cases t) (simp_all add: hy_nat_type_def)

definition ex_hy_marshal :: "HybsterMessage \<Rightarrow> bytes" where
  "ex_hy_marshal w =
     (case w of
        HybsterMessage_Normal m \<Rightarrow> 0 # write_nat (hy_type_nat (yn_Type m)) @ unary (yn_View m) @ unary (yn_Order m) @
          (case yn_Command m of None \<Rightarrow> [0] | Some c \<Rightarrow> 1 # unary (cmd_Timestamp c)) @ sbytes (yn_CommandHash m)
      | HybsterMessage_ViewChange m \<Rightarrow> 1 # unary (yv_FromView m) @ unary (yv_ToView m) @ unary (yv_Order m) @ write_history (yv_History m)
      | HybsterMessage_NewView m \<Rightarrow> 2 # unary (nv_FromView m) @ unary (nv_ToView m) @ write_history (nv_History m) @ write_history (nv_Proof m)
      | HybsterMessage_NewViewAck m \<Rightarrow> 3 # unary (na_View m) @ write_history (na_History m)
      | HybsterMessage_Unset \<Rightarrow> [])"

definition ex_hy_unmarshal :: "bytes \<Rightarrow> HybsterMessage option" where
  "ex_hy_unmarshal b =
     (case b of
        [] \<Rightarrow> Some HybsterMessage_Unset
      | k # b0 \<Rightarrow>
          if k = 0 then (case read_nat b0 of (t, b1) \<Rightarrow> case read_unary b1 of (v, b2) \<Rightarrow> case read_unary b2 of (i, b3) \<Rightarrow> case read_command b3 of (c, h) \<Rightarrow>
            Some (HybsterMessage_Normal \<lparr>yn_Type = hy_nat_type t, yn_View = v, yn_Order = i, yn_Command = c, yn_CommandHash = read_slice h\<rparr>))
          else case read_unary b0 of (v, b1) \<Rightarrow>
            if k = 3 then (case read_history b1 of (h, _) \<Rightarrow> Some (HybsterMessage_NewViewAck \<lparr>na_View = v, na_History = h\<rparr>))
            else (case read_unary b1 of (w, b2) \<Rightarrow>
              if k = 1 then (case read_unary b2 of (i, b3) \<Rightarrow> case read_history b3 of (h, _) \<Rightarrow>
                Some (HybsterMessage_ViewChange \<lparr>yv_FromView = v, yv_ToView = w, yv_Order = i, yv_History = h\<rparr>))
              else (case read_history b2 of (h, b3) \<Rightarrow> case read_history b3 of (pf, _) \<Rightarrow>
                Some (HybsterMessage_NewView \<lparr>nv_FromView = v, nv_ToView = w, nv_History = h, nv_Proof = pf\<rparr>))))"

text \<open>The decoder reads back what was encoded; of a command it keeps the time stamp, and an empty hash becomes nil.\<close>

lemma ex_hy_roundtrip:
  "ex_hy_unmarshal (ex_hy_marshal (HybsterMessage_ViewChange vc)) = Some (HybsterMessage_ViewChange vc)"
  "ex_hy_unmarshal (ex_hy_marshal (HybsterMessage_NewView nv)) = Some (HybsterMessage_NewView nv)"
  "ex_hy_unmarshal (ex_hy_marshal (HybsterMessage_NewViewAck na)) = Some (HybsterMessage_NewViewAck na)"
  by (simp_all add: ex_hy_unmarshal_def ex_hy_marshal_def)

lemma ex_hy_roundtrip_normal:
  assumes "yn_Command m = None \<or> yn_Command m = Some (ex_command t)" "yn_CommandHash m \<noteq> Some []"
  shows "ex_hy_unmarshal (ex_hy_marshal (HybsterMessage_Normal m)) = Some (HybsterMessage_Normal m)"
proof -
  have "read_slice (sbytes h) = h" if "h \<noteq> Some []" for h using that by (cases h) (auto simp: read_slice_def)
  then have h: "read_slice (sbytes (yn_CommandHash m)) = yn_CommandHash m" using assms(2) .
  have "read_command ((case yn_Command m of None \<Rightarrow> [0] | Some c \<Rightarrow> 1 # unary (cmd_Timestamp c)) @ b) = (yn_Command m, b)" for b
    using assms(1) by (auto simp: read_command_def ex_command_def)
  then show ?thesis by (simp add: ex_hy_unmarshal_def ex_hy_marshal_def h)
qed

definition ex_hy_env :: hy_env where
  "ex_hy_env = \<lparr>env_sha256 = (\<lambda>b. 7 # b), env_marshalCommand = (\<lambda>c. Some [ucast (cmd_Timestamp c)]), env_createSignedCertificate = (\<lambda>_. []),
     env_verifyCertificate = (\<lambda>_ _. True), env_rangeOrder = (\<lambda>ks. ks), env_marshalHy = ex_hy_marshal, env_unmarshalHy = ex_hy_unmarshal, env_hyhmac = ex_hmac,
     env_sortPr = (\<lambda>less ps. foldr (\<lambda>a ps. takeWhile (\<lambda>b. less b a) ps @ a # dropWhile (\<lambda>b. less b a) ps) ps [])\<rparr>"

definition ex_hy_cfg :: hy_config where
  "ex_hy_cfg = \<lparr>cfg_ID = 0, cfg_Peers = [0, 1, 2], cfg_LeaderID = 0, cfg_MaxFailures = 1,
     cfg_Workers = fmempty, cfg_WorkersQueueSizes = fmap_of_list [(''mac_sign'', 1)], hy_config.cfg_SecretKeys = [[1]]\<rparr>"

subsection \<open>No view change starts\<close>

text \<open>
  Claim C13. In every reachable state of a cluster, whatever Byzantine nodes send, a correct Hybster replica is in its stable view, has stored no view change, and ignores every view
  change message: a view change is relevant only to a replica that has left its view, and a replica leaves its view only when a relevant view change arrives. A crashed leader is
  never replaced.
\<close>

theorem hy_no_view_change:
  assumes "0 \<le> cfg_MaxFailures c" "bl_reachable (hy_node E) byz (hy_start c byz) S" "fmlookup (bs_reps S) r = Some p"
  shows "hy_curView p = hy_stableView p \<and> hy_vmsgs p = [] \<and> hy_onViewChange E m content cert from p = Inr p"
proof -
  have "hy_settled p"
    by (rule bl_reachable_each [OF assms(2) _ _ _ _ assms(3)]) (rule hy_start_settled [OF assms(1)], assumption, (rule hy_node_settled; assumption)+)
  then show ?thesis by (simp add: hy_settled_def hy_settled_ViewChange)
qed

subsection \<open>A forged new view\<close>

definition ex_hy_normal :: "HyType \<Rightarrow> u64 \<Rightarrow> u64 \<Rightarrow> u64 \<Rightarrow> HybsterMessage" where
  "ex_hy_normal t v i x = HybsterMessage_Normal \<lparr>yn_Type = t, yn_View = v, yn_Order = i, yn_Command = (if t = HY_Prepare then Some (ex_command x) else None),
     yn_CommandHash = Command_Hash ex_hy_env (ex_command x)\<rparr>"

text \<open>
  Node 1 of three is Byzantine, and the leader of view 1. Its enclave certifies, in this order: a vote for command 1 in slot 1; a proposal for slot 2; a view change with that proposal as the
  history; command 2 in slot 1 of the new view; and the new view, whose proof is the view change twice.
\<close>

definition ex_hy_forge :: "((bytes \<times> bytes) \<times> (bytes \<times> bytes)) go" where
  "ex_hy_forge = go_bind (trinx_init [1] 3 3) (\<lambda>x0.
     let vote = ex_hy_marshal (ex_hy_normal HY_Commit 0 1 1); prop = ex_hy_marshal (ex_hy_normal HY_Prepare 0 2 3); pr = ex_hy_marshal (ex_hy_normal HY_Prepare 1 1 2) in
     go_bind (CreateIndependentCounterCertificate ex_hmac vote (hy_counter 0 1) 0 x0) (\<lambda>(c1, x1).
     go_bind (CreateIndependentCounterCertificate ex_hmac prop (hy_counter 0 2) 0 x1) (\<lambda>(c2, x2).
     let vc = ex_hy_marshal (HybsterMessage_ViewChange \<lparr>yv_FromView = 0, yv_ToView = 1, yv_Order = 2, yv_History = [\<lparr>su_RawMsg = prop, su_Cert = c2, su_From = 1\<rparr>]\<rparr>) in
     go_bind (CreateContinuingCounterCertificate ex_hmac vc (hy_counter 1 0) 0 x2) (\<lambda>(c3, x3).
     go_bind (CreateIndependentCounterCertificate ex_hmac pr (hy_counter 1 1) 0 x3) (\<lambda>(c4, x4).
     let nv = ex_hy_marshal (HybsterMessage_NewView \<lparr>nv_FromView = 0, nv_ToView = 1, nv_History = [\<lparr>su_RawMsg = pr, su_Cert = c4, su_From = 1\<rparr>],
       nv_Proof = replicate 2 \<lparr>su_RawMsg = vc, su_Cert = c3, su_From = 1\<rparr>\<rparr>) in
     go_bind (CreateIndependentCounterCertificate ex_hmac nv (hy_counter 1 0) 1 x4) (\<lambda>(c5, x5).
     Inr ((vote, c1), (nv, c5))))))))"

definition ex_hy_run :: "(bytes \<times> bytes) \<times> (bytes \<times> bytes) \<Rightarrow> hy_act bl_act list" where
  "ex_hy_run f = (let vote = \<lparr>msg_From = 1, msg_To = 0, msg_Content = fst (fst f), msg_Certificate = snd (fst f)\<rparr>;
       nv = \<lparr>msg_From = 1, msg_To = 2, msg_Content = fst (snd f), msg_Certificate = snd (snd f)\<rparr> in
     [BLocal 0 (HyRequest (ex_command 1)), BByz vote, BDeliver vote, BByz nv, BDeliver nv])"

definition ex_hy_end :: "hybster bl_sys option" where
  "ex_hy_end = (case ex_hy_forge of Inl _ \<Rightarrow> None | Inr f \<Rightarrow> bl_run (hy_node ex_hy_env) [1] (ex_hy_run f) (bl_init (hy_start ex_hy_cfg [1])))"

definition ex_hy_view :: "PeerID \<Rightarrow> hybster bl_sys option \<Rightarrow> (u64 list \<times> u64) option" where
  "ex_hy_view r S = (case S of None \<Rightarrow> None | Some S \<Rightarrow> map_option (\<lambda>p. (map (cmd_Timestamp \<circ> ep_Cmd) (hy_executedCmds p), hy_execute p)) (fmlookup (bs_reps S) r))"

lemma ex_hy_end_views: "map (\<lambda>r. ex_hy_view r ex_hy_end) [0, 2] = [Some ([1], 2), Some ([2], 2)]"
  by code_simp

text \<open>
  Claim C32. One Byzantine Hybster node of three, with certificates that its enclave gives one after the other, makes two correct replicas execute different first commands: replica 0
  executes command 1 with its vote, and replica 2 executes command 2 in a new view that names no slot of the first command, since \<open>f + 1\<close> copies of one view change pass as a proof and
  the history of a new view need only be about slots below some slot of the proof.
\<close>

theorem hy_forged_new_view:
  "\<exists>forged (S :: hybster bl_sys) p0 p2. ex_hy_forge = Inr forged
     \<and> bl_run (hy_node ex_hy_env) [1] (ex_hy_run forged) (bl_init (hy_start ex_hy_cfg [1])) = Some S
     \<and> fmlookup (bs_reps S) 0 = Some p0 \<and> fmlookup (bs_reps S) 2 = Some p2 \<and> hy_execute p0 = 2 \<and> hy_execute p2 = 2
     \<and> map (cmd_Timestamp \<circ> ep_Cmd) (hy_executedCmds p0) = [1] \<and> map (cmd_Timestamp \<circ> ep_Cmd) (hy_executedCmds p2) = [2]"
proof -
  have v: "ex_hy_view 0 ex_hy_end = Some ([1], 2)" "ex_hy_view 2 ex_hy_end = Some ([2], 2)" using ex_hy_end_views by simp_all
  then obtain S where S: "ex_hy_end = Some S" by (auto simp: ex_hy_view_def split: option.splits)
  then obtain f where "ex_hy_forge = Inr f" "bl_run (hy_node ex_hy_env) [1] (ex_hy_run f) (bl_init (hy_start ex_hy_cfg [1])) = Some S"
    unfolding ex_hy_end_def by (auto split: sum.splits)
  moreover from v obtain p0 p2 where "fmlookup (bs_reps S) 0 = Some p0" "fmlookup (bs_reps S) 2 = Some p2" "hy_execute p0 = 2" "hy_execute p2 = 2"
    "map (cmd_Timestamp \<circ> ep_Cmd) (hy_executedCmds p0) = [1]" "map (cmd_Timestamp \<circ> ep_Cmd) (hy_executedCmds p2) = [2]" unfolding ex_hy_view_def S by auto
  ultimately show ?thesis by (intro exI conjI)
qed

theorem hy_no_view_change_witness:
  "\<exists>(S :: hybster bl_sys) p. bl_reachable (hy_node ex_hy_env) [1] (hy_start ex_hy_cfg [1]) S \<and> fmlookup (bs_reps S) 2 = Some p \<and> hy_curView p = hy_stableView p
     \<and> hy_vmsgs p = []"
proof -
  have v: "ex_hy_view 2 ex_hy_end = Some ([2], 2)" using ex_hy_end_views by simp
  then obtain S where S: "ex_hy_end = Some S" by (auto simp: ex_hy_view_def split: option.splits)
  then obtain f where "bl_run (hy_node ex_hy_env) [1] (ex_hy_run f) (bl_init (hy_start ex_hy_cfg [1])) = Some S" unfolding ex_hy_end_def by (auto split: sum.splits)
  then have r: "bl_reachable (hy_node ex_hy_env) [1] (hy_start ex_hy_cfg [1]) S" by (rule bl_run_reachable) (rule bl_start)
  from v obtain p where p: "fmlookup (bs_reps S) 2 = Some p" unfolding ex_hy_view_def S by auto
  have "0 \<le> cfg_MaxFailures ex_hy_cfg" by (simp add: ex_hy_cfg_def)
  from hy_no_view_change [OF this r p] r p show ?thesis by blast
qed

end
